(* ===== verification/Prelude.thy ===== *)
theory Prelude
  imports
    Main
    "HOL-Library.AList"
    "HOL-Library.Char_ord"
    "HOL-Library.List_Lexorder"
    "HOL-Library.Product_Lexorder"
    "HOL-Library.Multiset"
begin

text \<open>
  Shared vocabulary of the development: what Go and its standard library contribute to the
  code under \<^verbatim>\<open>src/\<close>.

  \<^item> A Go \<open>string\<close> and a \<open>[]byte\<close> are byte sequences; both are HOL's \<open>string\<close>, a list of
    8-bit characters, compared bytewise (\<open>HOL-Library.List_Lexorder\<close>).
  \<^item> A Go error is a value of \<open>gerr\<close>: \<open>errors.New\<close>, \<open>fmt.Errorf\<close> with the operands of its
    \<open>%w\<close> verbs, or the hook dispatcher's \<open>RejectedError\<close>; \<open>errors_is\<close> is \<open>errors.Is\<close>.
    The rendered text is kept, because some of it is written to the database.
  \<^item> A Go map is an association list with distinct keys. Its order is one possible
    iteration order; operations that publish a listing sort it.
  \<^item> A \<open>context.Context\<close> is the record of the values this code base stores in one.
  \<^item> A value of type \<open>any\<close> carries its dynamic type (\<open>goany\<close>).
\<close>

named_theorems go_simps \<open>rewrite rules for the standard library's string and map functions\<close>
named_theorems err_simps \<open>rewrite rules for error chains\<close>

section \<open>Strings\<close>

definition sep_comma :: char where "sep_comma = CHR '',''"

text \<open>\<open>strings.Split\<close> with a one-byte separator.\<close>

fun split_on :: "char \<Rightarrow> string \<Rightarrow> string list" where
  "split_on c [] = [[]]"
| "split_on c (x # xs) =
     (if x = c then [] # split_on c xs
      else (case split_on c xs of [] \<Rightarrow> [[x]] | y # ys \<Rightarrow> (x # y) # ys))"

text \<open>\<open>strings.Cut\<close> with a one-byte separator: the parts around its first occurrence.\<close>

fun cut :: "char \<Rightarrow> string \<Rightarrow> (string \<times> string) option" where
  "cut c [] = None"
| "cut c (x # xs) =
     (if x = c then Some ([], xs) else map_option (\<lambda>(b, a). (x # b, a)) (cut c xs))"

text \<open>The cut at the last occurrence, for \<open>strings.LastIndexByte\<close>.\<close>

definition cut_last :: "char \<Rightarrow> string \<Rightarrow> (string \<times> string) option" where
  "cut_last c s = map_option (\<lambda>(b, a). (rev a, rev b)) (cut c (rev s))"

text \<open>\<open>strings.Join\<close>.\<close>

fun join :: "string \<Rightarrow> string list \<Rightarrow> string" where
  "join sep [] = []"
| "join sep [x] = x"
| "join sep (x # y # zs) = x @ sep @ join sep (y # zs)"

text \<open>\<open>strings.ContainsAny\<close> for a set of ASCII bytes.\<close>

definition contains_any :: "string \<Rightarrow> string \<Rightarrow> bool" where
  "contains_any s cs = list_ex (\<lambda>c. c \<in> set cs) s"

text \<open>\<open>strings.HasPrefix\<close> and \<open>strings.Contains\<close>.\<close>

fun has_prefix :: "string \<Rightarrow> string \<Rightarrow> bool" where
  "has_prefix s [] = True"
| "has_prefix [] (p # ps) = False"
| "has_prefix (x # s) (p # ps) = (x = p \<and> has_prefix s ps)"

fun contains_sub :: "string \<Rightarrow> string \<Rightarrow> bool" where
  "contains_sub [] sub = (sub = [])"
| "contains_sub (x # s) sub = (has_prefix (x # s) sub \<or> contains_sub s sub)"

text \<open>\<open>strings.TrimSpace\<close> and \<open>strings.ToLower\<close> on ASCII text.\<close>

definition is_space :: "char \<Rightarrow> bool" where
  "is_space c = (c \<in> set [CHR 0x09, CHR 0x0A, CHR 0x0B, CHR 0x0C, CHR 0x0D, CHR '' ''])"

definition trim_space :: "string \<Rightarrow> string" where
  "trim_space s = rev (dropWhile is_space (rev (dropWhile is_space s)))"

definition lower_char :: "char \<Rightarrow> char" where
  "lower_char c = (if CHR ''A'' \<le> c \<and> c \<le> CHR ''Z'' then char_of (of_char c + 32 :: nat) else c)"

definition to_lower :: "string \<Rightarrow> string" where
  "to_lower s = map lower_char s"

text \<open>Decimal rendering of an integer (the verb \<open>%d\<close>) and the quoted form (\<open>%q\<close>) of ASCII text.\<close>

fun digits10 :: "nat \<Rightarrow> string" where
  "digits10 n = (if n < 10 then [char_of (48 + n)]
                 else digits10 (n div 10) @ [char_of (48 + n mod 10)])"

declare digits10.simps [simp del]

definition itoa :: "int \<Rightarrow> string" where
  "itoa i = (if i < 0 then CHR ''-'' # digits10 (nat (- i)) else digits10 (nat i))"

definition quote_char :: "char \<Rightarrow> string" where
  "quote_char c =
     (if c = CHR 0x22 \<or> c = CHR 0x5C then [CHR 0x5C, c]
      else if c = CHR 0x0A then [CHR 0x5C, CHR ''n'']
      else if c = CHR 0x09 then [CHR 0x5C, CHR ''t'']
      else if c = CHR 0x0D then [CHR 0x5C, CHR ''r'']
      else [c])"

definition go_quote :: "string \<Rightarrow> string" where
  "go_quote s = [CHR 0x22] @ concat (map quote_char s) @ [CHR 0x22]"

lemma split_on_not_Nil [simp]: "split_on c s \<noteq> []"
  by (induction s) (auto split: list.splits)

lemma split_on_no_sep [go_simps]: "c \<notin> set s \<Longrightarrow> split_on c s = [s]"
  by (induction s) auto

lemma split_on_append [go_simps]:
  "c \<notin> set a \<Longrightarrow> split_on c (a @ c # b) = a # split_on c b"
  by (induction a) auto

lemma split_on_parts_no_sep: "x \<in> set (split_on c s) \<Longrightarrow> c \<notin> set x"
proof (induction s arbitrary: x)
  case (Cons y s)
  then show ?case by (auto split: list.splits if_splits)
qed simp

lemma join_split_on: "join [c] (split_on c s) = s"
proof (induction s)
  case (Cons x s)
  obtain y ys where ys: "split_on c s = y # ys"
    by (cases "split_on c s") auto
  with Cons show ?case by (cases ys) auto
qed simp

lemma cut_Some_iff: "cut c s = Some (a, b) \<longleftrightarrow> s = a @ c # b \<and> c \<notin> set a"
proof (induction s arbitrary: a)
  case (Cons x s)
  then show ?case by (cases a) auto
qed simp

lemma cut_append [go_simps]: "c \<notin> set a \<Longrightarrow> cut c (a @ c # b) = Some (a, b)"
  by (simp add: cut_Some_iff)

lemma cut_None_iff [go_simps]: "cut c s = None \<longleftrightarrow> c \<notin> set s"
  by (induction s) auto

lemma cut_last_Some_iff: "cut_last c s = Some (a, b) \<longleftrightarrow> s = a @ c # b \<and> c \<notin> set b"
proof
  assume "cut_last c s = Some (a, b)"
  then have "cut c (rev s) = Some (rev b, rev a)"
    by (auto simp: cut_last_def)
  then have "rev s = rev b @ c # rev a" "c \<notin> set b"
    by (auto simp: cut_Some_iff)
  then have "rev (rev s) = rev (rev b @ c # rev a)" "c \<notin> set b"
    by simp_all
  then show "s = a @ c # b \<and> c \<notin> set b" by simp
next
  assume "s = a @ c # b \<and> c \<notin> set b"
  then show "cut_last c s = Some (a, b)"
    by (simp add: cut_last_def cut_append)
qed

lemma has_prefix_iff: "has_prefix s p \<longleftrightarrow> (\<exists>t. s = p @ t)"
  by (induction s p rule: has_prefix.induct) auto

lemma has_prefix_append [simp]: "has_prefix (p @ t) p"
  by (auto simp: has_prefix_iff)

lemma contains_sub_iff: "contains_sub s sub \<longleftrightarrow> (\<exists>a b. s = a @ sub @ b)"
proof (induction s)
  case (Cons x s)
  have "contains_sub (x # s) sub \<longleftrightarrow> (\<exists>t. x # s = sub @ t) \<or> (\<exists>a b. s = a @ sub @ b)"
    using Cons by (simp add: has_prefix_iff)
  also have "\<dots> \<longleftrightarrow> (\<exists>a b. x # s = a @ sub @ b)"
    by (metis Cons_eq_append_conv append_Cons append_self_conv2)
  finally show ?case .
qed auto

lemma contains_any_iff [go_simps]: "contains_any s cs \<longleftrightarrow> (\<exists>c\<in>set s. c \<in> set cs)"
  by (auto simp: contains_any_def list_ex_iff)

section \<open>Errors\<close>

datatype hook_ref = HookRef (hook_name: string) (hook_version: string)

definition hook_key :: "hook_ref \<Rightarrow> string" where
  "hook_key ref = hook_name ref @ ''@'' @ hook_version ref"

datatype rejection = Rejection (rej_module: string) (rej_reason: string)

definition rejection_string :: "rejection \<Rightarrow> string" where
  "rejection_string r = rej_module r @ '': '' @ rej_reason r"

text \<open>
  \<open>ErrNew t\<close> is \<open>errors.New(t)\<close> (the sentinels of this code base have pairwise different
  texts, so the text stands for the pointer); \<open>ErrWrap t ws\<close> is \<open>fmt.Errorf\<close> with rendered
  text \<open>t\<close> and \<open>%w\<close> operands \<open>ws\<close>, or \<open>errors.Join\<close>; \<open>ErrRejected\<close> is
  \<open>hooks.RejectedError\<close>.
\<close>

datatype gerr =
    ErrNew string
  | ErrWrap string "gerr list"
  | ErrRejected hook_ref "rejection list"

definition ErrHookRejected :: gerr where
  "ErrHookRejected = ErrNew ''modulekit: operation rejected by hook subscriber''"

fun err_text :: "gerr \<Rightarrow> string" where
  "err_text (ErrNew t) = t"
| "err_text (ErrWrap t ws) = t"
| "err_text (ErrRejected ref rs) =
     ''modulekit: operation rejected by hook subscriber: '' @ hook_key ref @ '' rejected: ''
       @ join ''; '' (map rejection_string rs)"

text \<open>\<open>errors.Is\<close> against a sentinel: the error or something it wraps is the target.\<close>

fun errors_is :: "gerr \<Rightarrow> gerr \<Rightarrow> bool" where
  "errors_is (ErrNew t) target = (ErrNew t = target)"
| "errors_is (ErrWrap t ws) target =
     (ErrWrap t ws = target \<or> list_ex (\<lambda>w. errors_is w target) ws)"
| "errors_is (ErrRejected ref rs) target =
     (ErrRejected ref rs = target \<or> ErrHookRejected = target)"

text \<open>\<open>fmt.Errorf("%w: ...", e, ...)\<close>, the shape most call sites have.\<close>

definition wrapf :: "gerr \<Rightarrow> string list \<Rightarrow> gerr" where
  "wrapf e parts = ErrWrap (err_text e @ '': '' @ concat parts) [e]"

text \<open>\<open>fmt.Errorf("...: %w", ..., e)\<close>: a prefix before the wrapped error.\<close>

definition prefixf :: "string list \<Rightarrow> gerr \<Rightarrow> gerr" where
  "prefixf parts e = ErrWrap (concat parts @ '': '' @ err_text e) [e]"

text \<open>\<open>errors.Join\<close>: nil when there is nothing to join.\<close>

definition errors_join :: "gerr list \<Rightarrow> gerr option" where
  "errors_join es =
     (if es = [] then None else Some (ErrWrap (join [CHR 0x0A] (map err_text es)) es))"

lemma errors_is_wrapf [err_simps]: "errors_is (wrapf e ps) (ErrNew t) = errors_is e (ErrNew t)"
  by (simp add: wrapf_def)

lemma errors_is_prefixf [err_simps]: "errors_is (prefixf ps e) (ErrNew t) = errors_is e (ErrNew t)"
  by (simp add: prefixf_def)

lemma errors_join_None_iff [err_simps]: "errors_join es = None \<longleftrightarrow> es = []"
  by (simp add: errors_join_def)

text \<open>The sentinels of \<open>pkg/modulekit/errors.go\<close>.\<close>

definition ErrForbidden :: gerr where "ErrForbidden = ErrNew ''modulekit: forbidden''"
definition ErrNotFound :: gerr where "ErrNotFound = ErrNew ''modulekit: not found''"
definition ErrUnconditional :: gerr where
  "ErrUnconditional = ErrNew ''modulekit: write without conditions''"
definition ErrUnsupportedOperator :: gerr where
  "ErrUnsupportedOperator = ErrNew ''modulekit: unsupported operator''"
definition ErrInvalidHookPoint :: gerr where
  "ErrInvalidHookPoint = ErrNew ''modulekit: invalid hook point''"
definition ErrHookNotOffered :: gerr where
  "ErrHookNotOffered = ErrNew ''modulekit: hook point not offered''"
definition ErrHookAlreadyOffered :: gerr where
  "ErrHookAlreadyOffered = ErrNew ''modulekit: hook point already offered''"
definition ErrHookSubscriberFailed :: gerr where
  "ErrHookSubscriberFailed = ErrNew ''modulekit: hook subscriber failed''"
definition ErrTypeMismatch :: gerr where "ErrTypeMismatch = ErrNew ''modulekit: type mismatch''"
definition ErrDuplicate :: gerr where "ErrDuplicate = ErrNew ''modulekit: duplicate key''"

lemmas sentinel_defs =
  ErrForbidden_def ErrNotFound_def ErrUnconditional_def ErrUnsupportedOperator_def
  ErrInvalidHookPoint_def ErrHookNotOffered_def ErrHookAlreadyOffered_def
  ErrHookSubscriberFailed_def ErrTypeMismatch_def ErrDuplicate_def ErrHookRejected_def

section \<open>Maps\<close>

type_synonym 'v gomap = "(string \<times> 'v) list"

abbreviation mget :: "'v gomap \<Rightarrow> string \<Rightarrow> 'v option" where
  "mget m k \<equiv> map_of m k"

abbreviation mput :: "string \<Rightarrow> 'v \<Rightarrow> 'v gomap \<Rightarrow> 'v gomap" where
  "mput k v m \<equiv> AList.update k v m"

abbreviation mdel :: "string \<Rightarrow> 'v gomap \<Rightarrow> 'v gomap" where
  "mdel k m \<equiv> AList.delete k m"

abbreviation wf_map :: "'v gomap \<Rightarrow> bool" where
  "wf_map m \<equiv> distinct (map fst m)"

lemma mget_mput [simp]: "mget (mput k v m) k' = (if k' = k then Some v else mget m k')"
  by (simp add: update_conv')

lemma mget_mdel [simp]: "mget (mdel k m) k' = (if k' = k then None else mget m k')"
  by (simp add: delete_conv')

lemma keys_mput: "fst ` set (mput k v m) = insert k (fst ` set m)"
  by (simp add: dom_update)

lemma keys_mdel: "fst ` set (mdel k m) = fst ` set m - {k}"
proof -
  have "set (map fst (mdel k m)) = set (map fst m) - {k}"
    by (simp only: delete_keys set_removeAll)
  then show ?thesis by simp
qed

lemma wf_map_mput [simp]: "wf_map m \<Longrightarrow> wf_map (mput k v m)"
  by (rule distinct_update)

lemma wf_map_mdel [simp]: "wf_map m \<Longrightarrow> wf_map (mdel k m)"
  by (rule distinct_delete)

lemma mget_in_keys: "mget m k = Some v \<Longrightarrow> k \<in> fst ` set m"
  by (metis domI dom_map_of_conv_image_fst)

lemma mget_None_iff: "mget m k = None \<longleftrightarrow> k \<notin> fst ` set m"
  by (rule map_of_eq_None_iff)

lemma find_SomeD: "find P xs = Some x \<Longrightarrow> P x \<and> x \<in> set xs"
  by (induction xs) (auto split: if_splits)

lemma find_NoneD: "find P xs = None \<Longrightarrow> x \<in> set xs \<Longrightarrow> \<not> P x"
  by (induction xs) (auto split: if_splits)

text \<open>Two iteration orders of one map give the same multiset of entries.\<close>

lemma wf_map_mset_eq:
  assumes "wf_map m" "wf_map m'" "map_of m = map_of m'"
  shows "mset m = mset m'"
proof -
  have "set m = set m'"
    using assms by (metis map_of_inject_set)
  moreover have "distinct m" "distinct m'"
    using assms(1,2) by (auto simp: distinct_map)
  ultimately show ?thesis by (simp add: set_eq_iff_mset_eq_distinct)
qed

text \<open>Sorting by a key that is injective on the list forgets the order it started from.\<close>

lemma sort_key_unique:
  assumes "mset xs = mset ys" "inj_on f (set xs)"
  shows "sort_key f xs = sort_key f ys"
proof (rule properties_for_sort_key)
  show "mset (sort_key f ys) = mset xs" using assms by simp
  show "sorted (map f (sort_key f ys))" by simp
  fix k assume "k \<in> set (sort_key f ys)"
  then have k: "k \<in> set xs" using assms(1) by (metis set_mset_mset set_sort)
  have sub: "filter (\<lambda>x. f k = f x) zs = filter (\<lambda>x. x = k) zs" if "set zs = set xs" for zs
    using assms(2) k that by (auto intro!: filter_cong dest: inj_onD)
  have "filter (\<lambda>x. x = k) zs = replicate (count (mset zs) k) k" for zs
    by (induction zs) auto
  then show "filter (\<lambda>x. f k = f x) (sort_key f ys) = filter (\<lambda>x. f k = f x) xs"
    using assms(1) sub[of xs] sub[of "sort_key f ys"] by (metis mset_sort set_mset_mset)
qed

section \<open>Contexts\<close>

datatype caller_info = CallerInfo (caller_subject: string) (caller_tenant: string)

text \<open>
  The values the code stores in a \<open>context.Context\<close>: the tenant (Kayan's
  \<open>tenant.WithTenantID\<close>; \<open>tenant.IDFromContext\<close> is the empty string without one), the system
  marker, the caller, the chain of WASM capabilities being served, the two pointers the WASM
  host stores there (its \<open>*v2Deps\<close> and \<open>*callState\<close>, as addresses), and the deadline, an
  instant in nanoseconds.
\<close>

record go_ctx =
  ctx_tenant :: string
  ctx_system :: bool
  ctx_caller :: "caller_info option"
  ctx_chain :: "string list"
  ctx_v2 :: "nat option"
  ctx_state :: "nat option"
  ctx_deadline :: "int option"

definition Background :: go_ctx where
  "Background = \<lparr>ctx_tenant = [], ctx_system = False, ctx_caller = None, ctx_chain = [],
                 ctx_v2 = None, ctx_state = None, ctx_deadline = None\<rparr>"

definition WithSystemContext :: "go_ctx \<Rightarrow> go_ctx" where
  "WithSystemContext ctx = ctx\<lparr>ctx_system := True\<rparr>"

definition IsSystemContext :: "go_ctx \<Rightarrow> bool" where
  "IsSystemContext ctx = ctx_system ctx"

definition WithCaller :: "go_ctx \<Rightarrow> caller_info \<Rightarrow> go_ctx" where
  "WithCaller ctx info = ctx\<lparr>ctx_caller := Some info\<rparr>"

definition CallerFrom :: "go_ctx \<Rightarrow> caller_info \<times> bool" where
  "CallerFrom ctx = (case ctx_caller ctx of
     Some info \<Rightarrow> (info, True) | None \<Rightarrow> (CallerInfo [] [], False))"

definition WithTenantID :: "go_ctx \<Rightarrow> string \<Rightarrow> go_ctx" where
  "WithTenantID ctx t = ctx\<lparr>ctx_tenant := t\<rparr>"

section \<open>Values of type any\<close>

text \<open>
  \<open>ANil\<close> is the nil interface; \<open>ARaw\<close> a \<open>modulekit.RawPayload\<close>; \<open>ARej\<close> and \<open>ARejPtr\<close> a
  \<open>modulekit.Rejection\<close> by value and by pointer; \<open>AVal n v\<close> a value of the named Go type
  \<open>n\<close> and \<open>APtr n p\<close> a pointer to one, \<open>None\<close> when nil. The content \<open>'v\<close> of a module's
  own types is opaque to the kernel.
\<close>

datatype 'v goany =
    ANil
  | ARaw string
  | ARej rejection
  | ARejPtr "rejection option"
  | AVal string 'v
  | APtr string "'v option"

end
