(* ===== verification/Events.thy ===== *)
theory Events
  imports Prelude
begin

text \<open>
  The event backbone, \<^verbatim>\<open>internal/kernel/events\<close>: the tenant-scoped subject grammar
  (\<^verbatim>\<open>subject.go\<close>), the consumer side (\<^verbatim>\<open>subscribe.go\<close>) and publishing (\<^verbatim>\<open>nats.go\<close>). The NATS
  client and server are not part of the repository: what the code calls of them are
  parameters (a record of the JetStream operations, the broker's subject matching).
\<close>

section \<open>Subjects (subject.go)\<close>

definition SubjectPrefix :: string where "SubjectPrefix = ''sannad''"
definition StreamName :: string where "StreamName = ''SANNAD''"
definition StreamSubjects :: string where "StreamSubjects = SubjectPrefix @ ''.>''"
definition ErrInvalidSubject :: gerr where "ErrInvalidSubject = ErrNew ''events: invalid subject''"

definition subject_specials :: string where
  "subject_specials = ''.*> '' @ [CHR 0x09]"

definition validToken :: "string \<Rightarrow> string \<Rightarrow> gerr option" where
  "validToken value kind =
     (if value = [] then Some (wrapf ErrInvalidSubject [kind, '' is required''])
      else if contains_any value subject_specials
      then Some (wrapf ErrInvalidSubject
                  [kind, '' '', go_quote value, '' contains a subject delimiter or wildcard''])
      else None)"

text \<open>The loop over the event's dot-separated segments: the first refused one is the error.\<close>

fun validTokens :: "string list \<Rightarrow> string \<Rightarrow> gerr option" where
  "validTokens [] kind = None"
| "validTokens (t # ts) kind =
     (case validToken t kind of Some e \<Rightarrow> Some e | None \<Rightarrow> validTokens ts kind)"

definition SubjectFor :: "string \<Rightarrow> string \<Rightarrow> gerr + string" where
  "SubjectFor tenantID event =
     (case validToken tenantID ''tenant'' of
        Some e \<Rightarrow> Inl e
      | None \<Rightarrow>
          if event = [] then Inl (wrapf ErrInvalidSubject [''event name is required''])
          else (case validTokens (split_on (CHR ''.'') event) ''event'' of
                  Some e \<Rightarrow> Inl e
                | None \<Rightarrow> Inr (SubjectPrefix @ ''.'' @ tenantID @ ''.'' @ event)))"

definition Subject :: "go_ctx \<Rightarrow> string \<Rightarrow> gerr + string" where
  "Subject ctx event =
     (if ctx_tenant ctx = []
      then Inl (wrapf ErrInvalidSubject [''no tenant in context for event '', go_quote event])
      else SubjectFor (ctx_tenant ctx) event)"

definition TenantSubjects :: "string \<Rightarrow> gerr + string" where
  "TenantSubjects tenantID =
     (case validToken tenantID ''tenant'' of
        Some e \<Rightarrow> Inl e
      | None \<Rightarrow> Inr (SubjectPrefix @ ''.'' @ tenantID @ ''.>''))"

definition AllTenantsSubject :: "string \<Rightarrow> gerr + string" where
  "AllTenantsSubject event =
     (if event = [] then Inl (wrapf ErrInvalidSubject [''event name is required''])
      else Inr (SubjectPrefix @ ''.*.'' @ event))"

text \<open>\<open>strings.SplitN(s, sep, n)\<close> for \<open>n \<ge> 1\<close>: at most \<open>n\<close> parts, the last one unsplit.\<close>

fun split_n :: "char \<Rightarrow> nat \<Rightarrow> string \<Rightarrow> string list" where
  "split_n c 0 s = []"
| "split_n c (Suc 0) s = [s]"
| "split_n c (Suc (Suc n)) s =
     (case cut c s of None \<Rightarrow> [s] | Some (a, b) \<Rightarrow> a # split_n c (Suc n) b)"

definition TenantOf :: "string \<Rightarrow> string option" where
  "TenantOf subject =
     (case split_n (CHR ''.'') 3 subject of
        [p, t, e] \<Rightarrow> if p \<noteq> SubjectPrefix \<or> t = [] then None else Some t
      | _ \<Rightarrow> None)"

section \<open>Consuming (subscribe.go)\<close>

record delivery =
  dl_subject :: string
  dl_tenant :: string
  dl_event :: string
  dl_data :: string
  dl_sequence :: nat
  dl_deliveries :: nat

text \<open>A broker message; its metadata (stream sequence, delivery count) may be absent.\<close>

record nats_msg =
  msg_subject :: string
  msg_data :: string
  msg_meta :: "(nat \<times> nat) option"

definition deliveryFrom :: "nats_msg \<Rightarrow> gerr + delivery" where
  "deliveryFrom msg =
     (case TenantOf (msg_subject msg) of
        None \<Rightarrow> Inl (wrapf ErrInvalidSubject [go_quote (msg_subject msg)])
      | Some tenantID \<Rightarrow>
          Inr \<lparr>dl_subject = msg_subject msg, dl_tenant = tenantID,
               dl_event = drop (length SubjectPrefix + length tenantID + 2) (msg_subject msg),
               dl_data = msg_data msg,
               dl_sequence = (case msg_meta msg of Some (s, n) \<Rightarrow> s | None \<Rightarrow> 0),
               dl_deliveries = (case msg_meta msg of Some (s, n) \<Rightarrow> n | None \<Rightarrow> 0)\<rparr>)"

text \<open>What the subscription callback tells the broker about a message.\<close>

datatype ack = Ack | Nak | Term

type_synonym 'w event_handler = "go_ctx \<Rightarrow> delivery \<Rightarrow> 'w \<Rightarrow> gerr option \<times> 'w"

definition consume_msg :: "'w event_handler \<Rightarrow> go_ctx \<Rightarrow> nats_msg \<Rightarrow> 'w \<Rightarrow> ack \<times> 'w" where
  "consume_msg handler ctx msg w =
     (case deliveryFrom msg of
        Inl e \<Rightarrow> (Term, w)
      | Inr d \<Rightarrow> (case handler ctx d w of
                    (Some e, w') \<Rightarrow> (Nak, w')
                  | (None, w') \<Rightarrow> (Ack, w')))"

text \<open>
  \<open>qsub subjects durable callback\<close> is JetStream's \<open>QueueSubscribe\<close> with the options the code
  passes: a durable, manually acknowledged consumer that starts from the backlog.
\<close>

definition Subscribe_events ::
  "(string \<Rightarrow> string \<Rightarrow> (nats_msg \<Rightarrow> 'w \<Rightarrow> ack \<times> 'w) \<Rightarrow> gerr + 's) \<Rightarrow> go_ctx \<Rightarrow> string \<Rightarrow> string
     \<Rightarrow> 'w event_handler \<Rightarrow> gerr + 's" where
  "Subscribe_events qsub ctx durable subjects handler =
     (if durable = [] then Inl (ErrNew
        ''events: a durable name is required; an ephemeral consumer loses everything published while it is down'')
      else if subjects = [] then Inl (ErrNew ''events: a subject filter is required'')
      else (case qsub subjects durable (consume_msg handler ctx) of
              Inl err \<Rightarrow> Inl (prefixf [''events: subscribe '', subjects, '' as '', durable] err)
            | Inr sub \<Rightarrow> Inr sub))"

section \<open>The stream declaration\<close>

datatype storage_kind = FileStorage | MemoryStorage
datatype retention_kind = LimitsPolicy | InterestPolicy | WorkQueuePolicy
datatype discard_kind = DiscardOld | DiscardNew

record stream_config =
  sc_name :: string
  sc_subjects :: "string list"
  sc_storage :: storage_kind
  sc_retention :: retention_kind
  sc_max_age :: int
  sc_discard :: discard_kind

text \<open>The JetStream management calls the code makes, over a broker state \<open>'j\<close>.\<close>

record 'j jetstream =
  js_info :: "string \<Rightarrow> 'j \<Rightarrow> gerr + stream_config"
  js_update :: "stream_config \<Rightarrow> 'j \<Rightarrow> gerr option \<times> 'j"
  js_add :: "stream_config \<Rightarrow> 'j \<Rightarrow> gerr option \<times> 'j"

text \<open>Durations are nanosecond counts, as in package \<open>time\<close>.\<close>

definition time_Second :: int where "time_Second = 1000000000"
definition time_Minute :: int where "time_Minute = 60 * time_Second"
definition time_Hour :: int where "time_Hour = 60 * time_Minute"

definition streamMaxAge :: int where "streamMaxAge = 7 * 24 * time_Hour"

definition bindsSubjects :: "string list \<Rightarrow> string \<Rightarrow> bool" where
  "bindsSubjects existing want = list_ex (\<lambda>s. s = want) existing"

definition declared_stream :: stream_config where
  "declared_stream =
     \<lparr>sc_name = StreamName, sc_subjects = [StreamSubjects], sc_storage = FileStorage,
      sc_retention = LimitsPolicy, sc_max_age = streamMaxAge, sc_discard = DiscardOld\<rparr>"

definition EnsureStream :: "'j jetstream \<Rightarrow> 'j \<Rightarrow> gerr option \<times> 'j" where
  "EnsureStream js j =
     (case js_info js StreamName j of
        Inr existing \<Rightarrow>
          if \<not> bindsSubjects (sc_subjects existing) StreamSubjects
          then (case js_update js
                       (existing\<lparr>sc_subjects := sc_subjects existing @ [StreamSubjects]\<rparr>) j of
                  (Some err, j') \<Rightarrow>
                    (Some (prefixf [''events: widen stream '', StreamName] err), j')
                | (None, j') \<Rightarrow> (None, j'))
          else (None, j)
      | Inl _ \<Rightarrow>
          (case js_add js declared_stream j of
             (Some err, j') \<Rightarrow> (Some (prefixf [''events: declare stream '', StreamName] err), j')
           | (None, j') \<Rightarrow> (None, j')))"

section \<open>Publishing (nats.go)\<close>

definition natsPublishTimeout :: int where "natsPublishTimeout = 3 * time_Second"

text \<open>
  \<open>remaining\<close> is \<open>time.Until\<close> of the context's deadline, if it has one; \<open>publish\<close> is the
  JetStream publish with its ack timeout.
\<close>

definition publish_timeout :: "int option \<Rightarrow> int" where
  "publish_timeout remaining =
     (case remaining of
        Some r \<Rightarrow> if r > 0 \<and> r < natsPublishTimeout then r else natsPublishTimeout
      | None \<Rightarrow> natsPublishTimeout)"

definition Publish_nats ::
  "('p \<Rightarrow> gerr + string) \<Rightarrow> (string \<Rightarrow> string \<Rightarrow> int \<Rightarrow> 'j \<Rightarrow> gerr option \<times> 'j)
     \<Rightarrow> gerr option \<Rightarrow> int option \<Rightarrow> string \<Rightarrow> 'p \<Rightarrow> 'j \<Rightarrow> gerr option \<times> 'j" where
  "Publish_nats marshal publish ctx_err remaining subject payload j =
     (case ctx_err of
        Some err \<Rightarrow> (Some err, j)
      | None \<Rightarrow>
          (case marshal payload of
             Inl err \<Rightarrow> (Some (prefixf [''events: marshal payload for '', subject] err), j)
           | Inr data \<Rightarrow>
               (case publish subject data (publish_timeout remaining) j of
                  (Some err, j') \<Rightarrow> (Some (prefixf [''events: publish to '', subject] err), j')
                | (None, j') \<Rightarrow> (None, j'))))"

section \<open>Lemmas\<close>

lemma validToken_None_iff:
  "validToken v k = None \<longleftrightarrow> v \<noteq> [] \<and> (\<forall>c\<in>set v. c \<notin> set subject_specials)"
  by (auto simp: validToken_def contains_any_iff)

lemma dot_special [simp]: "CHR ''.'' \<in> set subject_specials"
  by (simp add: subject_specials_def)

lemma validToken_no_dot: "validToken v k = None \<Longrightarrow> CHR ''.'' \<notin> set v"
  by (auto simp: validToken_None_iff)

lemma validTokens_None_iff: "validTokens ts k = None \<longleftrightarrow> (\<forall>t\<in>set ts. validToken t k = None)"
  by (induction ts) (auto split: option.splits)

lemma SubjectFor_Inr_iff:
  "SubjectFor t e = Inr s \<longleftrightarrow>
     validToken t ''tenant'' = None \<and> e \<noteq> [] \<and>
     validTokens (split_on (CHR ''.'') e) ''event'' = None \<and>
     s = SubjectPrefix @ ''.'' @ t @ ''.'' @ e"
  by (auto simp: SubjectFor_def split: option.splits if_splits)

lemma prefix_no_dot: "CHR ''.'' \<notin> set SubjectPrefix"
  by (simp add: SubjectPrefix_def)

lemma numeral_3_split: "split_n c 3 s = split_n c (Suc (Suc (Suc 0))) s"
  by (simp add: numeral_3_eq_3)

text \<open>A subject that carries a tenant is exactly \<open>sannad.<tenant>.<event>\<close>.\<close>

lemma TenantOf_Some_iff:
  "TenantOf s = Some t \<longleftrightarrow>
     (\<exists>e. s = SubjectPrefix @ ''.'' @ t @ ''.'' @ e) \<and> t \<noteq> [] \<and> CHR ''.'' \<notin> set t"
proof
  assume "TenantOf s = Some t"
  then obtain a where a: "cut (CHR ''.'') s = Some (SubjectPrefix, a)" and t: "t \<noteq> []"
    and b: "\<exists>e. cut (CHR ''.'') a = Some (t, e)"
    by (auto simp: TenantOf_def numeral_3_split split: list.splits option.splits if_splits)
  then show "(\<exists>e. s = SubjectPrefix @ ''.'' @ t @ ''.'' @ e) \<and> t \<noteq> [] \<and> CHR ''.'' \<notin> set t"
    by (auto simp: cut_Some_iff)
next
  assume "(\<exists>e. s = SubjectPrefix @ ''.'' @ t @ ''.'' @ e) \<and> t \<noteq> [] \<and> CHR ''.'' \<notin> set t"
  then show "TenantOf s = Some t"
    using prefix_no_dot by (auto simp: TenantOf_def numeral_3_split cut_append)
qed

lemma TenantOf_SubjectFor: "SubjectFor t e = Inr s \<Longrightarrow> TenantOf s = Some t"
  by (auto simp: SubjectFor_Inr_iff TenantOf_Some_iff validToken_None_iff)

lemma deliveryFrom_SubjectFor:
  assumes "SubjectFor t e = Inr s"
  shows "\<exists>d. deliveryFrom \<lparr>msg_subject = s, msg_data = x, msg_meta = m\<rparr> = Inr d \<and>
             dl_tenant d = t \<and> dl_event d = e \<and> dl_data d = x"
  using assms TenantOf_SubjectFor[OF assms]
  by (auto simp: deliveryFrom_def SubjectFor_Inr_iff)

lemma TenantSubjects_Inr_iff:
  "TenantSubjects t = Inr f \<longleftrightarrow>
     validToken t ''tenant'' = None \<and> f = SubjectPrefix @ ''.'' @ t @ ''.>''"
  by (auto simp: TenantSubjects_def split: option.splits)

section \<open>Properties\<close>

text \<open>
  An event's subject determines its tenant and its name. Two accepted subjects that are
  equal were built for the same tenant and the same event, and a consumer that parses the
  subject back gets exactly the tenant and the event name the publisher used.
\<close>

theorem subject_roundtrip:
  assumes "SubjectFor t e = Inr s"
  shows "TenantOf s = Some t \<and>
    (\<exists>d. deliveryFrom \<lparr>msg_subject = s, msg_data = x, msg_meta = m\<rparr> = Inr d \<and>
         dl_tenant d = t \<and> dl_event d = e \<and> dl_data d = x) \<and>
    (\<forall>t' e'. SubjectFor t' e' = Inr s \<longrightarrow> t' = t \<and> e' = e)"
proof (intro conjI allI impI)
  show tn: "TenantOf s = Some t"
    using assms by (rule TenantOf_SubjectFor)
  show "\<exists>d. deliveryFrom \<lparr>msg_subject = s, msg_data = x, msg_meta = m\<rparr> = Inr d \<and>
             dl_tenant d = t \<and> dl_event d = e \<and> dl_data d = x"
    using assms by (rule deliveryFrom_SubjectFor)
  fix t' e' assume s': "SubjectFor t' e' = Inr s"
  show eq: "t' = t"
    using tn TenantOf_SubjectFor[OF s'] by simp
  show "e' = e"
    using assms s' eq by (simp add: SubjectFor_Inr_iff)
qed

theorem subject_roundtrip_witness:
  "SubjectFor ''acme'' ''orders.created'' = Inr ''sannad.acme.orders.created'' \<and>
   TenantOf ''sannad.acme.orders.created'' = Some ''acme''"
proof -
  have s: "SubjectFor ''acme'' ''orders.created'' = Inr ''sannad.acme.orders.created''"
    by (simp add: SubjectFor_def validToken_def contains_any_def subject_specials_def
        SubjectPrefix_def)
  show ?thesis using s subject_roundtrip[OF s] by blast
qed

text \<open>
  C30: a consumer bound to one tenant's filter is never handed another tenant's event. The
  broker is outside the repository; what is relied on is NATS's documented meaning of a
  filter whose last token is the tail wildcard and whose other tokens are literal: it selects only
  subjects that continue the literal part. Then every message the consumer receives belongs
  to the tenant the filter was built for, whatever was published.
\<close>

theorem tenant_filter_isolates:
  assumes tail_wildcard: "\<And>p s. \<lbrakk>CHR ''*'' \<notin> set p; CHR ''>'' \<notin> set p; matches (p @ ''.>'') s\<rbrakk>
              \<Longrightarrow> \<exists>r. s = p @ ''.'' @ r"
    and bound: "TenantSubjects t = Inr f"
    and delivered: "matches f (msg_subject msg)"
  shows "\<exists>d. deliveryFrom msg = Inr d \<and> dl_tenant d = t"
proof -
  let ?p = "SubjectPrefix @ ''.'' @ t"
  have v: "validToken t ''tenant'' = None" and f: "f = ?p @ ''.>''"
    using bound by (auto simp: TenantSubjects_Inr_iff)
  have "CHR ''*'' \<notin> set ?p" "CHR ''>'' \<notin> set ?p"
    using v by (auto simp: validToken_None_iff subject_specials_def SubjectPrefix_def)
  then obtain r where "msg_subject msg = ?p @ ''.'' @ r"
    using tail_wildcard[of ?p] delivered unfolding f by auto
  then have "TenantOf (msg_subject msg) = Some t"
    using v by (auto simp: TenantOf_Some_iff validToken_None_iff)
  then show ?thesis by (auto simp: deliveryFrom_def)
qed

text \<open>The documented matching of the tail wildcard, for the witness.\<close>

definition tail_match :: "string \<Rightarrow> string \<Rightarrow> bool" where
  "tail_match f s = (length f \<ge> 2 \<and> drop (length f - 2) f = ''.>'' \<and>
                     has_prefix s (take (length f - 1) f))"

lemma tail_match_law: "tail_match (p @ ''.>'') s \<Longrightarrow> \<exists>r. s = p @ ''.'' @ r"
  by (auto simp: tail_match_def has_prefix_iff)

theorem tenant_filter_isolates_witness:
  "\<exists>d. deliveryFrom \<lparr>msg_subject = ''sannad.acme.x'', msg_data = [], msg_meta = None\<rparr> = Inr d \<and>
       dl_tenant d = ''acme''"
proof (rule tenant_filter_isolates [where matches = tail_match and f = "''sannad.acme.>''"])
  show "TenantSubjects ''acme'' = Inr ''sannad.acme.>''"
    by code_simp
  show "tail_match ''sannad.acme.>'' (msg_subject \<lparr>msg_subject = ''sannad.acme.x'', msg_data = [], msg_meta = None\<rparr>)"
    by (simp add: tail_match_def)
qed (auto dest: tail_match_law)

text \<open>
  What the subscription callback tells the broker. A message whose subject does not name
  a tenant is terminated and the handler is not run; any other message is acknowledged
  exactly when the handler, run once on it, reports no error, and is otherwise left for
  redelivery.
\<close>

theorem consume_msg_outcome:
  "consume_msg h ctx msg w =
     (if TenantOf (msg_subject msg) = None then (Term, w)
      else (case h ctx (projr (deliveryFrom msg)) w of
              (err, w') \<Rightarrow> (if err = None then Ack else Nak, w')))"
  by (auto simp: consume_msg_def deliveryFrom_def split: option.splits prod.splits)

text \<open>
  Declaring the stream never overwrites an operator's settings. When a stream exists,
  the only call made is an update that keeps every setting and every bound subject and adds
  the kernel's wildcard, and none is made when that is bound already.
\<close>

theorem EnsureStream_preserves_settings:
  assumes "js_info js StreamName j = Inr existing"
  shows "EnsureStream js j = (None, j) \<and> StreamSubjects \<in> set (sc_subjects existing) \<or>
    (\<exists>cfg. cfg = existing\<lparr>sc_subjects := sc_subjects existing @ [StreamSubjects]\<rparr> \<and>
           StreamSubjects \<notin> set (sc_subjects existing) \<and>
           snd (EnsureStream js j) = snd (js_update js cfg j) \<and>
           (fst (EnsureStream js j) = None \<longleftrightarrow> fst (js_update js cfg j) = None))"
  using assms
  by (auto simp: EnsureStream_def bindsSubjects_def list_ex_iff split: prod.splits option.splits)

theorem EnsureStream_preserves_settings_witness:
  "EnsureStream \<lparr>js_info = (\<lambda>_ _. Inr declared_stream), js_update = (\<lambda>_ j. (None, Suc j)),
                 js_add = (\<lambda>_ j. (None, Suc j))\<rparr> 0 = (None, 0)"
  using EnsureStream_preserves_settings
    [of "\<lparr>js_info = (\<lambda>_ _. Inr declared_stream), js_update = (\<lambda>_ j. (None, Suc j)),
          js_add = (\<lambda>_ j. (None, Suc j))\<rparr>" 0 declared_stream]
  by (simp add: declared_stream_def)

end
