(* ===== verification/Store.thy ===== *)
theory Store
  imports Prelude
begin

text \<open>
  The storage contract of \<^verbatim>\<open>pkg/modulekit/storage.go\<close>: conditions, the \<open>Store\<close> interface as a
  record of operations over a world \<open>'d\<close> (the database and everything else the code can
  reach), and the contract its documentation states, as a locale.

  A Go struct stored in a table is a \<open>row\<close>, the map from its columns to cells; the Go types
  passed as \<open>any\<close> are \<open>rtype\<close> (the shapes \<open>reflect\<close> distinguishes here) and the values
  passed to \<open>Create\<close> are \<open>rvalue\<close>.
\<close>

section \<open>Rows, types and values\<close>

datatype cell = CNull | CStr string | CInt int | CTime int | CList "cell list"

type_synonym row = "cell gomap"

text \<open>
  \<open>TStruct n aware\<close> is a struct type whose \<open>TableName()\<close> is \<open>n\<close>; \<open>aware\<close> says that a
  pointer to it implements \<open>tenant.TenantAware\<close>.
\<close>

datatype rtype = TStruct string bool | TPtr rtype | TSlice rtype | TArray rtype | TOther

fun base_type :: "rtype \<Rightarrow> rtype" where
  "base_type (TPtr t) = base_type t"
| "base_type (TSlice t) = base_type t"
| "base_type (TArray t) = base_type t"
| "base_type t = t"

datatype rvalue =
    RStruct bool row
  | RPtr "rvalue option"
  | RSlice "rvalue list"
  | RArray "rvalue list"
  | ROther

text \<open>The records a value holds, in order.\<close>

fun rows_of :: "rvalue \<Rightarrow> row list" where
  "rows_of (RStruct aware r) = [r]"
| "rows_of (RPtr None) = []"
| "rows_of (RPtr (Some v)) = rows_of v"
| "rows_of (RSlice vs) = concat (map rows_of vs)"
| "rows_of (RArray vs) = concat (map rows_of vs)"
| "rows_of ROther = []"

text \<open>
  A \<open>model\<close> or \<open>dest\<close> argument: its Go type and the primary-key fields, as the engine's
  schema has them, that are set in it (none for the zero value most callers pass).
\<close>

record gomodel =
  md_type :: rtype
  md_keys :: row

definition zero_model :: "rtype \<Rightarrow> gomodel" where
  "zero_model t = \<lparr>md_type = t, md_keys = []\<rparr>"

definition zero_cell :: "cell \<Rightarrow> bool" where
  "zero_cell c = (c = CNull \<or> c = CStr [] \<or> c = CInt 0)"

text \<open>The string, number and timestamp fields a row is scanned into; a missing column leaves the zero value.\<close>

definition col_str :: "row \<Rightarrow> string \<Rightarrow> string" where
  "col_str r c = (case mget r c of Some (CStr s) \<Rightarrow> s | _ \<Rightarrow> [])"

definition col_int :: "row \<Rightarrow> string \<Rightarrow> int" where
  "col_int r c = (case mget r c of Some (CInt n) \<Rightarrow> n | _ \<Rightarrow> 0)"

definition col_time :: "row \<Rightarrow> string \<Rightarrow> int" where
  "col_time r c = (case mget r c of Some (CTime t) \<Rightarrow> t | _ \<Rightarrow> 0)"

definition tenant_column :: string where "tenant_column = ''tenant_id''"

definition row_tenant :: "row \<Rightarrow> string" where
  "row_tenant r = (case mget r tenant_column of Some (CStr t) \<Rightarrow> t | _ \<Rightarrow> [])"

section \<open>Conditions\<close>

type_synonym operator = string

definition OpEqual :: operator where "OpEqual = ''=''"
definition OpNotEqual :: operator where "OpNotEqual = ''<>''"
definition OpGreaterThan :: operator where "OpGreaterThan = ''>''"
definition OpGreaterEqual :: operator where "OpGreaterEqual = ''>=''"
definition OpLessThan :: operator where "OpLessThan = ''<''"
definition OpLessEqual :: operator where "OpLessEqual = ''<=''"
definition OpIn :: operator where "OpIn = ''IN''"
definition OpLike :: operator where "OpLike = ''LIKE''"

lemmas operator_defs =
  OpEqual_def OpNotEqual_def OpGreaterThan_def OpGreaterEqual_def OpLessThan_def OpLessEqual_def
  OpIn_def OpLike_def

record condition =
  cnd_field :: string
  cnd_op :: operator
  cnd_value :: cell

definition Where :: "string \<Rightarrow> cell \<Rightarrow> condition" where
  "Where field v = \<lparr>cnd_field = field, cnd_op = OpEqual, cnd_value = v\<rparr>"

definition Compare :: "string \<Rightarrow> operator \<Rightarrow> cell \<Rightarrow> condition" where
  "Compare field op v = \<lparr>cnd_field = field, cnd_op = op, cnd_value = v\<rparr>"

definition In :: "string \<Rightarrow> cell list \<Rightarrow> condition" where
  "In field vs = \<lparr>cnd_field = field, cnd_op = OpIn, cnd_value = CList vs\<rparr>"

text \<open>
  The meaning of equality, of membership and of \<open><=\<close> between timestamps, on a bare column
  name. The other operators are passed on to the engine.
\<close>

definition bare_char :: "nat \<Rightarrow> char \<Rightarrow> bool" where
  "bare_char i c = ((CHR ''a'' \<le> c \<and> c \<le> CHR ''z'') \<or> (CHR ''A'' \<le> c \<and> c \<le> CHR ''Z'') \<or>
     c = CHR ''_'' \<or> (CHR ''0'' \<le> c \<and> c \<le> CHR ''9'' \<and> i > 0))"

definition bare_name :: "string \<Rightarrow> bool" where
  "bare_name f = (f \<noteq> [] \<and> list_all (\<lambda>(i, c). bare_char i c) (enumerate 0 f))"

definition plain_cond :: "condition \<Rightarrow> bool" where
  "plain_cond c = (bare_name (cnd_field c) \<and>
     (cnd_op c = OpEqual \<or> cnd_op c = OpIn \<and> (case cnd_value c of CList _ \<Rightarrow> True | _ \<Rightarrow> False) \<or>
      cnd_op c = OpLessEqual \<and> (case cnd_value c of CTime _ \<Rightarrow> True | _ \<Rightarrow> False)))"

text \<open>A timestamp that is not after another; false for a column that holds no timestamp.\<close>

definition not_after :: "cell \<Rightarrow> cell \<Rightarrow> bool" where
  "not_after v w = (case v of CTime a \<Rightarrow> (case w of CTime b \<Rightarrow> a \<le> b | _ \<Rightarrow> False) | _ \<Rightarrow> False)"

lemma not_after_CTime [simp]: "not_after v (CTime b) \<longleftrightarrow> (\<exists>a. v = CTime a \<and> a \<le> b)"
  by (cases v) (auto simp: not_after_def)

definition cond_holds :: "row \<Rightarrow> condition \<Rightarrow> bool" where
  "cond_holds r c =
     (case mget r (cnd_field c) of
        None \<Rightarrow> False
      | Some v \<Rightarrow> v \<noteq> CNull \<and>
          (if cnd_op c = OpIn then (case cnd_value c of CList vs \<Rightarrow> v \<in> set vs | _ \<Rightarrow> False)
           else if cnd_op c = OpLessEqual then not_after v (cnd_value c)
           else v = cnd_value c))"

lemma plain_Where [simp]: "plain_cond (Where f v) = bare_name f"
  by (simp add: plain_cond_def Where_def operator_defs)

lemma plain_In [simp]: "plain_cond (In f vs) = bare_name f"
  by (simp add: plain_cond_def In_def operator_defs)

lemma cond_holds_Where [simp]:
  "cond_holds r (Where f v) \<longleftrightarrow> mget r f = Some v \<and> v \<noteq> CNull"
  by (auto simp: cond_holds_def Where_def operator_defs split: option.splits)

lemma cond_holds_In [simp]:
  "cond_holds r (In f vs) \<longleftrightarrow> (\<exists>v\<in>set vs. mget r f = Some v \<and> v \<noteq> CNull)"
  by (auto simp: cond_holds_def In_def operator_defs split: option.splits)

lemma plain_Compare [simp]: "plain_cond (Compare f OpLessEqual (CTime t)) = bare_name f"
  by (simp add: plain_cond_def Compare_def operator_defs)

lemma cond_holds_Compare [simp]:
  "cond_holds r (Compare f OpLessEqual (CTime t)) \<longleftrightarrow> (\<exists>a. mget r f = Some (CTime a) \<and> a \<le> t)"
  by (auto simp: cond_holds_def Compare_def operator_defs split: option.splits)

section \<open>The Store interface\<close>

text \<open>
  The transactional handle of \<open>Transact\<close> is the same record of operations: being inside a
  transaction is part of the world. Every caller in this code base uses the handle it is
  given inside the function, so the two handles of the Go code are not told apart.
\<close>

record 'd store =
  Find :: "go_ctx \<Rightarrow> gomodel \<Rightarrow> condition list \<Rightarrow> 'd \<Rightarrow> (gerr + row list) \<times> 'd"
  First :: "go_ctx \<Rightarrow> gomodel \<Rightarrow> condition list \<Rightarrow> 'd \<Rightarrow> (gerr + row) \<times> 'd"
  Count :: "go_ctx \<Rightarrow> gomodel \<Rightarrow> condition list \<Rightarrow> 'd \<Rightarrow> (gerr + int) \<times> 'd"
  Create :: "go_ctx \<Rightarrow> gomodel \<Rightarrow> rvalue \<Rightarrow> 'd \<Rightarrow> gerr option \<times> 'd"
  Update :: "go_ctx \<Rightarrow> gomodel \<Rightarrow> row \<Rightarrow> condition list \<Rightarrow> 'd \<Rightarrow> gerr option \<times> 'd"
  Delete :: "go_ctx \<Rightarrow> gomodel \<Rightarrow> condition list \<Rightarrow> 'd \<Rightarrow> gerr option \<times> 'd"
  Transact :: "go_ctx \<Rightarrow> ('d \<Rightarrow> gerr option \<times> 'd) \<Rightarrow> 'd \<Rightarrow> gerr option \<times> 'd"

text \<open>Columns replaced by an update.\<close>

definition apply_changes :: "row \<Rightarrow> row \<Rightarrow> row" where
  "apply_changes changes r = foldl (\<lambda>r (c, v). mput c v r) r changes"

lemma mget_apply_changes:
  "mget (apply_changes changes r) c =
     (case mget (rev changes) c of Some v \<Rightarrow> Some v | None \<Rightarrow> mget r c)"
  unfolding apply_changes_def
  by (induction changes rule: rev_induct) (auto split: option.splits)

text \<open>The primary-key columns that are set in a model narrow the rows it addresses.\<close>

definition agrees :: "row \<Rightarrow> row \<Rightarrow> bool" where
  "agrees keys r = list_all (\<lambda>(c, v). zero_cell v \<or> mget r c = Some v) keys"

lemma agrees_zero [simp]: "agrees [] r"
  by (simp add: agrees_def)

definition same_key :: "string list \<Rightarrow> row \<Rightarrow> row \<Rightarrow> bool" where
  "same_key pk r r' = list_all (\<lambda>c. mget r c = mget r' c) pk"

text \<open>A table's keys: its primary key and its unique indexes.\<close>

definition clashes :: "string list list \<Rightarrow> row \<Rightarrow> row \<Rightarrow> bool" where
  "clashes keys r r' = list_ex (\<lambda>k. same_key k r r') keys"

lemma clashes_single [simp]: "clashes [k] r r' = same_key k r r'"
  by (simp add: clashes_def)

definition stamp :: "string \<Rightarrow> row \<Rightarrow> row" where
  "stamp t r = mput tenant_column (CStr t) r"

lemma row_tenant_stamp [simp]: "row_tenant (stamp t r) = t"
  by (simp add: stamp_def row_tenant_def)

lemma mget_stamp: "mget (stamp t r) c = (if c = tenant_column then Some (CStr t) else mget r c)"
  by (simp add: stamp_def)

text \<open>
  The contract. \<open>tbl\<close> is the content of each table, \<open>ext\<close> the world outside the database,
  \<open>table_of\<close>, \<open>pk\<close> and \<open>scoped\<close> the schema, \<open>engine_error\<close> the errors that are the
  engine's own. Any operation may fail; what it may not do is fail after changing a table,
  answer from rows outside the caller's scope, or touch them.
\<close>

definition needs_tenant :: "go_ctx \<Rightarrow> bool \<Rightarrow> bool" where
  "needs_tenant ctx sc = (sc \<and> \<not> IsSystemContext ctx)"

text \<open>An ordinary request context: a tenant, and no system escape.\<close>

definition usable :: "go_ctx \<Rightarrow> bool" where
  "usable ctx = (ctx_tenant ctx \<noteq> [] \<and> \<not> IsSystemContext ctx)"

definition in_scope :: "go_ctx \<Rightarrow> bool \<Rightarrow> row \<Rightarrow> bool" where
  "in_scope ctx sc r = (needs_tenant ctx sc \<longrightarrow> row_tenant r = ctx_tenant ctx)"

definition stamped :: "go_ctx \<Rightarrow> bool \<Rightarrow> row \<Rightarrow> row" where
  "stamped ctx sc r = (if needs_tenant ctx sc then stamp (ctx_tenant ctx) r else r)"

definition selects :: "go_ctx \<Rightarrow> bool \<Rightarrow> gomodel \<Rightarrow> condition list \<Rightarrow> row \<Rightarrow> bool" where
  "selects ctx sc m conds r =
     (in_scope ctx sc r \<and> list_all (cond_holds r) conds \<and> agrees (md_keys m) r)"

text \<open>An error that came from the engine: at most the two sentinels the adapter translates to.\<close>

definition foreign :: "gerr \<Rightarrow> bool" where
  "foreign e \<longleftrightarrow> (\<forall>t. has_prefix t ''modulekit: '' \<and> ErrNew t \<notin> {ErrNotFound, ErrDuplicate} \<longrightarrow>
     \<not> errors_is e (ErrNew t))"

lemma foreignD:
  "\<lbrakk>foreign e; has_prefix t ''modulekit: ''; ErrNew t \<notin> {ErrNotFound, ErrDuplicate}\<rbrakk> \<Longrightarrow> \<not> errors_is e (ErrNew t)"
  by (simp add: foreign_def)

locale store_contract =
  fixes S :: "'d store"
    and tbl :: "'d \<Rightarrow> string \<Rightarrow> row list"
    and ext :: "'d \<Rightarrow> 'e"
    and table_of :: "rtype \<Rightarrow> string"
    and pk :: "string \<Rightarrow> string list list"
    and scoped :: "rtype \<Rightarrow> bool"
    and engine_error :: "gerr \<Rightarrow> bool"
  assumes Find_spec: "\<lbrakk>list_all plain_cond conds; Find S ctx m conds d = (resf, d')\<rbrakk> \<Longrightarrow>
      tbl d' = tbl d \<and> ext d' = ext d \<and> (\<forall>e. resf = Inl e \<longrightarrow> foreign e) \<and>
      (\<forall>rows. resf = Inr rows \<longrightarrow> mset rows = mset (filter
          (selects ctx (scoped (md_type m)) m conds) (tbl d (table_of (md_type m)))))"
    and First_spec: "\<lbrakk>list_all plain_cond conds; First S ctx m conds d = (resg, d')\<rbrakk> \<Longrightarrow>
      tbl d' = tbl d \<and> ext d' = ext d \<and>
      (\<forall>r. resg = Inr r \<longrightarrow> r \<in> set (tbl d (table_of (md_type m))) \<and>
          selects ctx (scoped (md_type m)) m conds r) \<and>
      (\<forall>e. resg = Inl e \<longrightarrow> foreign e) \<and>
      (\<forall>e. resg = Inl e \<longrightarrow> errors_is e ErrNotFound \<longrightarrow>
          (\<forall>r\<in>set (tbl d (table_of (md_type m))).
             \<not> selects ctx (scoped (md_type m)) m conds r))"
    and Count_spec: "\<lbrakk>list_all plain_cond conds; md_keys m = []; Count S ctx m conds d = (resc, d')\<rbrakk> \<Longrightarrow>
      tbl d' = tbl d \<and> ext d' = ext d \<and>
      (\<forall>n. resc = Inr n \<longrightarrow> n = int (length (filter
          (selects ctx (scoped (md_type m)) m conds) (tbl d (table_of (md_type m))))))"
    and Create_spec: "\<lbrakk>v = RPtr (Some (RStruct aware r)); aware = scoped (md_type m);
        Create S ctx m v d = (res, d')\<rbrakk> \<Longrightarrow>
      ext d' = ext d \<and>
      (res = None \<longrightarrow>
         tbl d' = (tbl d)(table_of (md_type m) :=
                     tbl d (table_of (md_type m)) @ [stamped ctx (scoped (md_type m)) r]) \<and>
         (needs_tenant ctx (scoped (md_type m)) \<longrightarrow> row_tenant r \<in> {[], ctx_tenant ctx}) \<and>
         (\<forall>r'\<in>set (tbl d (table_of (md_type m))).
            \<not> clashes (pk (table_of (md_type m))) r' (stamped ctx (scoped (md_type m)) r))) \<and>
      (\<forall>e. res = Some e \<longrightarrow> tbl d' = tbl d \<and> foreign e \<and> (errors_is e ErrDuplicate \<longrightarrow>
         (\<exists>r'\<in>set (tbl d (table_of (md_type m))).
            clashes (pk (table_of (md_type m))) r' (stamped ctx (scoped (md_type m)) r))))"
    and Update_spec: "\<lbrakk>list_all plain_cond conds; Update S ctx m changes conds d = (res, d')\<rbrakk> \<Longrightarrow>
      ext d' = ext d \<and>
      (res = None \<longrightarrow> conds \<noteq> [] \<and>
         tbl d' = (tbl d)(table_of (md_type m) := map (\<lambda>r.
            if selects ctx (scoped (md_type m)) m conds r
            then apply_changes changes r else r) (tbl d (table_of (md_type m))))) \<and>
      (res \<noteq> None \<longrightarrow> tbl d' = tbl d \<and> (conds \<noteq> [] \<longrightarrow> foreign (the res)))"
    and Delete_spec: "\<lbrakk>list_all plain_cond conds; Delete S ctx m conds d = (res, d')\<rbrakk> \<Longrightarrow>
      ext d' = ext d \<and>
      (res = None \<longrightarrow> conds \<noteq> [] \<and>
         tbl d' = (tbl d)(table_of (md_type m) := filter (\<lambda>r.
            \<not> selects ctx (scoped (md_type m)) m conds r)
              (tbl d (table_of (md_type m))))) \<and>
      (res \<noteq> None \<longrightarrow> tbl d' = tbl d)"
    and Transact_spec: "Transact S ctx f d = (res, d') \<Longrightarrow>
      (\<exists>e. res = Some e \<and> foreign e \<and> tbl d' = tbl d \<and> ext d' = ext d) \<or>
      (\<exists>d0 e1 d1. tbl d0 = tbl d \<and> ext d0 = ext d \<and> f d0 = (e1, d1) \<and> ext d' = ext d1 \<and>
         (case e1 of
            None \<Rightarrow> res = None \<and> tbl d' = tbl d1 \<or> (\<exists>e. res = Some e \<and> foreign e \<and> tbl d' = tbl d)
          | Some e \<Rightarrow> tbl d' = tbl d \<and> res \<noteq> None \<and> (if engine_error e then foreign (the res) else res = Some e)))"
    and engine_error_own: "has_prefix t ''modulekit: '' \<Longrightarrow> \<not> engine_error (ErrNew t)"
    and engine_error_wrap: "engine_error (ErrWrap t ws) \<longleftrightarrow> list_ex engine_error ws"
    and table_of_struct: "base_type ty = TStruct n aw \<Longrightarrow> table_of ty = n"
    and scoped_struct: "base_type ty = TStruct n True \<Longrightarrow> scoped ty"
begin
end

end
