(* ===== verification/Tenancy.thy ===== *)
theory Tenancy
  imports Store
begin

text \<open>
  Row-level tenant isolation: the callbacks of \<^verbatim>\<open>internal/platform/tenancy/isolation.go\<close>, the
  predicate of \<^verbatim>\<open>clause.go\<close> and the schema audit of \<^verbatim>\<open>audit.go\<close>. GORM is not part of the
  repository: a statement is the record of the fields the callbacks read and write, and a
  callback is a function on it. \<open>sync.Map\<close> iteration order is the order of the list.
\<close>

section \<open>Statements\<close>

datatype where_expr =
    EqCol (eq_table: string) (eq_column: string) (eq_value: string)
  | Frag string "cell list"

record stmt =
  s_error :: "gerr option"
  s_ctx :: go_ctx
  s_sql :: string
  s_table :: string
  s_model :: "rtype option"
  s_dest :: "rtype option"
  s_schema :: "rtype option"
  s_joins :: "string list"
  s_from_joins :: "string list"
  s_where :: "where_expr list"
  s_value :: rvalue

text \<open>
  The state of the package: the registered scoped tables, and GORM's placeholder for "the
  table of this statement" (\<open>clause.CurrentTable\<close>).
\<close>

record isolation =
  iso_tables :: "string list"
  iso_current :: string

definition AddError :: "gerr \<Rightarrow> stmt \<Rightarrow> stmt" where
  "AddError e st = st\<lparr>s_error := Some e\<rparr>"

definition ErrNoTenantContext :: gerr where
  "ErrNoTenantContext = ErrNew ''tenancy: operation on a tenant-scoped model without tenant context''"
definition ErrTenantMismatch :: gerr where
  "ErrTenantMismatch = ErrNew ''tenancy: record tenant does not match context tenant''"
definition ErrRawSQLOnScopedTable :: gerr where
  "ErrRawSQLOnScopedTable = ErrNew ''tenancy: raw SQL on a tenant-scoped table''"
definition ErrJoinOnScopedTable :: gerr where
  "ErrJoinOnScopedTable = ErrNew ''tenancy: query joins a tenant-scoped table''"

definition ColumnName :: string where "ColumnName = ''tenant_id''"

section \<open>What is scoped\<close>

definition scopedTableInSQL :: "isolation \<Rightarrow> string \<Rightarrow> string option" where
  "scopedTableInSQL tn sql =
     (if sql = [] then None
      else find (\<lambda>t. t \<noteq> [] \<and> contains_sub (to_lower sql) (to_lower t)) (iso_tables tn))"

definition isScopedTable :: "isolation \<Rightarrow> string \<Rightarrow> bool" where
  "isScopedTable tn table = (table \<noteq> [] \<and> table \<in> set (iso_tables tn))"

text \<open>The interface is implemented on the pointer receiver of the model structs.\<close>

fun is_TenantAware :: "rtype \<Rightarrow> bool" where
  "is_TenantAware (TPtr (TStruct n aware)) = aware"
| "is_TenantAware _ = False"

fun implementsTenantAware :: "rtype \<Rightarrow> bool" where
  "implementsTenantAware (TPtr t) = implementsTenantAware t"
| "implementsTenantAware (TSlice t) = implementsTenantAware t"
| "implementsTenantAware (TArray t) = implementsTenantAware t"
| "implementsTenantAware (TStruct n aware) = is_TenantAware (TPtr (TStruct n aware))"
| "implementsTenantAware TOther = False"

definition isScoped :: "isolation \<Rightarrow> stmt \<Rightarrow> bool" where
  "isScoped tn st =
     ((case s_model st of Some t \<Rightarrow> is_TenantAware t | None \<Rightarrow> False) \<or>
      (case s_dest st of Some t \<Rightarrow> implementsTenantAware t | None \<Rightarrow> False) \<or>
      (case s_schema st of Some t \<Rightarrow> implementsTenantAware (TPtr t) | None \<Rightarrow> False) \<or>
      isScopedTable tn (s_table st))"

text \<open>One of the two join loops: the first join that names a scoped table other than the target.\<close>

fun joined_in :: "isolation \<Rightarrow> string \<Rightarrow> string list \<Rightarrow> string option" where
  "joined_in tn table [] = None"
| "joined_in tn table (j # js) =
     (case scopedTableInSQL tn j of
        Some t \<Rightarrow> if t \<noteq> table then Some t else joined_in tn table js
      | None \<Rightarrow> joined_in tn table js)"

definition joinedScopedTable :: "isolation \<Rightarrow> stmt \<Rightarrow> string option" where
  "joinedScopedTable tn st =
     (case joined_in tn (s_table st) (s_joins st) of
        Some t \<Rightarrow> Some t
      | None \<Rightarrow> joined_in tn (s_table st) (s_from_joins st))"

definition RegisterScopedModels ::
  "(rtype \<Rightarrow> gerr + string) \<Rightarrow> (string \<times> rtype) list \<Rightarrow> isolation \<Rightarrow> gerr option \<times> isolation" where
  "RegisterScopedModels parse models tn =
     foldl (\<lambda>(err, tn) (go_type, m). case err of
         Some e \<Rightarrow> (Some e, tn)
       | None \<Rightarrow> (case parse m of
           Inl e \<Rightarrow> (Some (prefixf [''tenancy: parse model '', go_type] e), tn)
         | Inr table \<Rightarrow> (None, tn\<lparr>iso_tables := List.insert table (iso_tables tn)\<rparr>)))
       (None, tn) models"

section \<open>The callbacks\<close>

definition clauseForTenant :: "isolation \<Rightarrow> string \<Rightarrow> string \<Rightarrow> where_expr" where
  "clauseForTenant tn table tenantID =
     EqCol (if table \<noteq> [] \<and> table \<noteq> iso_current tn then table else []) ColumnName tenantID"

definition raw_refusal :: "string \<Rightarrow> gerr" where
  "raw_refusal table = wrapf ErrRawSQLOnScopedTable
     [''raw SQL touching scoped table '', go_quote table,
      ''; use the query builder, or WithSystemContext for deliberate cross-tenant access'']"

definition guardRaw :: "isolation \<Rightarrow> stmt \<Rightarrow> stmt" where
  "guardRaw tn st =
     (if s_error st \<noteq> None then st
      else if IsSystemContext (s_ctx st) then st
      else (case scopedTableInSQL tn (s_sql st) of
              Some table \<Rightarrow> AddError (raw_refusal table) st
            | None \<Rightarrow> st))"

definition scopeQuery :: "isolation \<Rightarrow> stmt \<Rightarrow> stmt" where
  "scopeQuery tn st =
     (if s_error st \<noteq> None then st
      else if IsSystemContext (s_ctx st) then st
      else if s_sql st \<noteq> [] then
        (case scopedTableInSQL tn (s_sql st) of
           Some table \<Rightarrow> AddError (raw_refusal table) st
         | None \<Rightarrow> st)
      else (case joinedScopedTable tn st of
        Some joined \<Rightarrow> AddError (wrapf ErrJoinOnScopedTable
            [''query joins scoped table '', go_quote joined,
             ''; query it directly, or use WithSystemContext for deliberate cross-tenant access'']) st
      | None \<Rightarrow>
          if \<not> isScoped tn st then st
          else if ctx_tenant (s_ctx st) = [] then AddError ErrNoTenantContext st
          else st\<lparr>s_where := s_where st @ [clauseForTenant tn (s_table st) (ctx_tenant (s_ctx st))]\<rparr>))"

text \<open>
  \<open>eachRecord\<close> walks the value with \<open>reflect\<close>; the flag says whether the value is
  addressable (what a pointer points to and the elements of a slice are, an array's
  elements are when the array is). Records changed before an error stay changed.
\<close>

fun eachRecord :: "(row \<Rightarrow> gerr + row) \<Rightarrow> bool \<Rightarrow> rvalue \<Rightarrow> gerr option \<times> rvalue"
  and eachElem :: "(row \<Rightarrow> gerr + row) \<Rightarrow> bool \<Rightarrow> rvalue list \<Rightarrow> gerr option \<times> rvalue list" where
  "eachRecord fn addr (RSlice vs) = (let (e, vs') = eachElem fn True vs in (e, RSlice vs'))"
| "eachRecord fn addr (RArray vs) = (let (e, vs') = eachElem fn addr vs in (e, RArray vs'))"
| "eachRecord fn addr (RPtr None) = (None, RPtr None)"
| "eachRecord fn addr (RPtr (Some v)) = (let (e, v') = eachRecord fn True v in (e, RPtr (Some v')))"
| "eachRecord fn addr (RStruct aware r) =
     (if \<not> addr then (None, RStruct aware r)
      else if \<not> aware then (None, RStruct aware r)
      else (case fn r of Inl e \<Rightarrow> (Some e, RStruct aware r) | Inr r' \<Rightarrow> (None, RStruct aware r')))"
| "eachRecord fn addr ROther = (None, ROther)"
| "eachElem fn addr [] = (None, [])"
| "eachElem fn addr (v # vs) =
     (case eachRecord fn addr v of
        (Some e, v') \<Rightarrow> (Some e, v' # vs)
      | (None, v') \<Rightarrow> (let (e, vs') = eachElem fn addr vs in (e, v' # vs')))"

definition stamp_record :: "string \<Rightarrow> row \<Rightarrow> gerr + row" where
  "stamp_record tenantID r =
     (let existing = row_tenant r in
      if existing \<noteq> [] \<and> existing \<noteq> tenantID
      then Inl (wrapf ErrTenantMismatch [''record '', go_quote existing, '', context '', go_quote tenantID])
      else Inr (stamp tenantID r))"

definition stampCreate :: "isolation \<Rightarrow> stmt \<Rightarrow> stmt" where
  "stampCreate tn st =
     (if s_error st \<noteq> None then st
      else if \<not> isScoped tn st then st
      else if IsSystemContext (s_ctx st) then st
      else if ctx_tenant (s_ctx st) = [] then AddError ErrNoTenantContext st
      else (case eachRecord (stamp_record (ctx_tenant (s_ctx st))) False (s_value st) of
              (Some e, v) \<Rightarrow> AddError e (st\<lparr>s_value := v\<rparr>)
            | (None, v) \<Rightarrow> st\<lparr>s_value := v\<rparr>))"

datatype processor = PQuery | PRow | PUpdate | PDelete | PCreate | PRaw

text \<open>Which callback \<open>RegisterIsolation\<close> puts before which of GORM's processors.\<close>

fun RegisterIsolation :: "isolation \<Rightarrow> processor \<Rightarrow> stmt \<Rightarrow> stmt" where
  "RegisterIsolation tn PQuery = scopeQuery tn"
| "RegisterIsolation tn PRow = scopeQuery tn"
| "RegisterIsolation tn PUpdate = scopeQuery tn"
| "RegisterIsolation tn PDelete = scopeQuery tn"
| "RegisterIsolation tn PCreate = stampCreate tn"
| "RegisterIsolation tn PRaw = guardRaw tn"

section \<open>The audit\<close>

datatype audit_finding = AuditFinding (af_table: string) (af_column: string)

definition tenantColumnNames :: "string list" where
  "tenantColumnNames = [''tenant_id'', ''tenantid'']"

record migrator =
  GetTables :: "gerr + string list"
  ColumnTypes :: "string \<Rightarrow> gerr + string list"

definition tenantColumnOn :: "migrator \<Rightarrow> string \<Rightarrow> string option" where
  "tenantColumnOn m table =
     (case ColumnTypes m table of
        Inl _ \<Rightarrow> None
      | Inr columns \<Rightarrow> find (\<lambda>c. to_lower c \<in> set tenantColumnNames) columns)"

definition AuditScopedModels ::
  "isolation \<Rightarrow> migrator option \<Rightarrow> string list \<Rightarrow> gerr + audit_finding list" where
  "AuditScopedModels tn db exempt =
     (case db of
        None \<Rightarrow> Inl (ErrNew ''tenancy: audit needs a database handle'')
      | Some m \<Rightarrow> (case GetTables m of
          Inl e \<Rightarrow> Inl (prefixf [''tenancy: list tables''] e)
        | Inr tables \<Rightarrow> Inr (sort_key af_table (List.map_filter (\<lambda>table.
            if isScopedTable tn table then None
            else if table \<in> set exempt then None
            else map_option (AuditFinding table) (tenantColumnOn m table)) tables))))"

section \<open>Lemmas\<close>

lemma AddError_fields [simp]:
  "s_error (AddError e st) = Some e" "s_where (AddError e st) = s_where st"
  "s_table (AddError e st) = s_table st" "s_value (AddError e st) = s_value st"
  "s_ctx (AddError e st) = s_ctx st"
  by (simp_all add: AddError_def)

text \<open>The query callback either refuses, or leaves the statement alone, or adds the predicate.\<close>

lemma scopeQuery_cases:
  assumes "s_error st = None"
  obtains (refused) e where "scopeQuery tn st = AddError e st" "\<not> IsSystemContext (s_ctx st)"
  | (system) "scopeQuery tn st = st" "IsSystemContext (s_ctx st)"
  | (raw) "scopeQuery tn st = st" "s_sql st \<noteq> []" "scopedTableInSQL tn (s_sql st) = None"
  | (unscoped) "scopeQuery tn st = st" "s_sql st = []" "\<not> isScoped tn st"
      "joinedScopedTable tn st = None" "\<not> IsSystemContext (s_ctx st)"
  | (scoped) "scopeQuery tn st = st\<lparr>s_where := s_where st @
        [clauseForTenant tn (s_table st) (ctx_tenant (s_ctx st))]\<rparr>"
      "s_sql st = []" "isScoped tn st" "ctx_tenant (s_ctx st) \<noteq> []"
      "joinedScopedTable tn st = None" "\<not> IsSystemContext (s_ctx st)"
proof (cases "IsSystemContext (s_ctx st)")
  case True
  with assms show ?thesis by (intro system) (simp_all add: scopeQuery_def)
next
  case False
  note ns = this
  show ?thesis
  proof (cases "s_sql st = []")
    case sql: False
    show ?thesis
    proof (cases "scopedTableInSQL tn (s_sql st)")
      case None
      with assms ns sql show ?thesis by (intro raw) (simp_all add: scopeQuery_def)
    next
      case (Some t)
      with assms ns sql show ?thesis by (intro refused) (simp_all add: scopeQuery_def)
    qed
  next
    case sql: True
    show ?thesis
    proof (cases "joinedScopedTable tn st")
      case (Some t)
      with assms ns sql show ?thesis by (intro refused) (simp_all add: scopeQuery_def)
    next
      case None
      consider "\<not> isScoped tn st" | "isScoped tn st" "ctx_tenant (s_ctx st) = []"
        | "isScoped tn st" "ctx_tenant (s_ctx st) \<noteq> []" by blast
      then show ?thesis
      proof cases
        case 1
        with assms ns sql None show ?thesis by (intro unscoped) (simp_all add: scopeQuery_def)
      next
        case 2
        with assms ns sql None show ?thesis by (intro refused) (simp_all add: scopeQuery_def)
      next
        case 3
        with assms ns sql None show ?thesis by (intro scoped) (simp_all add: scopeQuery_def)
      qed
    qed
  qed
qed

lemma stamp_record_Inr:
  "stamp_record t r = Inr r' \<longleftrightarrow> row_tenant r \<in> {[], t} \<and> r' = stamp t r"
  by (auto simp: stamp_record_def Let_def)

lemma stamp_record_Inl:
  "stamp_record t r = Inl e \<Longrightarrow> errors_is e ErrTenantMismatch \<and> row_tenant r \<notin> {[], t}"
  by (auto simp: stamp_record_def Let_def wrapf_def ErrTenantMismatch_def split: if_splits)

text \<open>Values in which every record is tenant-aware: what a create of a scoped model carries.\<close>

fun all_aware :: "rvalue \<Rightarrow> bool" where
  "all_aware (RStruct aware r) = aware"
| "all_aware (RPtr None) = True"
| "all_aware (RPtr (Some v)) = all_aware v"
| "all_aware (RSlice vs) = list_all all_aware vs"
| "all_aware (RArray vs) = list_all all_aware vs"
| "all_aware ROther = True"

lemma eachRecord_stamps:
  "eachRecord (stamp_record t) addr v = (None, v') \<Longrightarrow> addr \<Longrightarrow> all_aware v \<Longrightarrow>
     rows_of v' = map (stamp t) (rows_of v) \<and> (\<forall>r\<in>set (rows_of v). row_tenant r \<in> {[], t})"
  "eachElem (stamp_record t) addr vs = (None, vs') \<Longrightarrow> addr \<Longrightarrow> list_all all_aware vs \<Longrightarrow>
     concat (map rows_of vs') = map (stamp t) (concat (map rows_of vs)) \<and>
     (\<forall>r\<in>set (concat (map rows_of vs)). row_tenant r \<in> {[], t})"
proof (induction "stamp_record t" addr v and "stamp_record t" addr vs arbitrary: v' and vs'
    rule: eachRecord_eachElem.induct)
  case (5 addr aware r)
  then show ?case by (auto simp: stamp_record_Inr split: sum.splits)
next
  case (8 addr v vs)
  then show ?case by (fastforce split: prod.splits option.splits)
qed (auto split: prod.splits)

lemma eachRecord_mismatch:
  "eachRecord (stamp_record t) addr v = (Some e, v') \<Longrightarrow> errors_is e ErrTenantMismatch"
  "eachElem (stamp_record t) addr vs = (Some e, vs') \<Longrightarrow> errors_is e ErrTenantMismatch"
proof (induction "stamp_record t" addr v and "stamp_record t" addr vs arbitrary: v' and vs'
    rule: eachRecord_eachElem.induct)
  case (5 addr aware r)
  then show ?case by (auto dest: stamp_record_Inl split: sum.splits if_splits)
next
  case (8 addr v vs)
  then show ?case by (auto split: prod.splits option.splits)
qed (auto split: prod.splits)

end
