(* ===== verification/GormStore.thy ===== *)
theory GormStore
  imports Tenancy
begin

text \<open>
  The storage adapter, \<^verbatim>\<open>internal/platform/storage/gorm.go\<close>, on a connection that carries the
  isolation callbacks. GORM and the SQL engine below it are parameters: a record of the
  operations the adapter calls, each on the statement the callbacks produced. What the
  adapter relies on of them is the predicate \<open>engine_ok\<close>. The main result is that the adapter
  then provides the storage contract.
\<close>

section \<open>The engine\<close>

record 'd engine =
  eng_parse :: "rtype \<Rightarrow> string \<times> rtype"
  eng_select :: "stmt \<Rightarrow> 'd \<Rightarrow> (gerr + row list) \<times> 'd"
  eng_first :: "stmt \<Rightarrow> 'd \<Rightarrow> (gerr + row) \<times> 'd"
  eng_count :: "stmt \<Rightarrow> 'd \<Rightarrow> (gerr + int) \<times> 'd"
  eng_insert :: "stmt \<Rightarrow> 'd \<Rightarrow> gerr option \<times> 'd"
  eng_update :: "row \<Rightarrow> stmt \<Rightarrow> 'd \<Rightarrow> gerr option \<times> 'd"
  eng_delete :: "stmt \<Rightarrow> 'd \<Rightarrow> gerr option \<times> 'd"
  eng_transaction :: "go_ctx \<Rightarrow> ('d \<Rightarrow> gerr option \<times> 'd) \<Rightarrow> 'd \<Rightarrow> gerr option \<times> 'd"
  eng_ErrRecordNotFound :: string
  eng_ErrDuplicatedKey :: string

section \<open>The adapter\<close>

text \<open>The loop of \<open>validateFieldName\<close>, from position \<open>i\<close>.\<close>

fun scan_field :: "nat \<Rightarrow> string \<Rightarrow> bool" where
  "scan_field i [] = True"
| "scan_field i (r # rs) =
     (let isLetter = (CHR ''a'' \<le> r \<and> r \<le> CHR ''z'') \<or> (CHR ''A'' \<le> r \<and> r \<le> CHR ''Z'');
          isDigit = CHR ''0'' \<le> r \<and> r \<le> CHR ''9''
      in if isLetter \<or> r = CHR ''_'' \<or> (isDigit \<and> i > 0) then scan_field (i + 1) rs else False)"

definition validateFieldName :: "string \<Rightarrow> gerr option" where
  "validateFieldName field =
     (if field = [] then Some (wrapf ErrUnsupportedOperator [''empty field name''])
      else if scan_field 0 field then None
      else Some (wrapf ErrUnsupportedOperator [''invalid field name '', go_quote field]))"

definition buildCondition :: "condition \<Rightarrow> gerr + (string \<times> cell list)" where
  "buildCondition c =
     (case validateFieldName (cnd_field c) of
        Some e \<Rightarrow> Inl e
      | None \<Rightarrow>
          if cnd_op c \<in> set [OpEqual, OpNotEqual, OpGreaterThan, OpGreaterEqual, OpLessThan, OpLessEqual, OpLike]
          then Inr (cnd_field c @ '' '' @ cnd_op c @ '' ?'', [cnd_value c])
          else if cnd_op c = OpIn then Inr (cnd_field c @ '' IN ?'', [cnd_value c])
          else Inl (wrapf ErrUnsupportedOperator [go_quote (cnd_op c)]))"

text \<open>The \<open>Where\<close> calls of \<open>apply\<close>: each condition becomes one conjunct.\<close>

fun apply_conds :: "condition list \<Rightarrow> gerr + where_expr list" where
  "apply_conds [] = Inr []"
| "apply_conds (c # cs) =
     (case buildCondition c of
        Inl e \<Rightarrow> Inl e
      | Inr (expr, args) \<Rightarrow> (case apply_conds cs of Inl e \<Rightarrow> Inl e | Inr ws \<Rightarrow> Inr (Frag expr args # ws)))"

definition translateError :: "'d engine \<Rightarrow> gerr \<Rightarrow> gerr" where
  "translateError E err =
     (if errors_is err (ErrNew (eng_ErrRecordNotFound E)) then ErrNotFound
      else if errors_is err (ErrNew (eng_ErrDuplicatedKey E)) then wrapf ErrDuplicate [err_text err]
      else err)"

fun translate_res :: "'d engine \<Rightarrow> (gerr + 'a) \<times> 'd \<Rightarrow> (gerr + 'a) \<times> 'd" where
  "translate_res E (Inl e, d) = (Inl (translateError E e), d)"
| "translate_res E (Inr x, d) = (Inr x, d)"

definition translate_err :: "'d engine \<Rightarrow> gerr option \<times> 'd \<Rightarrow> gerr option \<times> 'd" where
  "translate_err E = apfst (map_option (translateError E))"

text \<open>
  The statement a chain of builder calls has when the processor's callbacks run: the
  context, the conjuncts, the model and destination as the adapter passed them, and the
  table and model type GORM parsed.
\<close>

definition new_stmt ::
  "'d engine \<Rightarrow> go_ctx \<Rightarrow> rtype \<Rightarrow> rtype option \<Rightarrow> rtype option \<Rightarrow> where_expr list \<Rightarrow> rvalue \<Rightarrow> stmt" where
  "new_stmt E ctx t model dest ws v =
     \<lparr>s_error = None, s_ctx = ctx, s_sql = [], s_table = fst (eng_parse E t), s_model = model,
      s_dest = dest, s_schema = Some (snd (eng_parse E t)), s_joins = [], s_from_joins = [],
      s_where = ws, s_value = v\<rparr>"

definition model_value :: "gomodel \<Rightarrow> rvalue" where
  "model_value m = RPtr (Some (RStruct (implementsTenantAware (md_type m)) (md_keys m)))"

definition GormStore_Find ::
  "isolation \<Rightarrow> 'd engine \<Rightarrow> go_ctx \<Rightarrow> gomodel \<Rightarrow> condition list \<Rightarrow> 'd \<Rightarrow> (gerr + row list) \<times> 'd" where
  "GormStore_Find tn E ctx dest conds d =
     (case apply_conds conds of
        Inl e \<Rightarrow> (Inl e, d)
      | Inr ws \<Rightarrow> translate_res E (eng_select E (RegisterIsolation tn PQuery
          (new_stmt E ctx (md_type dest) None (Some (md_type dest)) ws (model_value dest))) d))"

definition GormStore_First ::
  "isolation \<Rightarrow> 'd engine \<Rightarrow> go_ctx \<Rightarrow> gomodel \<Rightarrow> condition list \<Rightarrow> 'd \<Rightarrow> (gerr + row) \<times> 'd" where
  "GormStore_First tn E ctx dest conds d =
     (case apply_conds conds of
        Inl e \<Rightarrow> (Inl e, d)
      | Inr ws \<Rightarrow> translate_res E (eng_first E (RegisterIsolation tn PQuery
          (new_stmt E ctx (md_type dest) None (Some (md_type dest)) ws (model_value dest))) d))"

definition GormStore_Count ::
  "isolation \<Rightarrow> 'd engine \<Rightarrow> go_ctx \<Rightarrow> gomodel \<Rightarrow> condition list \<Rightarrow> 'd \<Rightarrow> (gerr + int) \<times> 'd" where
  "GormStore_Count tn E ctx model conds d =
     (case apply_conds conds of
        Inl e \<Rightarrow> (Inl e, d)
      | Inr ws \<Rightarrow> translate_res E (eng_count E (RegisterIsolation tn PQuery
          (new_stmt E ctx (md_type model) (Some (md_type model)) (Some (TPtr TOther)) ws (model_value model))) d))"

definition GormStore_Create ::
  "isolation \<Rightarrow> 'd engine \<Rightarrow> go_ctx \<Rightarrow> gomodel \<Rightarrow> rvalue \<Rightarrow> 'd \<Rightarrow> gerr option \<times> 'd" where
  "GormStore_Create tn E ctx model v d =
     translate_err E (eng_insert E (RegisterIsolation tn PCreate
       (new_stmt E ctx (md_type model) None (Some (md_type model)) [] v)) d)"

definition GormStore_Update ::
  "isolation \<Rightarrow> 'd engine \<Rightarrow> go_ctx \<Rightarrow> gomodel \<Rightarrow> row \<Rightarrow> condition list \<Rightarrow> 'd \<Rightarrow> gerr option \<times> 'd" where
  "GormStore_Update tn E ctx model changes conds d =
     (if conds = [] then (Some (wrapf ErrUnconditional [''update'']), d)
      else (case apply_conds conds of
        Inl e \<Rightarrow> (Some e, d)
      | Inr ws \<Rightarrow> translate_err E (eng_update E changes (RegisterIsolation tn PUpdate
          (new_stmt E ctx (md_type model) (Some (md_type model)) (Some TOther) ws (model_value model))) d)))"

definition GormStore_Delete ::
  "isolation \<Rightarrow> 'd engine \<Rightarrow> go_ctx \<Rightarrow> gomodel \<Rightarrow> condition list \<Rightarrow> 'd \<Rightarrow> gerr option \<times> 'd" where
  "GormStore_Delete tn E ctx model conds d =
     (if conds = [] then (Some (wrapf ErrUnconditional [''delete'']), d)
      else (case apply_conds conds of
        Inl e \<Rightarrow> (Some e, d)
      | Inr ws \<Rightarrow> translate_err E (eng_delete E (RegisterIsolation tn PDelete
          (new_stmt E ctx (md_type model) None (Some (md_type model)) ws (model_value model))) d)))"

definition GormStore_Transact ::
  "'d engine \<Rightarrow> go_ctx \<Rightarrow> ('d \<Rightarrow> gerr option \<times> 'd) \<Rightarrow> 'd \<Rightarrow> gerr option \<times> 'd" where
  "GormStore_Transact E ctx fn d = translate_err E (eng_transaction E ctx fn d)"

definition NewGormStore :: "isolation \<Rightarrow> 'd engine \<Rightarrow> 'd store" where
  "NewGormStore tn E =
     \<lparr>Find = GormStore_Find tn E, First = GormStore_First tn E, Count = GormStore_Count tn E,
      Create = GormStore_Create tn E, Update = GormStore_Update tn E, Delete = GormStore_Delete tn E,
      Transact = GormStore_Transact E\<rparr>"

section \<open>What the adapter relies on\<close>

text \<open>Rows a statement addresses: every conjunct holds, and the model's set key columns agree.\<close>

fun where_holds :: "(string \<Rightarrow> cell list \<Rightarrow> row \<Rightarrow> bool) \<Rightarrow> string \<Rightarrow> row \<Rightarrow> where_expr \<Rightarrow> bool" where
  "where_holds sat table r (EqCol t c v) = ((t = [] \<or> t = table) \<and> mget r c = Some (CStr v))"
| "where_holds sat table r (Frag expr args) = sat expr args r"

definition addressed ::
  "(string \<Rightarrow> cell list \<Rightarrow> row \<Rightarrow> bool) \<Rightarrow> stmt \<Rightarrow> row \<Rightarrow> bool" where
  "addressed sat st r = (list_all (where_holds sat (s_table st) r) (s_where st) \<and>
     list_all (\<lambda>m. agrees m r) (rows_of (s_value st)))"

text \<open>The engine's own errors carry none of the repository's sentinels.\<close>

definition clean :: "gerr \<Rightarrow> bool" where
  "clean e \<longleftrightarrow> (\<forall>t. has_prefix t ''modulekit: '' \<or> has_prefix t ''tenancy: '' \<longrightarrow> \<not> errors_is e (ErrNew t))"

text \<open>
  The documented behaviour of the engine: parameterised conditions mean what SQL says, a
  statement with an error is not executed, reads return the addressed rows, writes change
  exactly the addressed rows, a primary key is unique, a failed statement changes nothing,
  and a transaction commits or restores every table.
\<close>

definition sat_ok :: "(string \<Rightarrow> cell list \<Rightarrow> row \<Rightarrow> bool) \<Rightarrow> bool" where
  "sat_ok sat \<longleftrightarrow> (\<forall>f v r. bare_name f \<longrightarrow>
     sat (f @ '' = ?'') [v] r = (mget r f = Some v \<and> v \<noteq> CNull)) \<and>
   (\<forall>f vs r. bare_name f \<longrightarrow>
     sat (f @ '' IN ?'') [CList vs] r = (\<exists>v\<in>set vs. mget r f = Some v \<and> v \<noteq> CNull)) \<and>
   (\<forall>f t r. bare_name f \<longrightarrow>
     sat (f @ '' <= ?'') [CTime t] r = (\<exists>a. mget r f = Some (CTime a) \<and> a \<le> t))"

definition reads_ok ::
  "(stmt \<Rightarrow> 'd \<Rightarrow> (gerr + 'a) \<times> 'd) \<Rightarrow> ('d \<Rightarrow> string \<Rightarrow> row list) \<Rightarrow> ('d \<Rightarrow> 'e) \<Rightarrow>
   ('a \<Rightarrow> row list \<Rightarrow> bool) \<Rightarrow> (stmt \<Rightarrow> row \<Rightarrow> bool) \<Rightarrow> bool" where
  "reads_ok q tbl ext good sel \<longleftrightarrow> (\<forall>st d res d'. q st d = (res, d') \<longrightarrow>
     tbl d' = tbl d \<and> ext d' = ext d \<and>
     (s_error st \<noteq> None \<longrightarrow> res = Inl (the (s_error st))) \<and>
     (s_error st = None \<longrightarrow> (case res of Inl e \<Rightarrow> clean e | Inr x \<Rightarrow> good x (filter (sel st) (tbl d (s_table st))))))"

definition writes_ok ::
  "(stmt \<Rightarrow> 'd \<Rightarrow> gerr option \<times> 'd) \<Rightarrow> ('d \<Rightarrow> string \<Rightarrow> row list) \<Rightarrow> ('d \<Rightarrow> 'e) \<Rightarrow>
   (stmt \<Rightarrow> row list \<Rightarrow> row list) \<Rightarrow> bool" where
  "writes_ok x tbl ext f \<longleftrightarrow> (\<forall>st d res d'. x st d = (res, d') \<longrightarrow>
     ext d' = ext d \<and>
     (s_error st \<noteq> None \<longrightarrow> res = s_error st) \<and>
     (s_error st = None \<longrightarrow> (\<forall>e. res = Some e \<longrightarrow> clean e)) \<and>
     tbl d' = (if res = None then (tbl d)(s_table st := f st (tbl d (s_table st))) else tbl d))"

definition keys_ok :: "'d engine \<Rightarrow> ('d \<Rightarrow> string \<Rightarrow> row list) \<Rightarrow> (string \<Rightarrow> string list list) \<Rightarrow> bool" where
  "keys_ok E tbl pk \<longleftrightarrow> (\<forall>st d d'. s_error st = None \<longrightarrow>
     (eng_insert E st d = (None, d') \<longrightarrow>
        (\<forall>r\<in>set (rows_of (s_value st)). \<forall>r'\<in>set (tbl d (s_table st)). \<not> clashes (pk (s_table st)) r' r)) \<and>
     (\<forall>e. eng_insert E st d = (Some e, d') \<and> errors_is e (ErrNew (eng_ErrDuplicatedKey E)) \<and>
          length (rows_of (s_value st)) = 1 \<longrightarrow>
        (\<exists>r\<in>set (rows_of (s_value st)). \<exists>r'\<in>set (tbl d (s_table st)). clashes (pk (s_table st)) r' r)))"

definition transaction_ok :: "'d engine \<Rightarrow> ('d \<Rightarrow> string \<Rightarrow> row list) \<Rightarrow> ('d \<Rightarrow> 'e) \<Rightarrow> bool" where
  "transaction_ok E tbl ext \<longleftrightarrow> (\<forall>ctx f d res d'. eng_transaction E ctx f d = (res, d') \<longrightarrow>
     (\<exists>e. res = Some e \<and> clean e \<and> tbl d' = tbl d \<and> ext d' = ext d) \<or>
     (\<exists>d0 e1 d1. tbl d0 = tbl d \<and> ext d0 = ext d \<and> f d0 = (e1, d1) \<and> ext d' = ext d1 \<and>
        (case e1 of
           None \<Rightarrow> res = None \<and> tbl d' = tbl d1 \<or> (\<exists>e. res = Some e \<and> clean e \<and> tbl d' = tbl d)
         | Some e \<Rightarrow> res = Some e \<and> tbl d' = tbl d)))"

definition engine_ok ::
  "'d engine \<Rightarrow> ('d \<Rightarrow> string \<Rightarrow> row list) \<Rightarrow> ('d \<Rightarrow> 'e) \<Rightarrow> (string \<Rightarrow> string list list) \<Rightarrow>
   (string \<Rightarrow> cell list \<Rightarrow> row \<Rightarrow> bool) \<Rightarrow> bool" where
  "engine_ok E tbl ext pk sat \<longleftrightarrow>
     (\<forall>t. snd (eng_parse E t) = base_type t \<and>
        (\<forall>n aware. base_type t = TStruct n aware \<longrightarrow> fst (eng_parse E t) = n)) \<and> sat_ok sat \<and>
     reads_ok (eng_select E) tbl ext (\<lambda>rows sel. mset rows = mset sel) (addressed sat) \<and>
     reads_ok (eng_first E) tbl ext (\<lambda>r sel. r \<in> set sel) (addressed sat) \<and>
     (\<forall>st d e d'. s_error st = None \<and> eng_first E st d = (Inl e, d') \<and>
        errors_is e (ErrNew (eng_ErrRecordNotFound E)) \<longrightarrow> filter (addressed sat st) (tbl d (s_table st)) = []) \<and>
     reads_ok (eng_count E) tbl ext (\<lambda>n sel. n = int (length sel)) (addressed sat) \<and>
     writes_ok (eng_insert E) tbl ext (\<lambda>st rows. rows @ rows_of (s_value st)) \<and>
     keys_ok E tbl pk \<and>
     (\<forall>changes. writes_ok (eng_update E changes) tbl ext
        (\<lambda>st. map (\<lambda>r. if addressed sat st r then apply_changes changes r else r))) \<and>
     writes_ok (eng_delete E) tbl ext (\<lambda>st. filter (\<lambda>r. \<not> addressed sat st r)) \<and>
     transaction_ok E tbl ext \<and>
     \<not> has_prefix (eng_ErrRecordNotFound E) ''modulekit: '' \<and> \<not> has_prefix (eng_ErrRecordNotFound E) ''tenancy: '' \<and>
     \<not> has_prefix (eng_ErrDuplicatedKey E) ''modulekit: '' \<and> \<not> has_prefix (eng_ErrDuplicatedKey E) ''tenancy: ''"

section \<open>Conditions reach the engine unchanged\<close>

lemma scan_field_iff: "scan_field i f \<longleftrightarrow> list_all (\<lambda>(j, c). bare_char j c) (enumerate i f)"
  by (induction f arbitrary: i) (auto simp: Let_def bare_char_def)

lemma validateFieldName_None_iff: "validateFieldName f = None \<longleftrightarrow> bare_name f"
  by (simp add: validateFieldName_def bare_name_def scan_field_iff)

lemma buildCondition_plain:
  assumes "plain_cond c" and "sat_ok sat"
  obtains expr args where "buildCondition c = Inr (expr, args)" "\<And>r. sat expr args r = cond_holds r c"
proof -
  have f: "bare_name (cnd_field c)" using assms(1) by (simp add: plain_cond_def)
  have v: "validateFieldName (cnd_field c) = None" using f by (simp add: validateFieldName_None_iff)
  from assms(1) consider (eq) "cnd_op c = OpEqual" | (mem) vs where "cnd_op c = OpIn" "cnd_value c = CList vs"
    | (le) t where "cnd_op c = OpLessEqual" "cnd_value c = CTime t"
    by (auto simp: plain_cond_def split: cell.splits)
  then show ?thesis
  proof cases
    case eq
    have "sat (cnd_field c @ '' = ?'') [cnd_value c] r = cond_holds r c" for r
      using assms(2) f eq by (auto simp: sat_ok_def cond_holds_def operator_defs split: option.splits)
    then show ?thesis
      using v eq by (intro that[of "cnd_field c @ '' = ?''" "[cnd_value c]"])
        (simp_all add: buildCondition_def operator_defs)
  next
    case (mem vs)
    have "sat (cnd_field c @ '' IN ?'') [CList vs] r = cond_holds r c" for r
      using assms(2) f mem by (auto simp: sat_ok_def cond_holds_def split: option.splits)
    then show ?thesis
      using v mem by (intro that[of "cnd_field c @ '' IN ?''" "[CList vs]"])
        (simp_all add: buildCondition_def operator_defs)
  next
    case (le t)
    have "sat (cnd_field c @ '' <= ?'') [CTime t] r = cond_holds r c" for r
      using assms(2) f le by (auto simp: sat_ok_def cond_holds_def operator_defs split: option.splits)
    then show ?thesis
      using v le by (intro that[of "cnd_field c @ '' <= ?''" "[CTime t]"])
        (simp_all add: buildCondition_def operator_defs)
  qed
qed

lemma apply_conds_plain:
  assumes "list_all plain_cond cs" and "sat_ok sat"
  obtains ws where "apply_conds cs = Inr ws"
    "\<And>table r. list_all (where_holds sat table r) ws = list_all (cond_holds r) cs"
  using assms(1)
proof (induction cs arbitrary: thesis)
  case (Cons c cs)
  obtain ws where ws: "apply_conds cs = Inr ws"
    "\<And>table r. list_all (where_holds sat table r) ws = list_all (cond_holds r) cs"
    using Cons.IH Cons.prems(2) by auto
  obtain expr args where "buildCondition c = Inr (expr, args)" "\<And>r. sat expr args r = cond_holds r c"
    using buildCondition_plain[OF _ assms(2)] Cons.prems(2) by auto
  then show ?case using ws by (intro Cons.prems(1)[of "Frag expr args # ws"]) auto
qed simp

text \<open>
  What a condition means: the three plain forms are spelt out, any other operator on a bare column
  means what the engine makes of the parameterised comparison. The adapter accepts exactly the
  conditions on bare columns with one of the eight operators, and passes them on with this meaning.
\<close>

definition valid_cond :: "condition \<Rightarrow> bool" where
  "valid_cond c = (bare_name (cnd_field c) \<and>
     cnd_op c \<in> set [OpEqual, OpNotEqual, OpGreaterThan, OpGreaterEqual, OpLessThan, OpLessEqual, OpIn, OpLike])"

definition cond_sem :: "(string \<Rightarrow> cell list \<Rightarrow> row \<Rightarrow> bool) \<Rightarrow> row \<Rightarrow> condition \<Rightarrow> bool" where
  "cond_sem sat r c =
     (if plain_cond c then cond_holds r c else sat (cnd_field c @ '' '' @ cnd_op c @ '' ?'') [cnd_value c] r)"

definition conds_mean ::
  "(string \<Rightarrow> cell list \<Rightarrow> row \<Rightarrow> bool) \<Rightarrow> (row \<Rightarrow> condition \<Rightarrow> bool) \<Rightarrow> condition list \<Rightarrow> where_expr list \<Rightarrow> bool" where
  "conds_mean sat holds cs ws \<longleftrightarrow> apply_conds cs = Inr ws \<and>
     (\<forall>table r. list_all (where_holds sat table r) ws = list_all (holds r) cs)"

definition selects_by ::
  "(row \<Rightarrow> condition \<Rightarrow> bool) \<Rightarrow> go_ctx \<Rightarrow> bool \<Rightarrow> gomodel \<Rightarrow> condition list \<Rightarrow> row \<Rightarrow> bool" where
  "selects_by holds ctx sc m conds r =
     (in_scope ctx sc r \<and> list_all (holds r) conds \<and> agrees (md_keys m) r)"

lemma selects_by_cond_holds: "selects_by cond_holds = selects"
  by (simp add: fun_eq_iff selects_by_def selects_def)

lemma plain_conds_mean:
  assumes "sat_ok sat" and "list_all plain_cond cs"
  obtains ws where "conds_mean sat cond_holds cs ws"
  using apply_conds_plain[OF assms(2,1)] unfolding conds_mean_def by blast

lemma buildCondition_Inl:
  assumes "buildCondition c = Inl e"
  shows "\<not> valid_cond c \<and> errors_is e ErrUnsupportedOperator"
proof -
  have "errors_is e ErrUnsupportedOperator"
    using assms by (auto simp: buildCondition_def validateFieldName_def wrapf_def ErrUnsupportedOperator_def split: option.splits if_splits)
  moreover have "\<not> valid_cond c"
    using assms validateFieldName_None_iff[of "cnd_field c"]
    by (auto simp: buildCondition_def valid_cond_def split: option.splits if_splits)
  ultimately show ?thesis by blast
qed

lemma buildCondition_Inr:
  assumes "buildCondition c = Inr (expr, args)" and "sat_ok sat"
  shows "valid_cond c \<and> (\<forall>r. sat expr args r = cond_sem sat r c)"
proof
  show "valid_cond c"
    using assms(1) validateFieldName_None_iff[of "cnd_field c"]
    by (auto simp: buildCondition_def valid_cond_def split: option.splits if_splits)
  have shape: "expr = cnd_field c @ '' '' @ cnd_op c @ '' ?''" "args = [cnd_value c]"
    using assms(1) by (auto simp: buildCondition_def OpIn_def split: option.splits if_splits)
  show "\<forall>r. sat expr args r = cond_sem sat r c"
  proof (cases "plain_cond c")
    case True
    from buildCondition_plain[OF True assms(2)] assms(1) True show ?thesis by (auto simp: cond_sem_def)
  next
    case False
    then show ?thesis by (simp add: cond_sem_def shape)
  qed
qed

lemma apply_conds_Inl: "apply_conds cs = Inl e \<Longrightarrow> \<not> list_all valid_cond cs \<and> errors_is e ErrUnsupportedOperator"
  by (induction cs) (auto split: sum.splits prod.splits dest: buildCondition_Inl)

lemma apply_conds_Inr:
  assumes "sat_ok sat" and "apply_conds cs = Inr ws"
  shows "list_all valid_cond cs \<and> conds_mean sat (cond_sem sat) cs ws"
  using assms(2)
proof (induction cs arbitrary: ws)
  case (Cons c cs)
  obtain expr args ws' where c: "buildCondition c = Inr (expr, args)" "apply_conds cs = Inr ws'" "ws = Frag expr args # ws'"
    using Cons.prems by (auto split: sum.splits prod.splits)
  from Cons.IH[OF c(2)] buildCondition_Inr[OF c(1) assms(1)] c show ?case by (auto simp: conds_mean_def)
qed (simp add: conds_mean_def)

section \<open>The statements the adapter builds\<close>

definition scoped_type :: "isolation \<Rightarrow> 'd engine \<Rightarrow> rtype \<Rightarrow> bool" where
  "scoped_type tn E t = (implementsTenantAware t \<or> isScopedTable tn (fst (eng_parse E t)))"

lemma implementsTenantAware_base: "implementsTenantAware (base_type t) = implementsTenantAware t"
  by (induction t) auto

lemma is_TenantAware_implements: "is_TenantAware t \<Longrightarrow> implementsTenantAware t"
  by (induction t rule: is_TenantAware.induct) auto

text \<open>What the query callback makes of a statement that has no raw SQL and no joins.\<close>

definition scopes_right ::
  "(string \<Rightarrow> cell list \<Rightarrow> row \<Rightarrow> bool) \<Rightarrow> go_ctx \<Rightarrow> bool \<Rightarrow> stmt \<Rightarrow> stmt \<Rightarrow> bool" where
  "scopes_right sat ctx sc st st' \<longleftrightarrow> s_table st' = s_table st \<and>
     (if needs_tenant ctx sc \<and> ctx_tenant ctx = [] then s_error st' = Some ErrNoTenantContext
      else s_error st' = None \<and> (\<forall>r. addressed sat st' r =
        (in_scope ctx sc r \<and> list_all (where_holds sat (s_table st) r) (s_where st) \<and>
         list_all (\<lambda>m. agrees m r) (rows_of (s_value st)))))"

lemma row_tenant_iff: "t \<noteq> [] \<Longrightarrow> row_tenant r = t \<longleftrightarrow> mget r tenant_column = Some (CStr t)"
  by (auto simp: row_tenant_def split: option.splits cell.splits)

lemma scopeQuery_right:
  assumes "s_error st = None" "s_sql st = []" "s_joins st = []" "s_from_joins st = []"
    "isScoped tn st = sc" "s_ctx st = ctx"
  shows "scopes_right sat ctx sc st (scopeQuery tn st)"
proof -
  have [simp]: "joinedScopedTable tn st = None" using assms by (simp add: joinedScopedTable_def)
  have [simp]: "ColumnName = tenant_column" by (simp add: ColumnName_def tenant_column_def)
  show ?thesis
    using assms
    by (cases "needs_tenant ctx sc"; cases "ctx_tenant ctx = []")
      (auto simp: scopes_right_def scopeQuery_def needs_tenant_def in_scope_def addressed_def
        clauseForTenant_def row_tenant_iff)
qed

lemma new_stmt_fields [simp]:
  "s_error (new_stmt E ctx t mo de ws v) = None" "s_ctx (new_stmt E ctx t mo de ws v) = ctx"
  "s_sql (new_stmt E ctx t mo de ws v) = []" "s_table (new_stmt E ctx t mo de ws v) = fst (eng_parse E t)"
  "s_joins (new_stmt E ctx t mo de ws v) = []" "s_from_joins (new_stmt E ctx t mo de ws v) = []"
  "s_where (new_stmt E ctx t mo de ws v) = ws" "s_value (new_stmt E ctx t mo de ws v) = v"
  by (simp_all add: new_stmt_def)

lemma new_stmt_scoped:
  assumes "snd (eng_parse E t) = base_type t"
    and "mo \<in> {None, Some t}" and "de \<in> {Some t, Some TOther, Some (TPtr TOther)}"
  shows "isScoped tn (new_stmt E ctx t mo de ws v) = scoped_type tn E t"
proof -
  have "implementsTenantAware (TPtr (base_type t)) = implementsTenantAware t"
    by (simp add: implementsTenantAware_base)
  then show ?thesis
    using assms is_TenantAware_implements[of t]
    by (auto simp: isScoped_def new_stmt_def scoped_type_def simp del: implementsTenantAware.simps(1))
      (auto simp: implementsTenantAware.simps)
qed

lemma new_stmt_right:
  assumes "snd (eng_parse E t) = base_type t"
    and "mo \<in> {None, Some t}" and "de \<in> {Some t, Some TOther, Some (TPtr TOther)}"
  shows "scopes_right sat ctx (scoped_type tn E t) (new_stmt E ctx t mo de ws v)
     (scopeQuery tn (new_stmt E ctx t mo de ws v))"
  by (rule scopeQuery_right) (simp_all add: new_stmt_scoped[OF assms])

section \<open>The adapter provides the contract\<close>

text \<open>A statement's rows as the contract names them.\<close>

definition chosen ::
  "(string \<Rightarrow> cell list \<Rightarrow> row \<Rightarrow> bool) \<Rightarrow> go_ctx \<Rightarrow> bool \<Rightarrow> stmt \<Rightarrow> row \<Rightarrow> bool" where
  "chosen sat ctx sc st r = (in_scope ctx sc r \<and> list_all (where_holds sat (s_table st) r) (s_where st) \<and>
     list_all (\<lambda>m. agrees m r) (rows_of (s_value st)))"

lemma read_scoped:
  assumes "reads_ok q tbl ext good (addressed sat)" and "scopes_right sat ctx sc st st'"
    and "translate_res E (q st' d) = (res, d')"
  shows "tbl d' = tbl d \<and> ext d' = ext d \<and>
    (\<forall>x. res = Inr x \<longrightarrow> \<not> (needs_tenant ctx sc \<and> ctx_tenant ctx = []) \<and>
       good x (filter (chosen sat ctx sc st) (tbl d (s_table st))))"
proof -
  obtain res0 d0 where q: "q st' d = (res0, d0)" by fastforce
  have "d' = d0" "res = Inr x \<Longrightarrow> res0 = Inr x" for x
    using assms(3) q by (cases res0; simp)+
  moreover have "s_error st' = None \<Longrightarrow> addressed sat st' = chosen sat ctx sc st"
    using assms(2) by (auto simp: scopes_right_def chosen_def fun_eq_iff split: if_splits)
  ultimately show ?thesis
    using assms(1)[unfolded reads_ok_def, rule_format, OF q] assms(2)
    by (cases "s_error st'") (auto simp: scopes_right_def split: if_splits)
qed

lemma write_scoped:
  assumes "writes_ok x tbl ext f" and "scopes_right sat ctx sc st st'"
    and "translate_err E (x st' d) = (res, d')"
  shows "ext d' = ext d \<and> (res \<noteq> None \<longrightarrow> tbl d' = tbl d) \<and>
    (res = None \<longrightarrow> \<not> (needs_tenant ctx sc \<and> ctx_tenant ctx = []) \<and>
       addressed sat st' = chosen sat ctx sc st \<and>
       tbl d' = (tbl d)(s_table st := f st' (tbl d (s_table st))))"
proof -
  obtain res0 d0 where q: "x st' d = (res0, d0)" by fastforce
  have "d' = d0" "(res = None) = (res0 = None)"
    using assms(3) q by (auto simp: translate_err_def)
  moreover have "s_error st' = None \<Longrightarrow> addressed sat st' = chosen sat ctx sc st"
    using assms(2) by (auto simp: scopes_right_def chosen_def fun_eq_iff split: if_splits)
  ultimately show ?thesis
    using assms(1)[unfolded writes_ok_def, rule_format, OF q] assms(2)
    by (cases "s_error st'") (auto simp: scopes_right_def split: if_splits)
qed

lemma engine_okD:
  assumes "engine_ok E tbl ext pk sat"
  shows "snd (eng_parse E t) = base_type t" "sat_ok sat"
    "reads_ok (eng_select E) tbl ext (\<lambda>rows sel. mset rows = mset sel) (addressed sat)"
    "reads_ok (eng_first E) tbl ext (\<lambda>r sel. r \<in> set sel) (addressed sat)"
    "\<lbrakk>s_error st = None; eng_first E st d = (Inl e, d');
      errors_is e (ErrNew (eng_ErrRecordNotFound E))\<rbrakk> \<Longrightarrow> filter (addressed sat st) (tbl d (s_table st)) = []"
    "reads_ok (eng_count E) tbl ext (\<lambda>n sel. n = int (length sel)) (addressed sat)"
    "writes_ok (eng_insert E) tbl ext (\<lambda>st rows. rows @ rows_of (s_value st))"
    "keys_ok E tbl pk"
    "writes_ok (eng_update E changes) tbl ext
        (\<lambda>st. map (\<lambda>r. if addressed sat st r then apply_changes changes r else r))"
    "writes_ok (eng_delete E) tbl ext (\<lambda>st. filter (\<lambda>r. \<not> addressed sat st r))"
    "transaction_ok E tbl ext"
    "\<not> has_prefix (eng_ErrRecordNotFound E) ''modulekit: ''" "\<not> has_prefix (eng_ErrRecordNotFound E) ''tenancy: ''"
    "\<not> has_prefix (eng_ErrDuplicatedKey E) ''modulekit: ''" "\<not> has_prefix (eng_ErrDuplicatedKey E) ''tenancy: ''"
    "base_type t = TStruct n aware \<Longrightarrow> fst (eng_parse E t) = n"
  using assms unfolding engine_ok_def by blast+

lemma keys_okD:
  assumes "keys_ok E tbl pk" and "s_error st = None" and "rows_of (s_value st) = [r]"
  shows "eng_insert E st d = (None, d') \<Longrightarrow> \<forall>r'\<in>set (tbl d (s_table st)). \<not> clashes (pk (s_table st)) r' r"
    "\<lbrakk>eng_insert E st d = (Some e, d'); errors_is e (ErrNew (eng_ErrDuplicatedKey E))\<rbrakk> \<Longrightarrow>
       \<exists>r'\<in>set (tbl d (s_table st)). clashes (pk (s_table st)) r' r"
proof -
  note law = assms(1)[unfolded keys_ok_def, rule_format, OF assms(2), of d d']
  show "eng_insert E st d = (None, d') \<Longrightarrow> \<forall>r'\<in>set (tbl d (s_table st)). \<not> clashes (pk (s_table st)) r' r"
    using law assms(3) by simp
  assume "eng_insert E st d = (Some e, d')" "errors_is e (ErrNew (eng_ErrDuplicatedKey E))"
  then show "\<exists>r'\<in>set (tbl d (s_table st)). clashes (pk (s_table st)) r' r"
    using conjunct2[OF law] assms(3) by auto
qed

definition gorm_error :: "'d engine \<Rightarrow> gerr \<Rightarrow> bool" where
  "gorm_error E e = (errors_is e (ErrNew (eng_ErrRecordNotFound E)) \<or> errors_is e (ErrNew (eng_ErrDuplicatedKey E)))"

lemma gorm_error_wrap: "gorm_error E (ErrWrap t ws) \<longleftrightarrow> list_ex (gorm_error E) ws"
  by (induction ws) (auto simp: gorm_error_def)

lemma gorm_error_own:
  assumes "engine_ok E tbl ext pk sat"
    and "has_prefix t ''modulekit: '' \<or> has_prefix t ''tenancy: ''"
  shows "\<not> gorm_error E (ErrNew t)"
  using assms(2) engine_okD(12-15)[OF assms(1)] by (auto simp: gorm_error_def)

lemma translateError_own [simp]: "\<not> gorm_error E e \<Longrightarrow> translateError E e = e"
  by (simp add: translateError_def gorm_error_def)

lemma foreign_translate_gorm [simp]: "gorm_error E e \<Longrightarrow> foreign (translateError E e)"
  by (auto simp: foreign_def gorm_error_def translateError_def sentinel_defs wrapf_def)

lemma foreign_translate [simp]: "clean e \<Longrightarrow> foreign (translateError E e)"
  by (auto simp: foreign_def clean_def translateError_def sentinel_defs wrapf_def)

lemma ErrNoTenantContext_own:
  assumes "engine_ok E tbl ext pk sat"
  shows "translateError E ErrNoTenantContext = ErrNoTenantContext"
  by (rule translateError_own, unfold ErrNoTenantContext_def, rule gorm_error_own[OF assms]) simp

lemma foreign_ErrNoTenantContext: "foreign ErrNoTenantContext"
  by (auto simp: foreign_def ErrNoTenantContext_def)

lemma foreign_mismatch: "stamp_record t r = Inl e \<Longrightarrow> foreign e"
  by (auto simp: foreign_def stamp_record_def Let_def wrapf_def ErrTenantMismatch_def split: if_splits)

lemma read_foreign:
  assumes "engine_ok E tbl ext pk sat" and "reads_ok q tbl ext good sel" and "scopes_right sat ctx sc st st'"
    and "translate_res E (q st' d) = (Inl e, d')"
  shows "foreign e"
proof -
  obtain e0 where q: "q st' d = (Inl e0, d')" "e = translateError E e0"
    using assms(4) by (cases "fst (q st' d)"; cases "q st' d") auto
  show ?thesis
    using assms(2)[unfolded reads_ok_def, rule_format, OF q(1)] assms(3) q(2)
      ErrNoTenantContext_own[OF assms(1)] foreign_ErrNoTenantContext
    by (cases "s_error st'") (auto simp: scopes_right_def split: if_splits)
qed

lemma write_foreign:
  assumes "engine_ok E tbl ext pk sat" and "writes_ok x tbl ext f" and "scopes_right sat ctx sc st st'"
    and "translate_err E (x st' d) = (Some e, d')"
  shows "foreign e"
proof -
  obtain e0 where q: "x st' d = (Some e0, d')" "e = translateError E e0"
    using assms(4) by (cases "x st' d") (auto simp: translate_err_def)
  show ?thesis
    using assms(2)[unfolded writes_ok_def, rule_format, OF q(1)] assms(3) q(2)
      ErrNoTenantContext_own[OF assms(1)] foreign_ErrNoTenantContext
    by (cases "s_error st'") (auto simp: scopes_right_def split: if_splits)
qed

text \<open>The adapter's operations on conditions with a meaning \<open>holds\<close>, one law of the contract each.\<close>

abbreviation tbl_of :: "'d engine \<Rightarrow> rtype \<Rightarrow> string" where
  "tbl_of E t \<equiv> fst (eng_parse E t)"

lemma chosen_meant:
  assumes "\<And>table r. list_all (where_holds sat table r) ws = list_all (holds r) conds"
  shows "chosen sat ctx sc (new_stmt E ctx t mo de ws (model_value m)) =
     selects_by holds ctx sc m conds"
  using assms by (auto simp: fun_eq_iff chosen_def selects_by_def model_value_def)

lemma gorm_Find_spec:
  assumes "engine_ok E tbl ext pk sat" and "conds_mean sat holds conds ws"
    and "GormStore_Find tn E ctx m conds d = (res, d')"
  shows "tbl d' = tbl d \<and> ext d' = ext d \<and> (\<forall>e. res = Inl e \<longrightarrow> foreign e) \<and>
    (\<forall>rows. res = Inr rows \<longrightarrow> mset rows = mset (filter
       (selects_by holds ctx (scoped_type tn E (md_type m)) m conds) (tbl d (tbl_of E (md_type m)))))"
proof -
  note ok = engine_okD[OF assms(1)]
  have ws: "apply_conds conds = Inr ws" "\<And>table r. list_all (where_holds sat table r) ws = list_all (holds r) conds"
    using assms(2) by (auto simp: conds_mean_def)
  let ?st = "new_stmt E ctx (md_type m) None (Some (md_type m)) ws (model_value m)"
  have right: "scopes_right sat ctx (scoped_type tn E (md_type m)) ?st (scopeQuery tn ?st)"
    by (rule new_stmt_right[OF ok(1)]) simp_all
  have q: "translate_res E (eng_select E (scopeQuery tn ?st) d) = (res, d')"
    using assms(3) ws(1) by (simp add: GormStore_Find_def)
  have "foreign e" if "res = Inl e" for e
    using read_foreign[OF assms(1) ok(3) right] q that by blast
  with read_scoped[OF ok(3) right q] show ?thesis
    unfolding chosen_meant[OF ws(2)] by simp
qed

lemma gorm_Count_spec:
  assumes "engine_ok E tbl ext pk sat" and "conds_mean sat holds conds ws"
    and "GormStore_Count tn E ctx m conds d = (res, d')"
  shows "tbl d' = tbl d \<and> ext d' = ext d \<and>
    (\<forall>n. res = Inr n \<longrightarrow> n = int (length (filter
       (selects_by holds ctx (scoped_type tn E (md_type m)) m conds) (tbl d (tbl_of E (md_type m))))))"
proof -
  note ok = engine_okD[OF assms(1)]
  have ws: "apply_conds conds = Inr ws" "\<And>table r. list_all (where_holds sat table r) ws = list_all (holds r) conds"
    using assms(2) by (auto simp: conds_mean_def)
  let ?st = "new_stmt E ctx (md_type m) (Some (md_type m)) (Some (TPtr TOther)) ws (model_value m)"
  have "scopes_right sat ctx (scoped_type tn E (md_type m)) ?st (scopeQuery tn ?st)"
    by (rule new_stmt_right[OF ok(1)]) simp_all
  from read_scoped[OF ok(6) this] assms(3) ws(1) show ?thesis
    unfolding chosen_meant[OF ws(2)] by (simp add: GormStore_Count_def)
qed

lemma gorm_First_spec:
  assumes "engine_ok E tbl ext pk sat" and "conds_mean sat holds conds ws"
    and "GormStore_First tn E ctx m conds d = (res, d')"
  shows "tbl d' = tbl d \<and> ext d' = ext d \<and>
    (\<forall>r. res = Inr r \<longrightarrow> r \<in> set (tbl d (tbl_of E (md_type m))) \<and>
       selects_by holds ctx (scoped_type tn E (md_type m)) m conds r) \<and>
    (\<forall>e. res = Inl e \<longrightarrow> foreign e) \<and>
    (\<forall>e. res = Inl e \<longrightarrow> errors_is e ErrNotFound \<longrightarrow>
       (\<forall>r\<in>set (tbl d (tbl_of E (md_type m))).
          \<not> selects_by holds ctx (scoped_type tn E (md_type m)) m conds r))"
proof -
  note ok = engine_okD[OF assms(1)]
  let ?sc = "scoped_type tn E (md_type m)"
  have ws: "apply_conds conds = Inr ws" "\<And>table r. list_all (where_holds sat table r) ws = list_all (holds r) conds"
    using assms(2) by (auto simp: conds_mean_def)
  let ?st = "new_stmt E ctx (md_type m) None (Some (md_type m)) ws (model_value m)"
  have right: "scopes_right sat ctx ?sc ?st (scopeQuery tn ?st)"
    by (rule new_stmt_right[OF ok(1)]) simp_all
  have q: "translate_res E (eng_first E (scopeQuery tn ?st) d) = (res, d')"
    using assms(3) ws(1) by (simp add: GormStore_First_def)
  have none: "\<not> selects_by holds ctx ?sc m conds r"
    if res: "res = Inl e" "errors_is e ErrNotFound" and r: "r \<in> set (tbl d (tbl_of E (md_type m)))" for e r
  proof -
    obtain e0 d0 where f: "eng_first E (scopeQuery tn ?st) d = (Inl e0, d0)" "e = translateError E e0"
      using q res(1) by (cases "fst (eng_first E (scopeQuery tn ?st) d)"; cases "eng_first E (scopeQuery tn ?st) d") auto
    have law: "if s_error (scopeQuery tn ?st) \<noteq> None then e0 = the (s_error (scopeQuery tn ?st)) else clean e0"
      using ok(4)[unfolded reads_ok_def, rule_format, OF f(1)] by auto
    have "s_error (scopeQuery tn ?st) = None"
    proof (rule ccontr)
      assume err: "s_error (scopeQuery tn ?st) \<noteq> None"
      then have "s_error (scopeQuery tn ?st) = Some ErrNoTenantContext"
        using right by (auto simp: scopes_right_def split: if_splits)
      then have "e = ErrNoTenantContext"
        using law f(2) ErrNoTenantContext_own[OF assms(1)] by simp
      then show False using res(2) by (simp add: ErrNoTenantContext_def ErrNotFound_def)
    qed
    moreover from this have "errors_is e0 (ErrNew (eng_ErrRecordNotFound E))"
      using law f(2) res(2) unfolding clean_def
      by (auto simp: translateError_def sentinel_defs wrapf_def split: if_splits)
    ultimately have "filter (addressed sat (scopeQuery tn ?st)) (tbl d (s_table (scopeQuery tn ?st))) = []"
      using ok(5) f(1) by blast
    moreover have "addressed sat (scopeQuery tn ?st) = chosen sat ctx ?sc ?st"
      using right \<open>s_error (scopeQuery tn ?st) = None\<close>
      by (auto simp: scopes_right_def chosen_def fun_eq_iff split: if_splits)
    moreover have "s_table (scopeQuery tn ?st) = tbl_of E (md_type m)"
      using right by (simp add: scopes_right_def)
    ultimately show ?thesis using r unfolding chosen_meant[OF ws(2)] by (simp add: filter_empty_conv)
  qed
  have "foreign e" if "res = Inl e" for e
    using read_foreign[OF assms(1) ok(4) right] q that by blast
  with read_scoped[OF ok(4) right q] none show ?thesis
    unfolding chosen_meant[OF ws(2)] by auto
qed

lemma gorm_Update_spec:
  assumes "engine_ok E tbl ext pk sat" and "conds_mean sat holds conds ws"
    and "GormStore_Update tn E ctx m changes conds d = (res, d')"
  shows "ext d' = ext d \<and>
    (res = None \<longrightarrow> conds \<noteq> [] \<and> tbl d' = (tbl d)(tbl_of E (md_type m) := map (\<lambda>r.
       if selects_by holds ctx (scoped_type tn E (md_type m)) m conds r
       then apply_changes changes r else r) (tbl d (tbl_of E (md_type m))))) \<and>
    (res \<noteq> None \<longrightarrow> tbl d' = tbl d \<and> (conds \<noteq> [] \<longrightarrow> foreign (the res)))"
proof (cases "conds = []")
  case False
  note ok = engine_okD[OF assms(1)]
  have ws: "apply_conds conds = Inr ws" "\<And>table r. list_all (where_holds sat table r) ws = list_all (holds r) conds"
    using assms(2) by (auto simp: conds_mean_def)
  let ?st = "new_stmt E ctx (md_type m) (Some (md_type m)) (Some TOther) ws (model_value m)"
  have right: "scopes_right sat ctx (scoped_type tn E (md_type m)) ?st (scopeQuery tn ?st)"
    by (rule new_stmt_right[OF ok(1)]) simp_all
  have q: "translate_err E (eng_update E changes (scopeQuery tn ?st) d) = (res, d')"
    using assms(3) ws(1) False by (simp add: GormStore_Update_def)
  have "foreign (the res)" if "res \<noteq> None"
    using write_foreign[OF assms(1) ok(9)[of changes] right] q that by auto
  with write_scoped[OF ok(9)[of changes] right q] False show ?thesis
    unfolding chosen_meant[OF ws(2)] by auto
qed (use assms in \<open>auto simp: GormStore_Update_def\<close>)

lemma gorm_Delete_spec:
  assumes "engine_ok E tbl ext pk sat" and "conds_mean sat holds conds ws"
    and "GormStore_Delete tn E ctx m conds d = (res, d')"
  shows "ext d' = ext d \<and>
    (res = None \<longrightarrow> conds \<noteq> [] \<and> tbl d' = (tbl d)(tbl_of E (md_type m) := filter (\<lambda>r.
       \<not> selects_by holds ctx (scoped_type tn E (md_type m)) m conds r)
         (tbl d (tbl_of E (md_type m))))) \<and>
    (res \<noteq> None \<longrightarrow> tbl d' = tbl d)"
proof (cases "conds = []")
  case False
  note ok = engine_okD[OF assms(1)]
  have ws: "apply_conds conds = Inr ws" "\<And>table r. list_all (where_holds sat table r) ws = list_all (holds r) conds"
    using assms(2) by (auto simp: conds_mean_def)
  let ?st = "new_stmt E ctx (md_type m) None (Some (md_type m)) ws (model_value m)"
  have "scopes_right sat ctx (scoped_type tn E (md_type m)) ?st (scopeQuery tn ?st)"
    by (rule new_stmt_right[OF ok(1)]) simp_all
  from write_scoped[OF ok(10) this] assms(3) ws(1) False show ?thesis
    unfolding chosen_meant[OF ws(2)] by (auto simp: GormStore_Delete_def)
qed (use assms in \<open>auto simp: GormStore_Delete_def\<close>)

text \<open>A create of tenant-aware records: refused, or every record stamped with the caller's tenant.\<close>

lemma stampCreate_right:
  assumes "s_error st = None" and "isScoped tn st = sc" and "s_ctx st = ctx"
    and "s_value st = RPtr (Some v)" and "sc \<longrightarrow> all_aware v"
  shows "s_table (stampCreate tn st) = s_table st \<and>
    (s_error (stampCreate tn st) = None \<longrightarrow>
       rows_of (s_value (stampCreate tn st)) = map (stamped ctx sc) (rows_of (s_value st)) \<and>
       (needs_tenant ctx sc \<longrightarrow> ctx_tenant ctx \<noteq> [] \<and>
          (\<forall>r\<in>set (rows_of (s_value st)). row_tenant r \<in> {[], ctx_tenant ctx}))) \<and>
    (\<forall>e. s_error (stampCreate tn st) = Some e \<longrightarrow>
        needs_tenant ctx sc \<and> (e = ErrNoTenantContext \<or> errors_is e ErrTenantMismatch))"
proof (cases "needs_tenant ctx sc \<and> ctx_tenant ctx \<noteq> []")
  case False
  have "rows_of (s_value st) = map (stamped ctx sc) (rows_of (s_value st))" if "\<not> needs_tenant ctx sc"
    using that by (simp add: stamped_def map_idI)
  with False assms(1-3) show ?thesis
    by (cases "needs_tenant ctx sc") (auto simp: stampCreate_def needs_tenant_def)
next
  case True
  obtain e v' where c: "eachRecord (stamp_record (ctx_tenant ctx)) True v = (e, v')" by fastforce
  have st: "stampCreate tn st = (case e of Some e \<Rightarrow> AddError e (st\<lparr>s_value := RPtr (Some v')\<rparr>)
      | None \<Rightarrow> st\<lparr>s_value := RPtr (Some v')\<rparr>)"
    using True c assms(1-4) by (simp add: stampCreate_def needs_tenant_def split: option.splits)
  show ?thesis
  proof (cases e)
    case None
    from eachRecord_stamps(1)[OF c[unfolded None]] True assms(5)
    have "rows_of v' = map (stamp (ctx_tenant ctx)) (rows_of v) \<and>
        (\<forall>r\<in>set (rows_of v). row_tenant r \<in> {[], ctx_tenant ctx})"
      by (simp add: needs_tenant_def)
    moreover have "stamped ctx sc = stamp (ctx_tenant ctx)"
      using True by (simp add: fun_eq_iff stamped_def)
    ultimately show ?thesis using st None True assms(1,4) by simp
  next
    case (Some e')
    with st eachRecord_mismatch(1)[OF c[unfolded Some]] True show ?thesis by auto
  qed
qed

lemma new_stmt_stamped:
  fixes ctx :: go_ctx
  assumes "engine_ok E tbl ext pk sat" and "scoped_type tn E (md_type m) \<longrightarrow> all_aware v"
  defines "st \<equiv> new_stmt E ctx (md_type m) None (Some (md_type m)) [] (RPtr (Some v))"
    and "sc \<equiv> scoped_type tn E (md_type m)"
  shows "s_table (stampCreate tn st) = tbl_of E (md_type m) \<and>
    (s_error (stampCreate tn st) = None \<longrightarrow>
       rows_of (s_value (stampCreate tn st)) = map (stamped ctx sc) (rows_of v) \<and>
       (needs_tenant ctx sc \<longrightarrow> ctx_tenant ctx \<noteq> [] \<and>
          (\<forall>r\<in>set (rows_of v). row_tenant r \<in> {[], ctx_tenant ctx}))) \<and>
    (\<forall>e. s_error (stampCreate tn st) = Some e \<longrightarrow>
        needs_tenant ctx sc \<and> (e = ErrNoTenantContext \<or> errors_is e ErrTenantMismatch))"
proof -
  have "isScoped tn st = sc"
    unfolding st_def sc_def by (rule new_stmt_scoped[OF engine_okD(1)[OF assms(1)]]) simp_all
  from stampCreate_right[OF _ this, of ctx v] assms(2) show ?thesis
    by (simp add: st_def sc_def)
qed

text \<open>The errors the isolation callbacks add are never the engine's and never a duplicate key.\<close>

lemma tenancy_error_own:
  assumes "engine_ok E tbl ext pk sat" and "stamp_record t r = Inl e"
  shows "translateError E e = e \<and> \<not> errors_is e ErrDuplicate"
proof -
  have "has_prefix ''tenancy: record tenant does not match context tenant'' ''tenancy: ''" by simp
  then have "\<not> gorm_error E ErrTenantMismatch"
    using gorm_error_own[OF assms(1)] unfolding ErrTenantMismatch_def by blast
  then have "\<not> gorm_error E e"
    using assms(2) by (auto simp: stamp_record_def Let_def wrapf_def gorm_error_wrap split: if_splits)
  then show ?thesis
    using assms(2) translateError_own
    by (auto simp: stamp_record_def Let_def wrapf_def sentinel_defs ErrTenantMismatch_def split: if_splits)
qed

lemma gorm_Create_spec:
  assumes "engine_ok E tbl ext pk sat" and "v = RPtr (Some (RStruct aware r))"
    and "scoped_type tn E (md_type m) \<longrightarrow> aware" and "GormStore_Create tn E ctx m v d = (res, d')"
  shows "ext d' = ext d \<and>
    (res = None \<longrightarrow>
       tbl d' = (tbl d)(tbl_of E (md_type m) :=
          tbl d (tbl_of E (md_type m)) @ [stamped ctx (scoped_type tn E (md_type m)) r]) \<and>
       (needs_tenant ctx (scoped_type tn E (md_type m)) \<longrightarrow> row_tenant r \<in> {[], ctx_tenant ctx}) \<and>
       (\<forall>r'\<in>set (tbl d (tbl_of E (md_type m))). \<not> clashes (pk (tbl_of E (md_type m))) r'
          (stamped ctx (scoped_type tn E (md_type m)) r))) \<and>
    (\<forall>e. res = Some e \<longrightarrow> tbl d' = tbl d \<and> foreign e \<and> (errors_is e ErrDuplicate \<longrightarrow>
       (\<exists>r'\<in>set (tbl d (tbl_of E (md_type m))). clashes (pk (tbl_of E (md_type m))) r'
          (stamped ctx (scoped_type tn E (md_type m)) r))))"
proof -
  note ok = engine_okD[OF assms(1)]
  let ?sc = "scoped_type tn E (md_type m)"
  define st where "st = stampCreate tn (new_stmt E ctx (md_type m) None (Some (md_type m)) [] v)"
  have st: "s_table st = tbl_of E (md_type m)"
    "s_error st = None \<Longrightarrow> rows_of (s_value st) = [stamped ctx ?sc r] \<and>
       (needs_tenant ctx ?sc \<longrightarrow> row_tenant r \<in> {[], ctx_tenant ctx})"
    using new_stmt_stamped[OF assms(1), where tn = tn and m = m and v = "RStruct aware r" and ctx = ctx] assms(2,3)
    by (auto simp: st_def)
  obtain res0 where q: "eng_insert E st d = (res0, d')" "res = map_option (translateError E) res0"
    using assms(4) by (auto simp: GormStore_Create_def translate_err_def st_def apfst_def map_prod_def split: prod.splits)
  note law = ok(7)[unfolded writes_ok_def, rule_format, OF q(1)]
  have ok_none: "s_error st = None" if "res0 = None" using law that by auto
  show ?thesis
  proof (cases res0)
    case None
    note e = ok_none[OF None]
    have "\<forall>r'\<in>set (tbl d (s_table st)). \<not> clashes (pk (s_table st)) r' (stamped ctx ?sc r)"
      using keys_okD(1)[OF ok(8) e] q(1) None st(2)[OF e] by blast
    then show ?thesis using law None q(2) st(1) st(2)[OF e] by simp
  next
    case (Some e0)
    have own: "foreign (translateError E e1) \<and> \<not> errors_is (translateError E e1) ErrDuplicate \<and> e0 = e1"
      if "s_error st = Some e1" for e1
    proof -
      have "?sc \<and> (e1 = ErrNoTenantContext \<or> stamp_record (ctx_tenant ctx) r = Inl e1)"
        using that assms(2,3) new_stmt_scoped[OF ok(1), of None "md_type m" "Some (md_type m)" tn ctx "[]" v]
        by (auto simp: st_def stampCreate_def split: if_splits sum.splits)
      then show ?thesis
        using tenancy_error_own[OF assms(1)] ErrNoTenantContext_own[OF assms(1)] foreign_mismatch
          foreign_ErrNoTenantContext law that Some
        by (auto simp: ErrNoTenantContext_def sentinel_defs)
    qed
    have "foreign (translateError E e0)"
      using own law Some by (cases "s_error st") auto
    moreover have dup: "\<exists>r'\<in>set (tbl d (tbl_of E (md_type m))). clashes (pk (tbl_of E (md_type m))) r' (stamped ctx ?sc r)"
      if dup: "errors_is (translateError E e0) ErrDuplicate"
    proof (cases "s_error st")
      case None
      have "clean e0" using law None Some by auto
      then have "errors_is e0 (ErrNew (eng_ErrDuplicatedKey E))"
        using dup unfolding clean_def
        by (auto simp: translateError_def sentinel_defs wrapf_def split: if_splits)
      with keys_okD(2)[OF ok(8) None] q(1) Some st(1) st(2)[OF None] show ?thesis by metis
    next
      case (Some e1)
      with own dup show ?thesis by blast
    qed
    ultimately show ?thesis using law Some q(2) st(1) by auto
  qed
qed

lemma gorm_Transact_spec:
  assumes "engine_ok E tbl ext pk sat" and "GormStore_Transact E ctx f d = (res, d')"
  shows "(\<exists>e. res = Some e \<and> foreign e \<and> tbl d' = tbl d \<and> ext d' = ext d) \<or>
    (\<exists>d0 e1 d1. tbl d0 = tbl d \<and> ext d0 = ext d \<and> f d0 = (e1, d1) \<and> ext d' = ext d1 \<and>
       (case e1 of
          None \<Rightarrow> res = None \<and> tbl d' = tbl d1 \<or> (\<exists>e. res = Some e \<and> foreign e \<and> tbl d' = tbl d)
        | Some e \<Rightarrow> tbl d' = tbl d \<and> res \<noteq> None \<and> (if gorm_error E e then foreign (the res) else res = Some e)))"
proof -
  obtain res0 where q: "eng_transaction E ctx f d = (res0, d')" "res = map_option (translateError E) res0"
    using assms(2) by (auto simp: GormStore_Transact_def translate_err_def apfst_def map_prod_def split: prod.splits)
  from engine_okD(11)[OF assms(1), unfolded transaction_ok_def, rule_format, OF q(1)] show ?thesis
  proof (elim disjE exE conjE)
    fix e assume "res0 = Some e" "clean e" "tbl d' = tbl d" "ext d' = ext d"
    then show ?thesis using q(2) foreign_translate by auto
  next
    fix d0 e1 d1
    assume a: "tbl d0 = tbl d" "ext d0 = ext d" "f d0 = (e1, d1)" "ext d' = ext d1"
      "case e1 of None \<Rightarrow> res0 = None \<and> tbl d' = tbl d1 \<or> (\<exists>e. res0 = Some e \<and> clean e \<and> tbl d' = tbl d)
        | Some e \<Rightarrow> res0 = Some e \<and> tbl d' = tbl d"
    have "case e1 of
          None \<Rightarrow> res = None \<and> tbl d' = tbl d1 \<or> (\<exists>e. res = Some e \<and> foreign e \<and> tbl d' = tbl d)
        | Some e \<Rightarrow> tbl d' = tbl d \<and> res \<noteq> None \<and> (if gorm_error E e then foreign (the res) else res = Some e)"
      using a(5) q(2) by (cases e1) auto
    with a(1-4) show ?thesis by blast
  qed
qed

lemma NewGormStore_contract:
  assumes "engine_ok E tbl ext pk sat"
  shows "store_contract (NewGormStore tn E) tbl ext (\<lambda>t. fst (eng_parse E t)) pk (scoped_type tn E) (gorm_error E)"
proof (unfold_locales, goal_cases)
  case (1 conds ctx m d resf d')
  obtain ws where "conds_mean sat cond_holds conds ws"
    using plain_conds_mean[OF engine_okD(2)[OF assms] 1(1)] by blast
  then show ?case
    using 1(2) unfolding NewGormStore_def store.simps selects_by_cond_holds[symmetric] by (rule gorm_Find_spec[OF assms])
next
  case (2 conds ctx m d resg d')
  obtain ws where "conds_mean sat cond_holds conds ws"
    using plain_conds_mean[OF engine_okD(2)[OF assms] 2(1)] by blast
  then show ?case
    using 2(2) unfolding NewGormStore_def store.simps selects_by_cond_holds[symmetric] by (rule gorm_First_spec[OF assms])
next
  case (3 conds m ctx d resc d')
  obtain ws where "conds_mean sat cond_holds conds ws"
    using plain_conds_mean[OF engine_okD(2)[OF assms] 3(1)] by blast
  then show ?case
    using 3(3) unfolding NewGormStore_def store.simps selects_by_cond_holds[symmetric] by (rule gorm_Count_spec[OF assms])
next
  case (4 v aware r m ctx d res d')
  then show ?case using gorm_Create_spec[OF assms 4(1)] unfolding NewGormStore_def store.simps by blast
next
  case (5 conds ctx m changes d res d')
  obtain ws where "conds_mean sat cond_holds conds ws"
    using plain_conds_mean[OF engine_okD(2)[OF assms] 5(1)] by blast
  then show ?case
    using 5(2) unfolding NewGormStore_def store.simps selects_by_cond_holds[symmetric] by (rule gorm_Update_spec[OF assms])
next
  case (6 conds ctx m d res d')
  obtain ws where "conds_mean sat cond_holds conds ws"
    using plain_conds_mean[OF engine_okD(2)[OF assms] 6(1)] by blast
  then show ?case
    using 6(2) unfolding NewGormStore_def store.simps selects_by_cond_holds[symmetric] by (rule gorm_Delete_spec[OF assms])
next
  case 7
  then show ?case unfolding NewGormStore_def store.simps by (rule gorm_Transact_spec[OF assms])
next
  case 8
  then show ?case using gorm_error_own[OF assms] by blast
next
  case 9
  show ?case by (rule gorm_error_wrap)
next
  case 10
  then show ?case by (rule engine_okD(16)[OF assms])
next
  case (11 ty n)
  then have "implementsTenantAware (base_type ty)" by simp
  then show ?case by (simp add: scoped_type_def implementsTenantAware_base)
qed

section \<open>An engine that meets the requirements\<close>

text \<open>
  Tables in memory, the rest of the world beside them. It shows that \<open>engine_ok\<close> can hold, and
  evaluates the adapter on concrete rows.
\<close>

type_synonym 'e mem = "(string \<Rightarrow> row list) \<times> 'e"

definition mem_sat :: "string \<Rightarrow> cell list \<Rightarrow> row \<Rightarrow> bool" where
  "mem_sat expr args r =
     (case cut (CHR '' '') expr of
        None \<Rightarrow> False
      | Some (f, op) \<Rightarrow> (case args of
          [v] \<Rightarrow> if op = ''= ?'' then mget r f = Some v \<and> v \<noteq> CNull
                 else if op = ''IN ?'' then
                   (case v of CList vs \<Rightarrow> list_ex (\<lambda>v. mget r f = Some v \<and> v \<noteq> CNull) vs | _ \<Rightarrow> False)
                 else if op = ''<= ?'' then (case mget r f of Some w \<Rightarrow> not_after w v | None \<Rightarrow> False)
                 else if op = ''<> ?'' then (case mget r f of Some w \<Rightarrow> w \<noteq> CNull \<and> v \<noteq> CNull \<and> w \<noteq> v | None \<Rightarrow> False)
                 else False
        | _ \<Rightarrow> False))"

definition mem_read ::
  "(row list \<Rightarrow> gerr + 'a) \<Rightarrow> stmt \<Rightarrow> 'e mem \<Rightarrow> (gerr + 'a) \<times> 'e mem" where
  "mem_read answer st d =
     (case s_error st of
        Some e \<Rightarrow> (Inl e, d)
      | None \<Rightarrow> (answer (filter (addressed mem_sat st) (fst d (s_table st))), d))"

definition mem_write ::
  "(stmt \<Rightarrow> row list \<Rightarrow> gerr + row list) \<Rightarrow> stmt \<Rightarrow> 'e mem \<Rightarrow> gerr option \<times> 'e mem" where
  "mem_write change st d =
     (case s_error st of
        Some e \<Rightarrow> (Some e, d)
      | None \<Rightarrow> (case change st (fst d (s_table st)) of
          Inl e \<Rightarrow> (Some e, d)
        | Inr rows \<Rightarrow> (None, ((fst d)(s_table st := rows), snd d))))"

definition mem_engine :: "(string \<Rightarrow> string list list) \<Rightarrow> 'e mem engine" where
  "mem_engine pk =
     \<lparr>eng_parse = (\<lambda>t. (case base_type t of TStruct n aware \<Rightarrow> n | _ \<Rightarrow> [], base_type t)),
      eng_select = mem_read Inr,
      eng_first = mem_read (\<lambda>rows. case rows of [] \<Rightarrow> Inl (ErrNew ''record not found'') | r # _ \<Rightarrow> Inr r),
      eng_count = mem_read (\<lambda>rows. Inr (int (length rows))),
      eng_insert = mem_write (\<lambda>st rows.
         if list_ex (\<lambda>r. list_ex (\<lambda>r'. clashes (pk (s_table st)) r' r) rows) (rows_of (s_value st))
         then Inl (ErrNew ''duplicated key not allowed'') else Inr (rows @ rows_of (s_value st))),
      eng_update = (\<lambda>changes. mem_write (\<lambda>st rows.
         Inr (map (\<lambda>r. if addressed mem_sat st r then apply_changes changes r else r) rows))),
      eng_delete = mem_write (\<lambda>st rows. Inr (filter (\<lambda>r. \<not> addressed mem_sat st r) rows)),
      eng_transaction = (\<lambda>ctx f d. case f d of
         (Some e, d1) \<Rightarrow> (Some e, (fst d, snd d1)) | (None, d1) \<Rightarrow> (None, d1)),
      eng_ErrRecordNotFound = ''record not found'',
      eng_ErrDuplicatedKey = ''duplicated key not allowed''\<rparr>"

lemma bare_name_no_space: "bare_name f \<Longrightarrow> CHR '' '' \<notin> set f"
proof
  assume b: "bare_name f" and "CHR '' '' \<in> set f"
  then obtain i where i: "i < length f" "f ! i = CHR '' ''" by (auto simp: in_set_conv_nth)
  then have "(i, CHR '' '') \<in> set (enumerate 0 f)" by (auto simp: in_set_enumerate_eq)
  with b have "bare_char i (CHR '' '')" by (auto simp: bare_name_def list_all_iff)
  then show False by (simp add: bare_char_def)
qed

lemma mem_sat_ok: "sat_ok mem_sat"
  using bare_name_no_space
  by (auto simp: sat_ok_def mem_sat_def cut_append list_ex_iff split: option.splits)

lemma clean_ErrNew:
  "clean (ErrNew t) \<longleftrightarrow> \<not> has_prefix t ''modulekit: '' \<and> \<not> has_prefix t ''tenancy: ''"
  by (auto simp: clean_def)

lemma mem_reads_ok:
  assumes "\<And>rows. case answer rows of Inl e \<Rightarrow> clean e | Inr x \<Rightarrow> good x rows"
  shows "reads_ok (mem_read answer) fst snd good (addressed mem_sat)"
  unfolding reads_ok_def
proof (intro allI impI)
  fix st d res d'
  assume "mem_read answer st d = (res, d')"
  then show "fst d' = fst d \<and> snd d' = snd d \<and> (s_error st \<noteq> None \<longrightarrow> res = Inl (the (s_error st))) \<and>
      (s_error st = None \<longrightarrow> (case res of Inl e \<Rightarrow> clean e
         | Inr x \<Rightarrow> good x (filter (addressed mem_sat st) (fst d (s_table st)))))"
    using assms[of "filter (addressed mem_sat st) (fst d (s_table st))"]
    by (cases "s_error st") (auto simp: mem_read_def)
qed

lemma mem_writes_ok:
  assumes "\<And>st rows. case change st rows of Inl e \<Rightarrow> clean e | Inr rows' \<Rightarrow> rows' = f st rows"
  shows "writes_ok (mem_write change) fst snd f"
proof -
  have "case change st rows of Inl e \<Rightarrow> clean e | Inr rows' \<Rightarrow> rows' = f st rows" for st rows by (rule assms)
  then show ?thesis
    unfolding writes_ok_def mem_write_def
    by (intro allI impI) (auto split: option.splits sum.splits; metis sum.simps(5) sum.simps(6))
qed

lemma mem_keys_ok: "keys_ok (mem_engine pk) fst pk"
  by (auto simp: keys_ok_def mem_engine_def mem_write_def list_ex_iff split: if_splits)

lemma mem_transaction_ok: "transaction_ok (mem_engine pk :: 'e mem engine) fst snd"
  unfolding transaction_ok_def
proof (intro allI impI disjI2)
  fix ctx and f :: "'e mem \<Rightarrow> gerr option \<times> 'e mem" and d res d'
  assume t: "eng_transaction (mem_engine pk) ctx f d = (res, d')"
  obtain e1 d1 where f: "f d = (e1, d1)" by (cases "f d")
  show "\<exists>d0 e1 d1. fst d0 = fst d \<and> snd d0 = snd d \<and> f d0 = (e1, d1) \<and> snd d' = snd d1 \<and>
      (case e1 of None \<Rightarrow> res = None \<and> fst d' = fst d1 \<or> (\<exists>e. res = Some e \<and> clean e \<and> fst d' = fst d)
       | Some e \<Rightarrow> res = Some e \<and> fst d' = fst d)"
    using t f by (intro exI[of _ d] exI[of _ e1] exI[of _ d1])
      (auto simp: mem_engine_def split: option.splits)
qed

lemma mem_engine_ok: "engine_ok (mem_engine pk :: 'e mem engine) fst snd pk mem_sat"
proof -
  have "reads_ok (mem_read Inr) fst snd (\<lambda>rows sel. mset rows = mset sel) (addressed mem_sat)"
    "reads_ok (mem_read (\<lambda>rows. case rows of [] \<Rightarrow> Inl (ErrNew ''record not found'') | r # _ \<Rightarrow> Inr r))
       fst snd (\<lambda>r sel. r \<in> set sel) (addressed mem_sat)"
    "reads_ok (mem_read (\<lambda>rows. Inr (int (length rows)))) fst snd (\<lambda>n sel. n = int (length sel))
       (addressed mem_sat)"
    by (rule mem_reads_ok; simp add: clean_ErrNew split: list.splits)+
  moreover have "writes_ok (eng_insert (mem_engine pk)) fst snd (\<lambda>st rows. rows @ rows_of (s_value st))"
    unfolding mem_engine_def engine.simps by (rule mem_writes_ok) (simp add: clean_ErrNew)
  moreover have "writes_ok (eng_update (mem_engine pk) changes) fst snd
      (\<lambda>st. map (\<lambda>r. if addressed mem_sat st r then apply_changes changes r else r))" for changes
    unfolding mem_engine_def engine.simps by (rule mem_writes_ok) simp
  moreover have "writes_ok (eng_delete (mem_engine pk)) fst snd (\<lambda>st. filter (\<lambda>r. \<not> addressed mem_sat st r))"
    unfolding mem_engine_def engine.simps by (rule mem_writes_ok) simp
  moreover have "filter (addressed mem_sat st) (fst d (s_table st)) = []"
    if "s_error st = None" "eng_first (mem_engine pk) st d = (Inl e, d')" for st e d' and d :: "'e mem"
    using that by (auto simp: mem_engine_def mem_read_def split: list.splits)
  ultimately show ?thesis
    unfolding engine_ok_def
    by (intro conjI mem_sat_ok mem_keys_ok mem_transaction_ok allI impI)
      (auto simp: mem_engine_def)
qed

text \<open>The storage contract, provided by the adapter over this engine.\<close>

interpretation gorm: store_contract "NewGormStore tn (mem_engine pk :: 'e mem engine)" fst snd
  "\<lambda>t. fst (eng_parse (mem_engine pk :: 'e mem engine) t)" pk "scoped_type tn (mem_engine pk :: 'e mem engine)"
  "gorm_error (mem_engine pk :: 'e mem engine)"
  by (rule NewGormStore_contract[OF mem_engine_ok])

section \<open>Isolation of whole workloads\<close>

text \<open>Any sequence of operations a module can issue, with what each one reads.\<close>

datatype store_op =
    OpFind gomodel "condition list"
  | OpFirst gomodel "condition list"
  | OpCount gomodel "condition list"
  | OpCreate gomodel rvalue
  | OpUpdate gomodel row "condition list"
  | OpDelete gomodel "condition list"

fun run_op :: "'d store \<Rightarrow> go_ctx \<Rightarrow> store_op \<Rightarrow> 'd \<Rightarrow> row list \<times> 'd" where
  "run_op S ctx (OpFind m cs) d =
     (case Find S ctx m cs d of (Inr rows, d') \<Rightarrow> (rows, d') | (Inl e, d') \<Rightarrow> ([], d'))"
| "run_op S ctx (OpFirst m cs) d =
     (case First S ctx m cs d of (Inr r, d') \<Rightarrow> ([r], d') | (Inl e, d') \<Rightarrow> ([], d'))"
| "run_op S ctx (OpCount m cs) d = ([], snd (Count S ctx m cs d))"
| "run_op S ctx (OpCreate m v) d = ([], snd (Create S ctx m v d))"
| "run_op S ctx (OpUpdate m ch cs) d = ([], snd (Update S ctx m ch cs d))"
| "run_op S ctx (OpDelete m cs) d = ([], snd (Delete S ctx m cs d))"

fun run_ops :: "'d store \<Rightarrow> go_ctx \<Rightarrow> store_op list \<Rightarrow> 'd \<Rightarrow> row list \<times> 'd" where
  "run_ops S ctx [] d = ([], d)"
| "run_ops S ctx (x # xs) d =
     (let (rows, d1) = run_op S ctx x d; (rest, d2) = run_ops S ctx xs d1 in (rows @ rest, d2))"

text \<open>
  The operations covered: on a tenant-scoped model, creating tenant-aware records, and not
  rewriting the tenant column itself.
\<close>

fun covered_op :: "isolation \<Rightarrow> 'd engine \<Rightarrow> store_op \<Rightarrow> bool" where
  "covered_op tn E (OpFind m cs) = scoped_type tn E (md_type m)"
| "covered_op tn E (OpFirst m cs) = scoped_type tn E (md_type m)"
| "covered_op tn E (OpCount m cs) = scoped_type tn E (md_type m)"
| "covered_op tn E (OpCreate m v) = (scoped_type tn E (md_type m) \<and>
     (case v of RPtr (Some v) \<Rightarrow> all_aware v | _ \<Rightarrow> False))"
| "covered_op tn E (OpUpdate m ch cs) =
     (scoped_type tn E (md_type m) \<and> tenant_column \<notin> fst ` set ch)"
| "covered_op tn E (OpDelete m cs) = scoped_type tn E (md_type m)"

definition own_only :: "go_ctx \<Rightarrow> row list \<Rightarrow> bool" where
  "own_only ctx rows = (rows \<noteq> [] \<longrightarrow> ctx_tenant ctx \<noteq> [] \<and> (\<forall>r\<in>set rows. row_tenant r = ctx_tenant ctx))"

definition others_kept :: "go_ctx \<Rightarrow> (string \<Rightarrow> row list) \<Rightarrow> (string \<Rightarrow> row list) \<Rightarrow> bool" where
  "others_kept ctx T T' = (\<forall>table t. t \<noteq> ctx_tenant ctx \<longrightarrow>
     filter (\<lambda>r. row_tenant r = t) (T' table) = filter (\<lambda>r. row_tenant r = t) (T table))"

lemma others_kept_refl [simp]: "others_kept ctx T T"
  by (simp add: others_kept_def)

lemma others_kept_trans: "others_kept ctx T T1 \<Longrightarrow> others_kept ctx T1 T2 \<Longrightarrow> others_kept ctx T T2"
  by (simp add: others_kept_def)

lemma row_tenant_changes:
  "tenant_column \<notin> fst ` set ch \<Longrightarrow> row_tenant (apply_changes ch r) = row_tenant r"
  using mget_None_iff[of "rev ch" tenant_column] by (simp add: row_tenant_def mget_apply_changes)

lemma others_kept_map:
  assumes "\<And>r. P r \<Longrightarrow> row_tenant r = ctx_tenant ctx \<and> row_tenant (f r) = ctx_tenant ctx"
  shows "others_kept ctx T (T(table := map (\<lambda>r. if P r then f r else r) (T table)))"
proof -
  have "filter (\<lambda>r. row_tenant r = t) (map (\<lambda>r. if P r then f r else r) rows) = filter (\<lambda>r. row_tenant r = t) rows"
    if "t \<noteq> ctx_tenant ctx" for t rows
    using assms that by (induction rows) auto
  then show ?thesis by (simp add: others_kept_def)
qed

lemma others_kept_filter:
  assumes "\<And>r. P r \<Longrightarrow> row_tenant r = ctx_tenant ctx"
  shows "others_kept ctx T (T(table := filter (\<lambda>r. \<not> P r) (T table)))"
  using assms by (auto simp: others_kept_def intro!: filter_cong)

lemma others_kept_append:
  assumes "\<And>r. r \<in> set new \<Longrightarrow> row_tenant r = ctx_tenant ctx"
  shows "others_kept ctx T (T(table := T table @ new))"
  using assms by (auto simp: others_kept_def filter_empty_conv)

lemma chosen_own:
  "\<not> IsSystemContext ctx \<Longrightarrow> chosen sat ctx True st r \<Longrightarrow> row_tenant r = ctx_tenant ctx"
  by (simp add: chosen_def in_scope_def needs_tenant_def)

lemma gorm_read_own:
  assumes "reads_ok q tbl ext good (addressed sat)" and "\<And>t. snd (eng_parse E t) = base_type t"
    and "scoped_type tn E t" and "\<not> IsSystemContext ctx"
    and "mo \<in> {None, Some t}" and "de \<in> {Some t, Some TOther, Some (TPtr TOther)}"
    and "translate_res E (q (scopeQuery tn (new_stmt E ctx t mo de ws v)) d) = (res, d')"
  shows "tbl d' = tbl d \<and> (\<forall>x. res = Inr x \<longrightarrow> ctx_tenant ctx \<noteq> [] \<and>
     (\<exists>rows. good x rows \<and> (\<forall>r\<in>set rows. row_tenant r = ctx_tenant ctx)))"
proof -
  have "scopes_right sat ctx True (new_stmt E ctx t mo de ws v) (scopeQuery tn (new_stmt E ctx t mo de ws v))"
    using new_stmt_right[OF assms(2,5,6), of sat ctx tn ws v] assms(3) by simp
  from read_scoped[OF assms(1) this assms(7)] chosen_own[OF assms(4)] assms(4) show ?thesis
    by (fastforce simp: needs_tenant_def)
qed

lemma gorm_write_own:
  assumes "writes_ok x tbl ext f" and "\<And>t. snd (eng_parse E t) = base_type t"
    and "scoped_type tn E t" and "\<not> IsSystemContext ctx"
    and "mo \<in> {None, Some t}" and "de \<in> {Some t, Some TOther, Some (TPtr TOther)}"
    and "\<And>st T table. (\<And>r. addressed sat st r \<Longrightarrow> row_tenant r = ctx_tenant ctx) \<Longrightarrow>
       others_kept ctx T (T(table := f st (T table)))"
  shows "others_kept ctx (tbl d) (tbl (snd (translate_err E (x (scopeQuery tn (new_stmt E ctx t mo de ws v)) d))))"
proof -
  let ?st = "new_stmt E ctx t mo de ws v"
  obtain res d' where t: "translate_err E (x (scopeQuery tn ?st) d) = (res, d')" by fastforce
  have "scopes_right sat ctx True ?st (scopeQuery tn ?st)"
    using new_stmt_right[OF assms(2,5,6), of sat ctx tn ws v] assms(3) by simp
  note w = write_scoped[OF assms(1) this t]
  show ?thesis
  proof (cases res)
    case None
    with w chosen_own[OF assms(4)]
    have own: "\<And>r. addressed sat (scopeQuery tn ?st) r \<Longrightarrow> row_tenant r = ctx_tenant ctx" by auto
    have d': "tbl d' = (tbl d)(s_table ?st := f (scopeQuery tn ?st) (tbl d (s_table ?st)))"
      using w None by blast
    show ?thesis unfolding t snd_conv d' by (rule assms(7)[OF own])
  qed (use w t in simp)
qed

lemma run_op_isolated:
  assumes ok: "engine_ok E tbl ext pk sat" and ns: "\<not> IsSystemContext ctx"
    and cov: "covered_op tn E x" and run: "run_op (NewGormStore tn E) ctx x d = (rows, d')"
  shows "own_only ctx rows \<and> others_kept ctx (tbl d) (tbl d')"
proof (cases x)
  case (OpFind m cs)
  show ?thesis
  proof (cases "apply_conds cs")
    case (Inr ws)
    obtain res d1 where q: "translate_res E (eng_select E (scopeQuery tn
        (new_stmt E ctx (md_type m) None (Some (md_type m)) ws (model_value m))) d) = (res, d1)" by fastforce
    from gorm_read_own[OF engine_okD(3)[OF ok] engine_okD(1)[OF ok] _ ns _ _ q] cov run OpFind Inr q
    show ?thesis
      by (cases res) (auto simp: NewGormStore_def GormStore_Find_def own_only_def dest!: mset_eq_setD)
  qed (use run OpFind in \<open>auto simp: NewGormStore_def GormStore_Find_def own_only_def\<close>)
next
  case (OpFirst m cs)
  show ?thesis
  proof (cases "apply_conds cs")
    case (Inr ws)
    obtain res d1 where q: "translate_res E (eng_first E (scopeQuery tn
        (new_stmt E ctx (md_type m) None (Some (md_type m)) ws (model_value m))) d) = (res, d1)" by fastforce
    from gorm_read_own[OF engine_okD(4)[OF ok] engine_okD(1)[OF ok] _ ns _ _ q] cov run OpFirst Inr q
    show ?thesis by (cases res) (auto simp: NewGormStore_def GormStore_First_def own_only_def)
  qed (use run OpFirst in \<open>auto simp: NewGormStore_def GormStore_First_def own_only_def\<close>)
next
  case (OpCount m cs)
  show ?thesis
  proof (cases "apply_conds cs")
    case (Inr ws)
    obtain res d1 where q: "translate_res E (eng_count E (scopeQuery tn
        (new_stmt E ctx (md_type m) (Some (md_type m)) (Some (TPtr TOther)) ws (model_value m))) d) = (res, d1)" by fastforce
    from gorm_read_own[OF engine_okD(6)[OF ok] engine_okD(1)[OF ok] _ ns _ _ q] cov run OpCount Inr q
    show ?thesis by (auto simp: NewGormStore_def GormStore_Count_def own_only_def)
  qed (use run OpCount in \<open>auto simp: NewGormStore_def GormStore_Count_def own_only_def\<close>)
next
  case (OpCreate m v)
  then obtain v0 where v: "v = RPtr (Some v0)" "all_aware v0" "scoped_type tn E (md_type m)"
    using cov by (auto split: rvalue.splits option.splits)
  let ?st = "stampCreate tn (new_stmt E ctx (md_type m) None (Some (md_type m)) [] v)"
  obtain res d1 where q: "eng_insert E ?st d = (res, d1)" by fastforce
  note law = engine_okD(7)[OF ok, unfolded writes_ok_def, rule_format, OF q]
  have "others_kept ctx (tbl d) (tbl d1)"
  proof (cases res)
    case None
    then have "s_error ?st = None" using law by auto
    then have "\<forall>r\<in>set (rows_of (s_value ?st)). row_tenant r = ctx_tenant ctx"
      using new_stmt_stamped[OF ok, where tn = tn and m = m and v = v0 and ctx = ctx] v ns
      by (auto simp: stamped_def needs_tenant_def)
    then show ?thesis using law None others_kept_append by simp
  qed (use law in simp)
  moreover have "d' = d1" "rows = []"
    using run OpCreate q by (auto simp: NewGormStore_def GormStore_Create_def translate_err_def)
  ultimately show ?thesis by (simp add: own_only_def)
next
  case (OpUpdate m ch cs)
  have "others_kept ctx (tbl d) (tbl (snd (translate_err E (eng_update E ch
      (scopeQuery tn (new_stmt E ctx (md_type m) (Some (md_type m)) (Some TOther) ws (model_value m))) d))))" for ws
    using cov OpUpdate
    by (intro gorm_write_own[OF engine_okD(9)[OF ok] engine_okD(1)[OF ok] _ ns])
      (auto intro!: others_kept_map simp: row_tenant_changes)
  with run OpUpdate show ?thesis
    by (auto simp: NewGormStore_def GormStore_Update_def own_only_def split: sum.splits if_splits)
next
  case (OpDelete m cs)
  have "others_kept ctx (tbl d) (tbl (snd (translate_err E (eng_delete E
      (scopeQuery tn (new_stmt E ctx (md_type m) None (Some (md_type m)) ws (model_value m))) d))))" for ws
    using cov OpDelete
    by (intro gorm_write_own[OF engine_okD(10)[OF ok] engine_okD(1)[OF ok] _ ns])
      (auto intro!: others_kept_filter)
  with run OpDelete show ?thesis
    by (auto simp: NewGormStore_def GormStore_Delete_def own_only_def split: sum.splits if_splits)
qed

lemma own_only_append: "own_only ctx xs \<Longrightarrow> own_only ctx ys \<Longrightarrow> own_only ctx (xs @ ys)"
  by (auto simp: own_only_def)

section \<open>Properties\<close>

text \<open>
  C1: tenant isolation. Whatever sequence of operations code running for a tenant issues
  against scoped models, with whatever conditions, and however each one ends: every row it
  reads belongs to the tenant of its context, and the rows of every other tenant, in every
  table, are exactly what they were. Without a tenant nothing is read at all.
\<close>

theorem tenant_isolation:
  assumes "engine_ok E tbl ext pk sat" and "\<not> IsSystemContext ctx"
    and "list_all (covered_op tn E) ops" and "run_ops (NewGormStore tn E) ctx ops d = (rows, d')"
  shows "(rows \<noteq> [] \<longrightarrow> ctx_tenant ctx \<noteq> []) \<and> (\<forall>r\<in>set rows. row_tenant r = ctx_tenant ctx) \<and>
    (\<forall>table t. t \<noteq> ctx_tenant ctx \<longrightarrow>
       filter (\<lambda>r. row_tenant r = t) (tbl d' table) = filter (\<lambda>r. row_tenant r = t) (tbl d table))"
proof -
  have "own_only ctx rows \<and> others_kept ctx (tbl d) (tbl d')"
    using assms(3,4)
  proof (induction ops arbitrary: d rows)
    case (Cons x xs)
    obtain r1 d1 where x: "run_op (NewGormStore tn E) ctx x d = (r1, d1)" by fastforce
    obtain r2 d2 where xs: "run_ops (NewGormStore tn E) ctx xs d1 = (r2, d2)" by fastforce
    have "covered_op tn E x" "list_all (covered_op tn E) xs" "rows = r1 @ r2" "d' = d2"
      using Cons.prems x xs by simp_all
    with run_op_isolated[OF assms(1,2) _ x] Cons.IH[OF _ xs[folded \<open>d' = d2\<close>]] show ?case
      using own_only_append others_kept_trans by blast
  qed (simp add: own_only_def)
  then show ?thesis unfolding own_only_def others_kept_def by auto
qed

definition sample_iso :: isolation where
  "sample_iso = \<lparr>iso_tables = [''notes''], iso_current = ''~~~ct~~~''\<rparr>"

definition note_type :: rtype where "note_type = TPtr (TStruct ''notes'' True)"

definition note_row :: "string \<Rightarrow> string \<Rightarrow> row" where
  "note_row t n = [(''tenant_id'', CStr t), (''name'', CStr n)]"

definition sample_db :: "unit mem" where
  "sample_db = ((\<lambda>_. [])(''notes'' := [note_row ''acme'' ''x'', note_row ''globex'' ''y'']), ())"

definition sample_pk :: "string \<Rightarrow> string list list" where
  "sample_pk table = [[''tenant_id'', ''name'']]"

definition acme_ctx :: go_ctx where "acme_ctx = WithTenantID Background ''acme''"

lemma acme_ctx_simps [simp]: "ctx_tenant acme_ctx = ''acme''" "\<not> IsSystemContext acme_ctx"
  by (simp_all add: acme_ctx_def WithTenantID_def Background_def IsSystemContext_def)

lemma note_scoped [simp]: "scoped_type tn E note_type"
  by (simp add: scoped_type_def note_type_def)

theorem tenant_isolation_witness:
  "filter (\<lambda>r. row_tenant r = ''globex'') (fst (snd (run_ops (NewGormStore sample_iso (mem_engine sample_pk))
     acme_ctx [OpFind (zero_model note_type) [], OpUpdate (zero_model note_type) [(''name'', CStr ''z'')]
       [Where ''name'' (CStr ''y'')]] sample_db)) ''notes'') = [note_row ''globex'' ''y'']"
proof -
  let ?ops = "[OpFind (zero_model note_type) [], OpUpdate (zero_model note_type) [(''name'', CStr ''z'')]
       [Where ''name'' (CStr ''y'')]]"
  have "list_all (covered_op sample_iso (mem_engine sample_pk :: unit mem engine)) ?ops"
    by (simp add: zero_model_def tenant_column_def)
  from tenant_isolation[OF mem_engine_ok acme_ctx_simps(2) this prod.collapse[symmetric], of sample_db,
      THEN conjunct2, THEN conjunct2, rule_format, of "''globex''" "''notes''"]
  have "filter (\<lambda>r. row_tenant r = ''globex'') (fst (snd (run_ops (NewGormStore sample_iso (mem_engine sample_pk))
     acme_ctx ?ops sample_db)) ''notes'') = filter (\<lambda>r. row_tenant r = ''globex'') (fst sample_db ''notes'')"
    by simp
  then show ?thesis
    by (simp add: sample_db_def note_row_def row_tenant_def tenant_column_def)
qed

section \<open>Refinement of the storage specification\<close>

text \<open>
  Code that uses the store, as a program: it issues operations and goes on with their answers,
  opens transactions, which may be nested, and ends with an error or without one; the body of
  a transaction asks for a rollback by ending with an error.
\<close>

datatype op_result = Rows "row list" | Number int | Done | Failed gerr

datatype store_prog =
    Return "gerr option"
  | Do store_op "op_result \<Rightarrow> store_prog"
  | Atomic store_prog "op_result \<Rightarrow> store_prog"

definition answer_of_err :: "gerr option \<Rightarrow> op_result" where
  "answer_of_err e = (case e of None \<Rightarrow> Done | Some e \<Rightarrow> Failed e)"

fun exec_op :: "'d store \<Rightarrow> go_ctx \<Rightarrow> store_op \<Rightarrow> 'd \<Rightarrow> op_result \<times> 'd" where
  "exec_op S ctx (OpFind m cs) d =
     (case Find S ctx m cs d of (Inr rows, d') \<Rightarrow> (Rows rows, d') | (Inl e, d') \<Rightarrow> (Failed e, d'))"
| "exec_op S ctx (OpFirst m cs) d =
     (case First S ctx m cs d of (Inr r, d') \<Rightarrow> (Rows [r], d') | (Inl e, d') \<Rightarrow> (Failed e, d'))"
| "exec_op S ctx (OpCount m cs) d =
     (case Count S ctx m cs d of (Inr n, d') \<Rightarrow> (Number n, d') | (Inl e, d') \<Rightarrow> (Failed e, d'))"
| "exec_op S ctx (OpCreate m v) d = apfst answer_of_err (Create S ctx m v d)"
| "exec_op S ctx (OpUpdate m ch cs) d = apfst answer_of_err (Update S ctx m ch cs d)"
| "exec_op S ctx (OpDelete m cs) d = apfst answer_of_err (Delete S ctx m cs d)"

text \<open>A run of a program: the answers it was given, how it ended, and the world it leaves.\<close>

primrec exec_prog :: "store_prog \<Rightarrow> 'd store \<Rightarrow> go_ctx \<Rightarrow> 'd \<Rightarrow> op_result list \<times> gerr option \<times> 'd" where
  "exec_prog (Return e) = (\<lambda>S ctx d. ([], e, d))"
| "exec_prog (Do x k) = (\<lambda>S ctx d.
     let (r, d1) = exec_op S ctx x d; (rs, e, d2) = exec_prog (k r) S ctx d1 in (r # rs, e, d2))"
| "exec_prog (Atomic body k) = (\<lambda>S ctx d.
     let (r, d1) = apfst answer_of_err (Transact S ctx (\<lambda>d. snd (exec_prog body S ctx d)) d);
         (rs, e, d2) = exec_prog (k r) S ctx d1
     in (r # rs, e, d2))"

text \<open>
  What is asked of a program: the values it creates are non-nil pointers to records or slices of
  them, and tenant-aware where the model is scoped.
\<close>

fun creates_records :: "(rtype \<Rightarrow> bool) \<Rightarrow> store_op \<Rightarrow> bool" where
  "creates_records scoped (OpCreate m v) =
     (case v of RPtr (Some val) \<Rightarrow> scoped (md_type m) \<longrightarrow> all_aware val | _ \<Rightarrow> False)"
| "creates_records scoped _ = True"

primrec covered_prog :: "(rtype \<Rightarrow> bool) \<Rightarrow> store_prog \<Rightarrow> bool" where
  "covered_prog scoped (Return e) = True"
| "covered_prog scoped (Do x k) = (creates_records scoped x \<and> (\<forall>r. covered_prog scoped (k r)))"
| "covered_prog scoped (Atomic body k) = (covered_prog scoped body \<and> (\<forall>r. covered_prog scoped (k r)))"

text \<open>
  The abstract store: a map from tables to rows, on which the outcomes the storage interface
  allows are steps. A failed operation leaves every table alone; it says "not found" or "duplicate"
  only when that is so, and refuses conditions it does not understand, and updates and deletes
  without any, with the errors made for that.
\<close>

definition refused_conds :: "condition list \<Rightarrow> gerr \<Rightarrow> bool" where
  "refused_conds cs e \<longleftrightarrow> (\<not> list_all valid_cond cs \<longrightarrow> errors_is e ErrUnsupportedOperator)"

definition honest_failure ::
  "(string \<Rightarrow> cell list \<Rightarrow> row \<Rightarrow> bool) \<Rightarrow> (rtype \<Rightarrow> string) \<Rightarrow> (string \<Rightarrow> string list list) \<Rightarrow> (rtype \<Rightarrow> bool) \<Rightarrow> go_ctx
     \<Rightarrow> store_op \<Rightarrow> (string \<Rightarrow> row list) \<Rightarrow> gerr \<Rightarrow> bool" where
  "honest_failure sat table_of pk scoped ctx x T e \<longleftrightarrow>
     (case x of
        OpFind m cs \<Rightarrow> refused_conds cs e
      | OpFirst m cs \<Rightarrow> refused_conds cs e \<and> (list_all valid_cond cs \<and> errors_is e ErrNotFound \<longrightarrow>
          (\<forall>r\<in>set (T (table_of (md_type m))). \<not> selects_by (cond_sem sat) ctx (scoped (md_type m)) m cs r))
      | OpCount m cs \<Rightarrow> refused_conds cs e
      | OpCreate m (RPtr (Some (RStruct aware r))) \<Rightarrow> errors_is e ErrDuplicate \<longrightarrow>
          (\<exists>r'\<in>set (T (table_of (md_type m))).
             clashes (pk (table_of (md_type m))) r' (stamped ctx (scoped (md_type m)) r))
      | OpCreate m _ \<Rightarrow> True
      | OpUpdate m ch cs \<Rightarrow> refused_conds cs e \<and> (cs = [] \<longrightarrow> errors_is e ErrUnconditional)
      | OpDelete m cs \<Rightarrow> refused_conds cs e \<and> (cs = [] \<longrightarrow> errors_is e ErrUnconditional))"

inductive spec_step ::
  "(string \<Rightarrow> cell list \<Rightarrow> row \<Rightarrow> bool) \<Rightarrow> (rtype \<Rightarrow> string) \<Rightarrow> (string \<Rightarrow> string list list) \<Rightarrow> (rtype \<Rightarrow> bool) \<Rightarrow> go_ctx
     \<Rightarrow> store_op \<Rightarrow> (string \<Rightarrow> row list) \<Rightarrow> op_result \<Rightarrow> (string \<Rightarrow> row list) \<Rightarrow> bool"
  for sat table_of pk scoped ctx where
  spec_find: "\<lbrakk>list_all valid_cond cs;
      mset rows = mset (filter (selects_by (cond_sem sat) ctx (scoped (md_type m)) m cs) (T (table_of (md_type m))))\<rbrakk> \<Longrightarrow>
     spec_step sat table_of pk scoped ctx (OpFind m cs) T (Rows rows) T"
| spec_first: "\<lbrakk>list_all valid_cond cs; r \<in> set (T (table_of (md_type m)));
      selects_by (cond_sem sat) ctx (scoped (md_type m)) m cs r\<rbrakk> \<Longrightarrow>
     spec_step sat table_of pk scoped ctx (OpFirst m cs) T (Rows [r]) T"
| spec_count: "\<lbrakk>list_all valid_cond cs;
      n = int (length (filter (selects_by (cond_sem sat) ctx (scoped (md_type m)) m cs) (T (table_of (md_type m)))))\<rbrakk> \<Longrightarrow>
     spec_step sat table_of pk scoped ctx (OpCount m cs) T (Number n) T"
| spec_create: "\<lbrakk>\<forall>r\<in>set (rows_of val). needs_tenant ctx (scoped (md_type m)) \<longrightarrow> row_tenant r \<in> {[], ctx_tenant ctx};
      new = map (stamped ctx (scoped (md_type m))) (rows_of val);
      \<forall>r\<in>set new. \<forall>r'\<in>set (T (table_of (md_type m))). \<not> clashes (pk (table_of (md_type m))) r' r\<rbrakk> \<Longrightarrow>
     spec_step sat table_of pk scoped ctx (OpCreate m (RPtr (Some val))) T Done
       (T(table_of (md_type m) := T (table_of (md_type m)) @ new))"
| spec_update: "\<lbrakk>cs \<noteq> []; list_all valid_cond cs\<rbrakk> \<Longrightarrow>
     spec_step sat table_of pk scoped ctx (OpUpdate m ch cs) T Done (T(table_of (md_type m) :=
       map (\<lambda>r. if selects_by (cond_sem sat) ctx (scoped (md_type m)) m cs r then apply_changes ch r else r)
         (T (table_of (md_type m)))))"
| spec_delete: "\<lbrakk>cs \<noteq> []; list_all valid_cond cs\<rbrakk> \<Longrightarrow>
     spec_step sat table_of pk scoped ctx (OpDelete m cs) T Done (T(table_of (md_type m) :=
       filter (\<lambda>r. \<not> selects_by (cond_sem sat) ctx (scoped (md_type m)) m cs r) (T (table_of (md_type m)))))"
| spec_failed: "honest_failure sat table_of pk scoped ctx x T e \<Longrightarrow> spec_step sat table_of pk scoped ctx x T (Failed e) T"

text \<open>
  Runs of a program on the abstract store. A transaction commits what its body did; or its body
  asked for a rollback, and it fails with the body's error (or what the engine's error became)
  and leaves the tables as they were; or it could not be begun or committed, with the same effect.
\<close>

inductive spec_run ::
  "(store_op \<Rightarrow> (string \<Rightarrow> row list) \<Rightarrow> op_result \<Rightarrow> (string \<Rightarrow> row list) \<Rightarrow> bool)
     \<Rightarrow> store_prog \<Rightarrow> (string \<Rightarrow> row list) \<Rightarrow> op_result list \<Rightarrow> gerr option \<Rightarrow> (string \<Rightarrow> row list) \<Rightarrow> bool"
  for step where
  spec_return: "spec_run step (Return e) T [] e T"
| spec_do: "\<lbrakk>step x T r T1; spec_run step (k r) T1 rs e T2\<rbrakk> \<Longrightarrow> spec_run step (Do x k) T (r # rs) e T2"
| spec_committed: "\<lbrakk>spec_run step body T inner None T1; spec_run step (k Done) T1 rs e T2\<rbrakk> \<Longrightarrow>
     spec_run step (Atomic body k) T (Done # rs) e T2"
| spec_rolled_back: "\<lbrakk>spec_run step body T inner (Some err) T1; err' = err \<or> foreign err';
      spec_run step (k (Failed err')) T rs e T2\<rbrakk> \<Longrightarrow>
     spec_run step (Atomic body k) T (Failed err' # rs) e T2"
| spec_refused: "\<lbrakk>foreign err'; spec_run step (k (Failed err')) T rs e T2\<rbrakk> \<Longrightarrow>
     spec_run step (Atomic body k) T (Failed err' # rs) e T2"

section \<open>The adapter refines it\<close>

text \<open>A create of one or of many records.\<close>

lemma gorm_Create_records:
  assumes "engine_ok E tbl ext pk sat" and "scoped_type tn E (md_type m) \<longrightarrow> all_aware val"
    and "GormStore_Create tn E ctx m (RPtr (Some val)) d = (res, d')"
  defines "sc \<equiv> scoped_type tn E (md_type m)" and "T \<equiv> tbl_of E (md_type m)"
  shows "ext d' = ext d \<and> (res \<noteq> None \<longrightarrow> tbl d' = tbl d) \<and>
    (res = None \<longrightarrow> tbl d' = (tbl d)(T := tbl d T @ map (stamped ctx sc) (rows_of val)) \<and>
       (\<forall>r\<in>set (rows_of val). needs_tenant ctx sc \<longrightarrow> row_tenant r \<in> {[], ctx_tenant ctx}) \<and>
       (\<forall>r\<in>set (map (stamped ctx sc) (rows_of val)). \<forall>r'\<in>set (tbl d T). \<not> clashes (pk T) r' r))"
proof -
  note ok = engine_okD[OF assms(1)]
  define st where "st = stampCreate tn (new_stmt E ctx (md_type m) None (Some (md_type m)) [] (RPtr (Some val)))"
  have st: "s_table st = T"
    "s_error st = None \<Longrightarrow> rows_of (s_value st) = map (stamped ctx sc) (rows_of val) \<and>
       (\<forall>r\<in>set (rows_of val). needs_tenant ctx sc \<longrightarrow> row_tenant r \<in> {[], ctx_tenant ctx})"
    using new_stmt_stamped[OF assms(1), where tn = tn and m = m and v = val and ctx = ctx] assms(2)
    by (auto simp: st_def sc_def T_def)
  obtain res0 where q: "eng_insert E st d = (res0, d')" "res = map_option (translateError E) res0"
    using assms(3) by (auto simp: GormStore_Create_def translate_err_def st_def apfst_def map_prod_def split: prod.splits)
  note law = ok(7)[unfolded writes_ok_def, rule_format, OF q(1)]
  show ?thesis
  proof (cases res0)
    case None
    then have e: "s_error st = None" using law by auto
    have "\<forall>r\<in>set (rows_of (s_value st)). \<forall>r'\<in>set (tbl d (s_table st)). \<not> clashes (pk (s_table st)) r' r"
      using ok(8)[unfolded keys_ok_def, rule_format, OF e, of d d'] q(1) None by blast
    then show ?thesis using law None q(2) st(1) st(2)[OF e] by simp
  next
    case (Some e0)
    then show ?thesis using law q(2) by simp
  qed
qed

lemma refused_unconditional: "errors_is (wrapf ErrUnconditional ps) ErrUnconditional"
  by (simp add: wrapf_def ErrUnconditional_def)

lemma refused_Inl: "apply_conds cs = Inl e \<Longrightarrow> refused_conds cs e \<and> \<not> list_all valid_cond cs"
  using apply_conds_Inl by (simp add: refused_conds_def)

lemma gorm_read_refines:
  assumes ok: "engine_ok E tbl ext pk sat" and run: "exec_op (NewGormStore tn E) ctx x d = (r, d')"
    and x: "x \<in> {OpFind m cs, OpFirst m cs, OpCount m cs}"
  shows "spec_step sat (\<lambda>t. fst (eng_parse E t)) pk (scoped_type tn E) ctx x (tbl d) r (tbl d') \<and> ext d' = ext d"
proof (cases "apply_conds cs")
  case (Inl e)
  then have "r = Failed e" "d' = d"
    using run x by (auto simp: NewGormStore_def GormStore_Find_def GormStore_First_def GormStore_Count_def)
  then show ?thesis using x refused_Inl[OF Inl] by (auto intro!: spec_failed simp: honest_failure_def)
next
  case (Inr ws)
  have v: "list_all valid_cond cs" and mean: "conds_mean sat (cond_sem sat) cs ws"
    using apply_conds_Inr[OF engine_okD(2)[OF ok] Inr] by simp_all
  from x consider "x = OpFind m cs" | "x = OpFirst m cs" | "x = OpCount m cs" by blast
  then show ?thesis
  proof cases
    case 1
    obtain res d1 where q: "GormStore_Find tn E ctx m cs d = (res, d1)" by fastforce
    from gorm_Find_spec[OF ok mean q] run q 1 v show ?thesis
      by (cases res) (auto simp: NewGormStore_def honest_failure_def refused_conds_def intro: spec_find spec_failed)
  next
    case 2
    obtain res d1 where q: "GormStore_First tn E ctx m cs d = (res, d1)" by fastforce
    from gorm_First_spec[OF ok mean q] run q 2 v show ?thesis
      by (cases res) (auto simp: NewGormStore_def honest_failure_def refused_conds_def intro: spec_first spec_failed)
  next
    case 3
    obtain res d1 where q: "GormStore_Count tn E ctx m cs d = (res, d1)" by fastforce
    from gorm_Count_spec[OF ok mean q] run q 3 v show ?thesis
      by (cases res) (auto simp: NewGormStore_def honest_failure_def refused_conds_def intro: spec_count spec_failed)
  qed
qed

lemma gorm_write_refines:
  assumes ok: "engine_ok E tbl ext pk sat" and run: "exec_op (NewGormStore tn E) ctx x d = (r, d')"
    and x: "x \<in> {OpUpdate m ch cs, OpDelete m cs}"
  shows "spec_step sat (\<lambda>t. fst (eng_parse E t)) pk (scoped_type tn E) ctx x (tbl d) r (tbl d') \<and> ext d' = ext d"
proof (cases "cs = [] \<or> (\<exists>e. apply_conds cs = Inl e)")
  case True
  then obtain e where "r = Failed e" "d' = d" "refused_conds cs e" "cs = [] \<longrightarrow> errors_is e ErrUnconditional"
    using run x refused_Inl refused_unconditional
    by (auto simp: NewGormStore_def GormStore_Update_def GormStore_Delete_def answer_of_err_def refused_conds_def
        split: if_splits)
  then show ?thesis using x by (auto intro!: spec_failed simp: honest_failure_def)
next
  case False
  then obtain ws where ws: "apply_conds cs = Inr ws" "cs \<noteq> []" by (cases "apply_conds cs") auto
  have v: "list_all valid_cond cs" and mean: "conds_mean sat (cond_sem sat) cs ws"
    using apply_conds_Inr[OF engine_okD(2)[OF ok] ws(1)] by simp_all
  from x consider "x = OpUpdate m ch cs" | "x = OpDelete m cs" by blast
  then show ?thesis
  proof cases
    case 1
    obtain res d1 where q: "GormStore_Update tn E ctx m ch cs d = (res, d1)" by fastforce
    from gorm_Update_spec[OF ok mean q] run q 1 v ws(2) show ?thesis
      by (cases res) (auto simp: NewGormStore_def honest_failure_def refused_conds_def answer_of_err_def
          intro: spec_update spec_failed)
  next
    case 2
    obtain res d1 where q: "GormStore_Delete tn E ctx m cs d = (res, d1)" by fastforce
    from gorm_Delete_spec[OF ok mean q] run q 2 v ws(2) show ?thesis
      by (cases res) (auto simp: NewGormStore_def honest_failure_def refused_conds_def answer_of_err_def
          intro: spec_delete spec_failed)
  qed
qed

lemma gorm_create_refines:
  assumes ok: "engine_ok E tbl ext pk sat" and run: "exec_op (NewGormStore tn E) ctx (OpCreate m v) d = (r, d')"
    and cov: "creates_records (scoped_type tn E) (OpCreate m v)"
  shows "spec_step sat (\<lambda>t. fst (eng_parse E t)) pk (scoped_type tn E) ctx (OpCreate m v) (tbl d) r (tbl d') \<and> ext d' = ext d"
proof -
  obtain val where v: "v = RPtr (Some val)" "scoped_type tn E (md_type m) \<longrightarrow> all_aware val"
    using cov by (auto split: rvalue.splits option.splits)
  obtain res where q: "GormStore_Create tn E ctx m (RPtr (Some val)) d = (res, d')" "r = answer_of_err res"
    using run by (auto simp: v(1) NewGormStore_def apfst_def map_prod_def split: prod.splits)
  note law = gorm_Create_records[OF ok v(2) q(1)]
  show ?thesis
  proof (cases res)
    case None
    with law spec_create[OF _ refl, where val = val and T = "tbl d" and m = m and ctx = ctx and sat = sat and pk = pk
        and scoped = "scoped_type tn E" and table_of = "\<lambda>t. fst (eng_parse E t)"] show ?thesis
      by (simp add: v(1) q(2) answer_of_err_def)
  next
    case (Some e)
    have "honest_failure sat (\<lambda>t. fst (eng_parse E t)) pk (scoped_type tn E) ctx (OpCreate m v) (tbl d) e"
    proof (cases "\<exists>aware row. val = RStruct aware row")
      case True
      then obtain aware row where val: "val = RStruct aware row" by blast
      with v(2) have "scoped_type tn E (md_type m) \<longrightarrow> aware" by simp
      from gorm_Create_spec[OF ok refl this q(1)[unfolded Some val]] show ?thesis by (simp add: honest_failure_def v(1) val)
    next
      case False
      then show ?thesis by (cases val) (auto simp: honest_failure_def v(1))
    qed
    then show ?thesis using law Some by (auto simp: q(2) answer_of_err_def intro: spec_failed)
  qed
qed

lemma gorm_op_refines:
  assumes "engine_ok E tbl ext pk sat" and "creates_records (scoped_type tn E) x"
    and "exec_op (NewGormStore tn E) ctx x d = (r, d')"
  shows "spec_step sat (\<lambda>t. fst (eng_parse E t)) pk (scoped_type tn E) ctx x (tbl d) r (tbl d') \<and> ext d' = ext d"
  using gorm_read_refines[OF assms(1,3)] gorm_write_refines[OF assms(1,3)] gorm_create_refines[OF assms(1)] assms(2,3)
  by (cases x) blast+

lemma gorm_prog_refines:
  assumes "engine_ok E tbl ext pk sat" and "covered_prog (scoped_type tn E) p"
    and "exec_prog p (NewGormStore tn E) ctx d = (rs, e, d')"
  shows "spec_run (spec_step sat (\<lambda>t. fst (eng_parse E t)) pk (scoped_type tn E) ctx) p (tbl d) rs e (tbl d') \<and> ext d' = ext d"
  using assms(2,3)
proof (induction p arbitrary: d rs e d')
  case (Return e0)
  then show ?case by (auto intro: spec_return)
next
  case (Do x k)
  obtain r d1 where x: "exec_op (NewGormStore tn E) ctx x d = (r, d1)" by fastforce
  obtain rs' e' d2 where k: "exec_prog (k r) (NewGormStore tn E) ctx d1 = (rs', e', d2)" by (metis prod.exhaust)
  have eq: "rs = r # rs'" "e = e'" "d' = d2" using Do.prems(2) x k by simp_all
  have cov: "creates_records (scoped_type tn E) x" "covered_prog (scoped_type tn E) (k r)" using Do.prems(1) by simp_all
  from gorm_op_refines[OF assms(1) cov(1) x] Do.IH[OF rangeI cov(2) k] show ?case
    by (auto simp: eq intro: spec_do)
next
  case (Atomic body k)
  let ?S = "NewGormStore tn E" and ?step = "spec_step sat (\<lambda>t. fst (eng_parse E t)) pk (scoped_type tn E) ctx"
  obtain res d1 where t: "GormStore_Transact E ctx (\<lambda>d. snd (exec_prog body ?S ctx d)) d = (res, d1)" by fastforce
  obtain rs' e' d2 where k: "exec_prog (k (answer_of_err res)) ?S ctx d1 = (rs', e', d2)" by (metis prod.exhaust)
  have "Transact ?S = GormStore_Transact E" by (simp add: NewGormStore_def)
  then have eq: "rs = answer_of_err res # rs'" "e = e'" "d' = d2" using Atomic.prems(2) t k by simp_all
  have cov: "covered_prog (scoped_type tn E) body" "covered_prog (scoped_type tn E) (k (answer_of_err res))"
    using Atomic.prems(1) by simp_all
  have rest: "spec_run ?step (k (answer_of_err res)) (tbl d1) rs' e' (tbl d2)" "ext d2 = ext d1"
    using Atomic.IH(2)[OF rangeI cov(2) k] by simp_all
  from gorm_Transact_spec[OF assms(1) t] show ?case
  proof (elim disjE exE conjE)
    fix err assume "res = Some err" "foreign err" "tbl d1 = tbl d" "ext d1 = ext d"
    then show ?case using rest by (auto simp: eq answer_of_err_def intro: spec_refused)
  next
    fix d0 e1 db assume b: "tbl d0 = tbl d" "ext d0 = ext d" "snd (exec_prog body ?S ctx d0) = (e1, db)" "ext d1 = ext db"
      and res: "case e1 of
          None \<Rightarrow> res = None \<and> tbl d1 = tbl db \<or> (\<exists>e. res = Some e \<and> foreign e \<and> tbl d1 = tbl d)
        | Some e \<Rightarrow> tbl d1 = tbl d \<and> res \<noteq> None \<and> (if gorm_error E e then foreign (the res) else res = Some e)"
    obtain inner where "exec_prog body ?S ctx d0 = (inner, e1, db)" using b(3) by (metis prod.collapse)
    from Atomic.IH(1)[OF cov(1) this] have body: "spec_run ?step body (tbl d) inner e1 (tbl db)" "ext db = ext d"
      by (simp_all add: b(1,2))
    have x: "ext d' = ext d" using rest(2) body(2) b(4) eq(3) by simp
    show ?case
    proof (cases res)
      case None
      then have "e1 = None" "tbl d1 = tbl db" using res by (auto split: option.splits)
      with None rest body x show ?thesis by (auto simp: eq answer_of_err_def intro: spec_committed)
    next
      case (Some err)
      then have "tbl d1 = tbl d" "foreign err \<or> e1 = Some err"
        using res by (auto split: option.splits if_splits)
      moreover have "spec_run ?step (k (Failed err)) (tbl d1) rs' e' (tbl d2)" using rest(1) Some by (simp add: answer_of_err_def)
      ultimately show ?thesis using body(1) x Some
        by (auto simp: eq answer_of_err_def intro: spec_refused spec_rolled_back)
    qed
  qed
qed

text \<open>
  C2: the adapter implements the storage specification. Take any program over the store, whatever
  its operations, the conditions it gives (of all eight operators, or malformed) and its
  transactions, nested or not; of the values it creates only that they are non-nil pointers to
  records, tenant-aware where the model is scoped. Over an engine that behaves as documented, the
  answers the GORM adapter gives and the rows it leaves are a run of the program on the abstract
  store: a find returns exactly the rows of the context's tenant that satisfy the conditions, a
  first one of them, a count their number, a create appends the stamped records if no unique
  key clashes, an update or delete with at least one condition changes exactly the selected
  rows, a transaction takes effect as a whole or not at all, and an operation that fails changes
  no table and reports "not found" or "duplicate" only when the tables say so. Nothing outside
  the database is touched.
\<close>

theorem gorm_store_refines:
  assumes "engine_ok E tbl ext pk sat" and "covered_prog (scoped_type tn E) p"
    and "exec_prog p (NewGormStore tn E) ctx d = (answers, e, d')"
  shows "spec_run (spec_step sat (\<lambda>t. fst (eng_parse E t)) pk (scoped_type tn E) ctx) p (tbl d) answers e (tbl d') \<and> ext d' = ext d"
  by (rule gorm_prog_refines[OF assms])

text \<open>A transaction that deletes a note, and takes it back unless the count says that one is left.\<close>

definition sample_prog :: store_prog where
  "sample_prog = Atomic (Do (OpDelete (zero_model note_type) [Where ''name'' (CStr ''x'')])
       (\<lambda>_. Do (OpCount (zero_model note_type) [Compare ''name'' OpNotEqual (CStr ''q'')])
         (\<lambda>n. Return (if n = Number 1 then None else Some ErrForbidden))))
     (\<lambda>r. Do (OpFind (zero_model note_type) []) (\<lambda>_. Return None))"

theorem gorm_store_refines_witness:
  "let outcome = exec_prog sample_prog (NewGormStore sample_iso (mem_engine sample_pk)) acme_ctx sample_db
   in fst outcome = [Failed ErrForbidden, Rows [note_row ''acme'' ''x'']] \<and>
     spec_run (spec_step mem_sat (\<lambda>t. fst (eng_parse (mem_engine sample_pk :: unit mem engine) t)) sample_pk
         (scoped_type sample_iso (mem_engine sample_pk :: unit mem engine)) acme_ctx)
       sample_prog (fst sample_db) (fst outcome) (fst (snd outcome)) (fst (snd (snd outcome)))"
proof -
  let ?run = "exec_prog sample_prog (NewGormStore sample_iso (mem_engine sample_pk)) acme_ctx sample_db"
  have "covered_prog (scoped_type sample_iso (mem_engine sample_pk :: unit mem engine)) sample_prog"
    by (simp add: sample_prog_def)
  moreover have "?run = (fst ?run, fst (snd ?run), snd (snd ?run))" by simp
  moreover have "fst ?run = [Failed ErrForbidden, Rows [note_row ''acme'' ''x'']]" by code_simp
  ultimately show ?thesis using gorm_store_refines [OF mem_engine_ok, of sample_iso sample_pk sample_prog] unfolding Let_def by blast
qed

end
