(* ===== verification/Idempotency.thy ===== *)
theory Idempotency
  imports GormStore
begin

text \<open>
  Exactly-once processing, \<^verbatim>\<open>pkg/modulekit/idempotency.go\<close>: the marker written in the handler's
  own transaction, the diagnostic read and the removal of a marker. The theorems are proved
  from the storage contract and hold for the adapter of \<open>GormStore\<close>.
\<close>

section \<open>Operations\<close>

definition ProcessedEvent :: rtype where
  "ProcessedEvent = TStruct ''modulekit_processed_events'' True"

text \<open>The primary keys of the SDK's tables, as the migrations declare them.\<close>

definition modulekit_pk :: "string \<Rightarrow> string list list" where
  "modulekit_pk table =
     (if table = ''modulekit_processed_events'' then [[''tenant_id'', ''consumer'', ''event_id'']]
      else if table = ''modulekit_projection_state'' then [[''tenant_id'', ''projection'']]
      else if table = ''modulekit_sagas'' then [[''tenant_id'', ''saga_id'']]
      else if table = ''modulekit_saga_steps'' then [[''tenant_id'', ''saga_id'', ''position'']]
      else [])"

definition ErrDuplicateEvent :: gerr where
  "ErrDuplicateEvent = ErrNew ''modulekit: event already processed''"
definition ErrInvalidIdempotencyKey :: gerr where
  "ErrInvalidIdempotencyKey = ErrNew ''modulekit: invalid idempotency key''"

definition isDuplicateKey :: "gerr \<Rightarrow> bool" where
  "isDuplicateKey err = errors_is err ErrDuplicate"

definition marker_row :: "string \<Rightarrow> string \<Rightarrow> int \<Rightarrow> row" where
  "marker_row consumer eventID t =
     [(''tenant_id'', CStr []), (''consumer'', CStr consumer), (''event_id'', CStr eventID), (''processed_at'', CTime t)]"

text \<open>The transaction's body; \<open>clock\<close> is the variable \<open>now\<close>.\<close>

definition claim_then ::
  "('d \<Rightarrow> int) \<Rightarrow> 'd store \<Rightarrow> go_ctx \<Rightarrow> string \<Rightarrow> string \<Rightarrow> ('d \<Rightarrow> gerr option \<times> 'd) \<Rightarrow> 'd \<Rightarrow> gerr option \<times> 'd" where
  "claim_then clock S ctx consumer eventID handle d =
     (case Create S ctx (zero_model (TPtr ProcessedEvent))
             (RPtr (Some (RStruct True (marker_row consumer eventID (clock d))))) d of
        (Some err, d1) \<Rightarrow>
          if isDuplicateKey err then (Some ErrDuplicateEvent, d1)
          else (Some (prefixf [''claim event '', eventID, '' for '', consumer] err), d1)
      | (None, d1) \<Rightarrow> handle d1)"

definition Idempotent ::
  "('d \<Rightarrow> int) \<Rightarrow> 'd store \<Rightarrow> go_ctx \<Rightarrow> string \<Rightarrow> string \<Rightarrow> ('d \<Rightarrow> gerr option \<times> 'd) \<Rightarrow> 'd \<Rightarrow> gerr option \<times> 'd" where
  "Idempotent clock S ctx consumer eventID handle d =
     (if consumer = [] then (Some (wrapf ErrInvalidIdempotencyKey [''consumer name is required'']), d)
      else if eventID = [] then (Some (wrapf ErrInvalidIdempotencyKey [''event ID is required'']), d)
      else Transact S ctx (claim_then clock S ctx consumer eventID handle) d)"

definition WasProcessed ::
  "'d store \<Rightarrow> go_ctx \<Rightarrow> string \<Rightarrow> string \<Rightarrow> 'd \<Rightarrow> (gerr + bool) \<times> 'd" where
  "WasProcessed S ctx consumer eventID d =
     (case Count S ctx (zero_model (TPtr ProcessedEvent))
             [Where ''consumer'' (CStr consumer), Where ''event_id'' (CStr eventID)] d of
        (Inl err, d') \<Rightarrow> (Inl (prefixf [''check processed '', consumer, ''/'', eventID] err), d')
      | (Inr n, d') \<Rightarrow> (Inr (n > 0), d'))"

definition ForgetProcessed ::
  "'d store \<Rightarrow> go_ctx \<Rightarrow> string \<Rightarrow> string \<Rightarrow> 'd \<Rightarrow> gerr option \<times> 'd" where
  "ForgetProcessed S ctx consumer eventID d =
     Delete S ctx (zero_model (TPtr ProcessedEvent))
       [Where ''consumer'' (CStr consumer), Where ''event_id'' (CStr eventID)] d"

section \<open>The marker\<close>

definition is_marker :: "go_ctx \<Rightarrow> string \<Rightarrow> string \<Rightarrow> row \<Rightarrow> bool" where
  "is_marker ctx consumer eventID r = (mget r ''tenant_id'' = Some (CStr (ctx_tenant ctx)) \<and>
     mget r ''consumer'' = Some (CStr consumer) \<and> mget r ''event_id'' = Some (CStr eventID))"

definition processed :: "(string \<Rightarrow> row list) \<Rightarrow> go_ctx \<Rightarrow> string \<Rightarrow> string \<Rightarrow> bool" where
  "processed T ctx consumer eventID =
     list_ex (is_marker ctx consumer eventID) (T ''modulekit_processed_events'')"

text \<open>The tables with the marker of the event added at time \<open>t\<close>.\<close>

definition with_marker :: "go_ctx \<Rightarrow> string \<Rightarrow> string \<Rightarrow> int \<Rightarrow> (string \<Rightarrow> row list) \<Rightarrow> string \<Rightarrow> row list" where
  "with_marker ctx consumer eventID t T = T(''modulekit_processed_events'' :=
     T ''modulekit_processed_events'' @ [stamped ctx True (marker_row consumer eventID t)])"

text \<open>A handler that leaves the markers of the consumer alone.\<close>

definition keeps_markers :: "('d \<Rightarrow> string \<Rightarrow> row list) \<Rightarrow> ('d \<Rightarrow> gerr option \<times> 'd) \<Rightarrow> bool" where
  "keeps_markers tbl h \<longleftrightarrow> (\<forall>d e d'. h d = (e, d') \<longrightarrow>
     set (tbl d ''modulekit_processed_events'') \<subseteq> set (tbl d' ''modulekit_processed_events''))"

text \<open>The same event delivered again and again, with the outcome of every delivery.\<close>

fun deliveries :: "('d \<Rightarrow> gerr option \<times> 'd) \<Rightarrow> nat \<Rightarrow> 'd \<Rightarrow> gerr option list \<times> 'd" where
  "deliveries step 0 d = ([], d)"
| "deliveries step (Suc n) d =
     (let (e, d1) = step d; (es, d2) = deliveries step n d1 in (e # es, d2))"

lemma marker_stamped:
  "usable ctx \<Longrightarrow> is_marker ctx consumer eventID (stamped ctx True (marker_row consumer eventID t))"
  by (simp add: is_marker_def stamped_def needs_tenant_def usable_def stamp_def marker_row_def tenant_column_def)

lemma same_key_marker:
  "usable ctx \<Longrightarrow>
   same_key [''tenant_id'', ''consumer'', ''event_id''] r (stamped ctx True (marker_row consumer eventID t)) =
     is_marker ctx consumer eventID r"
  by (simp add: same_key_def is_marker_def stamped_def needs_tenant_def usable_def stamp_def marker_row_def tenant_column_def)

lemma selects_marker:
  assumes "usable ctx"
  shows "selects ctx True (zero_model t) [Where ''consumer'' (CStr c), Where ''event_id'' (CStr e)] =
     is_marker ctx c e"
  using assms row_tenant_iff[of "ctx_tenant ctx"]
  by (auto simp: fun_eq_iff selects_def in_scope_def needs_tenant_def usable_def is_marker_def zero_model_def tenant_column_def)

section \<open>What the contract gives\<close>

locale sdk_tables = store_contract +
  assumes sdk_keys: "table \<in> {''modulekit_processed_events'', ''modulekit_projection_state'',
      ''modulekit_sagas'', ''modulekit_saga_steps''} \<Longrightarrow> pk table = modulekit_pk table"
begin

lemma sdk_type [simp]:
  "table_of (TPtr (TStruct n True)) = n" "scoped (TPtr (TStruct n True))"
  "table_of (TPtr (TSlice (TStruct n True))) = n" "scoped (TPtr (TSlice (TStruct n True)))"
  using table_of_struct scoped_struct by simp_all

lemma claim:
  assumes "usable ctx" and "claim_then clock S ctx consumer eventID handle d = (res, d')"
  obtains (duplicate) "res = Some ErrDuplicateEvent" "processed (tbl d) ctx consumer eventID"
      "tbl d' = tbl d" "ext d' = ext d"
  | (failed) e where "res = Some e" "e \<noteq> ErrDuplicateEvent" "tbl d' = tbl d" "ext d' = ext d"
  | (claimed) d1 where "handle d1 = (res, d')" "\<not> processed (tbl d) ctx consumer eventID"
      "processed (tbl d1) ctx consumer eventID" "ext d1 = ext d"
      "\<exists>t. tbl d1 = with_marker ctx consumer eventID t (tbl d)"
proof -
  let ?r = "marker_row consumer eventID (clock d)"
  obtain e d1 where c: "Create S ctx (zero_model (TPtr ProcessedEvent)) (RPtr (Some (RStruct True ?r))) d = (e, d1)"
    by fastforce
  note spec = Create_spec[OF refl _ c, simplified, unfolded zero_model_def ProcessedEvent_def, simplified,
      unfolded sdk_keys[of "''modulekit_processed_events''", simplified] modulekit_pk_def, simplified]
  show thesis
  proof (cases e)
    case None
    then show thesis
      using spec assms c marker_stamped[OF assms(1)] same_key_marker[OF assms(1)]
      by (intro claimed[of d1]) (auto simp: claim_then_def processed_def list_ex_iff with_marker_def)
  next
    case (Some err)
    then show thesis
      using spec assms c same_key_marker[OF assms(1)] duplicate failed
      by (cases "isDuplicateKey err")
        (auto simp: claim_then_def isDuplicateKey_def processed_def list_ex_iff ErrDuplicateEvent_def prefixf_def)
  qed
qed

end

context sdk_tables
begin

lemma Idempotent_cases:
  assumes "usable ctx" and "keeps_markers tbl handle"
    and "Idempotent clock S ctx consumer eventID handle d = (res, d')"
  obtains (succeeded) d1 d2 where "res = None" "\<not> processed (tbl d) ctx consumer eventID"
      "handle d1 = (None, d2)" "ext d1 = ext d" "ext d' = ext d2" "tbl d' = tbl d2"
      "processed (tbl d') ctx consumer eventID"
      "\<exists>t. tbl d1 = with_marker ctx consumer eventID t (tbl d)"
  | (refused) e where "res = Some e" "tbl d' = tbl d"
      "processed (tbl d) ctx consumer eventID \<Longrightarrow> ext d' = ext d"
proof (cases "consumer = [] \<or> eventID = []")
  case True
  with assms(3) refused show thesis by (auto simp: Idempotent_def split: if_splits)
next
  case False
  have t: "Transact S ctx (claim_then clock S ctx consumer eventID handle) d = (res, d')"
    using assms(3) False by (simp add: Idempotent_def)
  from Transact_spec[OF t] show thesis
  proof (elim disjE exE conjE)
    fix e assume "res = Some e" "tbl d' = tbl d" "ext d' = ext d"
    then show thesis using refused by blast
  next
    fix d0 e1 d1
    assume d0: "tbl d0 = tbl d" "ext d0 = ext d" "claim_then clock S ctx consumer eventID handle d0 = (e1, d1)"
      "ext d' = ext d1"
      and res: "case e1 of
          None \<Rightarrow> res = None \<and> tbl d' = tbl d1 \<or> (\<exists>e. res = Some e \<and> foreign e \<and> tbl d' = tbl d)
        | Some e \<Rightarrow> tbl d' = tbl d \<and> res \<noteq> None \<and> (if engine_error e then foreign (the res) else res = Some e)"
    from assms(1) d0(3) show thesis
    proof (cases rule: claim)
      case duplicate
      with res d0 refused show thesis by auto
    next
      case (failed e)
      with res d0 refused show thesis by auto
    next
      case (claimed d2)
      have kept: "processed (tbl d1) ctx consumer eventID"
        using assms(2) claimed(1,3) unfolding keeps_markers_def processed_def list_ex_iff by blast
      have np: "\<not> processed (tbl d) ctx consumer eventID" using claimed(2) d0(1) by simp
      show thesis
      proof (cases res)
        case None
        then have "e1 = None" "tbl d' = tbl d1" using res by (auto split: option.splits)
        with None np claimed d0 kept show thesis by (intro succeeded[of d2 d1]) simp_all
      next
        case (Some e)
        then have "tbl d' = tbl d" using res by (auto split: option.splits)
        with Some np show thesis by (intro refused) simp_all
      qed
    qed
  qed
qed

lemma deliveries_after:
  assumes "usable ctx" and "keeps_markers tbl handle"
    and "deliveries (Idempotent clock S ctx consumer eventID handle) n d = (es, d')"
    and "processed (tbl d) ctx consumer eventID"
  shows "None \<notin> set es \<and> tbl d' = tbl d \<and> ext d' = ext d"
  using assms(3,4)
proof (induction n arbitrary: d es)
  case (Suc n)
  obtain e d1 where s: "Idempotent clock S ctx consumer eventID handle d = (e, d1)" by fastforce
  obtain es' d2 where r: "deliveries (Idempotent clock S ctx consumer eventID handle) n d1 = (es', d2)" by fastforce
  have eq: "es = e # es'" "d' = d2" using Suc.prems(1) s r by simp_all
  from assms(1,2) s have "e \<noteq> None \<and> tbl d1 = tbl d \<and> ext d1 = ext d"
    by (cases rule: Idempotent_cases) (use Suc.prems(2) in auto)
  with Suc.IH[OF r[folded eq(2)]] Suc.prems(2) eq show ?case by auto
qed simp

lemma deliveries_once:
  assumes "usable ctx" and "keeps_markers tbl handle"
    and "deliveries (Idempotent clock S ctx consumer eventID handle) n d = (es, d')"
  shows "(None \<notin> set es \<longrightarrow> tbl d' = tbl d) \<and>
    (None \<in> set es \<longrightarrow> length (filter (\<lambda>e. e = None) es) = 1 \<and> \<not> processed (tbl d) ctx consumer eventID \<and>
       processed (tbl d') ctx consumer eventID \<and>
       (\<exists>k < n. \<exists>dk t d1 d2. es ! k = None \<and>
          snd (deliveries (Idempotent clock S ctx consumer eventID handle) k d) = dk \<and>
          tbl dk = tbl d \<and> tbl d1 = with_marker ctx consumer eventID t (tbl d) \<and> ext d1 = ext dk \<and>
          handle d1 = (None, d2) \<and> tbl d' = tbl d2 \<and> ext d' = ext d2))"
  using assms(3)
proof (induction n arbitrary: d es)
  case (Suc n)
  let ?step = "Idempotent clock S ctx consumer eventID handle"
  obtain e d1 where s: "?step d = (e, d1)" by fastforce
  obtain es' d2 where r: "deliveries ?step n d1 = (es', d2)" by fastforce
  have eq: "es = e # es'" "d' = d2" using Suc.prems(1) s r by simp_all
  have later: "snd (deliveries ?step (Suc k) d) = snd (deliveries ?step k d1)" for k
    using s by (simp split: prod.splits)
  from assms(1,2) s show ?case
  proof (cases rule: Idempotent_cases)
    case (succeeded x y)
    with deliveries_after[OF assms(1,2) r succeeded(7)] eq
    have "None \<notin> set es'" "tbl d' = tbl y" "ext d' = ext y" "processed (tbl d') ctx consumer eventID" by auto
    moreover from this(1) have "filter (\<lambda>e. e = None) es' = []"
      unfolding filter_empty_conv by (intro ballI notI) simp
    moreover have "snd (deliveries ?step 0 d) = d" by simp
    ultimately show ?thesis using succeeded(1-4,8) eq(1)
      by (intro conjI impI exI[of _ 0]) auto
  next
    case (refused x)
    note IH = Suc.IH[OF r[folded eq(2)]]
    show ?thesis
    proof (cases "None \<in> set es'")
      case True
      with IH obtain k t u v where k: "k < n" "es' ! k = None"
        "tbl (snd (deliveries ?step k d1)) = tbl d1" "tbl u = with_marker ctx consumer eventID t (tbl d1)"
        "ext u = ext (snd (deliveries ?step k d1))" "handle u = (None, v)" "tbl d' = tbl v" "ext d' = ext v"
        by blast
      have "Suc k < Suc n" "es ! Suc k = None" using k(1,2) eq(1) by simp_all
      with k refused(1,2) IH True later[of k] eq(1) show ?thesis
        by (intro conjI impI exI[of _ "Suc k"] exI[of _ "snd (deliveries ?step (Suc k) d)"]
            exI[of _ t] exI[of _ u] exI[of _ v]) simp_all
    next
      case False
      with refused(1,2) IH eq(1) show ?thesis by simp
    qed
  qed
qed simp

lemma WasProcessed_spec:
  assumes "usable ctx" and "WasProcessed S ctx consumer eventID d = (res, d')"
  shows "tbl d' = tbl d \<and> (\<forall>b. res = Inr b \<longrightarrow> b = processed (tbl d) ctx consumer eventID)"
proof -
  let ?m = "zero_model (TPtr ProcessedEvent)"
  let ?cs = "[Where ''consumer'' (CStr consumer), Where ''event_id'' (CStr eventID)]"
  obtain n d1 where c: "Count S ctx ?m ?cs d = (n, d1)" by fastforce
  have p: "list_all plain_cond ?cs" by (simp add: bare_name_def bare_char_def)
  have m: "table_of (md_type ?m) = ''modulekit_processed_events''" "scoped (md_type ?m)"
    by (simp_all add: zero_model_def ProcessedEvent_def)
  have "(int (length (filter P xs)) > 0) = list_ex P xs" for P :: "row \<Rightarrow> bool" and xs
    by (induction xs) auto
  note pos = this
  have "tbl d1 = tbl d \<and> (\<forall>k. n = Inr k \<longrightarrow> k = int (length (filter (is_marker ctx consumer eventID)
      (tbl d ''modulekit_processed_events''))))"
    using Count_spec[OF p _ c] m selects_marker[OF assms(1), of "TPtr ProcessedEvent" consumer eventID]
    by (simp add: zero_model_def)
  with assms(2) c pos show ?thesis
    by (cases n) (auto simp: WasProcessed_def processed_def)
qed

end

section \<open>The adapter\<close>

definition sdk_pk :: "(string \<Rightarrow> string list list) \<Rightarrow> bool" where
  "sdk_pk pk \<longleftrightarrow> (\<forall>table \<in> {''modulekit_processed_events'', ''modulekit_projection_state'',
      ''modulekit_sagas'', ''modulekit_saga_steps''}. pk table = modulekit_pk table)"

lemma sdk_pk_modulekit: "sdk_pk modulekit_pk"
  by (simp add: sdk_pk_def)

lemma gorm_sdk_tables:
  assumes "engine_ok E tbl ext pk sat" and "sdk_pk pk"
  shows "sdk_tables (NewGormStore tn E) tbl ext (\<lambda>t. fst (eng_parse E t)) pk (scoped_type tn E) (gorm_error E)"
  using NewGormStore_contract[OF assms(1)] assms(2)
  by (simp add: sdk_tables_def sdk_tables_axioms_def sdk_pk_def)

interpretation gorm_sdk: sdk_tables "NewGormStore tn (mem_engine modulekit_pk :: 'e mem engine)" fst snd
  "\<lambda>t. fst (eng_parse (mem_engine modulekit_pk :: 'e mem engine) t)" modulekit_pk
  "scoped_type tn (mem_engine modulekit_pk :: 'e mem engine)"
  "gorm_error (mem_engine modulekit_pk :: 'e mem engine)"
  by (rule gorm_sdk_tables[OF mem_engine_ok sdk_pk_modulekit])

section \<open>Properties\<close>

text \<open>
  C9: exactly once under redelivery, for a handler that does not itself delete markers of
  processed events. However often the same event is delivered, and whatever the store or the
  handler does in between, at most one delivery succeeds; if none does, no table has
  changed. If one does, say the k-th, the event was not processed before and is recorded as
  processed after; the tables that delivery starts from are the initial ones; it adds the
  marker, runs the handler from there, with the outside world as the delivery found it, and
  every table, and the outside world, is at the very end as that single run left it: the
  failed attempts before it and the redeliveries after it left nothing in the tables, and the
  redeliveries touched nothing outside them either.
\<close>

theorem Idempotent_exactly_once:
  assumes "engine_ok E tbl ext pk sat" and "sdk_pk pk" and "usable ctx" and "keeps_markers tbl handle"
    and "deliveries (Idempotent clock (NewGormStore tn E) ctx consumer eventID handle) n d = (es, d')"
  shows "(None \<notin> set es \<longrightarrow> tbl d' = tbl d) \<and>
    (None \<in> set es \<longrightarrow> length (filter (\<lambda>e. e = None) es) = 1 \<and> \<not> processed (tbl d) ctx consumer eventID \<and>
       processed (tbl d') ctx consumer eventID \<and>
       (\<exists>k < n. \<exists>dk t d1 d2. es ! k = None \<and>
          snd (deliveries (Idempotent clock (NewGormStore tn E) ctx consumer eventID handle) k d) = dk \<and>
          tbl dk = tbl d \<and> tbl d1 = with_marker ctx consumer eventID t (tbl d) \<and> ext d1 = ext dk \<and>
          handle d1 = (None, d2) \<and> tbl d' = tbl d2 \<and> ext d' = ext d2))"
  by (rule sdk_tables.deliveries_once[OF gorm_sdk_tables[OF assms(1,2)] assms(3,4,5)])

text \<open>A handler that appends its mark to the outside world, and an empty database.\<close>

definition sample_handle :: "nat mem \<Rightarrow> gerr option \<times> nat mem" where
  "sample_handle d = (None, (fst d, Suc (snd d)))"

theorem Idempotent_exactly_once_witness:
  "snd (snd (deliveries (Idempotent (\<lambda>_. 0) (NewGormStore sample_iso (mem_engine modulekit_pk)) acme_ctx
     ''billing'' ''e1'' sample_handle) 3 ((\<lambda>_. []), 0))) = 1"
proof -
  let ?run = "deliveries (Idempotent (\<lambda>_. 0) (NewGormStore sample_iso (mem_engine modulekit_pk)) acme_ctx
     ''billing'' ''e1'' sample_handle) 3 ((\<lambda>_. []), 0)"
  have u: "usable acme_ctx" by (simp add: usable_def)
  have k: "keeps_markers fst sample_handle" by (simp add: keeps_markers_def sample_handle_def)
  have r: "fst ?run = [None, Some ErrDuplicateEvent, Some ErrDuplicateEvent]" "snd (snd ?run) = 1"
    by code_simp+
  have "length (filter (\<lambda>e. e = None) (fst ?run)) = 1"
    using Idempotent_exactly_once[OF mem_engine_ok sdk_pk_modulekit u k prod.collapse[symmetric],
        of "\<lambda>_. 0" sample_iso "''billing''" "''e1''" 3 "((\<lambda>_. []), 0)"] r(1) by simp
  then show ?thesis using r(2) by simp
qed

end
