(* ===== verification/Projection.thy ===== *)
theory Projection
  imports Idempotency
begin

text \<open>
  Projections, \<^verbatim>\<open>pkg/modulekit/projection.go\<close>: applying an event to a read model only when it
  is newer than what is stored, and rebuilding a read model behind a durable mark.
\<close>

section \<open>Operations\<close>

text \<open>
  A value implementing \<open>Projected\<close>: the results of its methods, the row it is when created
  and the model it is when passed to \<open>Update\<close>. The module's own \<open>SourceSequence\<close> method on
  a stored row is the parameter \<open>seq_of\<close>.
\<close>

record projected =
  ProjectionKey :: string
  KeyColumn :: string
  SourceSequence :: int
  ProjectedColumns :: row
  pr_type :: rtype
  pr_row :: row
  pr_keys :: row

definition ErrStaleProjection :: gerr where
  "ErrStaleProjection = ErrNew ''modulekit: event is older than projected state''"
definition ErrProjectionNotSequenced :: gerr where
  "ErrProjectionNotSequenced = ErrNew ''modulekit: projection row is not sequenced''"

definition project_tx :: "'d store \<Rightarrow> go_ctx \<Rightarrow> (row \<Rightarrow> int) \<Rightarrow> projected \<Rightarrow> 'd \<Rightarrow> gerr option \<times> 'd" where
  "project_tx S ctx seq_of row d =
     (case First S ctx (zero_model (TPtr (pr_type row))) [Where (KeyColumn row) (CStr (ProjectionKey row))] d of
        (Inl err, d1) \<Rightarrow>
          if errors_is err ErrNotFound
          then Create S ctx (zero_model (TPtr (pr_type row))) (RPtr (Some (RStruct True (pr_row row)))) d1
          else (Some (prefixf [''read projection '', ProjectionKey row] err), d1)
      | (Inr current, d1) \<Rightarrow>
          if seq_of current \<ge> SourceSequence row
          then (Some (wrapf ErrStaleProjection
                 [''key '', ProjectionKey row, '' holds sequence '', itoa (seq_of current),
                  '', event carries '', itoa (SourceSequence row)]), d1)
          else if ProjectedColumns row = []
          then (Some (wrapf ErrProjectionNotSequenced [''key '', ProjectionKey row, '' has no projected columns'']), d1)
          else Update S ctx \<lparr>md_type = TPtr (pr_type row), md_keys = pr_keys row\<rparr> (ProjectedColumns row)
                 [Where (KeyColumn row) (CStr (ProjectionKey row))] d1)"

definition Project :: "'d store \<Rightarrow> go_ctx \<Rightarrow> (row \<Rightarrow> int) \<Rightarrow> projected \<Rightarrow> 'd \<Rightarrow> gerr option \<times> 'd" where
  "Project S ctx seq_of row d =
     (if ProjectionKey row = [] then (Some (wrapf ErrProjectionNotSequenced [''projection row has no key'']), d)
      else if SourceSequence row \<le> 0
      then (Some (wrapf ErrProjectionNotSequenced
             [''key '', ProjectionKey row, '' carries sequence '', itoa (SourceSequence row)]), d)
      else if KeyColumn row = []
      then (Some (wrapf ErrProjectionNotSequenced [''projection model names no key column'']), d)
      else Transact S ctx (project_tx S ctx seq_of row) d)"

definition ProjectionState :: rtype where
  "ProjectionState = TStruct ''modulekit_projection_state'' True"

definition state_row :: "string \<Rightarrow> int \<Rightarrow> int option \<Rightarrow> row" where
  "state_row projection t since =
     [(''tenant_id'', CStr []), (''projection'', CStr projection), (''updated_at'', CTime t),
      (''rebuilding_since'', case since of None \<Rightarrow> CNull | Some x \<Rightarrow> CTime x)]"

definition IsRebuilding :: "'d store \<Rightarrow> go_ctx \<Rightarrow> string \<Rightarrow> 'd \<Rightarrow> (gerr + bool) \<times> 'd" where
  "IsRebuilding S ctx projection d =
     (case First S ctx (zero_model (TPtr ProjectionState)) [Where ''projection'' (CStr projection)] d of
        (Inl err, d') \<Rightarrow>
          if errors_is err ErrNotFound then (Inr False, d')
          else (Inl (prefixf [''read projection state '', projection] err), d')
      | (Inr state, d') \<Rightarrow> (Inr (mget state ''rebuilding_since'' \<notin> {None, Some CNull}), d'))"

definition markRebuilding ::
  "('d \<Rightarrow> int) \<Rightarrow> 'd store \<Rightarrow> go_ctx \<Rightarrow> string \<Rightarrow> int option \<Rightarrow> 'd \<Rightarrow> gerr option \<times> 'd" where
  "markRebuilding clock S ctx projection since d =
     (case First S ctx (zero_model (TPtr ProjectionState)) [Where ''projection'' (CStr projection)] d of
        (Inl err, d1) \<Rightarrow>
          if errors_is err ErrNotFound
          then Create S ctx (zero_model (TPtr ProjectionState))
                 (RPtr (Some (RStruct True (state_row projection (clock d1) since)))) d1
          else (Some (prefixf [''read projection state '', projection] err), d1)
      | (Inr state, d1) \<Rightarrow>
          Update S ctx (zero_model (TPtr ProjectionState))
            [(''rebuilding_since'', case since of None \<Rightarrow> CNull | Some x \<Rightarrow> CTime x), (''updated_at'', CTime (clock d1))]
            [Where ''projection'' (CStr projection)] d1)"

definition rebuild_tx ::
  "string \<Rightarrow> ('d \<Rightarrow> gerr option \<times> 'd) \<Rightarrow> ('d \<Rightarrow> gerr option \<times> 'd) \<Rightarrow> 'd \<Rightarrow> gerr option \<times> 'd" where
  "rebuild_tx projection trunc replay d =
     (case trunc d of
        (Some err, d1) \<Rightarrow> (Some (prefixf [''truncate projection '', projection] err), d1)
      | (None, d1) \<Rightarrow> replay d1)"

definition Rebuild ::
  "('d \<Rightarrow> int) \<Rightarrow> 'd store \<Rightarrow> go_ctx \<Rightarrow> string \<Rightarrow> ('d \<Rightarrow> gerr option \<times> 'd) \<Rightarrow> ('d \<Rightarrow> gerr option \<times> 'd)
     \<Rightarrow> 'd \<Rightarrow> gerr option \<times> 'd" where
  "Rebuild clock S ctx projection trunc replay d =
     (if projection = [] then (Some (wrapf ErrProjectionNotSequenced [''rebuild needs a projection name'']), d)
      else (case markRebuilding clock S ctx projection (Some (clock d)) d of
        (Some err, d1) \<Rightarrow> (Some err, d1)
      | (None, d1) \<Rightarrow> (case Transact S ctx (rebuild_tx projection trunc replay) d1 of
            (Some err, d2) \<Rightarrow> (Some (prefixf [''rebuild projection '', projection] err), d2)
          | (None, d2) \<Rightarrow> markRebuilding clock S ctx projection None d2)))"

section \<open>The stored position\<close>

text \<open>The rows of a key that the caller sees, and an event that keeps the promises \<open>Projected\<close> documents.\<close>

definition key_row :: "go_ctx \<Rightarrow> string \<Rightarrow> string \<Rightarrow> row \<Rightarrow> bool" where
  "key_row ctx col key r = (row_tenant r = ctx_tenant ctx \<and> mget r col = Some (CStr key))"

definition seqs :: "(row \<Rightarrow> int) \<Rightarrow> go_ctx \<Rightarrow> string \<Rightarrow> string \<Rightarrow> row list \<Rightarrow> int list" where
  "seqs seq_of ctx col key rows = map seq_of (filter (key_row ctx col key) rows)"

definition event_ok :: "(row \<Rightarrow> int) \<Rightarrow> string \<Rightarrow> string \<Rightarrow> string \<Rightarrow> projected \<Rightarrow> bool" where
  "event_ok seq_of table col key ev \<longleftrightarrow>
     pr_type ev = TStruct table True \<and> KeyColumn ev = col \<and> ProjectionKey ev = key \<and>
     mget (pr_row ev) col = Some (CStr key) \<and> col \<noteq> tenant_column \<and>
     (\<forall>t. seq_of (stamp t (pr_row ev)) = SourceSequence ev) \<and>
     (\<forall>r. seq_of (apply_changes (ProjectedColumns ev) r) = SourceSequence ev) \<and>
     (\<forall>r. mget r col = Some (CStr key) \<longrightarrow> mget (apply_changes (ProjectedColumns ev) r) col = Some (CStr key)) \<and>
     tenant_column \<notin> fst ` set (ProjectedColumns ev) \<and>
     (\<forall>(c, v)\<in>set (pr_keys ev). zero_cell v \<or> c = col \<and> v = CStr key)"

text \<open>Events applied one after the other; a delivery is settled when it need not be retried.\<close>

fun project_all ::
  "'d store \<Rightarrow> go_ctx \<Rightarrow> (row \<Rightarrow> int) \<Rightarrow> projected list \<Rightarrow> 'd \<Rightarrow> gerr option list \<times> 'd" where
  "project_all S ctx seq_of [] d = ([], d)"
| "project_all S ctx seq_of (ev # evs) d =
     (let (e, d1) = Project S ctx seq_of ev d; (es, d2) = project_all S ctx seq_of evs d1 in (e # es, d2))"

definition settled :: "gerr option \<Rightarrow> bool" where
  "settled res = (case res of None \<Rightarrow> True | Some e \<Rightarrow> errors_is e ErrStaleProjection)"

lemma selects_key:
  assumes "usable ctx" and "\<forall>(c, v)\<in>set ks. zero_cell v \<or> c = col \<and> v = CStr key"
  shows "selects ctx True \<lparr>md_type = t, md_keys = ks\<rparr> [Where col (CStr key)] = key_row ctx col key"
  using assms by (fastforce simp: fun_eq_iff selects_def in_scope_def needs_tenant_def usable_def key_row_def
      agrees_def list_all_iff)

lemma filter_map_if:
  assumes "\<And>r. P r \<Longrightarrow> P (f r)"
  shows "filter P (map (\<lambda>r. if P r then f r else r) rows) = map f (filter P rows)"
  using assms by (induction rows) auto

lemma only_one: "x \<in> set xs \<Longrightarrow> length xs \<le> 1 \<Longrightarrow> xs = [x]"
  by (cases xs) auto

lemma key_row_changes:
  assumes "event_ok seq_of table col key ev" and "key_row ctx col key r"
  shows "key_row ctx col key (apply_changes (ProjectedColumns ev) r)"
  using assms row_tenant_changes[of "ProjectedColumns ev" r] by (simp add: event_ok_def key_row_def)

context sdk_tables
begin

lemma project_tx_spec:
  assumes "usable ctx" and "event_ok seq_of table col key ev" and "bare_name col"
    and "length (seqs seq_of ctx col key (tbl d table)) \<le> 1"
    and "project_tx S ctx seq_of ev d = (res, d')"
  shows "ext d' = ext d \<and>
    (res = None \<longrightarrow> seqs seq_of ctx col key (tbl d' table) = [SourceSequence ev] \<and>
       (\<forall>s\<in>set (seqs seq_of ctx col key (tbl d table)). s < SourceSequence ev)) \<and>
    (res \<noteq> None \<longrightarrow> tbl d' = tbl d) \<and>
    (\<forall>e. res = Some e \<and> errors_is e ErrStaleProjection \<longrightarrow>
       (\<exists>s\<in>set (seqs seq_of ctx col key (tbl d table)). SourceSequence ev \<le> s))"
proof -
  note ev = assms(2)[unfolded event_ok_def]
  have ty: "table_of (TPtr (pr_type ev)) = table" "scoped (TPtr (pr_type ev))" using ev by simp_all
  let ?cs = "[Where (KeyColumn ev) (CStr (ProjectionKey ev))]"
  have plain: "list_all plain_cond ?cs" using ev assms(3) by simp
  obtain fr d1 where f: "First S ctx (zero_model (TPtr (pr_type ev))) ?cs d = (fr, d1)" by fastforce
  have sel: "selects ctx True (zero_model (TPtr (pr_type ev))) ?cs = key_row ctx col key"
    using selects_key[OF assms(1), of "[]" col key] ev by (simp add: zero_model_def)
  note first = First_spec[OF plain f, unfolded zero_model_def gomodel.simps ty,
      folded zero_model_def, simplified ty, unfolded sel]
  show ?thesis
  proof (cases fr)
    case (Inl err)
    show ?thesis
    proof (cases "errors_is err ErrNotFound")
      case True
      then have none: "filter (key_row ctx col key) (tbl d table) = []"
        using first Inl ty by (auto simp: filter_empty_conv zero_model_def)
      have c: "Create S ctx (zero_model (TPtr (pr_type ev))) (RPtr (Some (RStruct True (pr_row ev)))) d1 = (res, d')"
        using assms(5) f Inl True by (simp add: project_tx_def)
      have st: "stamped ctx True (pr_row ev) = stamp (ctx_tenant ctx) (pr_row ev)"
        using assms(1) by (simp add: stamped_def needs_tenant_def usable_def)
      have "key_row ctx col key (stamp (ctx_tenant ctx) (pr_row ev))"
        using ev by (simp add: key_row_def mget_stamp)
      with Create_spec[OF refl _ c] ty none first st ev show ?thesis
        by (auto simp: zero_model_def seqs_def foreign_def ErrStaleProjection_def sentinel_defs)
    next
      case False
      then show ?thesis
        using assms(5) f Inl first
        by (auto simp: project_tx_def prefixf_def foreign_def ErrStaleProjection_def sentinel_defs)
    qed
  next
    case (Inr cur)
    have cur: "cur \<in> set (tbl d table)" "key_row ctx col key cur" and d1: "tbl d1 = tbl d" "ext d1 = ext d"
      using first Inr ty by (auto simp: zero_model_def)
    have one: "filter (key_row ctx col key) (tbl d table) = [cur]"
      using only_one[of cur "filter (key_row ctx col key) (tbl d table)"] assms(4) cur by (simp add: seqs_def)
    consider (stale) "SourceSequence ev \<le> seq_of cur"
      | (empty) "\<not> SourceSequence ev \<le> seq_of cur" "ProjectedColumns ev = []"
      | (fresh) "seq_of cur < SourceSequence ev" "ProjectedColumns ev \<noteq> []" by linarith
    then show ?thesis
    proof cases
      case stale
      with assms(5) f Inr d1 one show ?thesis by (auto simp: project_tx_def seqs_def)
    next
      case empty
      with assms(5) f Inr d1 show ?thesis
        by (auto simp: project_tx_def wrapf_def ErrStaleProjection_def ErrProjectionNotSequenced_def)
    next
      case fresh
      let ?m = "\<lparr>md_type = TPtr (pr_type ev), md_keys = pr_keys ev\<rparr>"
      have u: "Update S ctx ?m (ProjectedColumns ev) ?cs d1 = (res, d')"
        using assms(5) f Inr fresh by (simp add: project_tx_def)
      have sel': "selects ctx True ?m ?cs = key_row ctx col key"
        using selects_key[OF assms(1), of "pr_keys ev" col key] ev by simp
      have upd: "res = None \<Longrightarrow> tbl d' table = map (\<lambda>r. if key_row ctx col key r
          then apply_changes (ProjectedColumns ev) r else r) (tbl d table)"
        and rest: "ext d' = ext d" "res \<noteq> None \<Longrightarrow> tbl d' = tbl d \<and> foreign (the res)"
        using Update_spec[OF plain u] d1 ty sel' by auto
      have "filter (key_row ctx col key) (map (\<lambda>r. if key_row ctx col key r
          then apply_changes (ProjectedColumns ev) r else r) (tbl d table)) = [apply_changes (ProjectedColumns ev) cur]"
        using filter_map_if[of "key_row ctx col key" "apply_changes (ProjectedColumns ev)" "tbl d table"]
          key_row_changes[OF assms(2)] one by simp
      then have "seqs seq_of ctx col key (tbl d' table) = [SourceSequence ev]" if "res = None"
        using upd[OF that] ev by (simp add: seqs_def)
      with rest one fresh show ?thesis
        by (auto simp: seqs_def foreign_def ErrStaleProjection_def sentinel_defs)
    qed
  qed
qed

lemma Project_spec:
  assumes "usable ctx" and "event_ok seq_of table col key ev" and "bare_name col"
    and "length (seqs seq_of ctx col key (tbl d table)) \<le> 1"
    and "Project S ctx seq_of ev d = (res, d')"
  shows "(res = None \<longrightarrow> seqs seq_of ctx col key (tbl d' table) = [SourceSequence ev] \<and>
       (\<forall>s\<in>set (seqs seq_of ctx col key (tbl d table)). s < SourceSequence ev)) \<and>
    (res \<noteq> None \<longrightarrow> tbl d' = tbl d) \<and>
    (\<forall>e. res = Some e \<and> errors_is e ErrStaleProjection \<longrightarrow>
       (\<exists>s\<in>set (seqs seq_of ctx col key (tbl d table)). SourceSequence ev \<le> s))"
proof (cases "Project S ctx seq_of ev d = Transact S ctx (project_tx S ctx seq_of ev) d")
  case False
  then show ?thesis
    using assms(5)
    by (auto simp: Project_def wrapf_def ErrStaleProjection_def ErrProjectionNotSequenced_def split: if_splits)
next
  case True
  have stale: "\<not> (foreign e \<and> errors_is e ErrStaleProjection)" for e
    using foreignD[of e "''modulekit: event is older than projected state''"]
    by (auto simp: ErrStaleProjection_def sentinel_defs)
  from Transact_spec[OF trans[OF True[symmetric] assms(5)]] show ?thesis
  proof (elim disjE exE conjE)
    fix e assume "res = Some e" "foreign e" "tbl d' = tbl d"
    with stale show ?thesis by auto
  next
    fix d0 e1 d1
    assume d0: "tbl d0 = tbl d" "project_tx S ctx seq_of ev d0 = (e1, d1)"
      and res: "case e1 of
          None \<Rightarrow> res = None \<and> tbl d' = tbl d1 \<or> (\<exists>e. res = Some e \<and> foreign e \<and> tbl d' = tbl d)
        | Some e \<Rightarrow> tbl d' = tbl d \<and> res \<noteq> None \<and> (if engine_error e then foreign (the res) else res = Some e)"
    note tx = project_tx_spec[OF assms(1-3), of d0 e1 d1, unfolded d0(1), OF assms(4) d0(2)]
    show ?thesis
    proof (cases e1)
      case None
      with tx res stale show ?thesis by auto
    next
      case (Some e)
      with tx res stale[of "the res"] show ?thesis by (auto split: if_splits)
    qed
  qed
qed

lemma project_all_spec:
  assumes "usable ctx" and "list_all (event_ok seq_of table col key) evs" and "bare_name col"
    and "length (seqs seq_of ctx col key (tbl d table)) \<le> 1"
    and "project_all S ctx seq_of evs d = (res, d')"
  shows "length (seqs seq_of ctx col key (tbl d' table)) \<le> 1 \<and>
    (\<forall>s\<in>set (seqs seq_of ctx col key (tbl d table)). \<exists>s'\<in>set (seqs seq_of ctx col key (tbl d' table)). s \<le> s') \<and>
    set (seqs seq_of ctx col key (tbl d' table)) \<subseteq>
      set (seqs seq_of ctx col key (tbl d table)) \<union> SourceSequence ` set evs \<and>
    (list_all settled res \<longrightarrow> (\<forall>ev\<in>set evs. \<exists>s'\<in>set (seqs seq_of ctx col key (tbl d' table)). SourceSequence ev \<le> s'))"
  using assms(2,4,5)
proof (induction evs arbitrary: d res)
  case (Cons ev evs)
  let ?seqs = "\<lambda>d. seqs seq_of ctx col key (tbl d table)"
  obtain e d1 where p: "Project S ctx seq_of ev d = (e, d1)" by fastforce
  obtain es d2 where r: "project_all S ctx seq_of evs d1 = (es, d2)" by fastforce
  have eq: "res = e # es" "d' = d2" using Cons.prems(3) p r by simp_all
  have evs: "event_ok seq_of table col key ev" "list_all (event_ok seq_of table col key) evs"
    using Cons.prems(1) by simp_all
  note sp = Project_spec[OF assms(1) evs(1) assms(3) Cons.prems(2) p]
  have new: "?seqs d1 = [SourceSequence ev]" "\<forall>s\<in>set (?seqs d). s < SourceSequence ev" if "e = None"
    using sp that by blast+
  have same: "?seqs d1 = ?seqs d" if "e \<noteq> None" using sp that by metis
  have step: "length (?seqs d1) \<le> 1 \<and> (\<forall>s\<in>set (?seqs d). \<exists>s'\<in>set (?seqs d1). s \<le> s') \<and>
    set (?seqs d1) \<subseteq> insert (SourceSequence ev) (set (?seqs d))"
  proof (cases "e = None")
    case True
    show ?thesis unfolding new(1)[OF True] using new(2)[OF True] by (auto intro: less_imp_le)
  next
    case False
    show ?thesis unfolding same[OF False] using Cons.prems(2) by auto
  qed
  have kept: "\<exists>s'\<in>set (?seqs d1). SourceSequence ev \<le> s'" if "settled e"
    using sp that by (cases e) (auto simp: settled_def)
  note IH = Cons.IH[OF evs(2) step[THEN conjunct1] r[folded eq(2)]]
  have up: "\<exists>s'\<in>set (?seqs d'). x \<le> s'" if "\<exists>s\<in>set (?seqs d1). x \<le> s" for x :: int
  proof -
    from that obtain s where s: "s \<in> set (?seqs d1)" "x \<le> s" by blast
    from IH s(1) obtain s' where "s' \<in> set (?seqs d')" "s \<le> s'" by blast
    with s(2) show ?thesis by (meson order_trans)
  qed
  have "\<forall>s\<in>set (?seqs d). \<exists>s'\<in>set (?seqs d'). s \<le> s'" using step up by blast
  moreover have "set (?seqs d') \<subseteq> set (?seqs d) \<union> SourceSequence ` set (ev # evs)" using IH step by auto
  moreover have "\<forall>ev'\<in>set (ev # evs). \<exists>s'\<in>set (?seqs d'). SourceSequence ev' \<le> s'" if "list_all settled res"
    using that kept up IH eq(1) by auto
  ultimately show ?case using IH by blast
qed auto

end

section \<open>The rebuild mark\<close>

definition is_marked :: "row \<Rightarrow> bool" where
  "is_marked r = (mget r ''rebuilding_since'' \<notin> {None, Some CNull})"

text \<open>The projection has a state row, and every one of its state rows says \<open>b\<close>.\<close>

definition mark_state :: "(string \<Rightarrow> row list) \<Rightarrow> go_ctx \<Rightarrow> string \<Rightarrow> bool \<Rightarrow> bool" where
  "mark_state T ctx projection b =
     (let rows = filter (key_row ctx ''projection'' projection) (T ''modulekit_projection_state'')
      in rows \<noteq> [] \<and> list_all (\<lambda>r. is_marked r = b) rows)"

definition keeps_state :: "('d \<Rightarrow> string \<Rightarrow> row list) \<Rightarrow> ('d \<Rightarrow> gerr option \<times> 'd) \<Rightarrow> bool" where
  "keeps_state tbl f \<longleftrightarrow> (\<forall>d e d'. f d = (e, d') \<longrightarrow>
     tbl d' ''modulekit_projection_state'' = tbl d ''modulekit_projection_state'')"

context sdk_tables
begin

lemma markRebuilding_spec:
  assumes "usable ctx" and "markRebuilding clock S ctx projection since d = (res, d')"
  shows "(res = None \<longrightarrow> mark_state (tbl d') ctx projection (since \<noteq> None)) \<and> (res \<noteq> None \<longrightarrow> tbl d' = tbl d)"
proof -
  let ?m = "zero_model (TPtr ProjectionState)" and ?cs = "[Where ''projection'' (CStr projection)]"
  have ty: "table_of (md_type ?m) = ''modulekit_projection_state''" "scoped (md_type ?m)"
    by (simp_all add: zero_model_def ProjectionState_def)
  have plain: "list_all plain_cond ?cs" by (simp add: bare_name_def bare_char_def)
  have sel: "selects ctx (scoped (md_type ?m)) ?m ?cs = key_row ctx ''projection'' projection"
    using selects_key[OF assms(1), of "[]" "''projection''" projection] ty(2) by (simp add: zero_model_def)
  obtain fr d1 where f: "First S ctx ?m ?cs d = (fr, d1)" by fastforce
  note first = First_spec[OF plain f, unfolded ty(1) sel]
  show ?thesis
  proof (cases fr)
    case (Inl err)
    show ?thesis
    proof (cases "errors_is err ErrNotFound")
      case True
      let ?r = "state_row projection (clock d1) since"
      have c: "Create S ctx ?m (RPtr (Some (RStruct True ?r))) d1 = (res, d')"
        using assms(2) f Inl True by (simp add: markRebuilding_def)
      have "filter (key_row ctx ''projection'' projection) (tbl d ''modulekit_projection_state'') = []"
        using first Inl True by (auto simp: filter_empty_conv)
      moreover have "key_row ctx ''projection'' projection (stamped ctx True ?r)"
        "is_marked (stamped ctx True ?r) = (since \<noteq> None)"
        using assms(1) by (auto simp: stamped_def needs_tenant_def usable_def key_row_def mget_stamp
            state_row_def tenant_column_def is_marked_def split: option.splits)
      ultimately show ?thesis
        using Create_spec[OF refl _ c] ty first by (auto simp: mark_state_def)
    qed (use assms(2) f Inl first in \<open>auto simp: markRebuilding_def\<close>)
  next
    case (Inr cur)
    let ?ch = "[(''rebuilding_since'', case since of None \<Rightarrow> CNull | Some x \<Rightarrow> CTime x), (''updated_at'', CTime (clock d1))]"
    have u: "Update S ctx ?m ?ch ?cs d1 = (res, d')"
      using assms(2) f Inr by (simp add: markRebuilding_def)
    have ch: "key_row ctx ''projection'' projection (apply_changes ?ch r) = key_row ctx ''projection'' projection r"
      "is_marked (apply_changes ?ch r) = (since \<noteq> None)" for r
      using row_tenant_changes[of ?ch r]
      by (auto simp: key_row_def mget_apply_changes tenant_column_def is_marked_def split: option.splits)
    have "filter (key_row ctx ''projection'' projection) (map (\<lambda>r. if key_row ctx ''projection'' projection r
        then apply_changes ?ch r else r) rows) = map (apply_changes ?ch) (filter (key_row ctx ''projection'' projection) rows)" for rows
      using filter_map_if[of "key_row ctx ''projection'' projection" "apply_changes ?ch"] ch(1) by blast
    moreover have "cur \<in> set (filter (key_row ctx ''projection'' projection) (tbl d ''modulekit_projection_state''))"
      using first Inr by simp
    ultimately show ?thesis
      using Update_spec[OF plain u, unfolded ty(1) sel] first ch(2)
      by (auto simp: mark_state_def list_all_iff filter_empty_conv)
  qed
qed

lemma mark_state_cong:
  "T' ''modulekit_projection_state'' = T ''modulekit_projection_state'' \<Longrightarrow>
     mark_state T' ctx p b = mark_state T ctx p b"
  by (simp add: mark_state_def)

lemma Rebuild_marks:
  assumes "usable ctx" and "keeps_state tbl trunc" and "keeps_state tbl replay"
    and "Rebuild clock S ctx projection trunc replay d = (res, d')"
  shows "(res = None \<longrightarrow> mark_state (tbl d') ctx projection False) \<and>
    (res \<noteq> None \<longrightarrow> tbl d' = tbl d \<or> mark_state (tbl d') ctx projection True)"
proof (cases "projection = []")
  case False
  obtain e1 d1 where m1: "markRebuilding clock S ctx projection (Some (clock d)) d = (e1, d1)" by fastforce
  note s1 = markRebuilding_spec[OF assms(1) m1]
  show ?thesis
  proof (cases e1)
    case None
    obtain e2 d2 where t: "Transact S ctx (rebuild_tx projection trunc replay) d1 = (e2, d2)" by fastforce
    have tx: "tbl y ''modulekit_projection_state'' = tbl x ''modulekit_projection_state''"
      if "rebuild_tx projection trunc replay x = (e, y)" for x e y
      using that assms(2,3) unfolding keeps_state_def rebuild_tx_def
      by (auto split: prod.splits option.splits)
    have "tbl d2 ''modulekit_projection_state'' = tbl d1 ''modulekit_projection_state''"
      using Transact_spec[OF t] tx by (auto split: option.splits)
    then have st: "mark_state (tbl d2) ctx projection True"
      using s1 None by (simp add: mark_state_def)
    show ?thesis
    proof (cases e2)
      case None
      then have m2: "markRebuilding clock S ctx projection None d2 = (res, d')"
        using assms(4) False m1 \<open>e1 = None\<close> t by (simp add: Rebuild_def)
      from markRebuilding_spec[OF assms(1) m2] st show ?thesis by auto
    qed (use assms(4) False m1 \<open>e1 = None\<close> t st in \<open>auto simp: Rebuild_def\<close>)
  qed (use assms(4) False m1 s1 in \<open>auto simp: Rebuild_def\<close>)
qed (use assms(4) in \<open>auto simp: Rebuild_def\<close>)

lemma IsRebuilding_spec:
  assumes "usable ctx" and "IsRebuilding S ctx projection d = (res, d')"
  shows "tbl d' = tbl d \<and> (\<forall>b. mark_state (tbl d) ctx projection b \<and> res = Inr b' \<longrightarrow> b' = b)"
proof -
  let ?m = "zero_model (TPtr ProjectionState)" and ?cs = "[Where ''projection'' (CStr projection)]"
  have ty: "table_of (md_type ?m) = ''modulekit_projection_state''" "scoped (md_type ?m)"
    by (simp_all add: zero_model_def ProjectionState_def)
  have plain: "list_all plain_cond ?cs" by (simp add: bare_name_def bare_char_def)
  have sel: "selects ctx (scoped (md_type ?m)) ?m ?cs = key_row ctx ''projection'' projection"
    using selects_key[OF assms(1), of "[]" "''projection''" projection] ty(2) by (simp add: zero_model_def)
  obtain fr d1 where f: "First S ctx ?m ?cs d = (fr, d1)" by fastforce
  note first = First_spec[OF plain f, unfolded ty(1) sel]
  show ?thesis
    using assms(2) f first
    by (cases fr) (auto simp: IsRebuilding_def mark_state_def list_all_iff is_marked_def filter_empty_conv split: if_splits)
qed

end

section \<open>Properties\<close>

text \<open>
  C20: projections converge whatever the delivery order. Apply any events for one key, in any
  order, with any repetitions and any failures: there is never more than one stored row, its
  sequence never goes back and is always one that was really delivered. Once every delivery
  has settled (applied or reported stale), the stored sequence is the highest delivered one,
  so every order ends with the same state.
\<close>

theorem Project_converges:
  assumes "engine_ok E tbl ext pk sat" and "sdk_pk pk" and "usable ctx" and "bare_name col"
    and "list_all (event_ok seq_of table col key) evs" and "evs \<noteq> []"
    and "seqs seq_of ctx col key (tbl d table) = []"
    and "project_all (NewGormStore tn E) ctx seq_of evs d = (res, d')"
  shows "length (seqs seq_of ctx col key (tbl d' table)) \<le> 1 \<and>
    set (seqs seq_of ctx col key (tbl d' table)) \<subseteq> SourceSequence ` set evs \<and>
    (list_all settled res \<longrightarrow> seqs seq_of ctx col key (tbl d' table) = [Max (SourceSequence ` set evs)])"
proof -
  let ?seqs = "seqs seq_of ctx col key (tbl d' table)"
  have "length (seqs seq_of ctx col key (tbl d table)) \<le> 1" using assms(7) by simp
  note all = sdk_tables.project_all_spec[OF gorm_sdk_tables[OF assms(1,2)] assms(3,5,4) this assms(8)]
  have len: "length ?seqs \<le> 1" and sub: "set ?seqs \<subseteq> SourceSequence ` set evs"
    using all assms(7) by simp_all
  have "?seqs = [Max (SourceSequence ` set evs)]" if "list_all settled res"
  proof -
    have fin: "finite (SourceSequence ` set evs)" "SourceSequence ` set evs \<noteq> {}" using assms(6) by simp_all
    obtain ev where ev: "ev \<in> set evs" "SourceSequence ev = Max (SourceSequence ` set evs)"
      using Max_in[OF fin] by (metis imageE)
    from all that ev(1) obtain s where s: "s \<in> set ?seqs" "SourceSequence ev \<le> s" by blast
    have "s \<le> Max (SourceSequence ` set evs)" using Max_ge[OF fin(1)] sub s(1) by blast
    with s ev(2) only_one[OF s(1) len] show ?thesis by simp
  qed
  with len sub show ?thesis by blast
qed

definition note_event :: "int \<Rightarrow> projected" where
  "note_event n = \<lparr>ProjectionKey = ''k'', KeyColumn = ''src'', SourceSequence = n,
     ProjectedColumns = [(''seq'', CInt n)], pr_type = TStruct ''notes'' True,
     pr_row = [(''src'', CStr ''k''), (''seq'', CInt n)], pr_keys = []\<rparr>"

definition note_seq :: "row \<Rightarrow> int" where
  "note_seq r = (case mget r ''seq'' of Some (CInt n) \<Rightarrow> n | _ \<Rightarrow> 0)"

lemma note_event_ok: "event_ok note_seq ''notes'' ''src'' ''k'' (note_event n)"
  by (simp add: event_ok_def note_event_def note_seq_def mget_stamp mget_apply_changes tenant_column_def)

theorem Project_converges_witness:
  "let S = NewGormStore sample_iso (mem_engine modulekit_pk);
       (res, d) = project_all S acme_ctx note_seq (map note_event [2, 5, 3]) ((\<lambda>_. []), ())
   in list_all settled res \<and> seqs note_seq acme_ctx ''src'' ''k'' (fst d ''notes'') = [5]"
proof -
  let ?run = "project_all (NewGormStore sample_iso (mem_engine modulekit_pk)) acme_ctx note_seq
     (map note_event [2, 5, 3]) ((\<lambda>_. []), ())"
  have u: "usable acme_ctx" by (simp add: usable_def)
  have b: "bare_name ''src''" by (simp add: bare_name_def bare_char_def)
  have ev: "list_all (event_ok note_seq ''notes'' ''src'' ''k'') (map note_event [2, 5, 3])"
    by (simp add: note_event_ok)
  have s: "list_all settled (fst ?run)" by code_simp
  have "seqs note_seq acme_ctx ''src'' ''k'' (fst (snd ?run) ''notes'') =
      [Max (SourceSequence ` set (map note_event [2, 5, 3]))]"
    using Project_converges[OF mem_engine_ok sdk_pk_modulekit u b ev _ _ prod.collapse[symmetric],
        where d = "((\<lambda>_. []), ())" and tn = sample_iso] s
    by (simp add: seqs_def)
  with s show ?thesis by (simp add: split_def Let_def note_event_def)
qed




end
