(* ===== verification/Saga.thy ===== *)
theory Saga
  imports Idempotency "HOL-Library.Sublist"
begin

text \<open>
  Sagas, \<^verbatim>\<open>pkg/modulekit/saga.go\<close>: the coordinator that runs the steps of an operation, records
  every transition before the work it describes, undoes committed steps when a later one
  fails, and resumes after a crash. A crash is a store operation that does not succeed: the
  coordinator returns at once, with the tables as they were last written.
\<close>

section \<open>Definitions and records\<close>

type_synonym saga_status = string
type_synonym step_status = string

definition SagaRunning :: saga_status where "SagaRunning = ''running''"
definition SagaCompleted :: saga_status where "SagaCompleted = ''completed''"
definition SagaCompensating :: saga_status where "SagaCompensating = ''compensating''"
definition SagaCompensated :: saga_status where "SagaCompensated = ''compensated''"
definition SagaFailed :: saga_status where "SagaFailed = ''failed''"

definition StepPending :: step_status where "StepPending = ''pending''"
definition StepRunning :: step_status where "StepRunning = ''running''"
definition StepCompleted :: step_status where "StepCompleted = ''completed''"
definition StepFailed :: step_status where "StepFailed = ''failed''"
definition StepCompensating :: step_status where "StepCompensating = ''compensating''"
definition StepCompensated :: step_status where "StepCompensated = ''compensated''"
definition StepCompensationFailed :: step_status where "StepCompensationFailed = ''compensation_failed''"

lemmas status_defs =
  SagaRunning_def SagaCompleted_def SagaCompensating_def SagaCompensated_def SagaFailed_def
  StepPending_def StepRunning_def StepCompleted_def StepFailed_def StepCompensating_def
  StepCompensated_def StepCompensationFailed_def

definition SagaRecord :: rtype where "SagaRecord = TStruct ''modulekit_sagas'' True"
definition SagaStepRecord :: rtype where "SagaStepRecord = TStruct ''modulekit_saga_steps'' True"

record 'd saga_step =
  step_name :: string
  step_Do :: "(go_ctx \<Rightarrow> 'd \<Rightarrow> gerr option \<times> 'd) option"
  step_Compensate :: "(go_ctx \<Rightarrow> 'd \<Rightarrow> gerr option \<times> 'd) option"

record 'd saga =
  saga_name :: string
  saga_steps :: "'d saga_step list"

definition ErrSagaCompensated :: gerr where "ErrSagaCompensated = ErrNew ''modulekit: saga compensated''"
definition ErrSagaFailed :: gerr where "ErrSagaFailed = ErrNew ''modulekit: saga compensation failed''"
definition ErrInvalidSaga :: gerr where "ErrInvalidSaga = ErrNew ''modulekit: invalid saga''"
definition ErrSagaNotFound :: gerr where "ErrSagaNotFound = ErrNew ''modulekit: saga not found''"

lemmas saga_errors = ErrSagaCompensated_def ErrSagaFailed_def ErrInvalidSaga_def ErrSagaNotFound_def

text \<open>The loop of \<open>Saga.Validate\<close>; \<open>seen\<close> is its map from step names to positions.\<close>

fun validate_steps :: "string \<Rightarrow> 'd saga_step list \<Rightarrow> nat \<Rightarrow> nat gomap \<Rightarrow> gerr option" where
  "validate_steps name [] i seen = None"
| "validate_steps name (s # ss) i seen =
     (if step_name s = [] then
        Some (wrapf ErrInvalidSaga [''saga '', name, '' step '', itoa (int i), '' has no name''])
      else if step_Do s = None then
        Some (wrapf ErrInvalidSaga [''saga '', name, '' step '', step_name s, '' has no forward work''])
      else (case mget seen (step_name s) of
        Some prev \<Rightarrow> Some (wrapf ErrInvalidSaga
          [''saga '', name, '' has two steps named '', step_name s, '' (positions '', itoa (int prev),
           '' and '', itoa (int i), '')''])
      | None \<Rightarrow> validate_steps name ss (i + 1) (mput (step_name s) i seen)))"

definition Saga_Validate :: "'d saga \<Rightarrow> gerr option" where
  "Saga_Validate s =
     (if saga_name s = [] then Some (wrapf ErrInvalidSaga [''saga has no name''])
      else if saga_steps s = [] then Some (wrapf ErrInvalidSaga [''saga '', saga_name s, '' has no steps''])
      else validate_steps (saga_name s) (saga_steps s) 0 [])"

section \<open>Recorded state\<close>

definition head_row :: "string \<Rightarrow> string \<Rightarrow> int \<Rightarrow> row" where
  "head_row sagaID name t =
     [(''tenant_id'', CStr []), (''saga_id'', CStr sagaID), (''name'', CStr name), (''status'', CStr SagaRunning),
      (''failure_reason'', CStr []), (''started_at'', CTime t), (''updated_at'', CTime t)]"

definition step_row :: "string \<Rightarrow> nat \<Rightarrow> string \<Rightarrow> int \<Rightarrow> row" where
  "step_row sagaID i name t =
     [(''tenant_id'', CStr []), (''saga_id'', CStr sagaID), (''position'', CInt (int i)), (''name'', CStr name),
      (''status'', CStr StepPending), (''attempts'', CInt 0), (''failure_reason'', CStr []), (''updated_at'', CTime t)]"

definition at_step :: "string \<Rightarrow> nat \<Rightarrow> condition list" where
  "at_step sagaID i = [Where ''saga_id'' (CStr sagaID), Where ''position'' (CInt (int i))]"

definition stepStatus :: "'d store \<Rightarrow> go_ctx \<Rightarrow> string \<Rightarrow> nat \<Rightarrow> 'd \<Rightarrow> (gerr + step_status) \<times> 'd" where
  "stepStatus S ctx sagaID i d =
     (case First S ctx (zero_model (TPtr SagaStepRecord)) (at_step sagaID i) d of
        (Inl err, d') \<Rightarrow> (Inl (prefixf [''read step '', itoa (int i), '' of saga '', sagaID] err), d')
      | (Inr rec, d') \<Rightarrow> (Inr (col_str rec ''status''), d'))"

definition markStepRunning ::
  "('d \<Rightarrow> int) \<Rightarrow> 'd store \<Rightarrow> go_ctx \<Rightarrow> string \<Rightarrow> nat \<Rightarrow> 'd \<Rightarrow> gerr option \<times> 'd" where
  "markStepRunning clock S ctx sagaID i d =
     (case First S ctx (zero_model (TPtr SagaStepRecord)) (at_step sagaID i) d of
        (Inl err, d1) \<Rightarrow> (Some (prefixf [''read step '', itoa (int i), '' of saga '', sagaID] err), d1)
      | (Inr rec, d1) \<Rightarrow>
          (case Update S ctx (zero_model (TPtr SagaStepRecord))
                  [(''status'', CStr StepRunning), (''attempts'', CInt (col_int rec ''attempts'' + 1)),
                   (''updated_at'', CTime (clock d1))] (at_step sagaID i) d1 of
             (Some err, d2) \<Rightarrow>
               (Some (prefixf [''mark step '', itoa (int i), '' of saga '', sagaID, '' as running''] err), d2)
           | (None, d2) \<Rightarrow> (None, d2)))"

definition markStep ::
  "('d \<Rightarrow> int) \<Rightarrow> 'd store \<Rightarrow> go_ctx \<Rightarrow> string \<Rightarrow> nat \<Rightarrow> step_status \<Rightarrow> string \<Rightarrow> 'd \<Rightarrow> gerr option \<times> 'd" where
  "markStep clock S ctx sagaID i status reason d =
     (case Update S ctx (zero_model (TPtr SagaStepRecord))
             [(''status'', CStr status), (''failure_reason'', CStr reason), (''updated_at'', CTime (clock d))]
             (at_step sagaID i) d of
        (Some err, d') \<Rightarrow>
          (Some (prefixf [''mark step '', itoa (int i), '' of saga '', sagaID, '' as '', status] err), d')
      | (None, d') \<Rightarrow> (None, d'))"

definition markSaga ::
  "('d \<Rightarrow> int) \<Rightarrow> 'd store \<Rightarrow> go_ctx \<Rightarrow> string \<Rightarrow> saga_status \<Rightarrow> string \<Rightarrow> 'd \<Rightarrow> gerr option \<times> 'd" where
  "markSaga clock S ctx sagaID status reason d =
     (case Update S ctx (zero_model (TPtr SagaRecord))
             [(''status'', CStr status), (''failure_reason'', CStr reason), (''updated_at'', CTime (clock d))]
             [Where ''saga_id'' (CStr sagaID)] d of
        (Some err, d') \<Rightarrow> (Some (prefixf [''mark saga '', sagaID, '' as '', status] err), d')
      | (None, d') \<Rightarrow> (None, d'))"

section \<open>The coordinator\<close>

fun create_steps ::
  "('d \<Rightarrow> int) \<Rightarrow> 'd store \<Rightarrow> go_ctx \<Rightarrow> string \<Rightarrow> (nat \<times> 'd saga_step) list \<Rightarrow> 'd \<Rightarrow> gerr option \<times> 'd" where
  "create_steps clock S ctx sagaID [] d = (None, d)"
| "create_steps clock S ctx sagaID ((i, step) # rest) d =
     (case Create S ctx (zero_model (TPtr SagaStepRecord))
             (RPtr (Some (RStruct True (step_row sagaID i (step_name step) (clock d))))) d of
        (Some err, d1) \<Rightarrow> (Some (prefixf [''record step '', step_name step, '' of saga '', sagaID] err), d1)
      | (None, d1) \<Rightarrow> create_steps clock S ctx sagaID rest d1)"

definition begin_tx :: "('d \<Rightarrow> int) \<Rightarrow> 'd store \<Rightarrow> go_ctx \<Rightarrow> 'd saga \<Rightarrow> string \<Rightarrow> 'd \<Rightarrow> gerr option \<times> 'd" where
  "begin_tx clock S ctx saga sagaID d =
     (case Create S ctx (zero_model (TPtr SagaRecord))
             (RPtr (Some (RStruct True (head_row sagaID (saga_name saga) (clock d))))) d of
        (Some err, d1) \<Rightarrow>
          if isDuplicateKey err then (Some (wrapf ErrDuplicate [''saga '', sagaID, '' already exists'']), d1)
          else (Some (prefixf [''start saga '', sagaID] err), d1)
      | (None, d1) \<Rightarrow> create_steps clock S ctx sagaID (enumerate 0 (saga_steps saga)) d1)"

definition beginSaga :: "('d \<Rightarrow> int) \<Rightarrow> 'd store \<Rightarrow> go_ctx \<Rightarrow> 'd saga \<Rightarrow> string \<Rightarrow> 'd \<Rightarrow> gerr option \<times> 'd" where
  "beginSaga clock S ctx saga sagaID d = Transact S ctx (begin_tx clock S ctx saga sagaID) d"

text \<open>The descending loop of \<open>compensate\<close>, over the steps from the last one to undo to the first.\<close>

fun undo_steps ::
  "('d \<Rightarrow> int) \<Rightarrow> 'd store \<Rightarrow> go_ctx \<Rightarrow> string \<Rightarrow> (nat \<times> 'd saga_step) list \<Rightarrow> gerr list \<Rightarrow> 'd
     \<Rightarrow> (gerr + gerr list) \<times> 'd" where
  "undo_steps clock S ctx sagaID [] failures d = (Inr failures, d)"
| "undo_steps clock S ctx sagaID ((i, step) # rest) failures d =
     (case stepStatus S ctx sagaID i d of
        (Inl err, d1) \<Rightarrow> (Inl err, d1)
      | (Inr status, d1) \<Rightarrow>
          if status \<noteq> StepCompleted \<and> status \<noteq> StepRunning
          then undo_steps clock S ctx sagaID rest failures d1
          else (case step_Compensate step of
             None \<Rightarrow>
               (case markStep clock S ctx sagaID i StepCompensated [] d1 of
                  (Some err, d2) \<Rightarrow> (Inl err, d2)
                | (None, d2) \<Rightarrow> undo_steps clock S ctx sagaID rest failures d2)
           | Some undo \<Rightarrow>
               (case markStep clock S ctx sagaID i StepCompensating [] d1 of
                  (Some err, d2) \<Rightarrow> (Inl err, d2)
                | (None, d2) \<Rightarrow>
                    (case undo ctx d2 of
                       (Some err, d3) \<Rightarrow>
                         (let failure = prefixf [''compensating '', step_name step] err in
                          case markStep clock S ctx sagaID i StepCompensationFailed (err_text failure) d3 of
                            (Some markErr, d4) \<Rightarrow> (Inl markErr, d4)
                          | (None, d4) \<Rightarrow> undo_steps clock S ctx sagaID rest (failures @ [failure]) d4)
                     | (None, d3) \<Rightarrow>
                         (case markStep clock S ctx sagaID i StepCompensated [] d3 of
                            (Some err, d4) \<Rightarrow> (Inl err, d4)
                          | (None, d4) \<Rightarrow> undo_steps clock S ctx sagaID rest failures d4)))))"

text \<open>\<open>compensate\<close> from position \<open>limit - 1\<close>.\<close>

definition compensate ::
  "('d \<Rightarrow> int) \<Rightarrow> 'd store \<Rightarrow> go_ctx \<Rightarrow> 'd saga \<Rightarrow> string \<Rightarrow> nat \<Rightarrow> string \<Rightarrow> 'd \<Rightarrow> gerr option \<times> 'd" where
  "compensate clock S ctx saga sagaID limit reason d =
     (case markSaga clock S ctx sagaID SagaCompensating reason d of
        (Some err, d1) \<Rightarrow> (Some err, d1)
      | (None, d1) \<Rightarrow>
          (case undo_steps clock S ctx sagaID (rev (take limit (enumerate 0 (saga_steps saga)))) [] d1 of
             (Inl err, d2) \<Rightarrow> (Some err, d2)
           | (Inr failures, d2) \<Rightarrow>
               if failures \<noteq> [] then
                 (let joined = (case errors_join failures of Some j \<Rightarrow> err_text j | None \<Rightarrow> []);
                      detail = reason @ ''; compensation failed: '' @ joined
                  in case markSaga clock S ctx sagaID SagaFailed detail d2 of
                       (Some err, d3) \<Rightarrow> (Some err, d3)
                     | (None, d3) \<Rightarrow> (Some (wrapf ErrSagaFailed [''saga '', sagaID, '': '', detail]), d3))
               else
                 (case markSaga clock S ctx sagaID SagaCompensated reason d2 of
                    (Some err, d3) \<Rightarrow> (Some err, d3)
                  | (None, d3) \<Rightarrow> (Some (wrapf ErrSagaCompensated [''saga '', sagaID, '': '', reason]), d3))))"

fun drive_steps ::
  "('d \<Rightarrow> int) \<Rightarrow> 'd store \<Rightarrow> go_ctx \<Rightarrow> 'd saga \<Rightarrow> string \<Rightarrow> (nat \<times> 'd saga_step) list \<Rightarrow> 'd \<Rightarrow> gerr option \<times> 'd" where
  "drive_steps clock S ctx saga sagaID [] d = markSaga clock S ctx sagaID SagaCompleted [] d"
| "drive_steps clock S ctx saga sagaID ((i, step) # rest) d =
     (case markStepRunning clock S ctx sagaID i d of
        (Some err, d1) \<Rightarrow> (Some err, d1)
      | (None, d1) \<Rightarrow>
          (case (case step_Do step of Some work \<Rightarrow> work ctx d1 | None \<Rightarrow> (Some (ErrNew ''panic: nil function''), d1)) of
             (Some err, d2) \<Rightarrow>
               (let reason = ''step '' @ step_name step @ '' failed: '' @ err_text err in
                case markStep clock S ctx sagaID i StepFailed reason d2 of
                  (Some markErr, d3) \<Rightarrow> (Some markErr, d3)
                | (None, d3) \<Rightarrow> compensate clock S ctx saga sagaID i reason d3)
           | (None, d2) \<Rightarrow>
               (case markStep clock S ctx sagaID i StepCompleted [] d2 of
                  (Some err, d3) \<Rightarrow> (Some err, d3)
                | (None, d3) \<Rightarrow> drive_steps clock S ctx saga sagaID rest d3)))"

definition driveSaga ::
  "('d \<Rightarrow> int) \<Rightarrow> 'd store \<Rightarrow> go_ctx \<Rightarrow> 'd saga \<Rightarrow> string \<Rightarrow> nat \<Rightarrow> 'd \<Rightarrow> gerr option \<times> 'd" where
  "driveSaga clock S ctx saga sagaID start d =
     drive_steps clock S ctx saga sagaID (drop start (enumerate 0 (saga_steps saga))) d"

definition RunSaga :: "('d \<Rightarrow> int) \<Rightarrow> 'd store \<Rightarrow> go_ctx \<Rightarrow> 'd saga \<Rightarrow> string \<Rightarrow> 'd \<Rightarrow> gerr option \<times> 'd" where
  "RunSaga clock S ctx saga sagaID d =
     (case Saga_Validate saga of
        Some err \<Rightarrow> (Some err, d)
      | None \<Rightarrow>
          if sagaID = [] then (Some (wrapf ErrInvalidSaga [''saga '', saga_name saga, '' needs an instance ID'']), d)
          else (case beginSaga clock S ctx saga sagaID d of
            (Some err, d1) \<Rightarrow> (Some err, d1)
          | (None, d1) \<Rightarrow> driveSaga clock S ctx saga sagaID 0 d1))"

section \<open>Recovery and inspection\<close>

text \<open>
  \<open>recordedSteps\<close> puts each row at its recorded position in a slice of zero records; two
  rows with one position would leave a zero record behind, the empty row here.
\<close>

fun place_rows :: "string \<Rightarrow> nat \<Rightarrow> row list \<Rightarrow> row list \<Rightarrow> gerr + row list" where
  "place_rows sagaID n [] ordered = Inr ordered"
| "place_rows sagaID n (r # rs) ordered =
     (let p = col_int r ''position'' in
      if p < 0 \<or> p \<ge> int n
      then Inl (wrapf ErrInvalidSaga
             [''saga '', sagaID, '' has a step at position '', itoa p, '' of '', itoa (int n)])
      else place_rows sagaID n rs (ordered[nat p := r]))"

definition recordedSteps :: "'d store \<Rightarrow> go_ctx \<Rightarrow> string \<Rightarrow> 'd \<Rightarrow> (gerr + row list) \<times> 'd" where
  "recordedSteps S ctx sagaID d =
     (case Find S ctx (zero_model (TPtr (TSlice SagaStepRecord))) [Where ''saga_id'' (CStr sagaID)] d of
        (Inl err, d') \<Rightarrow> (Inl (prefixf [''read steps of saga '', sagaID] err), d')
      | (Inr rows, d') \<Rightarrow> (place_rows sagaID (length rows) rows (replicate (length rows) []), d'))"

text \<open>The name check of \<open>RecoverSaga\<close>, position by position.\<close>

fun names_differ :: "string \<Rightarrow> nat \<Rightarrow> row list \<Rightarrow> 'd saga_step list \<Rightarrow> gerr option" where
  "names_differ sagaID i (rec # recs) (step # steps) =
     (if col_str rec ''name'' \<noteq> step_name step
      then Some (wrapf ErrInvalidSaga
             [''saga '', sagaID, '' step '', itoa (int i), '' was recorded as '', go_quote (col_str rec ''name''),
              '', definition has '', go_quote (step_name step)])
      else names_differ sagaID (i + 1) recs steps)"
| "names_differ sagaID i _ _ = None"

text \<open>The first position that is not recorded as completed.\<close>

fun resume_at :: "row list \<Rightarrow> nat" where
  "resume_at [] = 0"
| "resume_at (rec # recs) = (if col_str rec ''status'' \<noteq> StepCompleted then 0 else Suc (resume_at recs))"

definition RecoverSaga :: "('d \<Rightarrow> int) \<Rightarrow> 'd store \<Rightarrow> go_ctx \<Rightarrow> 'd saga \<Rightarrow> string \<Rightarrow> 'd \<Rightarrow> gerr option \<times> 'd" where
  "RecoverSaga clock S ctx saga sagaID d =
     (case Saga_Validate saga of
        Some err \<Rightarrow> (Some err, d)
      | None \<Rightarrow>
     (case First S ctx (zero_model (TPtr SagaRecord)) [Where ''saga_id'' (CStr sagaID)] d of
        (Inl err, d1) \<Rightarrow>
          if errors_is err ErrNotFound then (Some (wrapf ErrSagaNotFound [sagaID]), d1)
          else (Some (prefixf [''read saga '', sagaID] err), d1)
      | (Inr head, d1) \<Rightarrow>
          if col_str head ''name'' \<noteq> saga_name saga
          then (Some (wrapf ErrInvalidSaga
                 [''saga '', sagaID, '' was recorded as '', go_quote (col_str head ''name''),
                  '', definition is '', go_quote (saga_name saga)]), d1)
          else if col_str head ''status'' \<in> set [SagaCompleted, SagaCompensated, SagaFailed] then (None, d1)
          else (case recordedSteps S ctx sagaID d1 of
             (Inl err, d2) \<Rightarrow> (Some err, d2)
           | (Inr steps, d2) \<Rightarrow>
               if length steps \<noteq> length (saga_steps saga)
               then (Some (wrapf ErrInvalidSaga
                      [''saga '', sagaID, '' recorded '', itoa (int (length steps)), '' steps, definition has '',
                       itoa (int (length (saga_steps saga)))]), d2)
               else (case names_differ sagaID 0 steps (saga_steps saga) of
                  Some err \<Rightarrow> (Some err, d2)
                | None \<Rightarrow>
                    if col_str head ''status'' = SagaCompensating
                    then compensate clock S ctx saga sagaID (length (saga_steps saga)) (col_str head ''failure_reason'') d2
                    else driveSaga clock S ctx saga sagaID (resume_at steps) d2))))"

definition InFlightSagas :: "'d store \<Rightarrow> go_ctx \<Rightarrow> 'd \<Rightarrow> (gerr + row list) \<times> 'd" where
  "InFlightSagas S ctx d =
     (case Find S ctx (zero_model (TPtr (TSlice SagaRecord)))
             [In ''status'' [CStr SagaRunning, CStr SagaCompensating]] d of
        (Inl err, d') \<Rightarrow> (Inl (prefixf [''list in-flight sagas''] err), d')
      | (Inr sagas, d') \<Rightarrow> (Inr sagas, d'))"

definition SagaState :: "'d store \<Rightarrow> go_ctx \<Rightarrow> string \<Rightarrow> 'd \<Rightarrow> (gerr + row \<times> row list) \<times> 'd" where
  "SagaState S ctx sagaID d =
     (case First S ctx (zero_model (TPtr SagaRecord)) [Where ''saga_id'' (CStr sagaID)] d of
        (Inl err, d1) \<Rightarrow>
          if errors_is err ErrNotFound then (Inl (wrapf ErrSagaNotFound [sagaID]), d1)
          else (Inl (prefixf [''read saga '', sagaID] err), d1)
      | (Inr head, d1) \<Rightarrow> (case recordedSteps S ctx sagaID d1 of
          (Inl err, d2) \<Rightarrow> (Inl err, d2)
        | (Inr steps, d2) \<Rightarrow> (Inr (head, steps), d2)))"

section \<open>The recorded view\<close>

definition head_sel :: "go_ctx \<Rightarrow> string \<Rightarrow> row \<Rightarrow> bool" where
  "head_sel ctx sagaID r = (row_tenant r = ctx_tenant ctx \<and> mget r ''saga_id'' = Some (CStr sagaID))"

definition step_sel :: "go_ctx \<Rightarrow> string \<Rightarrow> nat \<Rightarrow> row \<Rightarrow> bool" where
  "step_sel ctx sagaID i r = (head_sel ctx sagaID r \<and> mget r ''position'' = Some (CInt (int i)))"

text \<open>The statuses recorded for the head and for a step; exactly one in a healthy database.\<close>

definition heads :: "(string \<Rightarrow> row list) \<Rightarrow> go_ctx \<Rightarrow> string \<Rightarrow> string list" where
  "heads T ctx sagaID = map (\<lambda>r. col_str r ''status'') (filter (head_sel ctx sagaID) (T ''modulekit_sagas''))"

definition stats :: "(string \<Rightarrow> row list) \<Rightarrow> go_ctx \<Rightarrow> string \<Rightarrow> nat \<Rightarrow> string list" where
  "stats T ctx sagaID i =
     map (\<lambda>r. col_str r ''status'') (filter (step_sel ctx sagaID i) (T ''modulekit_saga_steps''))"

text \<open>Steps whose work is somewhere else: they leave the coordinator's two tables alone.\<close>

definition keeps_saga :: "('d \<Rightarrow> string \<Rightarrow> row list) \<Rightarrow> ('d \<Rightarrow> gerr option \<times> 'd) \<Rightarrow> bool" where
  "keeps_saga tbl f \<longleftrightarrow> (\<forall>d e d'. f d = (e, d') \<longrightarrow>
     tbl d' ''modulekit_sagas'' = tbl d ''modulekit_sagas'' \<and>
     tbl d' ''modulekit_saga_steps'' = tbl d ''modulekit_saga_steps'')"

text \<open>What the outside world sees: which step was entered or undone, and with which result.\<close>

datatype saga_event = Did nat "gerr option" | Undid nat "gerr option"

definition logs :: "('d \<Rightarrow> saga_event list) \<Rightarrow> (gerr option \<Rightarrow> saga_event) \<Rightarrow> ('d \<Rightarrow> gerr option \<times> 'd) \<Rightarrow> bool" where
  "logs ext ev f \<longleftrightarrow> (\<forall>d e d'. f d = (e, d') \<longrightarrow> ext d' = ext d @ [ev e])"

definition steps_ok ::
  "('d \<Rightarrow> string \<Rightarrow> row list) \<Rightarrow> ('d \<Rightarrow> saga_event list) \<Rightarrow> go_ctx \<Rightarrow> 'd saga \<Rightarrow> bool" where
  "steps_ok tbl ext ctx saga \<longleftrightarrow> (\<forall>(i, s)\<in>set (enumerate 0 (saga_steps saga)).
     (case step_Do s of None \<Rightarrow> False | Some f \<Rightarrow> keeps_saga tbl (f ctx) \<and> logs ext (Did i) (f ctx)) \<and>
     (case step_Compensate s of None \<Rightarrow> True | Some f \<Rightarrow> keeps_saga tbl (f ctx) \<and> logs ext (Undid i) (f ctx)))"

text \<open>A change of the status columns keeps a row where it is addressed.\<close>

definition status_change :: "row \<Rightarrow> string \<Rightarrow> bool" where
  "status_change ch st \<longleftrightarrow> mget (rev ch) ''status'' = Some (CStr st) \<and>
     fst ` set ch \<inter> {''tenant_id'', ''saga_id'', ''position''} = {}"

lemma status_change_sel:
  assumes "status_change ch st"
  shows "head_sel ctx sagaID (apply_changes ch r) = head_sel ctx sagaID r"
    "step_sel ctx sagaID i (apply_changes ch r) = step_sel ctx sagaID i r"
    "col_str (apply_changes ch r) ''status'' = st"
proof -
  have none: "mget (rev ch) c = None" if "c \<in> {''tenant_id'', ''saga_id'', ''position''}" for c
    using assms that unfolding status_change_def mget_None_iff set_rev by blast
  have "row_tenant (apply_changes ch r) = row_tenant r"
    using assms by (intro row_tenant_changes) (auto simp: status_change_def tenant_column_def)
  then show "head_sel ctx sagaID (apply_changes ch r) = head_sel ctx sagaID r"
    "step_sel ctx sagaID i (apply_changes ch r) = step_sel ctx sagaID i r"
    using none by (auto simp: head_sel_def step_sel_def mget_apply_changes)
  show "col_str (apply_changes ch r) ''status'' = st"
    using assms by (simp add: status_change_def col_str_def mget_apply_changes)
qed

lemma stats_update:
  assumes "status_change ch st"
    and "T' = T(''modulekit_saga_steps'' := map (\<lambda>r. if step_sel ctx sagaID i r then apply_changes ch r else r)
           (T ''modulekit_saga_steps''))"
  shows "heads T' ctx sagaID = heads T ctx sagaID \<and>
    stats T' ctx sagaID j = (if j = i then map (\<lambda>_. st) (stats T ctx sagaID i) else stats T ctx sagaID j)"
proof -
  have f: "map (\<lambda>r. col_str r ''status'') (filter (step_sel ctx sagaID j)
        (map (\<lambda>r. if step_sel ctx sagaID i r then apply_changes ch r else r) rows)) =
      map (\<lambda>r. if step_sel ctx sagaID i r then st else col_str r ''status'') (filter (step_sel ctx sagaID j) rows)" for rows
    by (induction rows) (auto simp: status_change_sel[OF assms(1)])
  have "step_sel ctx sagaID i r = (i = j)" if "step_sel ctx sagaID j r" for r
    using that by (auto simp: step_sel_def)
  then have "map (\<lambda>r. if step_sel ctx sagaID i r then st else col_str r ''status'') (filter (step_sel ctx sagaID j) rows) =
      (if j = i then map (\<lambda>_. st) (filter (step_sel ctx sagaID i) rows)
       else map (\<lambda>r. col_str r ''status'') (filter (step_sel ctx sagaID j) rows))" for rows
    by (auto intro!: map_cong)
  then show ?thesis
    using assms(2) f by (simp add: stats_def heads_def o_def)
qed

lemma heads_update:
  assumes "status_change ch st"
    and "T' = T(''modulekit_sagas'' := map (\<lambda>r. if head_sel ctx sagaID r then apply_changes ch r else r)
           (T ''modulekit_sagas''))"
  shows "heads T' ctx sagaID = map (\<lambda>_. st) (heads T ctx sagaID) \<and> stats T' ctx sagaID = stats T ctx sagaID"
proof -
  have "map (\<lambda>r. col_str r ''status'') (filter (head_sel ctx sagaID)
        (map (\<lambda>r. if head_sel ctx sagaID r then apply_changes ch r else r) rows)) =
      map (\<lambda>_. st) (filter (head_sel ctx sagaID) rows)" for rows
    by (induction rows) (auto simp: status_change_sel[OF assms(1)])
  then show ?thesis using assms(2) by (simp add: stats_def heads_def o_def fun_eq_iff)
qed

lemma selects_step:
  assumes "usable ctx"
  shows "selects ctx True (zero_model t) (at_step sagaID i) = step_sel ctx sagaID i"
  using assms by (auto simp: fun_eq_iff selects_def in_scope_def needs_tenant_def usable_def step_sel_def
      head_sel_def zero_model_def at_step_def)

lemma selects_head:
  assumes "usable ctx"
  shows "selects ctx True (zero_model t) [Where ''saga_id'' (CStr sagaID)] = head_sel ctx sagaID"
  using assms by (auto simp: fun_eq_iff selects_def in_scope_def needs_tenant_def usable_def head_sel_def zero_model_def)

lemma plain_at_step: "list_all plain_cond (at_step sagaID i)"
  by (simp add: at_step_def bare_name_def bare_char_def)

lemma plain_saga_id: "list_all plain_cond [Where ''saga_id'' (CStr sagaID)]"
  by (simp add: bare_name_def bare_char_def)

text \<open>An error that does not claim an outcome of the saga: everything but the coordinator's own verdict.\<close>

definition no_verdict :: "gerr \<Rightarrow> bool" where
  "no_verdict e = (\<not> errors_is e ErrSagaCompensated \<and> \<not> errors_is e ErrSagaFailed)"

lemma no_verdict_foreign: "foreign e \<Longrightarrow> no_verdict e \<and> no_verdict (prefixf ps e)"
  using foreignD[of e "''modulekit: saga compensated''"] foreignD[of e "''modulekit: saga compensation failed''"]
  by (auto simp: no_verdict_def saga_errors sentinel_defs prefixf_def)

locale saga_store = sdk_tables S tbl ext table_of pk scoped engine_error
  for S :: "'d store" and tbl and ext :: "'d \<Rightarrow> saga_event list" and table_of pk scoped engine_error
begin

lemma markStep_spec:
  assumes "usable ctx" and "markStep clock S ctx sagaID i st reason d = (res, d')"
  shows "ext d' = ext d \<and> (\<forall>e. res = Some e \<longrightarrow> tbl d' = tbl d \<and> no_verdict e) \<and>
    (res = None \<longrightarrow> heads (tbl d') ctx sagaID = heads (tbl d) ctx sagaID \<and>
       stats (tbl d') ctx sagaID j = (if j = i then map (\<lambda>_. st) (stats (tbl d) ctx sagaID i) else stats (tbl d) ctx sagaID j))"
proof -
  let ?m = "zero_model (TPtr SagaStepRecord)"
  let ?ch = "[(''status'', CStr st), (''failure_reason'', CStr reason), (''updated_at'', CTime (clock d))]"
  have ty: "table_of (md_type ?m) = ''modulekit_saga_steps''" "scoped (md_type ?m)"
    by (simp_all add: zero_model_def SagaStepRecord_def)
  have ch: "status_change ?ch st" by (simp add: status_change_def)
  have sel: "selects ctx (scoped (md_type ?m)) ?m (at_step sagaID i) = step_sel ctx sagaID i"
    using selects_step[OF assms(1)] ty(2) by simp
  obtain e d1 where u: "Update S ctx ?m ?ch (at_step sagaID i) d = (e, d1)" by fastforce
  note spec = Update_spec[OF plain_at_step u, unfolded ty(1) sel]
  show ?thesis
  proof (cases e)
    case None
    then show ?thesis
      using spec stats_update[OF ch, of "tbl d1" "tbl d" ctx sagaID i j] assms(2) u by (simp add: markStep_def)
  next
    case (Some err)
    have "foreign err" using spec Some by (simp add: at_step_def)
    then show ?thesis using spec Some assms(2) u no_verdict_foreign by (auto simp: markStep_def)
  qed
qed

lemma markStepRunning_spec:
  assumes "usable ctx" and "markStepRunning clock S ctx sagaID i d = (res, d')"
  shows "ext d' = ext d \<and> (\<forall>e. res = Some e \<longrightarrow> tbl d' = tbl d \<and> no_verdict e) \<and>
    (res = None \<longrightarrow> heads (tbl d') ctx sagaID = heads (tbl d) ctx sagaID \<and>
       stats (tbl d') ctx sagaID j =
         (if j = i then map (\<lambda>_. StepRunning) (stats (tbl d) ctx sagaID i) else stats (tbl d) ctx sagaID j))"
proof -
  let ?m = "zero_model (TPtr SagaStepRecord)"
  have ty: "table_of (md_type ?m) = ''modulekit_saga_steps''" "scoped (md_type ?m)"
    by (simp_all add: zero_model_def SagaStepRecord_def)
  have sel: "selects ctx (scoped (md_type ?m)) ?m (at_step sagaID i) = step_sel ctx sagaID i"
    using selects_step[OF assms(1)] ty(2) by simp
  obtain fr d1 where f: "First S ctx ?m (at_step sagaID i) d = (fr, d1)" by fastforce
  note first = First_spec[OF plain_at_step f, unfolded ty(1) sel]
  show ?thesis
  proof (cases fr)
    case (Inl err)
    then show ?thesis using first assms(2) f no_verdict_foreign by (auto simp: markStepRunning_def)
  next
    case (Inr rec)
    let ?ch = "[(''status'', CStr StepRunning), (''attempts'', CInt (col_int rec ''attempts'' + 1)),
                   (''updated_at'', CTime (clock d1))]"
    have ch: "status_change ?ch StepRunning" by (simp add: status_change_def)
    obtain e d2 where u: "Update S ctx ?m ?ch (at_step sagaID i) d1 = (e, d2)" by fastforce
    note spec = Update_spec[OF plain_at_step u, unfolded ty(1) sel]
    show ?thesis
    proof (cases e)
      case None
      then show ?thesis
        using spec first stats_update[OF ch, of "tbl d2" "tbl d" ctx sagaID i j] assms(2) f Inr u
        by (simp add: markStepRunning_def)
    next
      case (Some err)
      have "foreign err" using spec Some by (simp add: at_step_def)
      then show ?thesis using spec first Some assms(2) f Inr u no_verdict_foreign by (auto simp: markStepRunning_def)
    qed
  qed
qed

lemma markSaga_spec:
  assumes "usable ctx" and "markSaga clock S ctx sagaID st reason d = (res, d')"
  shows "ext d' = ext d \<and> (\<forall>e. res = Some e \<longrightarrow> tbl d' = tbl d \<and> no_verdict e) \<and>
    (res = None \<longrightarrow> heads (tbl d') ctx sagaID = map (\<lambda>_. st) (heads (tbl d) ctx sagaID) \<and>
       stats (tbl d') ctx sagaID = stats (tbl d) ctx sagaID)"
proof -
  let ?m = "zero_model (TPtr SagaRecord)"
  let ?ch = "[(''status'', CStr st), (''failure_reason'', CStr reason), (''updated_at'', CTime (clock d))]"
  have ty: "table_of (md_type ?m) = ''modulekit_sagas''" "scoped (md_type ?m)"
    by (simp_all add: zero_model_def SagaRecord_def)
  have ch: "status_change ?ch st" by (simp add: status_change_def)
  have sel: "selects ctx (scoped (md_type ?m)) ?m [Where ''saga_id'' (CStr sagaID)] = head_sel ctx sagaID"
    using selects_head[OF assms(1)] ty(2) by simp
  obtain e d1 where u: "Update S ctx ?m ?ch [Where ''saga_id'' (CStr sagaID)] d = (e, d1)" by fastforce
  note spec = Update_spec[OF plain_saga_id u, unfolded ty(1) sel]
  show ?thesis
  proof (cases e)
    case None
    then show ?thesis
      using spec heads_update[OF ch, of "tbl d1" "tbl d" ctx sagaID] assms(2) u by (simp add: markSaga_def)
  next
    case (Some err)
    then have "foreign err" using spec by simp
    then show ?thesis using spec Some assms(2) u no_verdict_foreign by (auto simp: markSaga_def)
  qed
qed

lemma stepStatus_spec:
  assumes "usable ctx" and "stepStatus S ctx sagaID i d = (res, d')"
  shows "ext d' = ext d \<and> tbl d' = tbl d \<and>
    (\<forall>s. res = Inr s \<longrightarrow> s \<in> set (stats (tbl d) ctx sagaID i)) \<and> (\<forall>e. res = Inl e \<longrightarrow> no_verdict e)"
proof -
  let ?m = "zero_model (TPtr SagaStepRecord)"
  have ty: "table_of (md_type ?m) = ''modulekit_saga_steps''" "scoped (md_type ?m)"
    by (simp_all add: zero_model_def SagaStepRecord_def)
  have sel: "selects ctx (scoped (md_type ?m)) ?m (at_step sagaID i) = step_sel ctx sagaID i"
    using selects_step[OF assms(1)] ty(2) by simp
  obtain fr d1 where f: "First S ctx ?m (at_step sagaID i) d = (fr, d1)" by fastforce
  from First_spec[OF plain_at_step f, unfolded ty(1) sel] assms(2) f no_verdict_foreign show ?thesis
    by (cases fr) (auto simp: stepStatus_def stats_def)
qed

end

section \<open>Compensation\<close>

text \<open>The steps of a list that have something to undo, by their recorded status.\<close>

definition pending :: "(string \<Rightarrow> row list) \<Rightarrow> go_ctx \<Rightarrow> string \<Rightarrow> (nat \<times> 'd saga_step) list \<Rightarrow> nat list" where
  "pending T ctx sagaID L = map fst (filter (\<lambda>(i, s). step_Compensate s \<noteq> None \<and>
     (stats T ctx sagaID i = [StepCompleted] \<or> stats T ctx sagaID i = [StepRunning])) L)"

text \<open>No record of a step is lost, and none goes back to pending.\<close>

definition kept :: "go_ctx \<Rightarrow> string \<Rightarrow> (string \<Rightarrow> row list) \<Rightarrow> (string \<Rightarrow> row list) \<Rightarrow> nat \<Rightarrow> bool" where
  "kept ctx sagaID T0 T j \<longleftrightarrow> length (stats T ctx sagaID j) = length (stats T0 ctx sagaID j) \<and>
     (StepPending \<in> set (stats T ctx sagaID j) \<longrightarrow> StepPending \<in> set (stats T0 ctx sagaID j))"

lemma kept_same: "stats T ctx sagaID j = stats T0 ctx sagaID j \<Longrightarrow> kept ctx sagaID T0 T j"
  by (simp add: kept_def)

lemma kept_refl [simp]: "kept ctx sagaID T T j"
  by (simp add: kept_def)

lemma kept_trans: "kept ctx sagaID T0 T1 j \<Longrightarrow> kept ctx sagaID T1 T j \<Longrightarrow> kept ctx sagaID T0 T j"
  by (auto simp: kept_def)

definition all_undone :: "(nat \<times> gerr option) list \<Rightarrow> bool" where
  "all_undone evs = list_all (\<lambda>(i, e). e = None) evs"

lemma all_undone_simps [simp]:
  "all_undone []" "all_undone (x # xs) \<longleftrightarrow> snd x = None \<and> all_undone xs"
  "all_undone (xs @ ys) \<longleftrightarrow> all_undone xs \<and> all_undone ys"
  by (auto simp: all_undone_def split: prod.splits)

text \<open>
  What an undo pass over \<open>L\<close> that took the tables from \<open>T0\<close> to \<open>T\<close> may have done: it
  undid pending steps in order, all of them if it was not interrupted, and recorded each
  outcome; nothing else moved.
\<close>

definition undo_post ::
  "go_ctx \<Rightarrow> string \<Rightarrow> (string \<Rightarrow> row list) \<Rightarrow> (string \<Rightarrow> row list) \<Rightarrow> (nat \<times> 'd saga_step) list \<Rightarrow> gerr list
     \<Rightarrow> gerr + gerr list \<Rightarrow> (nat \<times> gerr option) list \<Rightarrow> bool" where
  "undo_post ctx sagaID T0 T L failures res evs \<longleftrightarrow>
     prefix (map fst evs) (pending T0 ctx sagaID L) \<and>
     heads T ctx sagaID = heads T0 ctx sagaID \<and>
     (\<forall>j. j \<notin> fst ` set L \<longrightarrow> stats T ctx sagaID j = stats T0 ctx sagaID j) \<and>
     (\<forall>j. kept ctx sagaID T0 T j) \<and>
     (case res of
        Inl e \<Rightarrow> no_verdict e
      | Inr fs \<Rightarrow> map fst evs = pending T0 ctx sagaID L \<and>
          (fs = [] \<longleftrightarrow> failures = [] \<and> all_undone evs) \<and>
          (\<forall>(i, e)\<in>set evs. stats T ctx sagaID i = [if e = None then StepCompensated else StepCompensationFailed]))"

lemma pending_cong:
  "(\<And>j. j \<in> fst ` set L \<Longrightarrow> stats T ctx sagaID j = stats T' ctx sagaID j) \<Longrightarrow>
     pending T ctx sagaID L = pending T' ctx sagaID L"
  unfolding pending_def by (intro arg_cong[where f = "map fst"] filter_cong) force+

lemma pending_Cons:
  "pending T ctx sagaID (x # L) = pending T ctx sagaID [x] @ pending T ctx sagaID L"
  by (simp add: pending_def)

lemma pending_subset: "set (pending T ctx sagaID L) \<subseteq> fst ` set L"
  by (auto simp: pending_def)

lemma undo_post_step:
  assumes "undo_post ctx sagaID T1 T L fs1 res evs" and "i \<notin> fst ` set L"
    and "\<And>j. j \<noteq> i \<Longrightarrow> stats T1 ctx sagaID j = stats T0 ctx sagaID j" and "heads T1 ctx sagaID = heads T0 ctx sagaID"
    and "kept ctx sagaID T0 T1 i"
    and "pending T0 ctx sagaID [(i, s)] = map fst ev"
    and "\<forall>(k, e)\<in>set ev. k = i \<and> stats T1 ctx sagaID i = [if e = None then StepCompensated else StepCompensationFailed]"
    and "fs1 = [] \<longleftrightarrow> fs = [] \<and> all_undone ev"
  shows "undo_post ctx sagaID T0 T ((i, s) # L) fs res (ev @ evs)"
proof -
  have p: "pending T1 ctx sagaID L = pending T0 ctx sagaID L"
    using assms(2,3) by (intro pending_cong) metis
  note post = assms(1)[unfolded undo_post_def p]
  have pc: "pending T0 ctx sagaID ((i, s) # L) = pending T0 ctx sagaID [(i, s)] @ pending T0 ctx sagaID L"
    by (rule pending_Cons)
  have iT: "stats T ctx sagaID i = stats T1 ctx sagaID i" using post assms(2) by blast
  have "prefix (map fst (ev @ evs)) (pending T0 ctx sagaID ((i, s) # L))"
    using post assms(6) unfolding pc by simp
  moreover have "heads T ctx sagaID = heads T0 ctx sagaID" using post assms(4) by simp
  moreover have "stats T ctx sagaID j = stats T0 ctx sagaID j" if "j \<notin> fst ` set ((i, s) # L)" for j
    using post assms(3) that by simp
  moreover have "kept ctx sagaID T0 T j" for j
    using post assms(3,5) kept_trans kept_same by (cases "j = i") metis+
  moreover have "case res of
        Inl e \<Rightarrow> no_verdict e
      | Inr fs' \<Rightarrow> map fst (ev @ evs) = pending T0 ctx sagaID ((i, s) # L) \<and>
          (fs' = [] \<longleftrightarrow> fs = [] \<and> all_undone (ev @ evs)) \<and>
          (\<forall>(i, e)\<in>set (ev @ evs). stats T ctx sagaID i = [if e = None then StepCompensated else StepCompensationFailed])"
  proof (cases res)
    case (Inr fs')
    have "\<forall>(k, e)\<in>set ev. stats T ctx sagaID k = [if e = None then StepCompensated else StepCompensationFailed]"
      using assms(7) iT by auto
    with post Inr assms(6,8) show ?thesis unfolding pc by auto
  qed (use post in simp)
  ultimately show ?thesis unfolding undo_post_def by blast
qed

lemma undo_post_stop:
  assumes "no_verdict e" and "heads T ctx sagaID = heads T0 ctx sagaID"
    and "\<And>j. j \<noteq> i \<Longrightarrow> stats T ctx sagaID j = stats T0 ctx sagaID j"
    and "kept ctx sagaID T0 T i"
    and "prefix (map fst ev) (pending T0 ctx sagaID [(i, s)])"
  shows "undo_post ctx sagaID T0 T ((i, s) # L) fs (Inl e) ev"
proof -
  have "kept ctx sagaID T0 T j" for j
    using assms(3,4) kept_same by (cases "j = i") simp_all
  moreover have "prefix (map fst ev) (pending T0 ctx sagaID ((i, s) # L))"
    unfolding pending_Cons[of _ _ _ "(i, s)" L] using assms(5) by (rule prefix_prefix)
  ultimately show ?thesis
    using assms(1-3) unfolding undo_post_def by auto
qed

lemma stats_keep: "keeps_saga tbl f \<Longrightarrow> f d = (e, d') \<Longrightarrow>
    heads (tbl d') ctx sagaID = heads (tbl d) ctx sagaID \<and> stats (tbl d') ctx sagaID = stats (tbl d) ctx sagaID"
  by (auto simp: keeps_saga_def heads_def stats_def fun_eq_iff)

context saga_store
begin

definition undo_ok :: "go_ctx \<Rightarrow> (nat \<times> 'd saga_step) list \<Rightarrow> bool" where
  "undo_ok ctx L \<longleftrightarrow> (\<forall>(i, s)\<in>set L. case step_Compensate s of None \<Rightarrow> True
     | Some f \<Rightarrow> keeps_saga tbl (f ctx) \<and> logs ext (Undid i) (f ctx))"

lemma undo_steps_spec:
  assumes "usable ctx" and "undo_ok ctx L" and "distinct (map fst L)"
    and "\<forall>i\<in>fst ` set L. \<exists>st. stats (tbl d) ctx sagaID i = [st]"
    and "undo_steps clock S ctx sagaID L failures d = (res, d')"
  shows "\<exists>evs. ext d' = ext d @ map (\<lambda>(i, e). Undid i e) evs \<and>
     undo_post ctx sagaID (tbl d) (tbl d') L failures res evs"
  using assms(2-5)
proof (induction L arbitrary: failures d)
  case Nil
  then show ?case by (auto simp: undo_post_def pending_def)
next
  case (Cons x L)
  obtain i s where x: "x = (i, s)" by fastforce
  have L: "undo_ok ctx L" "distinct (map fst L)" "i \<notin> fst ` set L"
    using Cons.prems(1,2) x by (auto simp: undo_ok_def)
  obtain st where st: "stats (tbl d) ctx sagaID i = [st]" using Cons.prems(3) x by auto
  obtain sr d1 where ss: "stepStatus S ctx sagaID i d = (sr, d1)" by fastforce
  note s1 = stepStatus_spec[OF assms(1) ss]
  have one: "\<forall>k\<in>fst ` set L. \<exists>st. stats (tbl y) ctx sagaID k = [st]"
    if "\<And>j. j \<noteq> i \<Longrightarrow> stats (tbl y) ctx sagaID j = stats (tbl d) ctx sagaID j" for y
  proof
    fix k assume k: "k \<in> fst ` set L"
    with L(3) have "k \<noteq> i" by blast
    moreover have "\<exists>st. stats (tbl d) ctx sagaID k = [st]" using Cons.prems(3) k by auto
    ultimately show "\<exists>st. stats (tbl y) ctx sagaID k = [st]" using that by simp
  qed
  have stop: "?case" if "res = Inl e" "no_verdict e" "ext d' = ext d @ map (\<lambda>(i, e). Undid i e) ev"
    "heads (tbl d') ctx sagaID = heads (tbl d) ctx sagaID"
    "\<And>j. j \<noteq> i \<Longrightarrow> stats (tbl d') ctx sagaID j = stats (tbl d) ctx sagaID j"
    "kept ctx sagaID (tbl d) (tbl d') i"
    "prefix (map fst ev) (pending (tbl d) ctx sagaID [(i, s)])" for e ev
    using undo_post_stop[OF that(2) that(4-7)] that(1,3) x by blast
  have go: "?case" if prem: "undo_steps clock S ctx sagaID L fs1 y = (res, d')"
    "ext y = ext d @ map (\<lambda>(i, e). Undid i e) ev"
    "heads (tbl y) ctx sagaID = heads (tbl d) ctx sagaID"
    "\<And>j. j \<noteq> i \<Longrightarrow> stats (tbl y) ctx sagaID j = stats (tbl d) ctx sagaID j"
    "kept ctx sagaID (tbl d) (tbl y) i"
    "pending (tbl d) ctx sagaID [(i, s)] = map fst ev"
    "\<forall>(k, e)\<in>set ev. k = i \<and> stats (tbl y) ctx sagaID i = [if e = None then StepCompensated else StepCompensationFailed]"
    "fs1 = [] \<longleftrightarrow> failures = [] \<and> all_undone ev" for fs1 y ev
  proof -
    obtain evs where evs: "ext d' = ext y @ map (\<lambda>(i, e). Undid i e) evs"
      "undo_post ctx sagaID (tbl y) (tbl d') L fs1 res evs"
      using Cons.IH[OF L(1,2) one[OF prem(4)] prem(1)] by blast
    have "undo_post ctx sagaID (tbl d) (tbl d') ((i, s) # L) failures res (ev @ evs)"
      by (rule undo_post_step[OF evs(2) L(3) prem(4,3,5,6,7,8)])
    with evs(1) prem(2) x show ?thesis by (intro exI[of _ "ev @ evs"]) simp
  qed
  show ?case
  proof (cases sr)
    case (Inl err)
    then show ?thesis using Cons.prems(4) x ss s1 by (intro stop[of err "[]"]) simp_all
  next
    case (Inr status)
    have status: "status = st" using s1 Inr st by auto
    show ?thesis
    proof (cases "status \<noteq> StepCompleted \<and> status \<noteq> StepRunning")
      case True
      then show ?thesis
        using Cons.prems(4) x ss s1 Inr st status
        by (intro go[of failures d1 "[]"]) (auto simp: pending_def)
    next
      case False
      have st2: "stats (tbl d) ctx sagaID i = [StepCompleted] \<or> stats (tbl d) ctx sagaID i = [StepRunning]"
        and np: "StepPending \<notin> set (stats (tbl d) ctx sagaID i)"
        using False status st by (auto simp: status_defs)
      show ?thesis
      proof (cases "step_Compensate s")
        case None
        obtain e d2 where m: "markStep clock S ctx sagaID i StepCompensated [] d1 = (e, d2)" by fastforce
        note m1 = markStep_spec[OF assms(1) m]
        show ?thesis
        proof (cases e)
          case (Some err)
          then show ?thesis using Cons.prems(4) x ss s1 Inr False None m m1 by (intro stop[of err "[]"]) simp_all
        next
          case e: None
          then show ?thesis
            using Cons.prems(4) x ss s1 Inr False None m m1
            by (intro go[of failures d2 "[]"]) (auto simp: pending_def kept_def st status_defs)
        qed
      next
        case (Some undo)
        have pend: "pending (tbl d) ctx sagaID [(i, s)] = [i]" using st2 Some by (auto simp: pending_def)
        have undo: "keeps_saga tbl (undo ctx)" "logs ext (Undid i) (undo ctx)"
          using Cons.prems(1) x Some by (auto simp: undo_ok_def)
        obtain e d2 where m: "markStep clock S ctx sagaID i StepCompensating [] d1 = (e, d2)" by fastforce
        note m1 = markStep_spec[OF assms(1) m]
        show ?thesis
        proof (cases e)
          case (Some err)
          then show ?thesis using Cons.prems(4) x ss s1 Inr False \<open>step_Compensate s = Some undo\<close> m m1
            by (intro stop[of err "[]"]) simp_all
        next
          case None
          obtain ue d3 where u: "undo ctx d2 = (ue, d3)" by fastforce
          have u1: "heads (tbl d3) ctx sagaID = heads (tbl d2) ctx sagaID"
            "stats (tbl d3) ctx sagaID = stats (tbl d2) ctx sagaID" "ext d3 = ext d2 @ [Undid i ue]"
            using stats_keep[OF undo(1) u] undo(2) u by (auto simp: logs_def)
          define out where "out = (if ue = None then StepCompensated else StepCompensationFailed)"
          define reason where "reason = (case ue of None \<Rightarrow> [] | Some err \<Rightarrow> err_text (prefixf [''compensating '', step_name s] err))"
          obtain me d4 where m': "markStep clock S ctx sagaID i out reason d3 = (me, d4)" by fastforce
          note m2 = markStep_spec[OF assms(1) m']
          have st3: "stats (tbl d3) ctx sagaID i = [StepCompensating]"
            using m1[of i] u1(2) s1 st None by simp
          have st4: "me = None \<Longrightarrow> stats (tbl d4) ctx sagaID i = [out]" using m2[of i] st3 by simp
          have np4: "kept ctx sagaID (tbl d) (tbl d4) i"
          proof (cases me)
            case None
            then show ?thesis using st4 st by (simp add: kept_def out_def status_defs)
          next
            case (Some err)
            then have "tbl d4 = tbl d3" using m2[of i] by blast
            then show ?thesis using st3 st by (simp add: kept_def status_defs)
          qed
          show ?thesis
          proof (cases me)
            case (Some err)
            then have "res = Inl err" "d' = d4"
              using Cons.prems(4) x ss Inr False \<open>step_Compensate s = Some undo\<close> m None u m'
              by (auto simp: out_def reason_def Let_def split: option.splits)
            with Some np4 s1 m1 m2 u1 None pend show ?thesis by (intro stop[of err "[(i, ue)]"]) simp_all
          next
            case me: None
            define fs where "fs = failures @ (case ue of None \<Rightarrow> [] | Some err \<Rightarrow> [prefixf [''compensating '', step_name s] err])"
            have "undo_steps clock S ctx sagaID L fs d4 = (res, d')"
              using Cons.prems(4) x ss Inr False \<open>step_Compensate s = Some undo\<close> m None u m' me
              by (auto simp: out_def reason_def fs_def Let_def split: option.splits)
            moreover have "fs = [] \<longleftrightarrow> failures = [] \<and> ue = None" by (auto simp: fs_def split: option.splits)
            moreover have "heads (tbl d4) ctx sagaID = heads (tbl d) ctx sagaID" "ext d4 = ext d @ [Undid i ue]"
              "\<And>j. j \<noteq> i \<Longrightarrow> stats (tbl d4) ctx sagaID j = stats (tbl d) ctx sagaID j"
              using s1 m1 m2 u1 None me by simp_all
            ultimately show ?thesis using np4 st4[OF me] pend
              by (intro go[of fs d4 "[(i, ue)]"]) (simp_all add: out_def)
          qed
        qed
      qed
    qed
  qed
qed

end

text \<open>The verdict of a compensation, against the trace it leaves and the recorded head.\<close>

definition undone :: "(nat \<times> gerr option) list \<Rightarrow> saga_event list" where
  "undone evs = map (\<lambda>(i, e). Undid i e) evs"

definition comp_post ::
  "go_ctx \<Rightarrow> string \<Rightarrow> (string \<Rightarrow> row list) \<Rightarrow> (string \<Rightarrow> row list) \<Rightarrow> (nat \<times> 'd saga_step) list \<Rightarrow> gerr option
     \<Rightarrow> (nat \<times> gerr option) list \<Rightarrow> bool" where
  "comp_post ctx sagaID T0 T L res evs \<longleftrightarrow>
     prefix (map fst evs) (pending T0 ctx sagaID L) \<and>
     (\<forall>j. j \<notin> fst ` set L \<longrightarrow> stats T ctx sagaID j = stats T0 ctx sagaID j) \<and>
     (\<forall>j. kept ctx sagaID T0 T j) \<and>
     (\<exists>r. res = Some r \<and>
       (no_verdict r \<and> set (heads T ctx sagaID) \<subseteq> set (heads T0 ctx sagaID) \<union> {SagaCompensating} \<or>
        errors_is r ErrSagaCompensated \<and> \<not> errors_is r ErrSagaFailed \<and>
          map fst evs = pending T0 ctx sagaID L \<and> all_undone evs \<and>
          heads T ctx sagaID = map (\<lambda>_. SagaCompensated) (heads T0 ctx sagaID) \<and>
          (\<forall>i\<in>set (pending T0 ctx sagaID L). stats T ctx sagaID i = [StepCompensated]) \<or>
        errors_is r ErrSagaFailed \<and> \<not> errors_is r ErrSagaCompensated \<and>
          map fst evs = pending T0 ctx sagaID L \<and> \<not> all_undone evs \<and>
          heads T ctx sagaID = map (\<lambda>_. SagaFailed) (heads T0 ctx sagaID)))"

lemma fst_enumerate: "fst ` set (take k (enumerate n xs)) = {n..<n + min k (length xs)}"
proof -
  have "map fst (take k (enumerate n xs)) = take k [n..<n + length xs]"
    by (simp add: take_map[symmetric])
  then have "set (map fst (take k (enumerate n xs))) = set (take k [n..<n + length xs])" by simp
  then show ?thesis by (simp add: min_def split: if_splits)
qed

context saga_store
begin

lemma compensate_spec:
  assumes "usable ctx" and "undo_ok ctx (enumerate 0 (saga_steps saga))"
    and "\<forall>i<length (saga_steps saga). \<exists>st. stats (tbl d) ctx sagaID i = [st]"
    and "compensate clock S ctx saga sagaID k reason d = (res, d')"
  shows "\<exists>evs. ext d' = ext d @ undone evs \<and>
     comp_post ctx sagaID (tbl d) (tbl d') (rev (take k (enumerate 0 (saga_steps saga)))) res evs"
proof -
  let ?L = "rev (take k (enumerate 0 (saga_steps saga)))"
  have keys: "fst ` set ?L = {0..<min k (length (saga_steps saga))}"
    by (simp only: set_rev fst_enumerate) simp
  have Lok: "undo_ok ctx ?L"
    using assms(2) unfolding undo_ok_def set_rev by (blast dest: in_set_takeD)
  have Ldist: "distinct (map fst ?L)"
    by (simp add: rev_map[symmetric] take_map[symmetric] distinct_take)
  obtain e1 d1 where m: "markSaga clock S ctx sagaID SagaCompensating reason d = (e1, d1)" by fastforce
  note m1 = markSaga_spec[OF assms(1) m]
  show ?thesis
  proof (cases e1)
    case (Some err)
    then show ?thesis
      using assms(4) m m1 by (intro exI[of _ "[]"]) (auto simp: compensate_def comp_post_def undone_def)
  next
    case None
    have st: "heads (tbl d1) ctx sagaID = map (\<lambda>_. SagaCompensating) (heads (tbl d) ctx sagaID)"
      "stats (tbl d1) ctx sagaID = stats (tbl d) ctx sagaID" "ext d1 = ext d"
      using m1 None by simp_all
    have pend: "pending (tbl d1) ctx sagaID ?L = pending (tbl d) ctx sagaID ?L"
      by (rule pending_cong) (simp add: st)
    obtain ur d2 where u: "undo_steps clock S ctx sagaID ?L [] d1 = (ur, d2)" by fastforce
    have uniq: "\<forall>i\<in>fst ` set ?L. \<exists>s. stats (tbl d1) ctx sagaID i = [s]"
      unfolding keys st(2) using assms(3) by simp
    obtain evs where evs: "ext d2 = ext d1 @ undone evs" "undo_post ctx sagaID (tbl d1) (tbl d2) ?L [] ur evs"
      using undo_steps_spec[OF assms(1) Lok Ldist uniq u] unfolding undone_def by blast
    note post = evs(2)[unfolded undo_post_def pend kept_def st(2)]
    have base: "prefix (map fst evs) (pending (tbl d) ctx sagaID ?L)"
      "\<And>j. j \<notin> fst ` set ?L \<Longrightarrow> stats (tbl d2) ctx sagaID j = stats (tbl d) ctx sagaID j"
      "\<And>j. kept ctx sagaID (tbl d) (tbl d2) j"
      "heads (tbl d2) ctx sagaID = map (\<lambda>_. SagaCompensating) (heads (tbl d) ctx sagaID)"
      "ext d2 = ext d @ undone evs"
      using post st(1,3) evs(1) by (simp_all add: kept_def)
    show ?thesis
    proof (cases ur)
      case (Inl err)
      then have r: "res = Some err" "d' = d2" "no_verdict err"
        using assms(4) m None u post by (auto simp: compensate_def)
      show ?thesis unfolding comp_post_def r using base r(3) by (intro exI[of _ evs]) auto
    next
      case (Inr fs)
      have all: "map fst evs = pending (tbl d) ctx sagaID ?L" "fs = [] \<longleftrightarrow> all_undone evs"
        "\<forall>(i, e)\<in>set evs. stats (tbl d2) ctx sagaID i = [if e = None then StepCompensated else StepCompensationFailed]"
        using post Inr by auto
      define verdict where "verdict = (if fs = [] then SagaCompensated else SagaFailed)"
      define detail where "detail = (if fs = [] then reason else reason @ ''; compensation failed: '' @
          (case errors_join fs of Some j \<Rightarrow> err_text j | None \<Rightarrow> []))"
      obtain e3 d3 where m': "markSaga clock S ctx sagaID verdict detail d2 = (e3, d3)" by fastforce
      note m3 = markSaga_spec[OF assms(1) m']
      show ?thesis
      proof (cases e3)
        case (Some err)
        then have r: "res = Some err" "d' = d3" "no_verdict err" "tbl d3 = tbl d2" "ext d3 = ext d2"
          using assms(4) m None u Inr m' m3 by (auto simp: compensate_def verdict_def detail_def Let_def split: if_splits)
        show ?thesis unfolding comp_post_def r using base r(3) by (intro exI[of _ evs]) auto
      next
        case e3: None
        have d3: "heads (tbl d3) ctx sagaID = map (\<lambda>_. verdict) (heads (tbl d) ctx sagaID)"
          "stats (tbl d3) ctx sagaID = stats (tbl d2) ctx sagaID" "ext d3 = ext d @ undone evs"
          using m3 e3 base(4,5) by (simp_all add: o_def)
        have r: "d' = d3" "res = Some (wrapf (if fs = [] then ErrSagaCompensated else ErrSagaFailed)
            [''saga '', sagaID, '': '', detail])"
          using assms(4) m None u Inr m' e3 by (auto simp: compensate_def verdict_def detail_def Let_def split: if_splits)
        have comp: "\<forall>i\<in>set (pending (tbl d) ctx sagaID ?L). stats (tbl d2) ctx sagaID i = [StepCompensated]" if "fs = []"
          using all that unfolding all(1)[symmetric] all_undone_def list_all_iff by fastforce
        have verdicts: "errors_is (wrapf ErrSagaCompensated ps) ErrSagaCompensated"
          "\<not> errors_is (wrapf ErrSagaCompensated ps) ErrSagaFailed" "errors_is (wrapf ErrSagaFailed ps) ErrSagaFailed"
          "\<not> errors_is (wrapf ErrSagaFailed ps) ErrSagaCompensated" for ps
          by (simp_all add: wrapf_def saga_errors)
        show ?thesis
        proof (cases "fs = []")
          case True
          with base(1-3) all(1,2) comp[OF True] verdicts(1,2) show ?thesis
            unfolding comp_post_def kept_def r d3 verdict_def by (intro exI[of _ evs]) simp
        next
          case False
          then have "\<not> all_undone evs" using all(2) by blast
          with False base(1-3) all(1) verdicts(3,4) show ?thesis
            unfolding comp_post_def kept_def r d3 verdict_def by (intro exI[of _ evs]) simp
        qed
      qed
    qed
  qed
qed

end

section \<open>Forward execution\<close>

definition forward :: "nat \<Rightarrow> nat \<Rightarrow> saga_event list" where
  "forward k m = map (\<lambda>i. Did i None) [k..<m]"

text \<open>The steps below \<open>m\<close> that declare something to undo, last first.\<close>

definition undo_list :: "'d saga \<Rightarrow> nat \<Rightarrow> nat list" where
  "undo_list saga m = filter (\<lambda>i. step_Compensate (saga_steps saga ! i) \<noteq> None) (rev [0..<m])"

text \<open>Step \<open>m\<close> failed and \<open>evs\<close> were undone after it.\<close>

definition unwound :: "'d saga \<Rightarrow> nat \<Rightarrow> saga_event list \<Rightarrow> (nat \<times> gerr option) list \<Rightarrow> bool" where
  "unwound saga m tail evs \<longleftrightarrow> m < length (saga_steps saga) \<and> (\<exists>e. tail = Did m (Some e) # undone evs)"

text \<open>How a run that got to step \<open>m\<close> ended: completed, unwound with a verdict, or interrupted.\<close>

definition run_end ::
  "go_ctx \<Rightarrow> string \<Rightarrow> 'd saga \<Rightarrow> nat \<Rightarrow> saga_event list \<Rightarrow> (string \<Rightarrow> row list) \<Rightarrow> gerr option \<Rightarrow> bool" where
  "run_end ctx sagaID saga m tail T res \<longleftrightarrow>
     (case res of
        None \<Rightarrow> m = length (saga_steps saga) \<and> tail = [] \<and> heads T ctx sagaID = [SagaCompleted] \<and>
          (\<forall>i<length (saga_steps saga). stats T ctx sagaID i = [StepCompleted])
      | Some r \<Rightarrow>
          no_verdict r \<and> set (heads T ctx sagaID) \<subseteq> {SagaRunning, SagaCompensating} \<and>
            (tail = [] \<or> (\<exists>x. m < length (saga_steps saga) \<and> tail = [Did m x]) \<or>
             (\<exists>evs. unwound saga m tail evs \<and> prefix (map fst evs) (undo_list saga m))) \<or>
          errors_is r ErrSagaCompensated \<and> \<not> errors_is r ErrSagaFailed \<and> heads T ctx sagaID = [SagaCompensated] \<and>
            (\<exists>evs. unwound saga m tail evs \<and> map fst evs = undo_list saga m \<and> all_undone evs) \<or>
          errors_is r ErrSagaFailed \<and> \<not> errors_is r ErrSagaCompensated \<and> heads T ctx sagaID = [SagaFailed] \<and>
            (\<exists>evs. unwound saga m tail evs \<and> map fst evs = undo_list saga m \<and> \<not> all_undone evs))"

definition drive_post ::
  "go_ctx \<Rightarrow> string \<Rightarrow> 'd saga \<Rightarrow> nat \<Rightarrow> (string \<Rightarrow> row list) \<Rightarrow> (string \<Rightarrow> row list) \<Rightarrow> saga_event list
     \<Rightarrow> gerr option \<Rightarrow> bool" where
  "drive_post ctx sagaID saga k T0 T tr res \<longleftrightarrow>
     (\<forall>j. kept ctx sagaID T0 T j) \<and>
     (\<forall>i e. Did i e \<in> set tr \<longrightarrow> StepPending \<notin> set (stats T ctx sagaID i)) \<and>
     (\<exists>m tail. k \<le> m \<and> m \<le> length (saga_steps saga) \<and> tr = forward k m @ tail \<and>
        run_end ctx sagaID saga m tail T res)"

lemma take_enumerate: "m \<le> length xs \<Longrightarrow> take m (enumerate 0 xs) = map (\<lambda>i. (i, xs ! i)) [0..<m]"
  by (rule nth_equalityI) (simp_all add: nth_enumerate_eq)

lemma drop_enumerate:
  assumes "k < length xs"
  shows "drop k (enumerate 0 xs) = (k, xs ! k) # drop (Suc k) (enumerate 0 xs)"
  using Cons_nth_drop_Suc[of k "enumerate 0 xs"] assms by (simp add: nth_enumerate_eq)

lemma pending_all_completed:
  assumes "m \<le> length (saga_steps saga)" and "\<forall>i<m. stats T ctx sagaID i = [StepCompleted]"
  shows "pending T ctx sagaID (rev (take m (enumerate 0 (saga_steps saga)))) = undo_list saga m"
proof -
  have "rev (take m (enumerate 0 (saga_steps saga))) = map (\<lambda>i. (i, saga_steps saga ! i)) (rev [0..<m])"
    by (simp add: take_enumerate[OF assms(1)] rev_map)
  then show ?thesis
    using assms(2) by (auto simp: pending_def undo_list_def filter_map o_def intro!: filter_cong)
qed

lemma forward_step: "k < m \<Longrightarrow> forward k m = Did k None # forward (Suc k) m"
  by (simp add: forward_def upt_conv_Cons)

lemma forward_same [simp]: "forward k k = []"
  by (simp add: forward_def)

text \<open>One successful step in front of a run.\<close>

lemma drive_post_step:
  assumes "drive_post ctx sagaID saga (Suc k) T1 T tr res"
    and "\<And>j. kept ctx sagaID T0 T1 j"
    and "StepPending \<notin> set (stats T1 ctx sagaID k)"
  shows "drive_post ctx sagaID saga k T0 T (Did k None # tr) res"
proof -
  obtain m tail where m: "Suc k \<le> m" "m \<le> length (saga_steps saga)" "tr = forward (Suc k) m @ tail"
    "run_end ctx sagaID saga m tail T res"
    using assms(1) unfolding drive_post_def by blast
  have mono: "kept ctx sagaID T0 T j" for j
    using assms(1,2) kept_trans unfolding drive_post_def by blast
  have "StepPending \<notin> set (stats T ctx sagaID i)" if "Did i e \<in> set (Did k None # tr)" for i e
    using assms(1,3) that unfolding drive_post_def kept_def by auto
  moreover have "Did k None # tr = forward k m @ tail" "k \<le> m" using forward_step[of k m] m by simp_all
  ultimately show ?thesis unfolding drive_post_def using m(2,4) mono by blast
qed

lemma steps_okD:
  assumes "steps_ok tbl ext ctx saga" and "k < length (saga_steps saga)"
  obtains work where "step_Do (saga_steps saga ! k) = Some work" "keeps_saga tbl (work ctx)" "logs ext (Did k) (work ctx)"
proof -
  have "(k, saga_steps saga ! k) \<in> set (enumerate 0 (saga_steps saga))"
    using assms(2) by (auto simp: in_set_enumerate_eq)
  with assms(1) that show thesis unfolding steps_ok_def by (fastforce split: option.splits)
qed

context saga_store
begin

lemma steps_ok_undo: "steps_ok tbl ext ctx saga \<Longrightarrow> undo_ok ctx (enumerate 0 (saga_steps saga))"
  unfolding steps_ok_def undo_ok_def by blast

text \<open>A failed step: its failure recorded, then the committed ones undone.\<close>

lemma drive_failed:
  assumes "usable ctx" and "steps_ok tbl ext ctx saga" and "k < length (saga_steps saga)"
    and "\<forall>i<length (saga_steps saga). \<exists>st. stats (tbl d) ctx sagaID i = [st]"
    and "heads (tbl d) ctx sagaID = [SagaRunning]" and "\<forall>i<k. stats (tbl d) ctx sagaID i = [StepCompleted]"
    and "stats (tbl d) ctx sagaID k = [StepFailed]"
    and "compensate clock S ctx saga sagaID k reason d = (res, d')"
  shows "\<exists>evs. ext d' = ext d @ undone evs \<and>
     drive_post ctx sagaID saga k (tbl d) (tbl d') (Did k (Some e) # undone evs) res"
proof -
  have kn: "k \<le> length (saga_steps saga)" using assms(3) by simp
  let ?L = "rev (take k (enumerate 0 (saga_steps saga)))"
  obtain evs where evs: "ext d' = ext d @ undone evs" "comp_post ctx sagaID (tbl d) (tbl d') ?L res evs"
    using compensate_spec[OF assms(1) steps_ok_undo[OF assms(2)] assms(4,8)] by blast
  note post = evs(2)[unfolded comp_post_def pending_all_completed[OF kn assms(6)] assms(5)]
  have "k \<notin> fst ` set ?L" by (simp only: set_rev fst_enumerate) simp
  then have k: "stats (tbl d') ctx sagaID k = [StepFailed]" using post assms(7) by simp
  have did: "StepPending \<notin> set (stats (tbl d') ctx sagaID i)" if "Did i x \<in> set (Did k (Some e) # undone evs)" for i x
    using that k by (auto simp: undone_def status_defs)
  have un: "unwound saga k (Did k (Some e) # undone evs) evs" using assms(3) by (simp add: unwound_def)
  obtain r where r: "res = Some r" using post by blast
  have "no_verdict r \<and> set (heads (tbl d') ctx sagaID) \<subseteq> {SagaRunning, SagaCompensating} \<and>
        prefix (map fst evs) (undo_list saga k) \<or>
      errors_is r ErrSagaCompensated \<and> \<not> errors_is r ErrSagaFailed \<and> heads (tbl d') ctx sagaID = [SagaCompensated] \<and>
        map fst evs = undo_list saga k \<and> all_undone evs \<or>
      errors_is r ErrSagaFailed \<and> \<not> errors_is r ErrSagaCompensated \<and> heads (tbl d') ctx sagaID = [SagaFailed] \<and>
        map fst evs = undo_list saga k \<and> \<not> all_undone evs"
    using post r by auto
  with un have "run_end ctx sagaID saga k (Did k (Some e) # undone evs) (tbl d') res"
    unfolding run_end_def r option.case by blast
  moreover have "\<forall>j. kept ctx sagaID (tbl d) (tbl d') j"
    using post by blast
  ultimately have "drive_post ctx sagaID saga k (tbl d) (tbl d') (Did k (Some e) # undone evs) res"
    unfolding drive_post_def using did kn forward_same by (metis append_Nil order_refl)
  with evs(1) show ?thesis by blast
qed

end

text \<open>A run stopped by the store before or right after the body of step \<open>k\<close>.\<close>

lemma drive_post_stop:
  assumes "no_verdict r" and "k < length (saga_steps saga)" and "tr = [] \<or> (\<exists>x. tr = [Did k x])"
    and "set (heads T ctx sagaID) \<subseteq> {SagaRunning, SagaCompensating}"
    and "\<And>j. kept ctx sagaID T0 T j"
    and "tr \<noteq> [] \<Longrightarrow> StepPending \<notin> set (stats T ctx sagaID k)"
  shows "drive_post ctx sagaID saga k T0 T tr (Some r)"
proof -
  have "run_end ctx sagaID saga k tr T (Some r)"
    using assms(1-4) unfolding run_end_def option.case by blast
  moreover have "StepPending \<notin> set (stats T ctx sagaID i)" if "Did i e \<in> set tr" for i e
    using that assms(3,6) by auto
  ultimately show ?thesis
    unfolding drive_post_def using assms(2,5) forward_same by (metis append_Nil less_imp_le order_refl)
qed

context saga_store
begin

lemma drive_steps_spec:
  assumes "usable ctx" and "steps_ok tbl ext ctx saga" and "k \<le> length (saga_steps saga)"
    and "\<forall>i<length (saga_steps saga). \<exists>st. stats (tbl d) ctx sagaID i = [st]"
    and "heads (tbl d) ctx sagaID = [SagaRunning]" and "\<forall>i<k. stats (tbl d) ctx sagaID i = [StepCompleted]"
    and "drive_steps clock S ctx saga sagaID (drop k (enumerate 0 (saga_steps saga))) d = (res, d')"
  shows "\<exists>tr. ext d' = ext d @ tr \<and> drive_post ctx sagaID saga k (tbl d) (tbl d') tr res"
  using assms(3-7)
proof (induction "length (saga_steps saga) - k" arbitrary: k d)
  case 0
  then have k: "k = length (saga_steps saga)" by simp
  then have m: "markSaga clock S ctx sagaID SagaCompleted [] d = (res, d')" using "0.prems"(5) by simp
  note m1 = markSaga_spec[OF assms(1) m]
  have "run_end ctx sagaID saga k [] (tbl d') res"
    using m1 "0.prems"(3,4) k by (cases res) (auto simp: run_end_def)
  moreover have "stats (tbl d') ctx sagaID = stats (tbl d) ctx sagaID" using m1 by (cases res) auto
  ultimately have "drive_post ctx sagaID saga k (tbl d) (tbl d') [] res"
    unfolding drive_post_def kept_def using k by (auto simp: forward_def)
  then show ?case using m1 by auto
next
  case (Suc n)
  then have kn: "k < length (saga_steps saga)" by simp
  let ?s = "saga_steps saga ! k"
  obtain work where work: "step_Do ?s = Some work" "keeps_saga tbl (work ctx)" "logs ext (Did k) (work ctx)"
    using steps_okD[OF assms(2) kn] by blast
  note run = Suc.prems(5)[unfolded drop_enumerate[OF kn] drive_steps.simps work(1) option.case]
  obtain e1 d1 where m: "markStepRunning clock S ctx sagaID k d = (e1, d1)" by fastforce
  note m1 = markStepRunning_spec[OF assms(1) m]
  show ?case
  proof (cases e1)
    case (Some r)
    then have r: "res = Some r" "d' = d1" "no_verdict r" "tbl d1 = tbl d" "ext d1 = ext d"
      using run m m1 by auto
    have "drive_post ctx sagaID saga k (tbl d) (tbl d') [] res"
      unfolding r using Suc.prems(3) by (intro drive_post_stop[OF r(3) kn]) simp_all
    then show ?thesis using r(2,5) by auto
  next
    case None
    have one1: "stats (tbl d1) ctx sagaID j = (if j = k then [StepRunning] else stats (tbl d) ctx sagaID j)" for j
      using m1[of j] None Suc.prems(2) kn by auto
    have h1: "heads (tbl d1) ctx sagaID = [SagaRunning]" "ext d1 = ext d" using m1[of k] None Suc.prems(3) by simp_all
    obtain we d2 where w: "work ctx d1 = (we, d2)" by fastforce
    have w1: "heads (tbl d2) ctx sagaID = [SagaRunning]" "stats (tbl d2) ctx sagaID = stats (tbl d1) ctx sagaID"
      "ext d2 = ext d @ [Did k we]"
      using stats_keep[OF work(2) w] work(3) w h1 by (auto simp: logs_def)
    define out where "out = (if we = None then StepCompleted else StepFailed)"
    define reason where "reason = (case we of None \<Rightarrow> [] | Some e \<Rightarrow> ''step '' @ step_name ?s @ '' failed: '' @ err_text e)"
    obtain e3 d3 where m': "markStep clock S ctx sagaID k out reason d2 = (e3, d3)" by fastforce
    note m3 = markStep_spec[OF assms(1) m']
    show ?thesis
    proof (cases e3)
      case (Some r)
      then have r: "res = Some r" "d' = d3" "no_verdict r" "tbl d3 = tbl d2" "ext d3 = ext d2"
        using run m None w m' m3[of k] by (auto simp: out_def reason_def Let_def split: option.splits)
      have "kept ctx sagaID (tbl d) (tbl d2) j" for j
        using Suc.prems(2) kn by (auto simp: kept_def w1 one1 status_defs)
      then have "drive_post ctx sagaID saga k (tbl d) (tbl d') [Did k we] res"
        unfolding r by (intro drive_post_stop[OF r(3) kn]) (auto simp: w1 one1 status_defs split: if_splits)
      then show ?thesis using r(2,5) w1(3) by auto
    next
      case e3: None
      have st3: "stats (tbl d3) ctx sagaID j = (if j = k then [out] else stats (tbl d) ctx sagaID j)" for j
        using m3[of j] e3 w1(2) one1 by simp
      have h3: "heads (tbl d3) ctx sagaID = [SagaRunning]" "ext d3 = ext d @ [Did k we]"
        using m3[of k] e3 w1 by simp_all
      have uniq: "\<forall>i<length (saga_steps saga). \<exists>st. stats (tbl d3) ctx sagaID i = [st]"
        using Suc.prems(2) st3 by simp
      have mono: "kept ctx sagaID (tbl d) (tbl d3) j" for j
        using st3 Suc.prems(2) kn by (auto simp: kept_def out_def status_defs)
      show ?thesis
      proof (cases we)
        case None
        have go: "drive_steps clock S ctx saga sagaID (drop (Suc k) (enumerate 0 (saga_steps saga))) d3 = (res, d')"
          using run m \<open>e1 = None\<close> w m' e3 None by (simp add: out_def reason_def)
        have ended: "\<forall>i<Suc k. stats (tbl d3) ctx sagaID i = [StepCompleted]"
          using Suc.prems(4) st3 None by (simp add: less_Suc_eq out_def)
        obtain tr where tr: "ext d' = ext d3 @ tr" "drive_post ctx sagaID saga (Suc k) (tbl d3) (tbl d') tr res"
          using Suc.hyps(1)[OF _ _ uniq h3(1) ended go] Suc.hyps(2) kn by fastforce
        have "drive_post ctx sagaID saga k (tbl d) (tbl d') (Did k None # tr) res"
          using st3[of k] None by (intro drive_post_step[OF tr(2) mono]) (simp_all add: out_def status_defs)
        then show ?thesis using tr(1) h3(2) None by auto
      next
        case (Some e)
        have go: "compensate clock S ctx saga sagaID k reason d3 = (res, d')"
          using run m \<open>e1 = None\<close> w m' e3 Some by (simp add: out_def reason_def Let_def)
        have "\<forall>i<k. stats (tbl d3) ctx sagaID i = [StepCompleted]" "stats (tbl d3) ctx sagaID k = [StepFailed]"
          using Suc.prems(4) st3 Some by (simp_all add: out_def)
        from drive_failed[OF assms(1,2) kn uniq h3(1) this go, of e] obtain evs where
          evs: "ext d' = ext d3 @ undone evs"
          "drive_post ctx sagaID saga k (tbl d3) (tbl d') (Did k (Some e) # undone evs) res" by blast
        have "drive_post ctx sagaID saga k (tbl d) (tbl d') (Did k (Some e) # undone evs) res"
          using evs(2) mono kept_trans[OF mono] unfolding drive_post_def by blast
        then show ?thesis using evs(1) h3(2) Some by auto
      qed
    qed
  qed
qed

end

section \<open>Starting a saga\<close>

lemma head_key:
  assumes "usable ctx"
  shows "same_key [''tenant_id'', ''saga_id''] r (stamped ctx True (head_row sagaID name t)) = head_sel ctx sagaID r"
    "head_sel ctx sagaID (stamped ctx True (head_row sagaID name t))"
    "col_str (stamped ctx True (head_row sagaID name t)) ''status'' = SagaRunning"
  using assms row_tenant_iff[of "ctx_tenant ctx" r]
  by (auto simp: same_key_def head_sel_def stamped_def needs_tenant_def usable_def mget_stamp head_row_def
      tenant_column_def col_str_def)

lemma step_key:
  assumes "usable ctx"
  shows "same_key [''tenant_id'', ''saga_id'', ''position''] r (stamped ctx True (step_row sagaID i name t)) =
      step_sel ctx sagaID i r"
    "step_sel ctx sagaID j (stamped ctx True (step_row sagaID i name t)) = (j = i)"
    "col_str (stamped ctx True (step_row sagaID i name t)) ''status'' = StepPending"
  using assms row_tenant_iff[of "ctx_tenant ctx" r]
  by (auto simp: same_key_def step_sel_def head_sel_def stamped_def needs_tenant_def usable_def mget_stamp step_row_def
      tenant_column_def col_str_def)

context saga_store
begin

lemma create_steps_spec:
  assumes "usable ctx" and "create_steps clock S ctx sagaID L d = (res, d')"
  shows "ext d' = ext d \<and> (\<forall>e. res = Some e \<longrightarrow> no_verdict e) \<and>
    (res = None \<longrightarrow> tbl d' ''modulekit_sagas'' = tbl d ''modulekit_sagas'' \<and>
       (\<forall>i\<in>fst ` set L. stats (tbl d') ctx sagaID i = [StepPending]) \<and> distinct (map fst L) \<and>
       (\<forall>i\<in>fst ` set L. stats (tbl d) ctx sagaID i = []) \<and>
       (\<forall>i. i \<notin> fst ` set L \<longrightarrow> stats (tbl d') ctx sagaID i = stats (tbl d) ctx sagaID i))"
  using assms(2)
proof (induction L arbitrary: d)
  case (Cons x L)
  obtain i s where x: "x = (i, s)" by fastforce
  let ?r = "step_row sagaID i (step_name s) (clock d)"
  let ?m = "zero_model (TPtr SagaStepRecord)"
  have ty: "table_of (md_type ?m) = ''modulekit_saga_steps''" "scoped (md_type ?m)"
    "pk ''modulekit_saga_steps'' = [[''tenant_id'', ''saga_id'', ''position'']]"
    using sdk_keys[of "''modulekit_saga_steps''"] by (simp_all add: zero_model_def SagaStepRecord_def modulekit_pk_def)
  obtain e d1 where c: "Create S ctx ?m (RPtr (Some (RStruct True ?r))) d = (e, d1)" by fastforce
  have spec: "ext d1 = ext d"
    "e = None \<Longrightarrow> tbl d1 = (tbl d)(''modulekit_saga_steps'' := tbl d ''modulekit_saga_steps'' @ [stamped ctx True ?r])"
    "e = None \<Longrightarrow> \<forall>r'\<in>set (tbl d ''modulekit_saga_steps''). \<not> step_sel ctx sagaID i r'"
    "\<And>err. e = Some err \<Longrightarrow> foreign err"
    using Create_spec[OF refl _ c] ty step_key(1)[OF assms(1)] by simp_all
  show ?case
  proof (cases e)
    case (Some err)
    then show ?thesis using Cons.prems x c spec no_verdict_foreign by auto
  next
    case None
    have rest: "create_steps clock S ctx sagaID L d1 = (res, d')" using Cons.prems x c None by simp
    have st1: "stats (tbl d1) ctx sagaID j = stats (tbl d) ctx sagaID j @ (if j = i then [StepPending] else [])" for j
      using spec(2)[OF None] step_key(2,3)[OF assms(1)] by (simp add: stats_def)
    have st0: "stats (tbl d) ctx sagaID i = []"
      using spec(3)[OF None] by (simp add: stats_def filter_empty_conv)
    have fresh: "i \<notin> fst ` set L" if "res = None"
      using Cons.IH[OF rest] that st1[of i] st0 by (metis append_Nil list.distinct(1))
    have new: "stats (tbl d') ctx sagaID j = [StepPending]" "stats (tbl d) ctx sagaID j = []"
      if "res = None" "j \<in> fst ` set (x # L)" for j
      using Cons.IH[OF rest] that st1[of j] st0 fresh[OF that(1)] x by (cases "j = i"; auto)+
    have old: "stats (tbl d') ctx sagaID j = stats (tbl d) ctx sagaID j" if "res = None" "j \<notin> fst ` set (x # L)" for j
      using Cons.IH[OF rest] that st1[of j] x by simp
    have "tbl d1 ''modulekit_sagas'' = tbl d ''modulekit_sagas''" using spec(2)[OF None] by simp
    with Cons.IH[OF rest] spec(1) fresh new old x show ?thesis by simp
  qed
qed simp

lemma begin_tx_spec:
  assumes "usable ctx" and "begin_tx clock S ctx saga sagaID d = (res, d')"
  shows "ext d' = ext d \<and> (\<forall>e. res = Some e \<longrightarrow> no_verdict e) \<and>
    (res = None \<longrightarrow> heads (tbl d) ctx sagaID = [] \<and> heads (tbl d') ctx sagaID = [SagaRunning] \<and>
       (\<forall>i<length (saga_steps saga). stats (tbl d') ctx sagaID i = [StepPending]))"
proof -
  let ?r = "head_row sagaID (saga_name saga) (clock d)"
  let ?m = "zero_model (TPtr SagaRecord)"
  have ty: "table_of (md_type ?m) = ''modulekit_sagas''" "scoped (md_type ?m)"
    "pk ''modulekit_sagas'' = [[''tenant_id'', ''saga_id'']]"
    using sdk_keys[of "''modulekit_sagas''"] by (simp_all add: zero_model_def SagaRecord_def modulekit_pk_def)
  obtain e d1 where c: "Create S ctx ?m (RPtr (Some (RStruct True ?r))) d = (e, d1)" by fastforce
  have spec: "ext d1 = ext d"
    "e = None \<Longrightarrow> tbl d1 = (tbl d)(''modulekit_sagas'' := tbl d ''modulekit_sagas'' @ [stamped ctx True ?r])"
    "e = None \<Longrightarrow> \<forall>r'\<in>set (tbl d ''modulekit_sagas''). \<not> head_sel ctx sagaID r'"
    "\<And>err. e = Some err \<Longrightarrow> foreign err"
    using Create_spec[OF refl _ c] ty head_key(1)[OF assms(1)] by simp_all
  show ?thesis
  proof (cases e)
    case (Some err)
    have "no_verdict (wrapf ErrDuplicate ps)" for ps by (simp add: no_verdict_def wrapf_def saga_errors sentinel_defs)
    then show ?thesis using assms(2) c Some spec no_verdict_foreign by (auto simp: begin_tx_def split: if_splits)
  next
    case None
    have rest: "create_steps clock S ctx sagaID (enumerate 0 (saga_steps saga)) d1 = (res, d')"
      using assms(2) c None by (simp add: begin_tx_def)
    note s = create_steps_spec[OF assms(1) rest]
    have "heads (tbl d) ctx sagaID = []" "heads (tbl d1) ctx sagaID = [SagaRunning]"
      using spec(2,3)[OF None] head_key(2,3)[OF assms(1)] by (simp_all add: heads_def filter_empty_conv)
    moreover have "i \<in> fst ` set (enumerate 0 (saga_steps saga))" if "i < length (saga_steps saga)" for i
      using that fst_enumerate[of "length (saga_steps saga)" 0 "saga_steps saga"] by simp
    ultimately show ?thesis using s spec(1) by (auto simp: heads_def)
  qed
qed

lemma beginSaga_spec:
  assumes "usable ctx" and "beginSaga clock S ctx saga sagaID d = (res, d')"
  shows "ext d' = ext d \<and> (\<forall>e. res = Some e \<longrightarrow> no_verdict e \<and> tbl d' = tbl d) \<and>
    (res = None \<longrightarrow> heads (tbl d) ctx sagaID = [] \<and> heads (tbl d') ctx sagaID = [SagaRunning] \<and>
       (\<forall>i<length (saga_steps saga). stats (tbl d') ctx sagaID i = [StepPending]))"
  using Transact_spec[OF assms(2)[unfolded beginSaga_def]]
proof (elim disjE exE conjE)
  fix e assume "res = Some e" "foreign e" "tbl d' = tbl d" "ext d' = ext d"
  then show ?thesis using no_verdict_foreign by auto
next
  fix d0 e1 d1
  assume d0: "tbl d0 = tbl d" "ext d0 = ext d" "begin_tx clock S ctx saga sagaID d0 = (e1, d1)" "ext d' = ext d1"
    and res: "case e1 of
          None \<Rightarrow> res = None \<and> tbl d' = tbl d1 \<or> (\<exists>e. res = Some e \<and> foreign e \<and> tbl d' = tbl d)
        | Some e \<Rightarrow> tbl d' = tbl d \<and> res \<noteq> None \<and> (if engine_error e then foreign (the res) else res = Some e)"
  note b = begin_tx_spec[OF assms(1) d0(3)]
  show ?thesis
  proof (cases e1)
    case None
    with b d0 res show ?thesis using no_verdict_foreign by auto
  next
    case (Some e)
    with b d0 res show ?thesis using no_verdict_foreign[of "the res"] by (cases "engine_error e") auto
  qed
qed

lemma RunSaga_spec:
  assumes "usable ctx" and "steps_ok tbl ext ctx saga" and "RunSaga clock S ctx saga sagaID d = (res, d')"
  shows "(\<exists>r. res = Some r \<and> no_verdict r \<and> tbl d' = tbl d \<and> ext d' = ext d) \<or>
    heads (tbl d) ctx sagaID = [] \<and>
    (\<exists>d1 tr. (\<forall>i<length (saga_steps saga). stats (tbl d1) ctx sagaID i = [StepPending]) \<and>
       ext d' = ext d @ tr \<and> drive_post ctx sagaID saga 0 (tbl d1) (tbl d') tr res)"
proof (cases "Saga_Validate saga")
  case (Some err)
  have "no_verdict err"
  proof -
    have v: "validate_steps name L i seen = Some e \<Longrightarrow> no_verdict e" for name and L :: "'d saga_step list" and i seen e
      by (induction name L i seen rule: validate_steps.induct)
        (auto simp: no_verdict_def wrapf_def saga_errors split: if_splits option.splits)
    show ?thesis using Some v by (auto simp: Saga_Validate_def no_verdict_def wrapf_def saga_errors split: if_splits)
  qed
  then show ?thesis using Some assms(3) by (auto simp: RunSaga_def)
next
  case None
  show ?thesis
  proof (cases "sagaID = []")
    case True
    then show ?thesis using None assms(3) by (auto simp: RunSaga_def no_verdict_def wrapf_def saga_errors)
  next
    case False
    obtain e d1 where b: "beginSaga clock S ctx saga sagaID d = (e, d1)" by fastforce
    note b1 = beginSaga_spec[OF assms(1) b]
    show ?thesis
    proof (cases e)
      case (Some err)
      then show ?thesis using None False b b1 assms(3) by (auto simp: RunSaga_def)
    next
      case e: None
      have run: "drive_steps clock S ctx saga sagaID (drop 0 (enumerate 0 (saga_steps saga))) d1 = (res, d')"
        using None False b e assms(3) by (simp add: RunSaga_def driveSaga_def)
      have "\<exists>tr. ext d' = ext d1 @ tr \<and> drive_post ctx sagaID saga 0 (tbl d1) (tbl d') tr res"
        using b1 e by (intro drive_steps_spec[OF assms(1,2) _ _ _ _ run]) auto
      with b1 e show ?thesis by auto
    qed
  qed
qed

end

section \<open>Resuming a saga\<close>

lemma place_rows_at:
  assumes "place_rows sagaID n rows acc = Inr out" and "n \<le> length acc"
  shows "length out = length acc \<and> (\<forall>i<n. (\<exists>r\<in>set rows. col_int r ''position'' = int i) \<longrightarrow>
    out ! i \<in> set rows \<and> col_int (out ! i) ''position'' = int i) \<and>
    (\<forall>i<n. \<not> (\<exists>r\<in>set rows. col_int r ''position'' = int i) \<longrightarrow> out ! i = acc ! i)"
  using assms
proof (induction sagaID n rows acc rule: place_rows.induct)
  case (2 sagaID n r rs ordered)
  let ?p = "col_int r ''position''"
  have p: "\<not> (?p < 0 \<or> ?p \<ge> int n)" using "2.prems"(1) by (auto simp: Let_def split: if_splits)
  have IH: "length out = length ordered \<and> (\<forall>i<n. (\<exists>r\<in>set rs. col_int r ''position'' = int i) \<longrightarrow>
      out ! i \<in> set rs \<and> col_int (out ! i) ''position'' = int i) \<and>
    (\<forall>i<n. \<not> (\<exists>r\<in>set rs. col_int r ''position'' = int i) \<longrightarrow> out ! i = (ordered[nat ?p := r]) ! i)"
    using "2.IH"[OF refl p] "2.prems" p by (simp add: Let_def)
  have "out ! i \<in> set (r # rs) \<and> col_int (out ! i) ''position'' = int i"
    if "i < n" "\<exists>r\<in>set (r # rs). col_int r ''position'' = int i" for i
  proof (cases "\<exists>r\<in>set rs. col_int r ''position'' = int i")
    case True
    with IH that show ?thesis by auto
  next
    case False
    with that have "?p = int i" by auto
    with IH False that "2.prems"(2) show ?thesis by auto
  qed
  moreover have "out ! i = ordered ! i"
    if "i < n" "\<not> (\<exists>r\<in>set (r # rs). col_int r ''position'' = int i)" for i
  proof -
    have "nat ?p \<noteq> i" using that p by auto
    with IH that show ?thesis by auto
  qed
  ultimately show ?case using IH by simp
qed simp

text \<open>The \<open>position\<close> column of the steps table is an integer column.\<close>

definition typed_steps :: "(string \<Rightarrow> row list) \<Rightarrow> bool" where
  "typed_steps T = list_all (\<lambda>r. case mget r ''position'' of Some (CInt n) \<Rightarrow> True | _ \<Rightarrow> False) (T ''modulekit_saga_steps'')"

lemma typed_stepsD:
  assumes "typed_steps T" and "r \<in> set (T ''modulekit_saga_steps'')"
  shows "mget r ''position'' = Some (CInt (col_int r ''position''))"
proof -
  have "case mget r ''position'' of Some (CInt n) \<Rightarrow> True | _ \<Rightarrow> False"
    using assms by (simp add: typed_steps_def list_all_iff)
  then show ?thesis by (auto simp: col_int_def split: option.splits cell.splits)
qed

lemma resume_at_le: "resume_at recs \<le> length recs"
  by (induction recs) auto

lemma resume_at_stops: "resume_at recs < length recs \<Longrightarrow> col_str (recs ! resume_at recs) ''status'' \<noteq> StepCompleted"
  by (induction recs) auto

lemma resume_at_completed: "i < resume_at recs \<Longrightarrow> col_str (recs ! i) ''status'' = StepCompleted"
proof (induction recs arbitrary: i)
  case (Cons r recs)
  then show ?case by (cases i) (auto split: if_splits)
qed simp

lemma no_verdict_names: "names_differ sagaID i recs steps = Some e \<Longrightarrow> no_verdict e"
  by (induction sagaID i recs steps rule: names_differ.induct)
    (auto simp: no_verdict_def wrapf_def saga_errors split: if_splits)

lemma no_verdict_place: "place_rows sagaID n rows acc = Inl e \<Longrightarrow> no_verdict e"
  by (induction sagaID n rows acc rule: place_rows.induct)
    (auto simp: Let_def no_verdict_def wrapf_def saga_errors split: if_splits)

lemma no_verdict_validate: "Saga_Validate saga = Some e \<Longrightarrow> no_verdict e"
proof -
  have "validate_steps name L i seen = Some e \<Longrightarrow> no_verdict e" for name and L :: "'d saga_step list" and i seen
    by (induction name L i seen rule: validate_steps.induct)
      (auto simp: no_verdict_def wrapf_def saga_errors split: if_splits option.splits)
  then show "Saga_Validate saga = Some e \<Longrightarrow> no_verdict e"
    by (auto simp: Saga_Validate_def no_verdict_def wrapf_def saga_errors split: if_splits)
qed

lemma no_verdict_own:
  "no_verdict (wrapf ErrInvalidSaga ps)" "no_verdict (wrapf ErrSagaNotFound ps)"
  by (simp_all add: no_verdict_def wrapf_def saga_errors)

context saga_store
begin

lemma recordedSteps_spec:
  assumes "usable ctx" and "typed_steps (tbl d)" and "recordedSteps S ctx sagaID d = (res, d')"
  shows "tbl d' = tbl d \<and> ext d' = ext d \<and> (\<forall>e. res = Inl e \<longrightarrow> no_verdict e) \<and>
    (\<forall>recs i st. res = Inr recs \<and> i < length recs \<and> stats (tbl d) ctx sagaID i = [st] \<longrightarrow>
       col_str (recs ! i) ''status'' = st)"
proof -
  let ?m = "zero_model (TPtr (TSlice SagaStepRecord))"
  have ty: "table_of (md_type ?m) = ''modulekit_saga_steps''" "scoped (md_type ?m)"
    by (simp_all add: zero_model_def SagaStepRecord_def)
  have sel: "selects ctx (scoped (md_type ?m)) ?m [Where ''saga_id'' (CStr sagaID)] = head_sel ctx sagaID"
    using selects_head[OF assms(1)] ty(2) by simp
  obtain fr d1 where f: "Find S ctx ?m [Where ''saga_id'' (CStr sagaID)] d = (fr, d1)" by fastforce
  note find = Find_spec[OF plain_saga_id f, unfolded ty(1) sel]
  show ?thesis
  proof (cases fr)
    case (Inl err)
    then show ?thesis using find assms(3) f no_verdict_foreign by (auto simp: recordedSteps_def)
  next
    case (Inr rows)
    have rows: "set rows = set (filter (head_sel ctx sagaID) (tbl d ''modulekit_saga_steps''))"
      using find Inr mset_eq_setD by blast
    have place: "res = place_rows sagaID (length rows) rows (replicate (length rows) [])" "d' = d1"
      using assms(3) f Inr by (simp_all add: recordedSteps_def)
    have "col_str (recs ! i) ''status'' = st"
      if r: "res = Inr recs" "i < length recs" "stats (tbl d) ctx sagaID i = [st]" for recs i st
    proof -
      have at: "length recs = length rows" "(\<exists>r\<in>set rows. col_int r ''position'' = int i) \<Longrightarrow>
          recs ! i \<in> set rows \<and> col_int (recs ! i) ''position'' = int i"
        using place_rows_at[OF trans[OF place(1)[symmetric] r(1)]] r(2) by auto
      obtain x where x: "filter (step_sel ctx sagaID i) (tbl d ''modulekit_saga_steps'') = [x]" "col_str x ''status'' = st"
        using r(3) unfolding stats_def by auto
      have "x \<in> set (filter (step_sel ctx sagaID i) (tbl d ''modulekit_saga_steps''))" unfolding x(1) by simp
      then have xs: "x \<in> set rows" "col_int x ''position'' = int i"
        unfolding rows by (simp_all add: step_sel_def col_int_def)
      have "recs ! i \<in> set rows" "col_int (recs ! i) ''position'' = int i" using at(2) xs by blast+
      then have "recs ! i \<in> set (filter (step_sel ctx sagaID i) (tbl d ''modulekit_saga_steps''))"
        using typed_stepsD[OF assms(2)] unfolding rows by (auto simp: step_sel_def)
      then show ?thesis unfolding x(1) using x(2) by simp
    qed
    then show ?thesis using find place(2) no_verdict_place place(1) by metis
  qed
qed

end

context saga_store
begin

lemma compensating_apart:
  "SagaCompensating \<noteq> SagaCompleted" "SagaCompensating \<noteq> SagaCompensated" "SagaCompensating \<noteq> SagaFailed"
  by (simp_all add: status_defs)

lemma RecoverSaga_spec:
  assumes "usable ctx" and "steps_ok tbl ext ctx saga" and "typed_steps (tbl d)"
    and "\<forall>i<length (saga_steps saga). \<exists>st. stats (tbl d) ctx sagaID i = [st]"
    and "heads (tbl d) ctx sagaID = [h]"
    and "h \<in> {SagaRunning, SagaCompleted, SagaCompensating, SagaCompensated, SagaFailed}"
    and "RecoverSaga clock S ctx saga sagaID d = (res, d')"
  shows "tbl d' = tbl d \<and> ext d' = ext d \<and> (\<forall>r. res = Some r \<longrightarrow> no_verdict r) \<and> (h = SagaCompensating \<longrightarrow> res \<noteq> None) \<or>
    h = SagaCompensating \<and> (\<exists>evs. ext d' = ext d @ undone evs \<and>
       comp_post ctx sagaID (tbl d) (tbl d') (rev (enumerate 0 (saga_steps saga))) res evs) \<or>
    h = SagaRunning \<and> (\<exists>k tr. k \<le> length (saga_steps saga) \<and> (\<forall>i<k. stats (tbl d) ctx sagaID i = [StepCompleted]) \<and>
       (k < length (saga_steps saga) \<longrightarrow> stats (tbl d) ctx sagaID k \<noteq> [StepCompleted]) \<and> ext d' = ext d @ tr \<and> drive_post ctx sagaID saga k (tbl d) (tbl d') tr res)"
proof (cases "Saga_Validate saga")
  case (Some err)
  then show ?thesis using assms(7) no_verdict_validate[OF Some] by (auto simp: RecoverSaga_def)
next
  case v: None
  let ?m = "zero_model (TPtr SagaRecord)"
  have ty: "table_of (md_type ?m) = ''modulekit_sagas''" "scoped (md_type ?m)"
    by (simp_all add: zero_model_def SagaRecord_def)
  have sel: "selects ctx (scoped (md_type ?m)) ?m [Where ''saga_id'' (CStr sagaID)] = head_sel ctx sagaID"
    using selects_head[OF assms(1)] ty(2) by simp
  obtain fr d1 where f: "First S ctx ?m [Where ''saga_id'' (CStr sagaID)] d = (fr, d1)" by fastforce
  note first = First_spec[OF plain_saga_id f, unfolded ty(1) sel]
  have d1: "tbl d1 = tbl d" "ext d1 = ext d" using first by blast+
  note run = assms(7)[unfolded RecoverSaga_def v option.case f]
  show ?thesis
  proof (cases fr)
    case (Inl err)
    then have "foreign err" using first by blast
    then have "tbl d' = tbl d \<and> ext d' = ext d \<and> (\<forall>r. res = Some r \<longrightarrow> no_verdict r) \<and> (h = SagaCompensating \<longrightarrow> res \<noteq> None)"
      using run Inl d1 no_verdict_foreign no_verdict_own by (auto split: if_splits)
    then show ?thesis by blast
  next
    case (Inr head)
    have "head \<in> set (filter (head_sel ctx sagaID) (tbl d ''modulekit_sagas''))" using first Inr by simp
    then have head: "col_str head ''status'' = h" using assms(5) unfolding heads_def by force
    obtain sr d2 where r: "recordedSteps S ctx sagaID d1 = (sr, d2)" by fastforce
    note rs = recordedSteps_spec[OF assms(1) _ r, unfolded d1, OF assms(3)]
    show ?thesis
    proof (cases "col_str head ''name'' \<noteq> saga_name saga \<or> h \<in> set [SagaCompleted, SagaCompensated, SagaFailed]
        \<or> (\<exists>e. sr = Inl e) \<or> (\<exists>recs. sr = Inr recs \<and> (length recs \<noteq> length (saga_steps saga) \<or>
             names_differ sagaID 0 recs (saga_steps saga) \<noteq> None))")
      case True
      then have "tbl d' = tbl d \<and> ext d' = ext d \<and> (\<forall>r. res = Some r \<longrightarrow> no_verdict r) \<and> (h = SagaCompensating \<longrightarrow> res \<noteq> None)"
        using run Inr head r rs d1 no_verdict_own no_verdict_names
        by (auto simp: compensating_apart compensating_apart[symmetric] split: if_splits sum.splits option.splits intro: sym)
      then show ?thesis by blast
    next
      case False
      then obtain recs where recs: "sr = Inr recs" "length recs = length (saga_steps saga)"
        "names_differ sagaID 0 recs (saga_steps saga) = None" by (cases sr) auto
      have d2: "tbl d2 = tbl d" "ext d2 = ext d" using rs by blast+
      have uniq: "\<forall>i<length (saga_steps saga). \<exists>st. stats (tbl d2) ctx sagaID i = [st]" using assms(4) d2 by simp
      show ?thesis
      proof (cases "h = SagaCompensating")
        case True
        have c: "compensate clock S ctx saga sagaID (length (saga_steps saga)) (col_str head ''failure_reason'') d2 = (res, d')"
          using run Inr head r recs False True by simp
        from compensate_spec[OF assms(1) steps_ok_undo[OF assms(2)] uniq c] True d2 show ?thesis by simp
      next
        case nc: False
        then have h: "h = SagaRunning" using False assms(6) by auto
        have c: "drive_steps clock S ctx saga sagaID (drop (resume_at recs) (enumerate 0 (saga_steps saga))) d2 = (res, d')"
          using run Inr head r recs False nc by (simp add: driveSaga_def)
        have k: "resume_at recs \<le> length (saga_steps saga)" using resume_at_le[of recs] recs(2) by simp
        have ended: "stats (tbl d2) ctx sagaID i = [StepCompleted]" if "i < resume_at recs" for i
        proof -
          have "i < length recs" using that resume_at_le[of recs] by simp
          moreover obtain st where "stats (tbl d) ctx sagaID i = [st]" using calculation recs(2) assms(4) by auto
          ultimately show ?thesis using rs recs(1) resume_at_completed[OF that] d2(1) by auto
        qed
        have first: "stats (tbl d) ctx sagaID (resume_at recs) \<noteq> [StepCompleted]" if "resume_at recs < length (saga_steps saga)"
        proof
          assume "stats (tbl d) ctx sagaID (resume_at recs) = [StepCompleted]"
          then have "col_str (recs ! resume_at recs) ''status'' = StepCompleted" using rs recs(1,2) that by auto
          with resume_at_stops that recs(2) show False by metis
        qed
        have "heads (tbl d2) ctx sagaID = [SagaRunning]" using assms(5) h d2 by simp
        from drive_steps_spec[OF assms(1,2) k uniq this _ c] ended obtain tr where
          "ext d' = ext d2 @ tr" "drive_post ctx sagaID saga (resume_at recs) (tbl d2) (tbl d') tr res" by blast
        with ended d2 h k first show ?thesis
          by (intro disjI2 conjI exI[of _ "resume_at recs"] exI[of _ tr]) auto
      qed
    qed
  qed
qed

end

section \<open>The adapter\<close>

lemma gorm_saga_store:
  fixes ext :: "'d \<Rightarrow> saga_event list"
  assumes "engine_ok E tbl ext pk sat" and "sdk_pk pk"
  shows "saga_store (NewGormStore tn E) tbl ext (\<lambda>t. fst (eng_parse E t)) pk (scoped_type tn E) (gorm_error E)"
  using gorm_sdk_tables[OF assms] by (simp add: saga_store_def)

interpretation gorm_saga: saga_store "NewGormStore tn (mem_engine modulekit_pk :: saga_event list mem engine)" fst snd
  "\<lambda>t. fst (eng_parse (mem_engine modulekit_pk :: saga_event list mem engine) t)" modulekit_pk
  "scoped_type tn (mem_engine modulekit_pk :: saga_event list mem engine)"
  "gorm_error (mem_engine modulekit_pk :: saga_event list mem engine)"
  by (rule gorm_saga_store[OF mem_engine_ok sdk_pk_modulekit])

text \<open>A two-step saga over the in-memory engine; the second step fails when told to.\<close>

definition sample_step :: "nat \<Rightarrow> string \<Rightarrow> gerr option \<Rightarrow> saga_event list mem saga_step" where
  "sample_step i n e = \<lparr>step_name = n,
     step_Do = Some (\<lambda>ctx d. (e, (fst d, snd d @ [Did i e]))),
     step_Compensate = Some (\<lambda>ctx d. (None, (fst d, snd d @ [Undid i None])))\<rparr>"

definition sample_saga :: "gerr option \<Rightarrow> saga_event list mem saga" where
  "sample_saga e = \<lparr>saga_name = ''order'',
     saga_steps = [sample_step 0 ''reserve'' None, sample_step 1 ''charge'' e]\<rparr>"

lemma sample_saga_ok: "steps_ok fst snd ctx (sample_saga e)"
  by (simp add: steps_ok_def sample_saga_def sample_step_def keeps_saga_def logs_def enumerate_Suc_eq)

abbreviation sample_run :: "gerr option \<Rightarrow> gerr option \<times> saga_event list mem" where
  "sample_run e \<equiv> RunSaga (\<lambda>_. 0) (NewGormStore sample_iso (mem_engine modulekit_pk)) acme_ctx
     (sample_saga e) ''s1'' ((\<lambda>_. []), [])"

section \<open>Properties\<close>

lemma comp_post_pending:
  assumes "comp_post ctx sagaID t t' todo res evs"
  shows "fst ` set evs \<subseteq> set (pending t ctx sagaID todo)"
proof -
  have "prefix (map fst evs) (pending t ctx sagaID todo)" using assms unfolding comp_post_def by blast
  from set_mono_prefix[OF this] show ?thesis by simp
qed



text \<open>
  Every transition is durable before the work it describes. In every outcome, also when
  the store fails half-way, each step whose body was entered has exactly one record and it
  no longer says pending; and if anything was entered and the coordinator was interrupted
  without reaching a verdict, the head says running or compensating, so recovery finds it.
\<close>

theorem RunSaga_records_before_running:
  fixes ext :: "'d \<Rightarrow> saga_event list"
  assumes "engine_ok E tbl ext pk sat" and "sdk_pk pk" and "usable ctx" and "steps_ok tbl ext ctx saga"
    and "RunSaga clock (NewGormStore tn E) ctx saga sagaID d = (res, d')"
  shows "\<exists>tr. ext d' = ext d @ tr \<and>
    (\<forall>i e. Did i e \<in> set tr \<longrightarrow> (\<exists>st. stats (tbl d') ctx sagaID i = [st] \<and> st \<noteq> StepPending)) \<and>
    (\<forall>r. tr \<noteq> [] \<and> res = Some r \<and> \<not> errors_is r ErrSagaCompensated \<and> \<not> errors_is r ErrSagaFailed \<longrightarrow>
       set (heads (tbl d') ctx sagaID) \<subseteq> {SagaRunning, SagaCompensating})"
  using saga_store.RunSaga_spec[OF gorm_saga_store[OF assms(1,2)] assms(3-5)]
proof (elim disjE exE conjE)
  fix r assume "ext d' = ext d"
  then show ?thesis by (intro exI[of _ "[]"]) simp
next
  fix d1 tr assume p: "\<forall>i<length (saga_steps saga). stats (tbl d1) ctx sagaID i = [StepPending]"
    "ext d' = ext d @ tr" "drive_post ctx sagaID saga 0 (tbl d1) (tbl d') tr res"
  obtain m tail where m: "m \<le> length (saga_steps saga)" "tr = forward 0 m @ tail"
    "run_end ctx sagaID saga m tail (tbl d') res" using p(3) unfolding drive_post_def by blast
  have "\<exists>st. stats (tbl d') ctx sagaID i = [st] \<and> st \<noteq> StepPending" if did: "Did i e \<in> set tr" for i e
  proof -
    have "i < length (saga_steps saga)"
      using did m by (auto simp: run_end_def forward_def unwound_def undone_def split: option.splits)
    then have "length (stats (tbl d') ctx sagaID i) = 1"
      using p(1,3) unfolding drive_post_def kept_def by simp
    moreover have "StepPending \<notin> set (stats (tbl d') ctx sagaID i)"
      using p(3) did unfolding drive_post_def by blast
    ultimately show ?thesis by (cases "stats (tbl d') ctx sagaID i") auto
  qed
  moreover have "set (heads (tbl d') ctx sagaID) \<subseteq> {SagaRunning, SagaCompensating}"
    if "res = Some r" "\<not> errors_is r ErrSagaCompensated" "\<not> errors_is r ErrSagaFailed" for r
    using m(3) that unfolding run_end_def by auto
  ultimately show ?thesis using p(2) by blast
qed

theorem RunSaga_records_before_running_witness:
  "\<exists>st. stats (fst (snd (sample_run None))) acme_ctx ''s1'' 1 = [st] \<and> st \<noteq> StepPending"
proof -
  have u: "usable acme_ctx" by (simp add: usable_def)
  have r: "snd (snd (sample_run None)) = [Did 0 None, Did 1 None]" by code_simp
  from RunSaga_records_before_running[OF mem_engine_ok sdk_pk_modulekit u sample_saga_ok prod.collapse[symmetric],
      of "\<lambda>_. 0" sample_iso None "''s1''" "((\<lambda>_. []), [])"] r
  show ?thesis by auto
qed

text \<open>
  C8: recovery builds nothing twice. Resuming a saga whose head is completed, compensated or
  failed runs nothing and changes nothing. Forward work is only entered when the head says
  running, and never a step that is recorded as completed together with all before it. A
  saga that was already unwinding only ever undoes, and only steps whose record says that
  they committed or may have.
\<close>

theorem RecoverSaga_safe:
  fixes ext :: "'d \<Rightarrow> saga_event list"
  assumes "engine_ok E tbl ext pk sat" and "sdk_pk pk" and "usable ctx" and "steps_ok tbl ext ctx saga"
    and "typed_steps (tbl d)" and "\<forall>i<length (saga_steps saga). \<exists>st. stats (tbl d) ctx sagaID i = [st]"
    and "heads (tbl d) ctx sagaID = [h]"
    and "h \<in> {SagaRunning, SagaCompleted, SagaCompensating, SagaCompensated, SagaFailed}"
    and "RecoverSaga clock (NewGormStore tn E) ctx saga sagaID d = (res, d')"
  shows "\<exists>tr. ext d' = ext d @ tr \<and>
    (h \<in> {SagaCompleted, SagaCompensated, SagaFailed} \<longrightarrow> tr = [] \<and> tbl d' = tbl d) \<and>
    (\<forall>i e. Did i e \<in> set tr \<longrightarrow> h = SagaRunning \<and> (\<exists>j\<le>i. stats (tbl d) ctx sagaID j \<noteq> [StepCompleted])) \<and>
    (\<forall>i e. h = SagaCompensating \<and> Undid i e \<in> set tr \<longrightarrow>
       stats (tbl d) ctx sagaID i \<in> {[StepCompleted], [StepRunning]})"
  using saga_store.RecoverSaga_spec[OF gorm_saga_store[OF assms(1,2)] assms(3-9)]
proof (elim disjE exE conjE)
  assume "tbl d' = tbl d" "ext d' = ext d"
  then show ?thesis by (intro exI[of _ "[]"]) simp
next
  fix evs assume c: "h = SagaCompensating" "ext d' = ext d @ undone evs"
    "comp_post ctx sagaID (tbl d) (tbl d') (rev (enumerate 0 (saga_steps saga))) res evs"
  from comp_post_pending[OF c(3)] have "stats (tbl d) ctx sagaID i \<in> {[StepCompleted], [StepRunning]}" if "Undid i e \<in> set (undone evs)" for i e
    using that by (force simp: undone_def pending_def)
  then show ?thesis using c(1,2) by (intro exI[of _ "undone evs"]) (auto simp: undone_def status_defs)
next
  fix k tr assume c: "h = SagaRunning" "k \<le> length (saga_steps saga)"
    "k < length (saga_steps saga) \<longrightarrow> stats (tbl d) ctx sagaID k \<noteq> [StepCompleted]"
    "ext d' = ext d @ tr" "drive_post ctx sagaID saga k (tbl d) (tbl d') tr res"
  obtain m tail where m: "k \<le> m" "m \<le> length (saga_steps saga)" "tr = forward k m @ tail"
    "run_end ctx sagaID saga m tail (tbl d') res" using c(5) unfolding drive_post_def by blast
  have "\<exists>j\<le>i. stats (tbl d) ctx sagaID j \<noteq> [StepCompleted]" if "Did i e \<in> set tr" for i e
  proof -
    have "k \<le> i" "i < length (saga_steps saga)"
      using that m by (auto simp: run_end_def forward_def unwound_def undone_def split: option.splits)
    then show ?thesis using c(3) by (intro exI[of _ k]) auto
  qed
  then show ?thesis using c(1,4) by (intro exI[of _ tr]) (auto simp: status_defs)
qed

text \<open>The database after the failed sample saga, with its head or a step rewritten.\<close>

definition crashed_db :: "string \<Rightarrow> string \<Rightarrow> string \<Rightarrow> saga_event list mem" where
  "crashed_db h s0 s1 = ((\<lambda>_. [])
     (''modulekit_sagas'' := [stamp ''acme'' (apply_changes [(''status'', CStr h)] (head_row ''s1'' ''order'' 0))],
      ''modulekit_saga_steps'' :=
        [stamp ''acme'' (apply_changes [(''status'', CStr s0)] (step_row ''s1'' 0 ''reserve'' 0)),
         stamp ''acme'' (apply_changes [(''status'', CStr s1)] (step_row ''s1'' 1 ''charge'' 0))]), [])"

lemma crashed_db_view:
  "typed_steps (fst (crashed_db h s0 s1))" "heads (fst (crashed_db h s0 s1)) acme_ctx ''s1'' = [h]"
  "\<forall>i<length (saga_steps (sample_saga e)). \<exists>st. stats (fst (crashed_db h s0 s1)) acme_ctx ''s1'' i = [st]"
  "stats (fst (crashed_db h s0 s1)) acme_ctx ''s1'' 0 = [s0]"
  by (simp_all add: crashed_db_def typed_steps_def heads_def stats_def head_sel_def step_sel_def head_row_def
      step_row_def mget_stamp mget_apply_changes tenant_column_def col_str_def sample_saga_def less_Suc_eq)

abbreviation sample_recover :: "saga_event list mem \<Rightarrow> gerr option \<times> saga_event list mem" where
  "sample_recover d \<equiv> RecoverSaga (\<lambda>_. 0) (NewGormStore sample_iso (mem_engine modulekit_pk)) acme_ctx
     (sample_saga None) ''s1'' d"

theorem RecoverSaga_safe_witness:
  "snd (snd (sample_recover (crashed_db SagaCompensated StepCompensated StepFailed))) = []"
proof -
  have u: "usable acme_ctx" by (simp add: usable_def)
  have h: "SagaCompensated \<in> {SagaRunning, SagaCompleted, SagaCompensating, SagaCompensated, SagaFailed}" by simp
  show ?thesis
    using RecoverSaga_safe[OF mem_engine_ok sdk_pk_modulekit u sample_saga_ok crashed_db_view(1,3,2) h
        prod.collapse[symmetric]]
    by (auto simp: crashed_db_def)
qed

lemma crashed_recovery:
  "case fst (sample_recover (crashed_db SagaCompensating StepCompensating StepFailed)) of
     Some r \<Rightarrow> errors_is r ErrSagaCompensated | None \<Rightarrow> False"
  "heads (fst (snd (sample_recover (crashed_db SagaCompensating StepCompensating StepFailed)))) acme_ctx ''s1'' = [SagaCompensated]"
  "snd (snd (sample_recover (crashed_db SagaCompensating StepCompensating StepFailed))) = []"
  by code_simp+

text \<open>
  C38: an interrupted compensation is not finished. When the coordinator crashed while it was
  undoing step \<open>i\<close>, that step's record says compensating. Resuming the saga never calls the
  compensation of step \<open>i\<close> again; it ends without a verdict (the store failed or the saga
  does not match its records), with \<open>ErrSagaFailed\<close> and the head failed if some other
  compensation it ran failed, or with \<open>ErrSagaCompensated\<close> and the head compensated if all of those
  succeeded, although step \<open>i\<close> may never have been undone. The last case does occur: recovering
  a two-step saga that crashed while undoing its first step calls nothing at all and reports
  that everything was undone.
\<close>

theorem recovery_skips_interrupted_compensation:
  fixes ext :: "'d \<Rightarrow> saga_event list"
  assumes "engine_ok E tbl ext pk sat" and "sdk_pk pk" and "usable ctx" and "steps_ok tbl ext ctx saga"
    and "typed_steps (tbl d)" and "\<forall>i<length (saga_steps saga). \<exists>st. stats (tbl d) ctx sagaID i = [st]"
    and "heads (tbl d) ctx sagaID = [SagaCompensating]" and "stats (tbl d) ctx sagaID i = [StepCompensating]"
    and "RecoverSaga clock (NewGormStore tn E) ctx saga sagaID d = (res, d')"
  shows "(\<exists>tr r. ext d' = ext d @ tr \<and> (\<forall>e. Undid i e \<notin> set tr) \<and> res = Some r \<and>
      (no_verdict r \<or>
       errors_is r ErrSagaFailed \<and> heads (tbl d') ctx sagaID = [SagaFailed] \<and> (\<exists>j e. Undid j (Some e) \<in> set tr) \<or>
       errors_is r ErrSagaCompensated \<and> heads (tbl d') ctx sagaID = [SagaCompensated] \<and>
         (\<forall>j e. Undid j e \<in> set tr \<longrightarrow> e = None))) \<and>
    (let db = crashed_db SagaCompensating StepCompensating StepFailed; run = sample_recover db in
       (case fst run of Some r \<Rightarrow> errors_is r ErrSagaCompensated | None \<Rightarrow> False) \<and>
       heads (fst (snd run)) acme_ctx ''s1'' = [SagaCompensated] \<and> snd (snd run) = [])"
proof
  have h: "SagaCompensating \<in> {SagaRunning, SagaCompleted, SagaCompensating, SagaCompensated, SagaFailed}" by simp
  from saga_store.RecoverSaga_spec[OF gorm_saga_store[OF assms(1,2)] assms(3-7) h assms(9)]
  show "\<exists>tr r. ext d' = ext d @ tr \<and> (\<forall>e. Undid i e \<notin> set tr) \<and> res = Some r \<and>
      (no_verdict r \<or>
       errors_is r ErrSagaFailed \<and> heads (tbl d') ctx sagaID = [SagaFailed] \<and> (\<exists>j e. Undid j (Some e) \<in> set tr) \<or>
       errors_is r ErrSagaCompensated \<and> heads (tbl d') ctx sagaID = [SagaCompensated] \<and>
         (\<forall>j e. Undid j e \<in> set tr \<longrightarrow> e = None))" (is "\<exists>tr r. ?P tr r")
  proof (elim disjE exE conjE)
    assume "ext d' = ext d" "\<forall>r. res = Some r \<longrightarrow> no_verdict r" "SagaCompensating = SagaCompensating \<longrightarrow> res \<noteq> None"
    then obtain r where "res = Some r" "no_verdict r" by auto
    with \<open>ext d' = ext d\<close> show ?thesis by (intro exI[of _ "[]"] exI[of _ r]) simp
  next
    fix evs assume c: "ext d' = ext d @ undone evs"
      "comp_post ctx sagaID (tbl d) (tbl d') (rev (enumerate 0 (saga_steps saga))) res evs"
    from comp_post_pending[OF c(2)] have skipped: "Undid i e \<notin> set (undone evs)" for e
      using assms(8) by (force simp: undone_def pending_def status_defs)
    have "\<not> all_undone evs \<Longrightarrow> \<exists>j e. Undid j (Some e) \<in> set (undone evs)"
      "all_undone evs \<Longrightarrow> Undid j e \<in> set (undone evs) \<Longrightarrow> e = None" for j e
      by (force simp: all_undone_def undone_def list_all_iff)+
    moreover obtain r where "res = Some r"
      "no_verdict r \<or> errors_is r ErrSagaCompensated \<and> all_undone evs \<and> heads (tbl d') ctx sagaID = [SagaCompensated] \<or>
        errors_is r ErrSagaFailed \<and> \<not> all_undone evs \<and> heads (tbl d') ctx sagaID = [SagaFailed]"
      using c(2) assms(7) unfolding comp_post_def by auto
    ultimately have "?P (undone evs) r" using c(1) skipped by blast
    then show ?thesis by blast
  next
    assume "SagaCompensating = SagaRunning"
    then show ?thesis by (simp add: status_defs)
  qed
qed (simp only: Let_def crashed_recovery simp_thms)

theorem recovery_skips_interrupted_compensation_witness:
  "\<exists>tr. snd (snd (sample_recover (crashed_db SagaCompensating StepCompensating StepFailed))) = tr \<and> (\<forall>e. Undid 0 e \<notin> set tr) \<and>
   heads (fst (snd (sample_recover (crashed_db SagaCompensating StepCompensating StepFailed)))) acme_ctx ''s1'' = [SagaCompensated]"
proof -
  have u: "usable acme_ctx" by (simp add: usable_def)
  from recovery_skips_interrupted_compensation[OF mem_engine_ok sdk_pk_modulekit u sample_saga_ok
      crashed_db_view(1,3,2,4) prod.collapse[symmetric], of "\<lambda>_. 0" sample_iso None StepFailed]
  have "\<exists>tr. snd (snd (sample_recover (crashed_db SagaCompensating StepCompensating StepFailed))) =
      snd (crashed_db SagaCompensating StepCompensating StepFailed) @ tr \<and> (\<forall>e. Undid 0 e \<notin> set tr)" by blast
  then show ?thesis using crashed_recovery(2) by (simp add: crashed_db_def)
qed

end
