(* ===== verification/Hooks.thy ===== *)
theory Hooks
  imports Prelude
begin

text \<open>
  Hook points and their dispatch: the declarations of \<^verbatim>\<open>pkg/modulekit/hook.go\<close> and the registry
  and dispatcher of \<^verbatim>\<open>internal/kernel/hooks\<close>. A subscriber's handler is third-party code; it is a
  function of the context, the value and the world \<open>'w\<close> it may change, and what the
  dispatcher can observe of one run is a \<open>hook_run\<close>. Subscriber failures that a fail_open
  point only logs are returned as a list, in order.
\<close>

section \<open>Declarations (pkg/modulekit/hook.go)\<close>

type_synonym hook_kind = string
type_synonym failure_policy = string

definition KindObserver :: hook_kind where "KindObserver = ''observer''"
definition KindValidator :: hook_kind where "KindValidator = ''validator''"
definition KindTransformer :: hook_kind where "KindTransformer = ''transformer''"
definition FailClosed :: failure_policy where "FailClosed = ''fail_closed''"
definition FailOpen :: failure_policy where "FailOpen = ''fail_open''"

definition HookKind_Valid :: "hook_kind \<Rightarrow> bool" where
  "HookKind_Valid k = (k = KindObserver \<or> k = KindValidator \<or> k = KindTransformer)"

definition FailurePolicy_Valid :: "failure_policy \<Rightarrow> bool" where
  "FailurePolicy_Valid p = (p = FailClosed \<or> p = FailOpen)"

record hook_point =
  hp_ref :: hook_ref
  hp_kind :: hook_kind
  hp_policy :: failure_policy
  hp_timeout :: int
  hp_description :: string

definition HookPoint_Validate :: "hook_point \<Rightarrow> gerr option" where
  "HookPoint_Validate h =
     (if hook_name (hp_ref h) = [] \<or> hook_version (hp_ref h) = []
      then Some (wrapf ErrInvalidHookPoint [''hook point needs both a name and a version''])
      else if \<not> HookKind_Valid (hp_kind h)
      then Some (wrapf ErrInvalidHookPoint
                  [''unknown hook kind '', go_quote (hp_kind h), '' for '', hook_key (hp_ref h)])
      else if \<not> FailurePolicy_Valid (hp_policy h)
      then Some (wrapf ErrInvalidHookPoint
                  [''hook point '', hook_key (hp_ref h),
                   '' must declare fail_open or fail_closed, got '', go_quote (hp_policy h)])
      else if hp_timeout h \<le> 0
      then Some (wrapf ErrInvalidHookPoint
                  [''hook point '', hook_key (hp_ref h), '' must declare a positive timeout''])
      else None)"

text \<open>
  One run of a subscriber as the dispatcher sees it: it returned in time, it panicked, or it
  was still running when the call's context ended; then \<open>parent.Err()\<close> tells a cancelled
  caller from the point's own timeout.
\<close>

datatype 'v hook_run =
    HReturn "'v goany" "gerr option"
  | HPanic string
  | HBlocked "gerr option"

type_synonym ('v, 'w) hook_handler = "go_ctx \<Rightarrow> 'v goany \<Rightarrow> 'w \<Rightarrow> 'v hook_run \<times> 'w"

record ('v, 'w) subscription =
  sub_ref :: hook_ref
  sub_module :: string
  sub_priority :: int
  sub_handler :: "('v, 'w) hook_handler option"

section \<open>The registry (hooks/registry.go)\<close>

record offeredPoint =
  op_point :: hook_point
  op_owner :: string

record ('v, 'w) hooks =
  hk_points :: "offeredPoint gomap"
  hk_subs :: "('v, 'w) subscription list gomap"

definition hooks_New :: "('v, 'w) hooks" where
  "hooks_New = \<lparr>hk_points = [], hk_subs = []\<rparr>"

definition Offer :: "string \<Rightarrow> hook_point \<Rightarrow> ('v, 'w) hooks \<Rightarrow> gerr option \<times> ('v, 'w) hooks" where
  "Offer ownerModuleID point r =
     (case HookPoint_Validate point of
        Some e \<Rightarrow> (Some e, r)
      | None \<Rightarrow>
          (case mget (hk_points r) (hook_key (hp_ref point)) of
             Some existing \<Rightarrow>
               (Some (wrapf ErrHookAlreadyOffered
                       [hook_key (hp_ref point), '' offered by both '', op_owner existing,
                        '' and '', ownerModuleID]), r)
           | None \<Rightarrow>
               (None, r\<lparr>hk_points := mput (hook_key (hp_ref point))
                                      \<lparr>op_point = point, op_owner = ownerModuleID\<rparr> (hk_points r)\<rparr>)))"

text \<open>A missing map entry reads as the nil slice.\<close>

definition subs_at :: "('v, 'w) hooks \<Rightarrow> string \<Rightarrow> ('v, 'w) subscription list" where
  "subs_at r key = (case mget (hk_subs r) key of Some l \<Rightarrow> l | None \<Rightarrow> [])"

definition Subscribe :: "('v, 'w) subscription \<Rightarrow> ('v, 'w) hooks \<Rightarrow> gerr option \<times> ('v, 'w) hooks" where
  "Subscribe sub r =
     (if sub_handler sub = None
      then (Some (wrapf ErrInvalidHookPoint
                   [''subscription to '', hook_key (sub_ref sub), '' has no handler'']), r)
      else if sub_module sub = []
      then (Some (wrapf ErrInvalidHookPoint
                   [''subscription to '', hook_key (sub_ref sub), '' has no module ID'']), r)
      else (let key = hook_key (sub_ref sub) in
            case mget (hk_points r) key of
              None \<Rightarrow> (Some (wrapf ErrHookNotOffered
                              [key, '' (subscriber '', sub_module sub, '')'']), r)
            | Some _ \<Rightarrow> (None, r\<lparr>hk_subs := mput key (subs_at r key @ [sub]) (hk_subs r)\<rparr>)))"

text \<open>\<open>sort.SliceStable\<close> by priority, then module ID: a stable sort by the pair.\<close>

definition dispatch_key :: "('v, 'w) subscription \<Rightarrow> int \<times> string" where
  "dispatch_key s = (sub_priority s, sub_module s)"

definition subscribersOf ::
  "string \<Rightarrow> ('v, 'w) hooks \<Rightarrow> (offeredPoint \<times> ('v, 'w) subscription list) option" where
  "subscribersOf key r =
     (case mget (hk_points r) key of
        None \<Rightarrow> None
      | Some point \<Rightarrow> Some (point, sort_key dispatch_key (subs_at r key)))"

definition OfferedPoints :: "('v, 'w) hooks \<Rightarrow> hook_point list" where
  "OfferedPoints r =
     sort_key (\<lambda>p. hook_key (hp_ref p)) (map (op_point \<circ> snd) (hk_points r))"

definition SubscriberIDs :: "hook_ref \<Rightarrow> ('v, 'w) hooks \<Rightarrow> string list" where
  "SubscriberIDs ref r =
     (case subscribersOf (hook_key ref) r of
        None \<Rightarrow> []
      | Some (_, subs) \<Rightarrow> map sub_module subs)"

definition errNoSuchPoint :: "hook_ref \<Rightarrow> gerr" where
  "errNoSuchPoint ref = wrapf ErrHookNotOffered [hook_key ref]"

definition requireKind :: "hook_point \<Rightarrow> hook_kind \<Rightarrow> gerr option" where
  "requireKind p want =
     (if hp_kind p \<noteq> want
      then Some (wrapf ErrInvalidHookPoint
                  [hook_key (hp_ref p), '' is a '', hp_kind p, '' hook, dispatched as '', want])
      else None)"

text \<open>
  \<open>invoke\<close>: a panic becomes an error and leaves no result; a run that outlives its context is
  abandoned, reported as a cancellation when the parent context ended and as a timeout
  otherwise. The duration is rendered as a nanosecond count. Calling a nil handler panics.
\<close>

definition invoke ::
  "go_ctx \<Rightarrow> hook_point \<Rightarrow> ('v, 'w) subscription \<Rightarrow> 'v goany \<Rightarrow> 'w
     \<Rightarrow> ('v goany \<times> gerr option) \<times> 'w" where
  "invoke ctx point sub value w =
     (let (run, w') = (case sub_handler sub of
                         Some h \<Rightarrow> h ctx value w
                       | None \<Rightarrow> (HPanic ''invalid memory address or nil pointer dereference'', w))
      in (case run of
            HReturn result err \<Rightarrow> ((result, err), w')
          | HPanic p \<Rightarrow>
              ((ANil, Some (wrapf ErrHookSubscriberFailed [sub_module sub, '' panicked: '', p])), w')
          | HBlocked (Some parentErr) \<Rightarrow>
              ((ANil, Some (ErrWrap
                   (err_text ErrHookSubscriberFailed @ '': cancelled while running '' @ sub_module sub
                      @ '': '' @ err_text parentErr)
                   [ErrHookSubscriberFailed, parentErr])), w')
          | HBlocked None \<Rightarrow>
              ((ANil, Some (wrapf ErrHookSubscriberFailed
                   [sub_module sub, '' timed out after '', itoa (hp_timeout point), ''ns''])), w')))"

text \<open>\<open>applyPolicy\<close>: the error that stops the dispatch, and the errors passed to \<open>report\<close>.\<close>

definition applyPolicy ::
  "hook_point \<Rightarrow> ('v, 'w) subscription \<Rightarrow> gerr option \<Rightarrow> gerr option \<times> gerr list" where
  "applyPolicy point sub err =
     (case err of
        None \<Rightarrow> (None, [])
      | Some e \<Rightarrow>
          (let wrapped =
             (if errors_is e ErrHookSubscriberFailed then e
              else ErrWrap (err_text ErrHookSubscriberFailed @ '': hook '' @ hook_key (hp_ref point)
                              @ '' subscriber '' @ sub_module sub @ '': '' @ err_text e)
                     [ErrHookSubscriberFailed, e])
           in if hp_policy point = FailClosed then (Some wrapped, []) else (None, [wrapped])))"

section \<open>Dispatch (hooks/dispatch.go)\<close>

fun notify_loop ::
  "go_ctx \<Rightarrow> hook_point \<Rightarrow> 'v goany \<Rightarrow> ('v, 'w) subscription list \<Rightarrow> 'w
     \<Rightarrow> gerr option \<times> gerr list \<times> 'w" where
  "notify_loop ctx point value [] w = (None, [], w)"
| "notify_loop ctx point value (sub # subs) w =
     (let ((_, err), w') = invoke ctx point sub value w;
          (stop, reported) = applyPolicy point sub err
      in case stop of
           Some e \<Rightarrow> (Some e, [], w')
         | None \<Rightarrow> (let (r, logs, w'') = notify_loop ctx point value subs w'
                   in (r, reported @ logs, w'')))"

definition Notify ::
  "('v, 'w) hooks \<Rightarrow> go_ctx \<Rightarrow> hook_ref \<Rightarrow> 'v goany \<Rightarrow> 'w \<Rightarrow> gerr option \<times> gerr list \<times> 'w" where
  "Notify r ctx ref value w =
     (case subscribersOf (hook_key ref) r of
        None \<Rightarrow> (Some (errNoSuchPoint ref), [], w)
      | Some (point, subs) \<Rightarrow>
          (case requireKind (op_point point) KindObserver of
             Some e \<Rightarrow> (Some e, [], w)
           | None \<Rightarrow> notify_loop ctx (op_point point) value subs w))"

definition asRejection :: "'v goany \<Rightarrow> rejection option" where
  "asRejection result =
     (case result of ARej v \<Rightarrow> Some v | ARejPtr (Some v) \<Rightarrow> Some v | _ \<Rightarrow> None)"

fun validate_loop ::
  "go_ctx \<Rightarrow> hook_point \<Rightarrow> hook_ref \<Rightarrow> 'v goany \<Rightarrow> ('v, 'w) subscription list \<Rightarrow> rejection list \<Rightarrow> 'w
     \<Rightarrow> gerr option \<times> gerr list \<times> 'w" where
  "validate_loop ctx point ref value [] rejections w =
     (if rejections \<noteq> [] then Some (ErrRejected ref rejections) else None, [], w)"
| "validate_loop ctx point ref value (sub # subs) rejections w =
     (let ((result, err), w') = invoke ctx point sub value w;
          (stop, reported) = applyPolicy point sub err
      in case stop of
           Some e \<Rightarrow> (Some e, [], w')
         | None \<Rightarrow>
             (let rejections' = (case asRejection result of
                                   Some rej \<Rightarrow> rejections @ [Rejection (sub_module sub) (rej_reason rej)]
                                 | None \<Rightarrow> rejections);
                  (r, logs, w'') = validate_loop ctx point ref value subs rejections' w'
              in (r, reported @ logs, w'')))"

definition Validate ::
  "('v, 'w) hooks \<Rightarrow> go_ctx \<Rightarrow> hook_ref \<Rightarrow> 'v goany \<Rightarrow> 'w \<Rightarrow> gerr option \<times> gerr list \<times> 'w" where
  "Validate r ctx ref value w =
     (case subscribersOf (hook_key ref) r of
        None \<Rightarrow> (Some (errNoSuchPoint ref), [], w)
      | Some (point, subs) \<Rightarrow>
          (case requireKind (op_point point) KindValidator of
             Some e \<Rightarrow> (Some e, [], w)
           | None \<Rightarrow> validate_loop ctx (op_point point) ref value subs [] w))"

fun transform_loop ::
  "go_ctx \<Rightarrow> hook_point \<Rightarrow> ('v, 'w) subscription list \<Rightarrow> 'v goany \<Rightarrow> 'w
     \<Rightarrow> (gerr + 'v goany) \<times> gerr list \<times> 'w" where
  "transform_loop ctx point [] current w = (Inr current, [], w)"
| "transform_loop ctx point (sub # subs) current w =
     (let ((result, err), w') = invoke ctx point sub current w;
          (stop, reported) = applyPolicy point sub err
      in case stop of
           Some e \<Rightarrow> (Inl e, [], w')
         | None \<Rightarrow>
             (let current' = (if err = None \<and> result \<noteq> ANil then result else current);
                  (r, logs, w'') = transform_loop ctx point subs current' w'
              in (r, reported @ logs, w'')))"

definition Transform ::
  "('v, 'w) hooks \<Rightarrow> go_ctx \<Rightarrow> hook_ref \<Rightarrow> 'v goany \<Rightarrow> 'w
     \<Rightarrow> (gerr + 'v goany) \<times> gerr list \<times> 'w" where
  "Transform r ctx ref value w =
     (case subscribersOf (hook_key ref) r of
        None \<Rightarrow> (Inl (errNoSuchPoint ref), [], w)
      | Some (point, subs) \<Rightarrow>
          (case requireKind (op_point point) KindTransformer of
             Some e \<Rightarrow> (Inl e, [], w)
           | None \<Rightarrow> transform_loop ctx (op_point point) subs value w))"

text \<open>\<open>errors.As\<close> for the rejection error: the first one found in the error's tree.\<close>

fun RejectionsFrom :: "gerr \<Rightarrow> rejection list option" where
  "RejectionsFrom (ErrNew t) = None"
| "RejectionsFrom (ErrRejected ref rs) = Some rs"
| "RejectionsFrom (ErrWrap t ws) =
     foldr (\<lambda>w acc. case RejectionsFrom w of Some rs \<Rightarrow> Some rs | None \<Rightarrow> acc) ws None"

section \<open>Registration invariant\<close>

definition hooks_inv :: "('v, 'w) hooks \<Rightarrow> bool" where
  "hooks_inv r \<longleftrightarrow>
     wf_map (hk_points r) \<and> wf_map (hk_subs r) \<and>
     (\<forall>k p. mget (hk_points r) k = Some p \<longrightarrow>
        HookPoint_Validate (op_point p) = None \<and> hook_key (hp_ref (op_point p)) = k) \<and>
     (\<forall>k s. s \<in> set (subs_at r k) \<longrightarrow>
        hook_key (sub_ref s) = k \<and> sub_module s \<noteq> [] \<and> sub_handler s \<noteq> None \<and>
        mget (hk_points r) k \<noteq> None)"

lemma hooks_inv_New: "hooks_inv hooks_New"
  by (simp add: hooks_inv_def hooks_New_def subs_at_def)

lemma subs_at_points_update [simp]: "subs_at (r\<lparr>hk_points := ps\<rparr>) k = subs_at r k"
  by (simp add: subs_at_def)

lemma subs_at_subs_update [simp]:
  "subs_at (r\<lparr>hk_subs := mput k l (hk_subs r)\<rparr>) k' = (if k' = k then l else subs_at r k')"
  by (simp add: subs_at_def)

lemma Offer_inv: "hooks_inv r \<Longrightarrow> Offer m p r = (e, r') \<Longrightarrow> hooks_inv r'"
  by (auto simp: Offer_def hooks_inv_def split: option.splits if_splits)

lemma Subscribe_inv: "hooks_inv r \<Longrightarrow> Subscribe s r = (e, r') \<Longrightarrow> hooks_inv r'"
  by (auto simp: Subscribe_def Let_def hooks_inv_def split: option.splits if_splits)

text \<open>Registration only adds: nothing offered or subscribed before is lost, and every other
  hook point keeps exactly its subscribers.\<close>

lemma Offer_grows:
  "Offer m p r = (e, r') \<Longrightarrow>
     hk_subs r' = hk_subs r \<and> (\<forall>k x. mget (hk_points r) k = Some x \<longrightarrow> mget (hk_points r') k = Some x)"
  by (auto simp: Offer_def split: option.splits if_splits)

lemma Subscribe_grows:
  "Subscribe s r = (e, r') \<Longrightarrow>
     hk_points r' = hk_points r \<and>
     subs_at r' k = subs_at r k @ (if e = None \<and> k = hook_key (sub_ref s) then [s] else [])"
  by (auto simp: Subscribe_def Let_def split: option.splits if_splits)

lemma subscribersOf_None_iff: "subscribersOf k r = None \<longleftrightarrow> mget (hk_points r) k = None"
  by (auto simp: subscribersOf_def split: option.splits)

section \<open>The dispatch loop, once for all three kinds\<close>

text \<open>
  Reference run of a list of subscribers with no early return: each is invoked on what
  \<open>feed\<close> takes from the accumulator, and \<open>step\<close> updates the accumulator with its outcome.
  The error of every invocation is recorded.
\<close>

fun run_subs ::
  "('acc \<Rightarrow> 'v goany) \<Rightarrow> (('v, 'w) subscription \<Rightarrow> 'acc \<Rightarrow> 'v goany \<Rightarrow> gerr option \<Rightarrow> 'acc)
     \<Rightarrow> go_ctx \<Rightarrow> hook_point \<Rightarrow> ('v, 'w) subscription list \<Rightarrow> 'acc \<Rightarrow> 'w
     \<Rightarrow> (('v, 'w) subscription \<times> gerr option) list \<times> 'acc \<times> 'w" where
  "run_subs feed step ctx pt [] acc w = ([], acc, w)"
| "run_subs feed step ctx pt (s # ss) acc w =
     (let ((res, err), w') = invoke ctx pt s (feed acc) w;
          (errs, acc', w'') = run_subs feed step ctx pt ss (step s acc res err) w'
      in ((s, err) # errs, acc', w''))"

definition all_ok :: "(('v, 'w) subscription \<times> gerr option) list \<Rightarrow> bool" where
  "all_ok errs = list_all (\<lambda>(s, e). e = None) errs"

definition reports :: "hook_point \<Rightarrow> (('v, 'w) subscription \<times> gerr option) list \<Rightarrow> gerr list" where
  "reports pt errs = concat (map (\<lambda>(s, e). snd (applyPolicy pt s e)) errs)"

lemma run_subs_subs: "map fst (fst (run_subs feed step ctx pt ss acc w)) = ss"
proof (induction ss arbitrary: acc w)
  case (Cons s ss)
  obtain res err w1 where "invoke ctx pt s (feed acc) w = ((res, err), w1)"
    by (metis prod.exhaust)
  with Cons[of "step s acc res err" w1] show ?case by (auto split: prod.splits)
qed simp

lemma applyPolicy_open: "hp_policy pt \<noteq> FailClosed \<Longrightarrow> fst (applyPolicy pt s e) = None"
  by (auto simp: applyPolicy_def Let_def split: option.splits)

lemma applyPolicy_ok [simp]: "applyPolicy pt s None = (None, [])"
  by (simp add: applyPolicy_def)

lemma applyPolicy_closed:
  "hp_policy pt = FailClosed \<Longrightarrow>
     \<exists>e'. applyPolicy pt s (Some e) = (Some e', []) \<and> errors_is e' ErrHookSubscriberFailed"
  by (auto simp: applyPolicy_def Let_def ErrHookSubscriberFailed_def)

lemma applyPolicy_logged:
  "hp_policy pt \<noteq> FailClosed \<Longrightarrow>
     \<exists>e'. applyPolicy pt s (Some e) = (None, [e']) \<and> errors_is e' ErrHookSubscriberFailed"
  by (auto simp: applyPolicy_def Let_def ErrHookSubscriberFailed_def)

lemma reports_logged:
  assumes "hp_policy pt \<noteq> FailClosed"
  shows "length (reports pt errs) = length (filter (\<lambda>(s, e). e \<noteq> None) errs) \<and>
    (\<forall>e\<in>set (reports pt errs). errors_is e ErrHookSubscriberFailed)"
proof (induction errs)
  case (Cons x errs)
  obtain s e where x: "x = (s, e)" by (cases x)
  show ?case
  proof (cases e)
    case (Some e0)
    obtain e' where "applyPolicy pt s (Some e0) = (None, [e'])" "errors_is e' ErrHookSubscriberFailed"
      using applyPolicy_logged[OF assms] by blast
    with Cons x Some show ?thesis by (simp add: reports_def)
  qed (use Cons x in \<open>simp add: reports_def\<close>)
qed (simp add: reports_def)

text \<open>
  What the three dispatch loops of the code have in common: one subscriber after the other,
  the failure policy after each, a result from the accumulator at the end.
\<close>

locale hook_loop =
  fixes loop :: "go_ctx \<Rightarrow> hook_point \<Rightarrow> ('v, 'w) subscription list \<Rightarrow> 'acc \<Rightarrow> 'w \<Rightarrow> 'r \<times> gerr list \<times> 'w"
    and feed :: "'acc \<Rightarrow> 'v goany"
    and step :: "('v, 'w) subscription \<Rightarrow> 'acc \<Rightarrow> 'v goany \<Rightarrow> gerr option \<Rightarrow> 'acc"
    and finish :: "'acc \<Rightarrow> 'r"
    and abort :: "gerr \<Rightarrow> 'r"
  assumes loop_Nil: "loop ctx pt [] acc w = (finish acc, [], w)"
    and loop_stop: "\<lbrakk>invoke ctx pt s (feed acc) w = ((res, err), w');
          applyPolicy pt s err = (Some e, reported)\<rbrakk>
        \<Longrightarrow> loop ctx pt (s # ss) acc w = (abort e, [], w')"
    and loop_next: "\<lbrakk>invoke ctx pt s (feed acc) w = ((res, err), w');
          applyPolicy pt s err = (None, reported);
          loop ctx pt ss (step s acc res err) w' = (r, logs, w'')\<rbrakk>
        \<Longrightarrow> loop ctx pt (s # ss) acc w = (r, reported @ logs, w'')"
begin

lemma completes:
  assumes "run_subs feed step ctx pt ss acc w = (errs, acc', w')"
    and "hp_policy pt \<noteq> FailClosed \<or> all_ok errs"
  shows "loop ctx pt ss acc w = (finish acc', reports pt errs, w')"
  using assms
proof (induction ss arbitrary: acc w errs)
  case Nil
  then show ?case by (simp add: loop_Nil reports_def)
next
  case (Cons s ss)
  obtain res err w1 where i: "invoke ctx pt s (feed acc) w = ((res, err), w1)"
    by (metis prod.exhaust)
  obtain errs' where r: "run_subs feed step ctx pt ss (step s acc res err) w1 = (errs', acc', w')"
    and errs: "errs = (s, err) # errs'"
    using Cons.prems(1) i by (auto split: prod.splits)
  have rest: "hp_policy pt \<noteq> FailClosed \<or> all_ok errs'" and here: "hp_policy pt \<noteq> FailClosed \<or> err = None"
    using Cons.prems(2) errs by (auto simp: all_ok_def)
  have p: "applyPolicy pt s err = (None, snd (applyPolicy pt s err))"
    using here applyPolicy_open[of pt s err] by (auto simp: prod_eq_iff)
  show ?case
    using loop_next[OF i p Cons.IH[OF r rest]] errs by (simp add: reports_def)
qed

lemma stops_at_first_failure:
  assumes "run_subs feed step ctx pt ss acc w = (errs, acc', w')"
    and "hp_policy pt = FailClosed" and "\<not> all_ok errs"
  shows "\<exists>pre s post oks acc1 w1 res e e' w2. ss = pre @ s # post \<and>
           run_subs feed step ctx pt pre acc w = (oks, acc1, w1) \<and> all_ok oks \<and>
           invoke ctx pt s (feed acc1) w1 = ((res, Some e), w2) \<and>
           loop ctx pt ss acc w = (abort e', [], w2) \<and> errors_is e' ErrHookSubscriberFailed"
  using assms
proof (induction ss arbitrary: acc w errs)
  case Nil
  then show ?case by (simp add: all_ok_def)
next
  case (Cons s ss)
  obtain res err w1 where i: "invoke ctx pt s (feed acc) w = ((res, err), w1)"
    by (metis prod.exhaust)
  obtain errs' where r: "run_subs feed step ctx pt ss (step s acc res err) w1 = (errs', acc', w')"
    and errs: "errs = (s, err) # errs'"
    using Cons.prems(1) i by (auto split: prod.splits)
  show ?case
  proof (cases err)
    case (Some e)
    obtain e' where "applyPolicy pt s (Some e) = (Some e', [])" "errors_is e' ErrHookSubscriberFailed"
      using applyPolicy_closed[OF assms(2)] by blast
    then show ?thesis
      using loop_stop[OF i] Some i
      by (intro exI[of _ "[]"] exI[of _ s] exI[of _ ss]) (auto simp: all_ok_def)
  next
    case None
    then have "\<not> all_ok errs'" using Cons.prems(3) errs by (simp add: all_ok_def)
    then obtain pre s1 post oks acc1 w2 res1 e1 e' w3 where IH: "ss = pre @ s1 # post"
      "run_subs feed step ctx pt pre (step s acc res err) w1 = (oks, acc1, w2)" "all_ok oks"
      "invoke ctx pt s1 (feed acc1) w2 = ((res1, Some e1), w3)"
      "loop ctx pt ss (step s acc res err) w1 = (abort e', [], w3)"
      "errors_is e' ErrHookSubscriberFailed"
      using Cons.IH[OF r assms(2)] by blast
    have "loop ctx pt (s # ss) acc w = (abort e', [], w3)"
      using loop_next[OF i _ IH(5)] None by simp
    moreover have "run_subs feed step ctx pt (s # pre) acc w = ((s, err) # oks, acc1, w2)"
      using i IH(2) by simp
    moreover have "all_ok ((s, err) # oks)" using IH(3) None by (simp add: all_ok_def)
    ultimately show ?thesis
      using IH(1,4,6) by (metis append_Cons)
  qed
qed

end

text \<open>The vetoes a list of results amounts to, stamped with the subscribers' module IDs.\<close>

definition veto_step ::
  "('v, 'w) subscription \<Rightarrow> 'v goany \<times> rejection list \<Rightarrow> 'v goany \<Rightarrow> gerr option \<Rightarrow> 'v goany \<times> rejection list" where
  "veto_step s acc res err =
     (fst acc, case asRejection res of
                 Some rej \<Rightarrow> snd acc @ [Rejection (sub_module s) (rej_reason rej)]
               | None \<Rightarrow> snd acc)"

definition transform_step ::
  "('v, 'w) subscription \<Rightarrow> 'v goany \<Rightarrow> 'v goany \<Rightarrow> gerr option \<Rightarrow> 'v goany" where
  "transform_step s current res err = (if err = None \<and> res \<noteq> ANil then res else current)"

definition rejected :: "hook_ref \<Rightarrow> 'v goany \<times> rejection list \<Rightarrow> gerr option" where
  "rejected ref acc = (if snd acc = [] then None else Some (ErrRejected ref (snd acc)))"

interpretation notify: hook_loop
  "\<lambda>ctx pt ss value w. notify_loop ctx pt value ss w" "\<lambda>value. value" "\<lambda>s value res err. value"
  "\<lambda>value. None" Some
  by unfold_locales (auto simp: Let_def split: prod.splits)

interpretation validate: hook_loop
  "\<lambda>ctx pt ss acc w. validate_loop ctx pt ref (fst acc) ss (snd acc) w" fst veto_step
  "rejected ref" Some
  by unfold_locales (auto simp: Let_def rejected_def veto_step_def split: prod.splits option.splits)

interpretation transform: hook_loop transform_loop "\<lambda>v. v" transform_step Inr Inl
  by unfold_locales (auto simp: Let_def transform_step_def split: prod.splits)


lemma Validate_offered:
  "\<lbrakk>subscribersOf (hook_key ref) r = Some (pt, subs); hp_kind (op_point pt) = KindValidator\<rbrakk>
     \<Longrightarrow> Validate r ctx ref value w = validate_loop ctx (op_point pt) ref (fst (value, [])) subs (snd (value, [])) w"
  by (simp add: Validate_def requireKind_def)

lemma Transform_offered:
  "\<lbrakk>subscribersOf (hook_key ref) r = Some (pt, subs); hp_kind (op_point pt) = KindTransformer\<rbrakk>
     \<Longrightarrow> Transform r ctx ref value w = transform_loop ctx (op_point pt) subs value w"
  by (simp add: Transform_def requireKind_def)

lemma Notify_offered:
  "\<lbrakk>subscribersOf (hook_key ref) r = Some (pt, subs); hp_kind (op_point pt) = KindObserver\<rbrakk>
     \<Longrightarrow> Notify r ctx ref value w = notify_loop ctx (op_point pt) value subs w"
  by (simp add: Notify_def requireKind_def)

lemma subscribersOf_SomeD:
  "subscribersOf k r = Some (pt, subs) \<Longrightarrow>
     mget (hk_points r) k = Some pt \<and> mset subs = mset (subs_at r k) \<and> sorted (map dispatch_key subs)"
  by (auto simp: subscribersOf_def split: option.splits)

section \<open>Properties\<close>

text \<open>
  Dispatch order is a property of the subscriptions, not of when they were registered.
  The subscribers of a hook point run in ascending (priority, module ID) order, each
  subscription exactly once; and two registries that hold the same subscriptions for the
  point in any order dispatch them in the same order, provided no two share both priority
  and module.
\<close>

theorem dispatch_order_independent:
  assumes "subscribersOf k r = Some (pt, subs)" and "subscribersOf k r' = Some (pt', subs')"
    and "mset (subs_at r' k) = mset (subs_at r k)"
  shows "sorted (map dispatch_key subs) \<and> mset subs = mset (subs_at r k) \<and>
    (inj_on dispatch_key (set (subs_at r k)) \<longrightarrow> subs' = subs)"
proof -
  have "subs = sort_key dispatch_key (subs_at r k)" "subs' = sort_key dispatch_key (subs_at r' k)"
    using assms(1,2) by (auto simp: subscribersOf_def split: option.splits)
  then show ?thesis
    using sort_key_unique[OF assms(3)[symmetric], of dispatch_key] subscribersOf_SomeD[OF assms(1)]
    by auto
qed

definition sample_sub :: "string \<Rightarrow> int \<Rightarrow> (unit, nat) subscription" where
  "sample_sub m p = \<lparr>sub_ref = HookRef ''order'' ''v1'', sub_module = m, sub_priority = p,
     sub_handler = Some (\<lambda>ctx v w. (HReturn (ARej (Rejection ''forged'' m)) None, Suc w))\<rparr>"

definition sample_pt :: offeredPoint where
  "sample_pt = \<lparr>op_point = \<lparr>hp_ref = HookRef ''order'' ''v1'', hp_kind = KindValidator,
     hp_policy = FailClosed, hp_timeout = 5, hp_description = []\<rparr>, op_owner = ''m''\<rparr>"

definition sample_hooks :: "(unit, nat) subscription list \<Rightarrow> (unit, nat) hooks" where
  "sample_hooks ss = \<lparr>hk_points = [(''order@v1'', sample_pt)], hk_subs = [(''order@v1'', ss)]\<rparr>"

lemma sample_subscribers:
  "subscribersOf (hook_key (HookRef ''order'' ''v1'')) (sample_hooks ss) =
     Some (sample_pt, sort_key dispatch_key ss)"
  by (simp add: subscribersOf_def sample_hooks_def hook_key_def subs_at_def)

lemma sample_dispatch_key: "dispatch_key (sample_sub m p) = (p, m)"
  by (simp add: dispatch_key_def sample_sub_def)

lemma sample_order:
  "sort_key dispatch_key [sample_sub ''b'' 2, sample_sub ''a'' 1] = [sample_sub ''a'' 1, sample_sub ''b'' 2]"
  by (simp add: sample_dispatch_key)

theorem dispatch_order_independent_witness:
  "sorted (map dispatch_key (sort_key dispatch_key [sample_sub ''b'' 2, sample_sub ''a'' 1]))"
  using dispatch_order_independent
    [OF sample_subscribers[of "[sample_sub ''b'' 2, sample_sub ''a'' 1]"]
        sample_subscribers[of "[sample_sub ''a'' 1, sample_sub ''b'' 2]"]]
  by (simp add: subs_at_def sample_hooks_def hook_key_def)

text \<open>
  C23: what a validator dispatch answers, on a point of either failure policy. Let every
  subscriber be run once in dispatch order, with the errors of those that failed and the
  vetoes in that order. Unless the point is fail_closed and some subscriber failed, this is
  what happens, and the result is a refusal carrying exactly the vetoes, each stamped with
  the subscriber's own module ID; it is nil exactly when nobody vetoed. On a fail_closed
  point where a subscriber fails, the dispatch returns at the first one that failed: the
  ones before it had not failed, the ones after it are not asked, the vetoes collected so
  far are dropped, and the error is a subscriber failure.
\<close>

theorem Validate_reports_every_veto:
  assumes "subscribersOf (hook_key ref) r = Some (pt, subs)"
    and "hp_kind (op_point pt) = KindValidator"
    and "run_subs fst veto_step ctx (op_point pt) subs (value, []) w = (errs, (v, vetoes), w')"
  shows "if hp_policy (op_point pt) \<noteq> FailClosed \<or> all_ok errs
     then Validate r ctx ref value w =
            (if vetoes = [] then None else Some (ErrRejected ref vetoes),
             reports (op_point pt) errs, w') \<and> map fst errs = subs
     else \<exists>pre s post oks acc1 w1 res e e' w2. subs = pre @ s # post \<and>
            run_subs fst veto_step ctx (op_point pt) pre (value, []) w = (oks, acc1, w1) \<and> all_ok oks \<and>
            invoke ctx (op_point pt) s (fst acc1) w1 = ((res, Some e), w2) \<and>
            Validate r ctx ref value w = (Some e', [], w2) \<and> errors_is e' ErrHookSubscriberFailed"
proof (cases "hp_policy (op_point pt) \<noteq> FailClosed \<or> all_ok errs")
  case True
  from validate.completes[OF assms(3) True, of ref] show ?thesis
    using Validate_offered[OF assms(1,2), of ctx "value" w] True
      run_subs_subs[of fst veto_step ctx "op_point pt" subs "(value, [])" w] assms(3)
    by (simp add: rejected_def)
next
  case False
  then have "hp_policy (op_point pt) = FailClosed" "\<not> all_ok errs" by simp_all
  from validate.stops_at_first_failure[OF assms(3) this, of ref] show ?thesis
    using Validate_offered[OF assms(1,2), of ctx "value" w] False by simp
qed

definition broken_sub :: "(unit, nat) subscription" where
  "broken_sub = (sample_sub ''a'' 1)\<lparr>sub_handler := Some (\<lambda>ctx v w. (HPanic ''boom'', Suc w))\<rparr>"

theorem Validate_reports_every_veto_witness:
  "Validate (sample_hooks [sample_sub ''b'' 2, sample_sub ''a'' 1]) Background (HookRef ''order'' ''v1'') ANil 0 =
     (Some (ErrRejected (HookRef ''order'' ''v1'') [Rejection ''a'' ''a'', Rejection ''b'' ''b'']), [], 2) \<and>
   (\<exists>e w2. Validate (sample_hooks [broken_sub]) Background (HookRef ''order'' ''v1'') ANil 0 =
     (Some e, [], w2) \<and> errors_is e ErrHookSubscriberFailed)"
proof -
  have run: "run_subs fst veto_step Background (op_point sample_pt)
      (sort_key dispatch_key [sample_sub ''b'' 2, sample_sub ''a'' 1]) (ANil, []) 0 =
      ([(sample_sub ''a'' 1, None), (sample_sub ''b'' 2, None)],
       (ANil, [Rejection ''a'' ''a'', Rejection ''b'' ''b'']), 2)"
    unfolding sample_order by (simp add: invoke_def sample_sub_def veto_step_def asRejection_def)
  obtain e where broken: "run_subs fst veto_step Background (op_point sample_pt)
      (sort_key dispatch_key [broken_sub]) (ANil, []) 0 = ([(broken_sub, Some e)], (ANil, []), 1)"
    by (simp add: invoke_def broken_sub_def sample_sub_def veto_step_def asRejection_def)
  have kind: "hp_kind (op_point sample_pt) = KindValidator" "hp_policy (op_point sample_pt) = FailClosed"
    by (simp_all add: sample_pt_def)
  have "\<exists>e w2. Validate (sample_hooks [broken_sub]) Background (HookRef ''order'' ''v1'') ANil 0 =
     (Some e, [], w2) \<and> errors_is e ErrHookSubscriberFailed"
    using Validate_reports_every_veto[OF sample_subscribers kind(1) broken] kind(2)
    by (simp add: all_ok_def) blast
  with Validate_reports_every_veto[OF sample_subscribers kind(1) run] show ?thesis
    by (simp add: all_ok_def reports_def)
qed

text \<open>
  A transformer dispatch where no failure stops it threads the value through the
  subscribers in dispatch order: each one's non-nil result becomes the next one's input, and
  a subscriber that failed on a fail_open point, or returned nil, leaves the value as it was.
\<close>

theorem Transform_threads_value:
  assumes "subscribersOf (hook_key ref) r = Some (pt, subs)"
    and "hp_kind (op_point pt) = KindTransformer"
    and "run_subs (\<lambda>v. v) transform_step ctx (op_point pt) subs value w = (errs, out, w')"
    and "hp_policy (op_point pt) \<noteq> FailClosed \<or> all_ok errs"
  shows "Transform r ctx ref value w = (Inr out, reports (op_point pt) errs, w') \<and> map fst errs = subs"
  using Transform_offered[OF assms(1,2), of ctx "value" w] transform.completes[OF assms(3,4)]
    run_subs_subs[of "\<lambda>v. v" transform_step ctx "op_point pt" subs "value" w] assms(3)
  by simp

definition tr_point :: hook_point where
  "tr_point = \<lparr>hp_ref = HookRef ''p'' ''v1'', hp_kind = KindTransformer, hp_policy = FailOpen,
               hp_timeout = 5, hp_description = []\<rparr>"

definition tr_subs :: "(nat, nat) subscription list" where
  "tr_subs = [\<lparr>sub_ref = HookRef ''p'' ''v1'', sub_module = ''a'', sub_priority = 1,
      sub_handler = Some (\<lambda>ctx v w. (HReturn (AVal ''Price'' 7) None, Suc w))\<rparr>,
    \<lparr>sub_ref = HookRef ''p'' ''v1'', sub_module = ''b'', sub_priority = 2,
      sub_handler = Some (\<lambda>ctx v w. (HReturn ANil None, Suc w))\<rparr>]"

definition tr_hooks :: "(nat, nat) hooks" where
  "tr_hooks = \<lparr>hk_points = [(''p@v1'', \<lparr>op_point = tr_point, op_owner = ''m''\<rparr>)],
               hk_subs = [(''p@v1'', tr_subs)]\<rparr>"

theorem Transform_threads_value_witness:
  "Transform tr_hooks Background (HookRef ''p'' ''v1'') (AVal ''Price'' 3) 0 =
     (Inr (AVal ''Price'' 7), [], 2)"
proof -
  let ?pt = "\<lparr>op_point = tr_point, op_owner = ''m''\<rparr>"
  have subs: "subscribersOf (hook_key (HookRef ''p'' ''v1'')) tr_hooks = Some (?pt, tr_subs)"
    by (simp add: subscribersOf_def hook_key_def tr_hooks_def subs_at_def tr_subs_def dispatch_key_def)
  have run: "run_subs (\<lambda>v. v) transform_step Background (op_point ?pt) tr_subs (AVal ''Price'' 3) 0 =
      ([(tr_subs ! 0, None), (tr_subs ! 1, None)], AVal ''Price'' 7, 2)"
    by (simp add: invoke_def tr_subs_def transform_step_def)
  have "hp_kind (op_point ?pt) = KindTransformer" by (simp add: tr_point_def)
  from Transform_threads_value[OF subs this run] show ?thesis
    by (simp add: reports_def all_ok_def)
qed

text \<open>
  An observer on a fail_open point cannot affect the flow it watches: whatever its
  subscribers do, the notification reports no error, every subscriber is run once, and each
  failure is logged as a subscriber failure.
\<close>

theorem Notify_cannot_block:
  assumes "subscribersOf (hook_key ref) r = Some (pt, subs)"
    and "hp_kind (op_point pt) = KindObserver" and "hp_policy (op_point pt) = FailOpen"
    and "run_subs (\<lambda>v. v) (\<lambda>s v res err. v) ctx (op_point pt) subs v0 w = (errs, out, w')"
  shows "Notify r ctx ref v0 w = (None, reports (op_point pt) errs, w') \<and> map fst errs = subs \<and>
     length (reports (op_point pt) errs) = length (filter (\<lambda>(s, e). e \<noteq> None) errs) \<and>
     (\<forall>e\<in>set (reports (op_point pt) errs). errors_is e ErrHookSubscriberFailed)"
proof -
  have p: "hp_policy (op_point pt) \<noteq> FailClosed"
    using assms(3) by (simp add: FailOpen_def FailClosed_def)
  show ?thesis
    using Notify_offered[OF assms(1,2), of ctx v0 w] notify.completes[OF assms(4)] p
      reports_logged[OF p, of errs]
      run_subs_subs[of "\<lambda>v. v" "\<lambda>s v res err. v" ctx "op_point pt" subs v0 w] assms(4)
    by simp
qed

definition ob_pt :: offeredPoint where
  "ob_pt = \<lparr>op_point = \<lparr>hp_ref = HookRef ''order'' ''v1'', hp_kind = KindObserver,
     hp_policy = FailOpen, hp_timeout = 5, hp_description = []\<rparr>, op_owner = ''m''\<rparr>"

definition ob_hooks :: "(unit, nat) hooks" where
  "ob_hooks = \<lparr>hk_points = [(''order@v1'', ob_pt)], hk_subs = [(''order@v1'', [broken_sub])]\<rparr>"

theorem Notify_cannot_block_witness:
  "\<exists>log. Notify ob_hooks Background (HookRef ''order'' ''v1'') ANil 0 = (None, [log], 1)"
proof -
  have subs: "subscribersOf (hook_key (HookRef ''order'' ''v1'')) ob_hooks = Some (ob_pt, [broken_sub])"
    by (simp add: subscribersOf_def hook_key_def ob_hooks_def subs_at_def)
  have k: "hp_kind (op_point ob_pt) = KindObserver" "hp_policy (op_point ob_pt) = FailOpen"
    by (simp_all add: ob_pt_def)
  obtain e where run: "run_subs (\<lambda>v. v) (\<lambda>s v res err. v) Background (op_point ob_pt) [broken_sub] ANil 0
      = ([(broken_sub, Some e)], ANil, 1)"
    by (simp add: invoke_def broken_sub_def sample_sub_def)
  show ?thesis
    using Notify_cannot_block[OF subs k run] by (auto simp: length_Suc_conv)
qed

end
