(* ===== verification/Registry.thy ===== *)
theory Registry
  imports Hooks
begin

text \<open>
  The kernel registry and bus: the module contract of \<^verbatim>\<open>pkg/modulekit/module.go\<close>, the registry of
  \<^verbatim>\<open>internal/kernel/registry/registry.go\<close> and the in-process call of \<^verbatim>\<open>internal/kernel/bus/bus.go\<close>.

  A module's \<open>Install\<close> is third-party Go code that reaches the registry only through the
  registrar it is handed. It is modelled by its interaction tree: which registrar method it
  calls next, as a function of the errors it has seen, until it returns. \<open>Start\<close>, \<open>Stop\<close>
  and capability handlers are functions over a world \<open>'w\<close>.
\<close>

section \<open>Modules (pkg/modulekit/module.go)\<close>

datatype capability_ref = CapabilityRef (cap_name: string) (cap_version: string)

definition cap_key :: "capability_ref \<Rightarrow> string" where
  "cap_key ref = cap_name ref @ ''@'' @ cap_version ref"

type_synonym storage_mode = string

definition StorageKernel :: storage_mode where "StorageKernel = ''kernel''"
definition StorageOwn :: storage_mode where "StorageOwn = ''own''"
definition StorageNone :: storage_mode where "StorageNone = ''none''"

definition StorageMode_Valid :: "storage_mode \<Rightarrow> bool" where
  "StorageMode_Valid m = (m = StorageKernel \<or> m = StorageOwn \<or> m = StorageNone)"

record descriptor =
  d_id :: string
  d_kind :: string
  d_provides :: "capability_ref list"
  d_consumes :: "capability_ref list"
  d_offers :: "hook_point list"
  d_storage :: storage_mode
  d_exposed :: "capability_ref list"

type_synonym ('v, 'w) cap_handler = "go_ctx \<Rightarrow> 'v goany \<Rightarrow> 'w \<Rightarrow> ('v goany \<times> gerr option) \<times> 'w"

datatype (dead 'v, dead 'w) install =
    InstallDone "gerr option"
  | DoRegister capability_ref "('v, 'w) cap_handler" "gerr option \<Rightarrow> ('v, 'w) install"
  | DoOffer hook_point "gerr option \<Rightarrow> ('v, 'w) install"
  | DoSubscribe "('v, 'w) subscription" "gerr option \<Rightarrow> ('v, 'w) install"
  | DoListOffered "hook_point list \<Rightarrow> ('v, 'w) install"

record ('v, 'w) gomodule =
  m_desc :: descriptor
  m_install :: "('v, 'w) install"
  m_start :: "go_ctx \<Rightarrow> 'w \<Rightarrow> gerr option \<times> 'w"
  m_stop :: "go_ctx \<Rightarrow> 'w \<Rightarrow> gerr option \<times> 'w"

section \<open>The registry\<close>

definition ErrDuplicateModule :: gerr where
  "ErrDuplicateModule = ErrNew ''registry: module already registered''"
definition ErrDuplicateCapability :: gerr where
  "ErrDuplicateCapability = ErrNew ''registry: capability already registered''"
definition ErrInvalidDescriptor :: gerr where
  "ErrInvalidDescriptor = ErrNew ''registry: invalid module descriptor''"

record ('v, 'w) registry =
  reg_modules :: "('v, 'w) gomodule gomap"
  reg_handlers :: "('v, 'w) cap_handler gomap"
  reg_order :: "string list"
  reg_hooks :: "('v, 'w) hooks"
  reg_installing :: string
  reg_exposed :: "capability_ref gomap"

definition registry_New :: "('v, 'w) registry" where
  "registry_New = \<lparr>reg_modules = [], reg_handlers = [], reg_order = [], reg_hooks = hooks_New,
                   reg_installing = [], reg_exposed = []\<rparr>"

definition RegisterCapability ::
  "capability_ref \<Rightarrow> ('v, 'w) cap_handler \<Rightarrow> ('v, 'w) registry \<Rightarrow> gerr option \<times> ('v, 'w) registry" where
  "RegisterCapability ref handler r =
     (case mget (reg_handlers r) (cap_key ref) of
        Some _ \<Rightarrow> (Some ErrDuplicateCapability, r)
      | None \<Rightarrow> (None, r\<lparr>reg_handlers := mput (cap_key ref) handler (reg_handlers r)\<rparr>))"

definition ResolveCapability :: "capability_ref \<Rightarrow> ('v, 'w) registry \<Rightarrow> ('v, 'w) cap_handler option" where
  "ResolveCapability ref r = mget (reg_handlers r) (cap_key ref)"

definition OfferHook :: "hook_point \<Rightarrow> ('v, 'w) registry \<Rightarrow> gerr option \<times> ('v, 'w) registry" where
  "OfferHook point r =
     (if reg_installing r = []
      then (Some (wrapf ErrInvalidHookPoint [''OfferHook called outside module installation'']), r)
      else (let (e, h) = Offer (reg_installing r) point (reg_hooks r) in (e, r\<lparr>reg_hooks := h\<rparr>)))"

definition Registry_Subscribe ::
  "('v, 'w) subscription \<Rightarrow> ('v, 'w) registry \<Rightarrow> gerr option \<times> ('v, 'w) registry" where
  "Registry_Subscribe sub r =
     (if reg_installing r = []
      then (Some (wrapf ErrInvalidHookPoint [''Subscribe called outside module installation'']), r)
      else (let (e, h) = Subscribe (sub\<lparr>sub_module := reg_installing r\<rparr>) (reg_hooks r)
            in (e, r\<lparr>reg_hooks := h\<rparr>)))"

definition Registry_OfferedPoints :: "('v, 'w) registry \<Rightarrow> hook_point list" where
  "Registry_OfferedPoints r = OfferedPoints (reg_hooks r)"

primrec run_install :: "('v, 'w) install \<Rightarrow> ('v, 'w) registry \<Rightarrow> gerr option \<times> ('v, 'w) registry" where
  "run_install (InstallDone e) = (\<lambda>r. (e, r))"
| "run_install (DoRegister ref h k) =
     (\<lambda>r. let (e, r') = RegisterCapability ref h r in run_install (k e) r')"
| "run_install (DoOffer p k) = (\<lambda>r. let (e, r') = OfferHook p r in run_install (k e) r')"
| "run_install (DoSubscribe s k) =
     (\<lambda>r. let (e, r') = Registry_Subscribe s r in run_install (k e) r')"
| "run_install (DoListOffered k) = (\<lambda>r. run_install (k (Registry_OfferedPoints r)) r)"

text \<open>The loop over \<open>descriptor.Offers\<close>, stopping at the first refused point.\<close>

fun offer_all :: "string \<Rightarrow> hook_point list \<Rightarrow> ('v, 'w) registry \<Rightarrow> gerr option \<times> ('v, 'w) registry" where
  "offer_all owner [] r = (None, r)"
| "offer_all owner (p # ps) r =
     (case Offer owner p (reg_hooks r) of
        (Some e, h) \<Rightarrow> (Some e, r\<lparr>reg_hooks := h\<rparr>)
      | (None, h) \<Rightarrow> offer_all owner ps (r\<lparr>reg_hooks := h\<rparr>))"

definition unprovided :: "descriptor \<Rightarrow> capability_ref list" where
  "unprovided d = filter (\<lambda>ref. cap_key ref \<notin> set (map cap_key (d_provides d))) (d_exposed d)"

text \<open>The three stages of a registration that passed the checks: the record made before
  \<open>Install\<close>, the offers and \<open>Install\<close> itself, and the cleanup after a failed one.\<close>

definition enter_module :: "('v, 'w) gomodule \<Rightarrow> ('v, 'w) registry \<Rightarrow> ('v, 'w) registry" where
  "enter_module item r =
     (let d = m_desc item in
      r\<lparr>reg_modules := mput (d_id d) item (reg_modules r),
        reg_installing := d_id d,
        reg_exposed := foldl (\<lambda>m ref. mput (cap_key ref) ref m) (reg_exposed r) (d_exposed d)\<rparr>)"

definition install_phase :: "('v, 'w) gomodule \<Rightarrow> ('v, 'w) registry \<Rightarrow> gerr option \<times> ('v, 'w) registry" where
  "install_phase item r =
     (case offer_all (d_id (m_desc item)) (d_offers (m_desc item)) r of
        (Some e, r') \<Rightarrow> (Some e, r')
      | (None, r') \<Rightarrow> run_install (m_install item) r')"

definition rollback_module :: "descriptor \<Rightarrow> ('v, 'w) registry \<Rightarrow> ('v, 'w) registry" where
  "rollback_module d r =
     r\<lparr>reg_modules := mdel (d_id d) (reg_modules r),
       reg_handlers := foldl (\<lambda>m ref. mdel (cap_key ref) m) (reg_handlers r) (d_provides d),
       reg_exposed := foldl (\<lambda>m ref. mdel (cap_key ref) m) (reg_exposed r) (d_exposed d)\<rparr>"

definition RegisterModule :: "('v, 'w) gomodule \<Rightarrow> ('v, 'w) registry \<Rightarrow> gerr option \<times> ('v, 'w) registry" where
  "RegisterModule item r =
     (let d = m_desc item in
      if \<not> StorageMode_Valid (d_storage d)
      then (Some (wrapf ErrInvalidDescriptor
                   [''module '', d_id d, '' must declare Storage as '', go_quote StorageKernel, '', '',
                    go_quote StorageOwn, '', or '', go_quote StorageNone]), r)
      else (case unprovided d of
        ref # _ \<Rightarrow>
          (Some (wrapf ErrInvalidDescriptor
                  [''module '', d_id d, '' exposes '', cap_key ref, '' but does not provide it'']), r)
      | [] \<Rightarrow>
          (case mget (reg_modules r) (d_id d) of
             Some _ \<Rightarrow> (Some ErrDuplicateModule, r)
           | None \<Rightarrow>
               (let (installErr, r2) = install_phase item (enter_module item r);
                    r3 = r2\<lparr>reg_installing := []\<rparr>
                in case installErr of
                     Some e \<Rightarrow> (Some e, rollback_module d r3)
                   | None \<Rightarrow> (None, r3\<lparr>reg_order := reg_order r3 @ [d_id d]\<rparr>)))))"

definition IsExposed :: "capability_ref \<Rightarrow> ('v, 'w) registry \<Rightarrow> bool" where
  "IsExposed ref r = (mget (reg_exposed r) (cap_key ref) \<noteq> None)"

definition ListExposed :: "('v, 'w) registry \<Rightarrow> capability_ref list" where
  "ListExposed r = sort_key cap_key (map snd (reg_exposed r))"

definition SelfManagedStorage :: "('v, 'w) registry \<Rightarrow> string list" where
  "SelfManagedStorage r =
     sort (map fst (filter (\<lambda>(mid, m). d_storage (m_desc m) = StorageOwn) (reg_modules r)))"

definition ListCapabilities :: "('v, 'w) registry \<Rightarrow> capability_ref list" where
  "ListCapabilities r =
     sort_key cap_key (concat (map (\<lambda>(mid, m). d_provides (m_desc m)) (reg_modules r)))"

section \<open>Lifecycle\<close>

text \<open>The errors of \<open>validateConsumes\<close>, in registration order.\<close>

definition consume_errors :: "('v, 'w) registry \<Rightarrow> gerr list" where
  "consume_errors r =
     concat (map (\<lambda>mid. case mget (reg_modules r) mid of
         None \<Rightarrow> []
       | Some m \<Rightarrow>
           map (\<lambda>ref. ErrNew (''registry: module '' @ mid @ '' consumes '' @ cap_key ref
                                @ '' which is not registered''))
             (filter (\<lambda>ref. mget (reg_handlers r) (cap_key ref) = None) (d_consumes (m_desc m))))
       (reg_order r))"

definition validateConsumes :: "('v, 'w) registry \<Rightarrow> gerr option" where
  "validateConsumes r = errors_join (consume_errors r)"

text \<open>
  The descending index loop of \<open>stopModules\<close> is a pass over the reversed list. A module ID
  that is not in the map would be a nil interface call; \<open>registry_inv\<close> excludes it.
\<close>

fun stop_loop ::
  "go_ctx \<Rightarrow> ('v, 'w) registry \<Rightarrow> string list \<Rightarrow> gerr list \<Rightarrow> 'w \<Rightarrow> gerr list \<times> 'w" where
  "stop_loop ctx r [] errs w = (errs, w)"
| "stop_loop ctx r (mid # ids) errs w =
     (case mget (reg_modules r) mid of
        None \<Rightarrow> (errs @ [ErrNew ''panic: nil module''], w)
      | Some m \<Rightarrow>
          (case m_stop m ctx w of
             (Some e, w') \<Rightarrow>
               stop_loop ctx r ids (errs @ [prefixf [''registry: module '', mid, '' failed to stop''] e]) w'
           | (None, w') \<Rightarrow> stop_loop ctx r ids errs w'))"

definition stopModules :: "go_ctx \<Rightarrow> ('v, 'w) registry \<Rightarrow> string list \<Rightarrow> 'w \<Rightarrow> gerr option \<times> 'w" where
  "stopModules ctx r ids w =
     (let (errs, w') = stop_loop ctx r (rev ids) [] w in (errors_join errs, w'))"

fun start_loop ::
  "go_ctx \<Rightarrow> ('v, 'w) registry \<Rightarrow> string list \<Rightarrow> string list \<Rightarrow> 'w \<Rightarrow> gerr option \<times> 'w" where
  "start_loop ctx r [] started w = (None, w)"
| "start_loop ctx r (mid # ids) started w =
     (case mget (reg_modules r) mid of
        None \<Rightarrow> (Some (ErrNew ''panic: nil module''), w)
      | Some m \<Rightarrow>
          (case m_start m ctx w of
             (Some e, w') \<Rightarrow>
               (let (_, w'') = stopModules ctx r started w'
                in (Some (prefixf [''registry: module '', mid, '' failed to start''] e), w''))
           | (None, w') \<Rightarrow> start_loop ctx r ids (started @ [mid]) w'))"

definition StartAll :: "go_ctx \<Rightarrow> ('v, 'w) registry \<Rightarrow> 'w \<Rightarrow> gerr option \<times> 'w" where
  "StartAll ctx r w =
     (case validateConsumes r of
        Some e \<Rightarrow> (Some e, w)
      | None \<Rightarrow> start_loop ctx r (reg_order r) [] w)"

definition StopAll :: "go_ctx \<Rightarrow> ('v, 'w) registry \<Rightarrow> 'w \<Rightarrow> gerr option \<times> 'w" where
  "StopAll ctx r w = stopModules ctx r (reg_order r) w"

section \<open>The bus (internal/kernel/bus/bus.go)\<close>

definition Bus_Call ::
  "('v, 'w) registry \<Rightarrow> go_ctx \<Rightarrow> capability_ref \<Rightarrow> 'v goany \<Rightarrow> 'w
     \<Rightarrow> ('v goany \<times> gerr option) \<times> 'w" where
  "Bus_Call r ctx ref request w =
     (case ResolveCapability ref r of
        None \<Rightarrow> ((ANil, Some (ErrNew (''bus: capability '' @ cap_key ref @ '' not registered''))), w)
      | Some handler \<Rightarrow> handler ctx request w)"

section \<open>What an installation can change\<close>

text \<open>
  A contract between the registry and the modules it installs: a predicate that every
  registrar method preserves is preserved by any module's \<open>Install\<close>, whatever it does.
\<close>

locale registrar_contract =
  fixes P :: "('v, 'w) registry \<Rightarrow> bool"
  assumes RegisterCapability_keeps: "P r \<Longrightarrow> P (snd (RegisterCapability ref h r))"
    and OfferHook_keeps: "P r \<Longrightarrow> P (snd (OfferHook p r))"
    and Subscribe_keeps: "P r \<Longrightarrow> P (snd (Registry_Subscribe s r))"
begin

lemma run_install_keeps: "P r \<Longrightarrow> P (snd (run_install t r))"
proof (induction t arbitrary: r)
  case (DoRegister ref h k)
  then show ?case
    using RegisterCapability_keeps[OF DoRegister.prems, of ref h] by (auto split: prod.splits)
next
  case (DoOffer p k)
  then show ?case
    using OfferHook_keeps[OF DoOffer.prems, of p] by (auto split: prod.splits)
next
  case (DoSubscribe s k)
  then show ?case
    using Subscribe_keeps[OF DoSubscribe.prems, of s] by (auto split: prod.splits)
qed simp_all

end

text \<open>The parts of the registry no registrar method touches.\<close>

definition same_frame :: "('v, 'w) registry \<Rightarrow> ('v, 'w) registry \<Rightarrow> bool" where
  "same_frame r0 r \<longleftrightarrow> reg_modules r = reg_modules r0 \<and> reg_order r = reg_order r0 \<and>
     reg_installing r = reg_installing r0 \<and> reg_exposed r = reg_exposed r0"

text \<open>
  Attribution: the hook state has only grown, and everything that was added is owned by or
  subscribed for the module being installed.
\<close>

definition attributed :: "string \<Rightarrow> ('v, 'w) hooks \<Rightarrow> ('v, 'w) hooks \<Rightarrow> bool" where
  "attributed who h0 h \<longleftrightarrow>
     (\<forall>k p. mget (hk_points h0) k = Some p \<longrightarrow> mget (hk_points h) k = Some p) \<and>
     (\<forall>k p. mget (hk_points h) k = Some p \<longrightarrow> mget (hk_points h0) k = None \<longrightarrow> op_owner p = who) \<and>
     (\<forall>k. \<exists>new. subs_at h k = subs_at h0 k @ new \<and> (\<forall>s\<in>set new. sub_module s = who))"

lemma attributed_refl: "attributed who h h"
  by (auto simp: attributed_def)

lemma attributed_Offer: "attributed who h0 h \<Longrightarrow> attributed who h0 (snd (Offer who p h))"
  by (auto simp: attributed_def Offer_def split: option.splits)

lemma attributed_Subscribe:
  assumes "attributed who h0 h"
  shows "attributed who h0 (snd (Subscribe (s\<lparr>sub_module := who\<rparr>) h))"
proof -
  obtain e h' where r: "Subscribe (s\<lparr>sub_module := who\<rparr>) h = (e, h')" by fastforce
  note g = Subscribe_grows[OF r]
  have "\<exists>new. subs_at h' k = subs_at h0 k @ new \<and> (\<forall>s\<in>set new. sub_module s = who)" for k
  proof -
    obtain new where "subs_at h k = subs_at h0 k @ new" "\<forall>s\<in>set new. sub_module s = who"
      using assms unfolding attributed_def by meson
    then show ?thesis
      using g[of k]
      by (intro exI[of _ "new @ (if e = None \<and> k = hook_key (sub_ref (s\<lparr>sub_module := who\<rparr>))
            then [s\<lparr>sub_module := who\<rparr>] else [])"]) auto
  qed
  then show ?thesis
    using assms g r by (auto simp: attributed_def)
qed

text \<open>Only capabilities that were free may have been added to the handlers.\<close>

definition handlers_grown :: "('v, 'w) registry \<Rightarrow> ('v, 'w) registry \<Rightarrow> bool" where
  "handlers_grown r0 r \<longleftrightarrow> wf_map (reg_handlers r) \<and>
     (\<forall>k h. mget (reg_handlers r0) k = Some h \<longrightarrow> mget (reg_handlers r) k = Some h)"

interpretation frame: registrar_contract "same_frame r0"
  by unfold_locales
    (auto simp: same_frame_def RegisterCapability_def OfferHook_def Registry_Subscribe_def Let_def
      split: option.splits prod.splits)

interpretation attribution: registrar_contract
  "\<lambda>r. reg_installing r = who \<and> attributed who h0 (reg_hooks r)"
proof unfold_locales
  fix r :: "('a, 'b) registry" and ref h p s
  assume P: "reg_installing r = who \<and> attributed who h0 (reg_hooks r)"
  show "reg_installing (snd (RegisterCapability ref h r)) = who \<and>
      attributed who h0 (reg_hooks (snd (RegisterCapability ref h r)))"
    using P by (auto simp: RegisterCapability_def split: option.splits)
  show "reg_installing (snd (OfferHook p r)) = who \<and> attributed who h0 (reg_hooks (snd (OfferHook p r)))"
    using P attributed_Offer[of who h0 "reg_hooks r" p]
    by (auto simp: OfferHook_def Let_def split: prod.splits)
  show "reg_installing (snd (Registry_Subscribe s r)) = who \<and>
      attributed who h0 (reg_hooks (snd (Registry_Subscribe s r)))"
    using P attributed_Subscribe[of who h0 "reg_hooks r" s]
    by (auto simp: Registry_Subscribe_def Let_def split: prod.splits)
qed

interpretation growth: registrar_contract "handlers_grown r0"
  by unfold_locales
    (auto simp: handlers_grown_def RegisterCapability_def OfferHook_def Registry_Subscribe_def Let_def
      simp del: map_of_eq_Some_iff split: option.splits prod.splits)

interpretation hookinv: registrar_contract "\<lambda>r. hooks_inv (reg_hooks r)"
  by unfold_locales
    (auto simp: RegisterCapability_def OfferHook_def Registry_Subscribe_def Let_def
      intro: Offer_inv Subscribe_inv split: option.splits prod.splits)

lemma offer_all_frame: "offer_all who ps r = (e, r') \<Longrightarrow> same_frame r r' \<and> reg_handlers r' = reg_handlers r"
proof (induction ps arbitrary: r)
  case (Cons p ps)
  then show ?case
    by (fastforce simp: same_frame_def split: prod.splits option.splits)
qed (simp add: same_frame_def)

lemma offer_all_attributed:
  "attributed who h0 (reg_hooks r) \<Longrightarrow> attributed who h0 (reg_hooks (snd (offer_all who ps r)))"
proof (induction ps arbitrary: r)
  case (Cons p ps)
  then show ?case
    using attributed_Offer[OF Cons.prems, of p] by (auto split: prod.splits option.splits)
qed simp

lemma offer_all_hooks_inv:
  "hooks_inv (reg_hooks r) \<Longrightarrow> hooks_inv (reg_hooks (snd (offer_all who ps r)))"
proof (induction ps arbitrary: r)
  case (Cons p ps)
  then show ?case
    using Offer_inv[OF Cons.prems, of who p] by (auto split: prod.splits option.splits)
qed simp

lemma install_phase_keeps:
  fixes item :: "('v, 'w) gomodule"
  assumes "install_phase item r = (e, r')" and "registrar_contract P"
    and "P (snd (offer_all (d_id (m_desc item)) (d_offers (m_desc item)) r))"
  shows "P r'"
  using assms registrar_contract.run_install_keeps[OF assms(2)]
  by (auto simp: install_phase_def split: prod.splits option.splits)
    (metis snd_conv)

lemma install_phase_frame: "install_phase item r = (e, r') \<Longrightarrow> same_frame r r'"
  by (rule install_phase_keeps[OF _ frame.registrar_contract_axioms])
    (auto simp: offer_all_frame[OF prod.collapse[symmetric]])

lemma install_phase_attributed:
  assumes "install_phase item r = (e, r')" and "reg_installing r = d_id (m_desc item)"
  shows "attributed (d_id (m_desc item)) (reg_hooks r) (reg_hooks r')"
proof -
  let ?who = "d_id (m_desc item)"
  obtain e1 r1 where o: "offer_all ?who (d_offers (m_desc item)) r = (e1, r1)" by fastforce
  have "reg_installing r1 = ?who" "attributed ?who (reg_hooks r) (reg_hooks r1)"
    using offer_all_frame[OF o] assms(2) offer_all_attributed[OF attributed_refl, of ?who r "d_offers (m_desc item)"] o
    by (auto simp: same_frame_def)
  with install_phase_keeps[OF assms(1) attribution.registrar_contract_axioms] o show ?thesis by auto
qed

lemma install_phase_handlers:
  assumes "install_phase item r = (e, r')" and "wf_map (reg_handlers r)"
  shows "handlers_grown r r'"
proof -
  obtain e1 r1 where o: "offer_all (d_id (m_desc item)) (d_offers (m_desc item)) r = (e1, r1)" by fastforce
  then have "handlers_grown r r1"
    using offer_all_frame[OF o] assms(2) by (simp add: handlers_grown_def)
  with install_phase_keeps[OF assms(1) growth.registrar_contract_axioms] o show ?thesis by auto
qed

lemma install_phase_hooks_inv:
  "\<lbrakk>install_phase item r = (e, r'); hooks_inv (reg_hooks r)\<rbrakk> \<Longrightarrow> hooks_inv (reg_hooks r')"
  using install_phase_keeps[OF _ hookinv.registrar_contract_axioms] offer_all_hooks_inv by blast

text \<open>How a registration ends: refused with the registry unchanged, rolled back, or done.\<close>

lemma RegisterModule_outcomes:
  assumes "RegisterModule item r = (res, r')"
  obtains (refused) e where "res = Some e" "r' = r"
  | (failed) e r2 where "res = Some e" "mget (reg_modules r) (d_id (m_desc item)) = None"
      "install_phase item (enter_module item r) = (Some e, r2)"
      "r' = rollback_module (m_desc item) (r2\<lparr>reg_installing := []\<rparr>)"
  | (installed) r2 where "res = None" "mget (reg_modules r) (d_id (m_desc item)) = None"
      "StorageMode_Valid (d_storage (m_desc item))" "unprovided (m_desc item) = []"
      "install_phase item (enter_module item r) = (None, r2)"
      "r' = r2\<lparr>reg_installing := [], reg_order := reg_order r2 @ [d_id (m_desc item)]\<rparr>"
  using assms that
  by (auto simp: RegisterModule_def Let_def split: if_splits list.splits option.splits prod.splits)

section \<open>The registry invariant\<close>

definition registry_inv :: "('v, 'w) registry \<Rightarrow> bool" where
  "registry_inv r \<longleftrightarrow>
     wf_map (reg_modules r) \<and> wf_map (reg_handlers r) \<and> wf_map (reg_exposed r) \<and>
     distinct (reg_order r) \<and> set (reg_order r) = fst ` set (reg_modules r) \<and>
     reg_installing r = [] \<and> hooks_inv (reg_hooks r) \<and>
     (\<forall>mid m. mget (reg_modules r) mid = Some m \<longrightarrow> d_id (m_desc m) = mid \<and>
        StorageMode_Valid (d_storage (m_desc m)) \<and> unprovided (m_desc m) = []) \<and>
     (\<forall>k ref. mget (reg_exposed r) k = Some ref \<longrightarrow> cap_key ref = k \<and>
        (\<exists>mid m. mget (reg_modules r) mid = Some m \<and> ref \<in> set (d_exposed (m_desc m))))"

lemma registry_inv_New: "registry_inv registry_New"
  by (simp add: registry_inv_def registry_New_def hooks_inv_New)

lemma mget_foldl_mput:
  "mget (foldl (\<lambda>m ref. mput (cap_key ref) ref m) m refs) k =
     (case find (\<lambda>ref. cap_key ref = k) (rev refs) of Some ref \<Rightarrow> Some ref | None \<Rightarrow> mget m k)"
  by (induction refs rule: rev_induct) auto

lemma mget_foldl_mdel:
  "mget (foldl (\<lambda>m ref. mdel (cap_key ref) m) m refs) k =
     (if k \<in> cap_key ` set refs then None else mget m k)"
  by (induction refs rule: rev_induct) auto

lemma wf_foldl_mput: "wf_map m \<Longrightarrow> wf_map (foldl (\<lambda>m ref. mput (cap_key ref) ref m) m refs)"
  by (induction refs arbitrary: m) auto

lemma wf_foldl_mdel: "wf_map m \<Longrightarrow> wf_map (foldl (\<lambda>m ref. mdel (cap_key ref) m) m refs)"
  by (induction refs arbitrary: m) auto

lemma enter_module_fields [simp]:
  "reg_modules (enter_module item r) = mput (d_id (m_desc item)) item (reg_modules r)"
  "reg_handlers (enter_module item r) = reg_handlers r"
  "reg_order (enter_module item r) = reg_order r"
  "reg_hooks (enter_module item r) = reg_hooks r"
  "reg_installing (enter_module item r) = d_id (m_desc item)"
  "reg_exposed (enter_module item r) =
     foldl (\<lambda>m ref. mput (cap_key ref) ref m) (reg_exposed r) (d_exposed (m_desc item))"
  by (simp_all add: enter_module_def Let_def)

lemma mdel_mput_fresh: "mget m k = None \<Longrightarrow> mdel k (mput k v m) = m"
  by (simp add: delete_update_same delete_idem mget_None_iff)

lemma exposed_installed:
  assumes "mget (foldl (\<lambda>m ref. mput (cap_key ref) ref m) m refs) k = Some ref"
  shows "cap_key ref = k \<and> ref \<in> set refs \<or> k \<notin> cap_key ` set refs \<and> mget m k = Some ref"
proof (cases "find (\<lambda>ref. cap_key ref = k) (rev refs)")
  case (Some x)
  with assms find_SomeD[OF Some] show ?thesis by (auto simp: mget_foldl_mput)
next
  case None
  with assms find_NoneD[OF None] show ?thesis by (auto simp: mget_foldl_mput)
qed

lemma registry_invI:
  assumes "wf_map (reg_modules r)" "wf_map (reg_handlers r)" "wf_map (reg_exposed r)"
    "distinct (reg_order r)" "set (reg_order r) = fst ` set (reg_modules r)"
    "reg_installing r = []" "hooks_inv (reg_hooks r)"
    "\<And>mid m. mget (reg_modules r) mid = Some m \<Longrightarrow> d_id (m_desc m) = mid \<and>
        StorageMode_Valid (d_storage (m_desc m)) \<and> unprovided (m_desc m) = []"
    "\<And>k ref. mget (reg_exposed r) k = Some ref \<Longrightarrow> cap_key ref = k \<and>
        (\<exists>mid m. mget (reg_modules r) mid = Some m \<and> ref \<in> set (d_exposed (m_desc m)))"
  shows "registry_inv r"
  unfolding registry_inv_def using assms by (intro conjI allI impI) blast+

lemma registry_invD:
  assumes "registry_inv r"
  shows "wf_map (reg_modules r)" "wf_map (reg_handlers r)" "wf_map (reg_exposed r)"
    "distinct (reg_order r)" "set (reg_order r) = fst ` set (reg_modules r)"
    "reg_installing r = []" "hooks_inv (reg_hooks r)"
    "mget (reg_modules r) mid = Some m \<Longrightarrow> d_id (m_desc m) = mid \<and>
        StorageMode_Valid (d_storage (m_desc m)) \<and> unprovided (m_desc m) = []"
    "mget (reg_exposed r) k = Some ref \<Longrightarrow> cap_key ref = k \<and>
        (\<exists>mid m. mget (reg_modules r) mid = Some m \<and> ref \<in> set (d_exposed (m_desc m)))"
  using assms unfolding registry_inv_def by blast+

lemma registry_inv_failed:
  assumes "registry_inv r" and "mget (reg_modules r) (d_id (m_desc item)) = None"
    and "install_phase item (enter_module item r) = (e, r2)"
  shows "registry_inv (rollback_module (m_desc item) (r2\<lparr>reg_installing := []\<rparr>))"
proof -
  let ?d = "m_desc item" and ?r = "rollback_module (m_desc item) (r2\<lparr>reg_installing := []\<rparr>)"
  note frame = install_phase_frame[OF assms(3), unfolded same_frame_def, simplified]
  have mods: "reg_modules ?r = reg_modules r"
    using frame assms(2) by (simp add: rollback_module_def mdel_mput_fresh)
  have exp: "mget (reg_exposed ?r) k = Some ref \<Longrightarrow> mget (reg_exposed r) k = Some ref" for k ref
    using frame
    by (auto simp: rollback_module_def mget_foldl_mdel dest!: exposed_installed split: if_splits)
  have "wf_map (reg_handlers ?r)" "wf_map (reg_exposed ?r)" "hooks_inv (reg_hooks ?r)"
    using install_phase_handlers[OF assms(3)] install_phase_hooks_inv[OF assms(3)] frame assms(1)
    by (auto simp: rollback_module_def registry_inv_def handlers_grown_def wf_foldl_mdel wf_foldl_mput)
  moreover have "reg_order ?r = reg_order r" "reg_installing ?r = []"
    using frame by (simp_all add: rollback_module_def)
  moreover note registry_invD(1,4,5)[OF assms(1)]
  ultimately show ?thesis
  proof (intro registry_invI)
    fix k ref assume "mget (reg_exposed ?r) k = Some ref"
    from registry_invD(9)[OF assms(1) exp[OF this]]
    show "cap_key ref = k \<and> (\<exists>mid m. mget (reg_modules ?r) mid = Some m \<and> ref \<in> set (d_exposed (m_desc m)))"
      unfolding mods .
  next
    fix mid m assume "mget (reg_modules ?r) mid = Some m"
    from registry_invD(8)[OF assms(1) this[unfolded mods]]
    show "d_id (m_desc m) = mid \<and> StorageMode_Valid (d_storage (m_desc m)) \<and> unprovided (m_desc m) = []" .
  qed (simp_all add: mods)
qed

lemma registry_inv_installed:
  assumes "registry_inv r" and "mget (reg_modules r) (d_id (m_desc item)) = None"
    and "StorageMode_Valid (d_storage (m_desc item))" "unprovided (m_desc item) = []"
    and "install_phase item (enter_module item r) = (e, r2)"
  shows "registry_inv (r2\<lparr>reg_installing := [], reg_order := reg_order r2 @ [d_id (m_desc item)]\<rparr>)"
proof -
  let ?d = "m_desc item"
  note frame = install_phase_frame[OF assms(5), unfolded same_frame_def, simplified]
  have fresh: "d_id ?d \<notin> fst ` set (reg_modules r)"
    using assms(2) by (simp add: mget_None_iff)
  have exp: "cap_key ref = k \<and> (\<exists>mid m. mget (reg_modules r2) mid = Some m \<and> ref \<in> set (d_exposed (m_desc m)))"
    if "mget (reg_exposed r2) k = Some ref" for k ref
  proof -
    from that frame consider "cap_key ref = k" "ref \<in> set (d_exposed ?d)" | "mget (reg_exposed r) k = Some ref"
      by (auto dest!: exposed_installed)
    then show ?thesis
    proof cases
      case 1
      moreover have "mget (reg_modules r2) (d_id ?d) = Some item" using frame by simp
      ultimately show ?thesis by blast
    next
      case 2
      then obtain mid m where "cap_key ref = k" "mget (reg_modules r) mid = Some m" "ref \<in> set (d_exposed (m_desc m))"
        using assms(1) unfolding registry_inv_def by blast
      moreover have "mget (reg_modules r2) mid = Some m"
        using frame assms(2) calculation(2) by auto
      ultimately show ?thesis by blast
    qed
  qed
  have "wf_map (reg_handlers r2)" "wf_map (reg_exposed r2)" "hooks_inv (reg_hooks r2)"
    using install_phase_handlers[OF assms(5)] install_phase_hooks_inv[OF assms(5)] frame assms(1)
    by (auto simp: registry_inv_def handlers_grown_def wf_foldl_mput)
  then show ?thesis
  proof (intro registry_invI)
    fix mid m
    assume "mget (reg_modules (r2\<lparr>reg_installing := [], reg_order := reg_order r2 @ [d_id ?d]\<rparr>)) mid = Some m"
    then have "m = item \<and> mid = d_id ?d \<or> mget (reg_modules r) mid = Some m"
      using frame by (auto split: if_splits)
    then show "d_id (m_desc m) = mid \<and> StorageMode_Valid (d_storage (m_desc m)) \<and> unprovided (m_desc m) = []"
      using registry_invD(8)[OF assms(1)] assms(3,4) by blast
  next
    fix k ref
    assume "mget (reg_exposed (r2\<lparr>reg_installing := [], reg_order := reg_order r2 @ [d_id ?d]\<rparr>)) k = Some ref"
    then have "mget (reg_exposed r2) k = Some ref" by simp
    from exp[OF this] show "cap_key ref = k \<and> (\<exists>mid m. mget (reg_modules
        (r2\<lparr>reg_installing := [], reg_order := reg_order r2 @ [d_id ?d]\<rparr>)) mid = Some m \<and> ref \<in> set (d_exposed (m_desc m)))"
      by simp
  qed (use registry_invD(1,4,5)[OF assms(1)] frame fresh in \<open>simp_all add: keys_mput\<close>)
qed

lemma RegisterModule_inv:
  assumes "registry_inv r" and "RegisterModule item r = (res, r')"
  shows "registry_inv r'"
  using assms(2)
proof (cases rule: RegisterModule_outcomes)
  case (failed e r2)
  then show ?thesis using registry_inv_failed[OF assms(1)] by simp
next
  case (installed r2)
  then show ?thesis using registry_inv_installed[OF assms(1)] by simp
qed (use assms in simp)

text \<open>The registries a deployment can reach: registrations, in any order, of any modules.\<close>

inductive reachable_registry :: "('v, 'w) registry \<Rightarrow> bool" where
  fresh: "reachable_registry registry_New"
| registered: "reachable_registry r \<Longrightarrow> RegisterModule item r = (res, r') \<Longrightarrow> reachable_registry r'"

lemma reachable_registry_inv: "reachable_registry r \<Longrightarrow> registry_inv r"
  by (induction rule: reachable_registry.induct) (auto intro: registry_inv_New RegisterModule_inv)

lemma unprovided_Nil_iff:
  "unprovided d = [] \<longleftrightarrow> cap_key ` set (d_exposed d) \<subseteq> cap_key ` set (d_provides d)"
  by (auto simp: unprovided_def filter_empty_conv)

text \<open>Modules started one after the other, as long as each one succeeds.\<close>

fun try_starts :: "go_ctx \<Rightarrow> ('v, 'w) registry \<Rightarrow> string list \<Rightarrow> 'w \<Rightarrow> 'w option" where
  "try_starts ctx r [] w = Some w"
| "try_starts ctx r (mid # ids) w =
     (case m_start (the (mget (reg_modules r) mid)) ctx w of
        (None, w') \<Rightarrow> try_starts ctx r ids w'
      | (Some e, w') \<Rightarrow> None)"

text \<open>Every module of a list stopped in order, whatever each one returns.\<close>

fun stop_each :: "go_ctx \<Rightarrow> ('v, 'w) registry \<Rightarrow> string list \<Rightarrow> 'w \<Rightarrow> (string \<times> gerr option) list \<times> 'w" where
  "stop_each ctx r [] w = ([], w)"
| "stop_each ctx r (mid # ids) w =
     (let (e, w') = m_stop (the (mget (reg_modules r) mid)) ctx w;
          (rest, w'') = stop_each ctx r ids w'
      in ((mid, e) # rest, w''))"

lemma stop_loop_stop_each:
  assumes "set ids \<subseteq> fst ` set (reg_modules r)" and "stop_each ctx r ids w = (outcomes, w')"
  shows "stop_loop ctx r ids errs w =
     (errs @ map (\<lambda>(mid, e). prefixf [''registry: module '', mid, '' failed to stop''] (the e))
               (filter (\<lambda>(mid, e). e \<noteq> None) outcomes), w') \<and> map fst outcomes = ids"
  using assms
proof (induction ids arbitrary: w errs outcomes)
  case (Cons mid ids)
  then obtain m where m: "mget (reg_modules r) mid = Some m"
    using mget_None_iff[of "reg_modules r" mid] by fastforce
  obtain e w1 where s: "m_stop m ctx w = (e, w1)" by fastforce
  obtain outs where o: "stop_each ctx r ids w1 = (outs, w')" "outcomes = (mid, e) # outs"
    using Cons.prems(2) m s by (auto split: prod.splits)
  show ?case
    using Cons.IH[OF _ o(1)] Cons.prems(1) m s o(2) by (cases e) auto
qed simp

lemma start_loop_ok:
  assumes "set ids \<subseteq> fst ` set (reg_modules r)" and "try_starts ctx r ids w = Some w'"
  shows "start_loop ctx r ids started w = (None, w')"
  using assms
proof (induction ids arbitrary: w started)
  case (Cons mid ids)
  then obtain m where "mget (reg_modules r) mid = Some m"
    using mget_None_iff[of "reg_modules r" mid] by fastforce
  with Cons show ?case by (auto split: prod.splits option.splits)
qed simp

lemma start_loop_fail:
  assumes "set ids \<subseteq> fst ` set (reg_modules r)" and "try_starts ctx r ids w = None"
  shows "\<exists>pre mid m post w1 e w2. ids = pre @ mid # post \<and> try_starts ctx r pre w = Some w1 \<and>
      mget (reg_modules r) mid = Some m \<and> m_start m ctx w1 = (Some e, w2) \<and>
      start_loop ctx r ids started w =
        (Some (prefixf [''registry: module '', mid, '' failed to start''] e),
         snd (stopModules ctx r (started @ pre) w2))"
  using assms
proof (induction ids arbitrary: w started)
  case (Cons mid ids)
  then obtain m where m: "mget (reg_modules r) mid = Some m"
    using mget_None_iff[of "reg_modules r" mid] by fastforce
  obtain e w1 where s: "m_start m ctx w = (e, w1)" by fastforce
  show ?case
  proof (cases e)
    case (Some x)
    with m s show ?thesis
      by (intro exI[of _ "[]"] exI[of _ mid]) (auto split: prod.splits)
  next
    case None
    have "set ids \<subseteq> fst ` set (reg_modules r)" "try_starts ctx r ids w1 = None"
      using Cons.prems m s None by auto
    from Cons.IH[OF this, of "started @ [mid]"] obtain pre mid' m' post w2 e' w3 where
      IH: "ids = pre @ mid' # post" "try_starts ctx r pre w1 = Some w2"
      "mget (reg_modules r) mid' = Some m'" "m_start m' ctx w2 = (Some e', w3)"
      "start_loop ctx r ids (started @ [mid]) w1 =
        (Some (prefixf [''registry: module '', mid', '' failed to start''] e'),
         snd (stopModules ctx r ((started @ [mid]) @ pre) w3))"
      by blast
    then show ?thesis
      using m s None
      by (intro exI[of _ "mid # pre"] exI[of _ mid'] exI[of _ m'] exI[of _ post] exI[of _ w2]
          exI[of _ e'] exI[of _ w3]) simp
  qed
qed simp

section \<open>Properties\<close>

text \<open>
  C5: publication is never an accident. In every registry a deployment can reach, whatever
  modules were registered and however their installations ended, a capability is exposed to
  callers outside the process only if a currently registered module declares it exposed and
  also declares that it provides it.
\<close>

theorem exposed_only_if_provided:
  assumes "reachable_registry r" and "IsExposed ref r"
  shows "\<exists>mid m x. mid \<in> set (reg_order r) \<and> mget (reg_modules r) mid = Some m \<and>
     x \<in> set (d_exposed (m_desc m)) \<and> cap_key x = cap_key ref \<and>
     cap_key ref \<in> cap_key ` set (d_provides (m_desc m))"
proof -
  have inv: "registry_inv r" using assms(1) by (rule reachable_registry_inv)
  obtain x where x: "mget (reg_exposed r) (cap_key ref) = Some x"
    using assms(2) by (auto simp: IsExposed_def)
  from registry_invD(9)[OF inv x] obtain mid m where
    m: "cap_key x = cap_key ref" "mget (reg_modules r) mid = Some m" "x \<in> set (d_exposed (m_desc m))"
    by blast
  moreover have "mid \<in> set (reg_order r)"
    using mget_in_keys[OF m(2)] registry_invD(5)[OF inv] by simp
  moreover have "cap_key ref \<in> cap_key ` set (d_provides (m_desc m))"
  proof -
    have "cap_key ` set (d_exposed (m_desc m)) \<subseteq> cap_key ` set (d_provides (m_desc m))"
      using registry_invD(8)[OF inv m(2)] by (simp only: unprovided_Nil_iff)
    then show ?thesis unfolding m(1)[symmetric] using m(3) by blast
  qed
  ultimately show ?thesis by blast
qed

definition sample_module :: "string \<Rightarrow> (unit, string list) gomodule" where
  "sample_module mid = \<lparr>m_desc = \<lparr>d_id = mid, d_kind = ''embedded'',
      d_provides = [CapabilityRef ''x'' ''v1''], d_consumes = [], d_offers = [],
      d_storage = StorageNone, d_exposed = [CapabilityRef ''x'' ''v1'']\<rparr>,
    m_install = DoRegister (CapabilityRef ''x'' ''v1'') (\<lambda>ctx v w. ((ANil, None), w)) InstallDone,
    m_start = (\<lambda>ctx w. (None, w @ [''start '' @ mid])),
    m_stop = (\<lambda>ctx w. (None, w @ [''stop '' @ mid]))\<rparr>"

definition sample_registry :: "(unit, string list) registry" where
  "sample_registry = snd (RegisterModule (sample_module ''a'') registry_New)"

lemmas register_eval =
  RegisterModule_def Let_def sample_module_def StorageMode_Valid_def StorageNone_def unprovided_def
  install_phase_def enter_module_def RegisterCapability_def cap_key_def

lemma sample_register: "RegisterModule (sample_module ''a'') registry_New = (None, sample_registry)"
  unfolding sample_registry_def by (simp add: register_eval registry_New_def)

lemma sample_reachable: "reachable_registry sample_registry"
  by (rule registered[OF fresh sample_register])

theorem exposed_only_if_provided_witness:
  "\<exists>mid m. mid \<in> set (reg_order sample_registry) \<and> mget (reg_modules sample_registry) mid = Some m \<and>
     ''x@v1'' \<in> cap_key ` set (d_provides (m_desc m))"
proof -
  have "IsExposed (CapabilityRef ''x'' ''v1'') sample_registry"
    unfolding sample_registry_def by (simp add: register_eval registry_New_def IsExposed_def)
  from exposed_only_if_provided[OF sample_reachable this] show ?thesis
    by (auto simp: cap_key_def)
qed

lemma exposed_keys:
  assumes "registry_inv r"
  shows "map cap_key (map snd (reg_exposed r)) = map fst (reg_exposed r)"
  using registry_invD(3,9)[OF assms] by (auto intro!: map_cong)

lemma IsExposed_listed:
  assumes "registry_inv r"
  shows "IsExposed ref r \<longleftrightarrow> cap_key ref \<in> cap_key ` set (ListExposed r)"
  using arg_cong[OF exposed_keys[OF assms], of set] mget_None_iff[of "reg_exposed r" "cap_key ref"]
  by (simp add: IsExposed_def ListExposed_def image_image)

text \<open>
  What an outside integrator may discover is exactly what is exposed, and the listing
  does not depend on map iteration order: it is sorted by key, has no duplicates, contains a
  reference for every exposed key and nothing else; any other iteration order of the same
  map gives the same list.
\<close>

theorem ListExposed_exact:
  fixes r :: "('v, 'w) registry"
  assumes "reachable_registry r"
  shows "sorted (map cap_key (ListExposed r)) \<and> distinct (map cap_key (ListExposed r)) \<and>
     (\<forall>ref. IsExposed ref r \<longleftrightarrow> cap_key ref \<in> cap_key ` set (ListExposed r)) \<and>
     (\<forall>r' :: ('v, 'w) registry. wf_map (reg_exposed r') \<and> map_of (reg_exposed r') = map_of (reg_exposed r) \<longrightarrow>
           ListExposed r' = ListExposed r)"
proof -
  have inv: "registry_inv r" using assms by (rule reachable_registry_inv)
  note wf = registry_invD(3)[OF inv]
  note keys = exposed_keys[OF inv]
  have d: "distinct (map cap_key (map snd (reg_exposed r)))"
    unfolding keys by (rule wf)
  then have inj: "inj_on cap_key (set (map snd (reg_exposed r)))"
    by (simp only: distinct_map)
  have dist: "distinct (map cap_key (ListExposed r))"
    unfolding ListExposed_def distinct_map[of cap_key] distinct_sort set_sort
    using d[unfolded distinct_map[of cap_key]] .
  have "ListExposed r' = ListExposed r"
    if "wf_map (reg_exposed r')" "map_of (reg_exposed r') = map_of (reg_exposed r)" for r' :: "('v, 'w) registry"
    unfolding ListExposed_def
    using sort_key_unique[OF _ inj, of "map snd (reg_exposed r')"] wf_map_mset_eq[OF wf that(1)] that(2)
    by (metis mset_map)
  moreover note IsExposed_listed[OF inv]
  moreover have "sorted (map cap_key (ListExposed r))" by (simp add: ListExposed_def)
  ultimately show ?thesis using dist by blast
qed

theorem ListExposed_exact_witness: "sorted (map cap_key (ListExposed sample_registry))"
  by (rule conjunct1[OF ListExposed_exact[OF sample_reachable]])

text \<open>
  A registration cannot act in another module's name. Whatever a module's \<open>Install\<close>
  does, and whether it succeeds or fails, every hook point it adds is owned by it, every
  subscription it adds carries its ID, and no point or subscription of anybody else is
  removed or changed.
\<close>

theorem RegisterModule_attributes_hooks:
  assumes "RegisterModule item r = (res, r')"
  shows "attributed (d_id (m_desc item)) (reg_hooks r) (reg_hooks r')"
  using assms
proof (cases rule: RegisterModule_outcomes)
  case (refused e)
  then show ?thesis by (simp add: attributed_refl)
next
  case (failed e r2)
  then show ?thesis
    using install_phase_attributed[OF failed(3)] by (simp add: rollback_module_def)
next
  case (installed r2)
  then show ?thesis
    using install_phase_attributed[OF installed(5)] by simp
qed

theorem RegisterModule_attributes_hooks_witness:
  "attributed ''a'' hooks_New (reg_hooks sample_registry)"
  using RegisterModule_attributes_hooks[OF sample_register]
  by (simp add: sample_module_def registry_New_def)

text \<open>
  A failed registration leaves no module behind. The module map and the registration
  order are what they were, nothing is left installing, a capability the descriptor does
  not declare exposed is as exposed as before, one it does declare is not exposed, and a
  handler registered before under a key the descriptor does not declare is still there.
\<close>

theorem RegisterModule_failure_rolls_back:
  assumes "registry_inv r" and "RegisterModule item r = (Some e, r')" and "r' \<noteq> r"
  shows "reg_modules r' = reg_modules r \<and> reg_order r' = reg_order r \<and> reg_installing r' = [] \<and>
    (\<forall>ref. IsExposed ref r' \<longleftrightarrow>
        IsExposed ref r \<and> cap_key ref \<notin> cap_key ` set (d_exposed (m_desc item))) \<and>
    (\<forall>k h. mget (reg_handlers r) k = Some h \<and> k \<notin> cap_key ` set (d_provides (m_desc item)) \<longrightarrow>
        mget (reg_handlers r') k = Some h) \<and>
    (\<forall>ref\<in>set (d_provides (m_desc item)). ResolveCapability ref r' = None)"
  using assms(2)
proof (cases rule: RegisterModule_outcomes)
  case (failed e r2)
  note frame = install_phase_frame[OF failed(3), unfolded same_frame_def, simplified]
  have grown: "handlers_grown (enter_module item r) r2"
    using install_phase_handlers[OF failed(3)] registry_invD(2)[OF assms(1)] by simp
  have "mget (reg_exposed r2) k = mget (reg_exposed r) k"
    if "k \<notin> cap_key ` set (d_exposed (m_desc item))" for k
    using that frame by (auto simp: mget_foldl_mput dest: find_SomeD split: option.splits)
  then have "IsExposed ref r' \<longleftrightarrow>
      IsExposed ref r \<and> cap_key ref \<notin> cap_key ` set (d_exposed (m_desc item))" for ref
    using failed(4) by (simp add: IsExposed_def rollback_module_def mget_foldl_mdel)
  moreover have "mget (reg_handlers r') k = Some h"
    if "mget (reg_handlers r) k = Some h" "k \<notin> cap_key ` set (d_provides (m_desc item))" for k h
    using grown that failed(4)
    by (simp add: handlers_grown_def rollback_module_def mget_foldl_mdel del: map_of_eq_Some_iff)
  moreover have "ResolveCapability ref r' = None" if "ref \<in> set (d_provides (m_desc item))" for ref
    using that failed(4) by (simp add: ResolveCapability_def rollback_module_def mget_foldl_mdel)
  moreover have "reg_modules r' = reg_modules r" "reg_order r' = reg_order r" "reg_installing r' = []"
    using failed(2,4) frame by (simp_all add: rollback_module_def mdel_mput_fresh)
  ultimately show ?thesis by blast
qed (use assms in auto)

lemma sample_duplicate:
  "fst (RegisterModule (sample_module ''b'') sample_registry) = Some ErrDuplicateCapability \<and>
   ResolveCapability (CapabilityRef ''x'' ''v1'') sample_registry \<noteq> None \<and>
   ResolveCapability (CapabilityRef ''x'' ''v1'') (snd (RegisterModule (sample_module ''b'') sample_registry)) = None"
  unfolding sample_registry_def
  by (simp add: register_eval registry_New_def ResolveCapability_def rollback_module_def)

theorem RegisterModule_failure_rolls_back_witness:
  "reg_modules (snd (RegisterModule (sample_module ''b'') sample_registry)) = reg_modules sample_registry"
proof -
  let ?r = "snd (RegisterModule (sample_module ''b'') sample_registry)"
  have "RegisterModule (sample_module ''b'') sample_registry = (Some ErrDuplicateCapability, ?r)"
    using sample_duplicate by (metis prod.collapse)
  moreover have "?r \<noteq> sample_registry" using sample_duplicate by metis
  ultimately show ?thesis
    using RegisterModule_failure_rolls_back[OF reachable_registry_inv[OF sample_reachable]] by blast
qed

text \<open>
  C39: the rollback also removes what it does not own. If a second module declares that it
  provides (and exposes) capabilities some registered module serves, and its installation
  fails after the checks for whatever reason, the module map is as it was, so the first
  module is still registered; yet every capability the failed descriptor provides has no
  handler afterwards, so that every call to it is answered "not registered" without touching
  the world, and every capability the failed descriptor exposes is no longer exposed.
\<close>

theorem failed_registration_unregisters_others:
  assumes "RegisterModule item r = (Some e, r')" and "r' \<noteq> r"
  shows "reg_modules r' = reg_modules r \<and>
    (\<forall>ref \<in> set (d_provides (m_desc item)). \<forall>ctx request w. Bus_Call r' ctx ref request w =
       ((ANil, Some (ErrNew (''bus: capability '' @ cap_key ref @ '' not registered''))), w)) \<and>
    (\<forall>ref \<in> set (d_exposed (m_desc item)). \<not> IsExposed ref r')"
  using assms(1)
proof (cases rule: RegisterModule_outcomes)
  case (failed e r2)
  note frame = install_phase_frame[OF failed(3), unfolded same_frame_def, simplified]
  have "ResolveCapability ref r' = None" if "ref \<in> set (d_provides (m_desc item))" for ref
    using that failed(4) by (simp add: ResolveCapability_def rollback_module_def mget_foldl_mdel)
  moreover have "\<not> IsExposed ref r'" if "ref \<in> set (d_exposed (m_desc item))" for ref
    using that failed(4) by (simp add: IsExposed_def rollback_module_def mget_foldl_mdel)
  moreover have "reg_modules r' = reg_modules r"
    using failed(2,4) frame by (simp add: rollback_module_def mdel_mput_fresh)
  ultimately show ?thesis by (simp add: Bus_Call_def)
qed (use assms in auto)

theorem failed_registration_unregisters_others_witness:
  "ResolveCapability (CapabilityRef ''x'' ''v1'') sample_registry \<noteq> None \<and>
   IsExposed (CapabilityRef ''x'' ''v1'') sample_registry \<and>
   snd (fst (Bus_Call (snd (RegisterModule (sample_module ''b'') sample_registry)) Background
     (CapabilityRef ''x'' ''v1'') ANil [])) = Some (ErrNew ''bus: capability x@v1 not registered'') \<and>
   \<not> IsExposed (CapabilityRef ''x'' ''v1'') (snd (RegisterModule (sample_module ''b'') sample_registry))"
proof -
  let ?r = "snd (RegisterModule (sample_module ''b'') sample_registry)"
  have "RegisterModule (sample_module ''b'') sample_registry = (Some ErrDuplicateCapability, ?r)"
    using sample_duplicate by (metis prod.collapse)
  moreover have "?r \<noteq> sample_registry" using sample_duplicate by metis
  moreover have "CapabilityRef ''x'' ''v1'' \<in> set (d_provides (m_desc (sample_module ''b'')))"
    "CapabilityRef ''x'' ''v1'' \<in> set (d_exposed (m_desc (sample_module ''b'')))"
    by (simp_all add: sample_module_def)
  moreover have "IsExposed (CapabilityRef ''x'' ''v1'') sample_registry"
    unfolding sample_registry_def by (simp add: register_eval registry_New_def IsExposed_def)
  ultimately show ?thesis
    using failed_registration_unregisters_others[of "sample_module ''b''" sample_registry _ ?r] sample_duplicate
    by (simp add: cap_key_def)
qed

text \<open>
  \<open>validateConsumes\<close> refuses exactly when some registered module consumes a capability that
  no handler serves. The condition is spelt out here and not taken from the checker.
\<close>

definition consumes_missing :: "('v, 'w) registry \<Rightarrow> bool" where
  "consumes_missing r = (\<exists>mid \<in> set (reg_order r). \<exists>m. mget (reg_modules r) mid = Some m \<and>
     (\<exists>ref \<in> set (d_consumes (m_desc m)). ResolveCapability ref r = None))"

lemma validateConsumes_None_iff: "validateConsumes r = None \<longleftrightarrow> \<not> consumes_missing r"
  unfolding validateConsumes_def errors_join_None_iff consumes_missing_def consume_errors_def
    ResolveCapability_def
  by (auto simp: filter_empty_conv split: option.splits)

lemma StartAll_missing:
  assumes "consumes_missing r"
  shows "\<exists>e. StartAll ctx r w = (Some e, w)"
proof -
  obtain e where "validateConsumes r = Some e"
    using assms validateConsumes_None_iff by blast
  then show ?thesis by (simp add: StartAll_def)
qed

lemma StartAll_served:
  assumes "registry_inv r" and "\<not> consumes_missing r"
  shows "case try_starts ctx r (reg_order r) w of
      Some w' \<Rightarrow> StartAll ctx r w = (None, w')
    | None \<Rightarrow> \<exists>pre mid m post w1 e w2. reg_order r = pre @ mid # post \<and>
         try_starts ctx r pre w = Some w1 \<and> mget (reg_modules r) mid = Some m \<and>
         m_start m ctx w1 = (Some e, w2) \<and>
         StartAll ctx r w = (Some (prefixf [''registry: module '', mid, '' failed to start''] e),
                             snd (stop_each ctx r (rev pre) w2))"
proof -
  have valid: "StartAll ctx r w = start_loop ctx r (reg_order r) [] w"
    using assms(2) validateConsumes_None_iff[of r] by (simp add: StartAll_def)
  have mods: "set (reg_order r) \<subseteq> fst ` set (reg_modules r)"
    using registry_invD(5)[OF assms(1)] by simp
  have stop: "snd (stopModules ctx r ids w) = snd (stop_each ctx r (rev ids) w)"
    if "set ids \<subseteq> fst ` set (reg_modules r)" for ids w
    using that stop_loop_stop_each[of "rev ids" r ctx w _ _ "[]", OF _ prod.collapse[symmetric]]
    by (simp add: stopModules_def split: prod.splits)
  show ?thesis
  proof (cases "try_starts ctx r (reg_order r) w")
    case (Some w')
    then show ?thesis using start_loop_ok[OF mods Some] valid by simp
  next
    case None
    from start_loop_fail[OF mods None, of "[]"] obtain pre mid m post w1 e w2 where
      f: "reg_order r = pre @ mid # post" "try_starts ctx r pre w = Some w1"
      "mget (reg_modules r) mid = Some m" "m_start m ctx w1 = (Some e, w2)"
      "start_loop ctx r (reg_order r) [] w =
        (Some (prefixf [''registry: module '', mid, '' failed to start''] e),
         snd (stopModules ctx r ([] @ pre) w2))"
      by blast
    have "set pre \<subseteq> fst ` set (reg_modules r)" using mods f(1) by auto
    then have "StartAll ctx r w = (Some (prefixf [''registry: module '', mid, '' failed to start''] e),
        snd (stop_each ctx r (rev pre) w2))"
      using f(5) stop valid by simp
    with f(1-4) show ?thesis unfolding None option.case by blast
  qed
qed

text \<open>
  C22: boot is all or nothing and ordered. If some registered module consumes a capability
  no handler serves, the boot fails and nothing is started: the world is untouched.
  Otherwise modules start in registration order; if one fails, exactly the modules started
  before it are stopped, in reverse order, and the error names the module that failed.
\<close>

theorem StartAll_all_or_nothing:
  assumes "registry_inv r"
  shows "if \<exists>mid \<in> set (reg_order r). \<exists>m. mget (reg_modules r) mid = Some m \<and>
        (\<exists>ref \<in> set (d_consumes (m_desc m)). ResolveCapability ref r = None)
     then \<exists>e. StartAll ctx r w = (Some e, w)
     else (case try_starts ctx r (reg_order r) w of
         Some w' \<Rightarrow> StartAll ctx r w = (None, w')
       | None \<Rightarrow> \<exists>pre mid m post w1 e w2. reg_order r = pre @ mid # post \<and>
            try_starts ctx r pre w = Some w1 \<and> mget (reg_modules r) mid = Some m \<and>
            m_start m ctx w1 = (Some e, w2) \<and>
            StartAll ctx r w = (Some (prefixf [''registry: module '', mid, '' failed to start''] e),
                                snd (stop_each ctx r (rev pre) w2)))"
  unfolding consumes_missing_def[symmetric]
  using StartAll_missing[of r ctx w] StartAll_served[OF assms, of ctx w]
  by (cases "consumes_missing r") simp_all

theorem StartAll_all_or_nothing_witness:
  "StartAll Background sample_registry [] = (None, [''start a''])"
proof -
  have "\<not> consumes_missing sample_registry"
    "try_starts Background sample_registry (reg_order sample_registry) [] = Some [''start a'']"
    unfolding sample_registry_def
    by (simp_all add: register_eval registry_New_def consumes_missing_def)
  with StartAll_all_or_nothing[OF reachable_registry_inv[OF sample_reachable], of Background "[]"]
  show ?thesis unfolding consumes_missing_def[symmetric] by simp
qed

text \<open>
  Shutdown reaches every module. Every registered module is stopped exactly once, in
  reverse registration order, whatever the others returned, and the error that comes back is
  the join of every failure, each naming its module.
\<close>

theorem StopAll_stops_everything:
  assumes "registry_inv r" and "stop_each ctx r (rev (reg_order r)) w = (outcomes, w')"
  shows "StopAll ctx r w =
     (errors_join (map (\<lambda>(mid, e). prefixf [''registry: module '', mid, '' failed to stop''] (the e))
        (filter (\<lambda>(mid, e). e \<noteq> None) outcomes)), w') \<and>
     map fst outcomes = rev (reg_order r) \<and> set (map fst outcomes) = fst ` set (reg_modules r)"
proof -
  have mods: "set (rev (reg_order r)) \<subseteq> fst ` set (reg_modules r)"
    using registry_invD(5)[OF assms(1)] by simp
  from stop_loop_stop_each[OF mods assms(2), of "[]"] registry_invD(5)[OF assms(1)]
  show ?thesis by (simp add: StopAll_def stopModules_def)
qed

theorem StopAll_stops_everything_witness:
  "StopAll Background sample_registry [''start a''] = (None, [''start a'', ''stop a''])"
proof -
  have "stop_each Background sample_registry (rev (reg_order sample_registry)) [''start a''] =
      ([(''a'', None)], [''start a'', ''stop a''])"
    unfolding sample_registry_def by (simp add: register_eval registry_New_def)
  from StopAll_stops_everything[OF reachable_registry_inv[OF sample_reachable] this]
  show ?thesis by (simp add: errors_join_def)
qed

end
