(* ===== verification/Json.thy ===== *)
theory Json
  imports Prelude
begin

text \<open>
  What \<open>json.Valid\<close> of Go's \<open>encoding/json\<close> computes, which the capability bridge and the WASM
  host use on payloads they pass on without decoding. It is the byte-at-a-time scanner of
  that package: a state, a stack of the composite values that are open, and a step per byte.
  The grammar's tail states share the end of a value, so \<open>end_value\<close> is a function the
  number states fall through to.
\<close>

datatype parse_ctx = ParseObjectKey | ParseObjectValue | ParseArrayValue

datatype scan_state =
    BeginValue | BeginValueOrEmpty | BeginString | BeginStringOrEmpty
  | EndValue | EndTop | InString | InStringEsc | InEscU nat
  | Neg | Digits | Zero | Dot | Frac | Exp | ExpSign | ExpDigits
  | Literal string

definition json_space :: "char \<Rightarrow> bool" where
  "json_space c = (c = CHR '' '' \<or> c = CHR 0x09 \<or> c = CHR 0x0D \<or> c = CHR 0x0A)"

definition json_digit :: "char \<Rightarrow> bool" where
  "json_digit c = (CHR ''0'' \<le> c \<and> c \<le> CHR ''9'')"

definition json_hex :: "char \<Rightarrow> bool" where
  "json_hex c = (json_digit c \<or> CHR ''a'' \<le> c \<and> c \<le> CHR ''f'' \<or> CHR ''A'' \<le> c \<and> c \<le> CHR ''F'')"

definition maxNestingDepth :: nat where "maxNestingDepth = 10000"

definition push_ctx :: "scan_state \<Rightarrow> parse_ctx \<Rightarrow> parse_ctx list \<Rightarrow> (scan_state \<times> parse_ctx list) option" where
  "push_ctx s p ps = (if length ps < maxNestingDepth then Some (s, p # ps) else None)"

definition pop_ctx :: "parse_ctx list \<Rightarrow> (scan_state \<times> parse_ctx list) option" where
  "pop_ctx ps = Some (if ps = [] then EndTop else EndValue, ps)"

fun end_value :: "char \<Rightarrow> parse_ctx list \<Rightarrow> (scan_state \<times> parse_ctx list) option" where
  "end_value c [] = (if json_space c then Some (EndTop, []) else None)"
| "end_value c (p # ps) =
     (if json_space c then Some (EndValue, p # ps)
      else case p of
        ParseObjectKey \<Rightarrow> if c = CHR '':'' then Some (BeginValue, ParseObjectValue # ps) else None
      | ParseObjectValue \<Rightarrow>
          if c = CHR '','' then Some (BeginString, ParseObjectKey # ps)
          else if c = CHR ''}'' then pop_ctx ps else None
      | ParseArrayValue \<Rightarrow>
          if c = CHR '','' then Some (BeginValue, ParseArrayValue # ps)
          else if c = CHR '']'' then pop_ctx ps else None)"

definition begin_value :: "char \<Rightarrow> parse_ctx list \<Rightarrow> (scan_state \<times> parse_ctx list) option" where
  "begin_value c ps =
     (if json_space c then Some (BeginValue, ps)
      else if c = CHR ''{'' then push_ctx BeginStringOrEmpty ParseObjectKey ps
      else if c = CHR ''['' then push_ctx BeginValueOrEmpty ParseArrayValue ps
      else if c = CHR 0x22 then Some (InString, ps)
      else if c = CHR ''-'' then Some (Neg, ps)
      else if c = CHR ''0'' then Some (Zero, ps)
      else if c = CHR ''t'' then Some (Literal ''rue'', ps)
      else if c = CHR ''f'' then Some (Literal ''alse'', ps)
      else if c = CHR ''n'' then Some (Literal ''ull'', ps)
      else if json_digit c then Some (Digits, ps)
      else None)"

definition begin_string :: "char \<Rightarrow> parse_ctx list \<Rightarrow> (scan_state \<times> parse_ctx list) option" where
  "begin_string c ps =
     (if json_space c then Some (BeginString, ps) else if c = CHR 0x22 then Some (InString, ps) else None)"

fun scan_step :: "scan_state \<Rightarrow> char \<Rightarrow> parse_ctx list \<Rightarrow> (scan_state \<times> parse_ctx list) option" where
  "scan_step BeginValue c ps = begin_value c ps"
| "scan_step BeginValueOrEmpty c ps =
     (if json_space c then Some (BeginValueOrEmpty, ps)
      else if c = CHR '']'' then end_value c ps else begin_value c ps)"
| "scan_step BeginString c ps = begin_string c ps"
| "scan_step BeginStringOrEmpty c ps =
     (if json_space c then Some (BeginStringOrEmpty, ps)
      else if c = CHR ''}'' then end_value c (ParseObjectValue # tl ps) else begin_string c ps)"
| "scan_step EndValue c ps = end_value c ps"
| "scan_step EndTop c ps = (if json_space c then Some (EndTop, ps) else None)"
| "scan_step InString c ps =
     (if c = CHR 0x22 then Some (EndValue, ps)
      else if c = CHR 0x5C then Some (InStringEsc, ps)
      else if c < CHR 0x20 then None else Some (InString, ps))"
| "scan_step InStringEsc c ps =
     (if c \<in> set (''bfnrt/'' @ [CHR 0x5C, CHR 0x22]) then Some (InString, ps)
      else if c = CHR ''u'' then Some (InEscU 4, ps) else None)"
| "scan_step (InEscU n) c ps =
     (if json_hex c then Some (if n \<le> 1 then InString else InEscU (n - 1), ps) else None)"
| "scan_step Neg c ps =
     (if c = CHR ''0'' then Some (Zero, ps) else if json_digit c then Some (Digits, ps) else None)"
| "scan_step Digits c ps =
     (if json_digit c then Some (Digits, ps)
      else if c = CHR ''.'' then Some (Dot, ps)
      else if c = CHR ''e'' \<or> c = CHR ''E'' then Some (Exp, ps) else end_value c ps)"
| "scan_step Zero c ps =
     (if c = CHR ''.'' then Some (Dot, ps)
      else if c = CHR ''e'' \<or> c = CHR ''E'' then Some (Exp, ps) else end_value c ps)"
| "scan_step Dot c ps = (if json_digit c then Some (Frac, ps) else None)"
| "scan_step Frac c ps =
     (if json_digit c then Some (Frac, ps)
      else if c = CHR ''e'' \<or> c = CHR ''E'' then Some (Exp, ps) else end_value c ps)"
| "scan_step Exp c ps =
     (if c = CHR ''+'' \<or> c = CHR ''-'' then Some (ExpSign, ps)
      else if json_digit c then Some (ExpDigits, ps) else None)"
| "scan_step ExpSign c ps = (if json_digit c then Some (ExpDigits, ps) else None)"
| "scan_step ExpDigits c ps = (if json_digit c then Some (ExpDigits, ps) else end_value c ps)"
| "scan_step (Literal w) c ps =
     (case w of [] \<Rightarrow> None
      | x # xs \<Rightarrow> if c = x then Some (if xs = [] then EndValue else Literal xs, ps) else None)"

fun scan :: "string \<Rightarrow> scan_state \<Rightarrow> parse_ctx list \<Rightarrow> (scan_state \<times> parse_ctx list) option" where
  "scan [] s ps = Some (s, ps)"
| "scan (c # cs) s ps = (case scan_step s c ps of None \<Rightarrow> None | Some (s', ps') \<Rightarrow> scan cs s' ps')"

text \<open>At the end of the input the scanner is fed one space; a complete value then rests at the top.\<close>

definition json_Valid :: "string \<Rightarrow> bool" where
  "json_Valid data =
     (case scan data BeginValue [] of
        None \<Rightarrow> False
      | Some (s, ps) \<Rightarrow> (case scan_step s (CHR '' '') ps of Some (EndTop, _) \<Rightarrow> True | _ \<Rightarrow> False))"

lemma scan_append:
  "scan (xs @ ys) s ps = (case scan xs s ps of None \<Rightarrow> None | Some (s', ps') \<Rightarrow> scan ys s' ps')"
  by (induction xs arbitrary: s ps) (auto split: option.splits)

lemma json_Valid_empty_object: "json_Valid ''{}''"
  by code_simp

lemma json_Valid_nonempty: "json_Valid data \<Longrightarrow> data \<noteq> []"
  by (auto simp: json_Valid_def json_space_def begin_value_def)

end
