(* ===== verification/Bridge.thy ===== *)
theory Bridge
  imports Registry Tenancy Json
begin

text \<open>
  The external capability bridge of \<^verbatim>\<open>internal/kernel/bridge\<close>: one endpoint over HTTP
  (\<^verbatim>\<open>capability.go\<close>) and one over gRPC (\<^verbatim>\<open>grpc.go\<close>) through which callers outside the
  process reach exposed capabilities.

  The registry is the bridge's own narrow interface, so the handlers take the exposure test
  and the listing as arguments; \<open>call\<close> dispatches into the kernel and \<open>encode\<close> serialises
  a result (\<open>json.Marshal\<close> in both wirings). A response body is kept by what was encoded
  into it: the error object by its message, a listing by its references. A request body is
  the bytes that can be read and the error the reader ends with, if it does not end cleanly.
  Logging has no effect on the answer and is not modelled.
\<close>

section \<open>Shared by both transports (capability.go)\<close>

definition MaxRequestBytes :: nat where "MaxRequestBytes = 2 ^ 20"

definition ParseRef :: "string \<Rightarrow> gerr + capability_ref" where
  "ParseRef s =
     (let bad = Inl (ErrNew (''capability reference '' @ go_quote s @ '' must be name@version'')) in
      case cut (CHR ''@'') s of
        None \<Rightarrow> bad
      | Some (name, version) \<Rightarrow>
          if name = [] \<or> version = [] then bad else Inr (CapabilityRef name version))"

definition StatusOK :: nat where "StatusOK = 200"
definition StatusBadRequest :: nat where "StatusBadRequest = 400"
definition StatusUnauthorized :: nat where "StatusUnauthorized = 401"
definition StatusForbidden :: nat where "StatusForbidden = 403"
definition StatusNotFound :: nat where "StatusNotFound = 404"
definition StatusRequestEntityTooLarge :: nat where "StatusRequestEntityTooLarge = 413"
definition StatusInternalServerError :: nat where "StatusInternalServerError = 500"

lemmas http_status_defs = StatusOK_def StatusBadRequest_def StatusUnauthorized_def StatusForbidden_def
  StatusNotFound_def StatusRequestEntityTooLarge_def StatusInternalServerError_def

definition StatusFor :: "gerr \<Rightarrow> nat" where
  "StatusFor err =
     (if errors_is err ErrNotFound then StatusNotFound
      else if errors_is err ErrForbidden then StatusForbidden
      else if errors_is err ErrTypeMismatch then StatusBadRequest
      else if errors_is err ErrNoTenantContext then StatusUnauthorized
      else StatusInternalServerError)"

definition publicMessage :: "nat \<Rightarrow> string" where
  "publicMessage status =
     (if status = StatusNotFound then ''not found''
      else if status = StatusForbidden then ''forbidden''
      else if status = StatusBadRequest then ''invalid request for this capability''
      else if status = StatusUnauthorized then ''unauthorized''
      else ''internal error'')"

definition encodeResult :: "'v goany \<Rightarrow> ('v goany \<Rightarrow> gerr + string) \<Rightarrow> gerr + string" where
  "encodeResult result encode =
     (case result of
        ARaw raw \<Rightarrow> if json_Valid raw then Inr raw else Inl (ErrNew ''capability returned invalid JSON'')
      | _ \<Rightarrow> encode result)"

section \<open>HTTP\<close>

record http_request =
  req_path :: string
  req_body :: string
  req_body_err :: "gerr option"
  req_ctx :: go_ctx

datatype http_body = ErrorBody string | EncodedBody string | RefsBody "capability_ref list"

record http_response =
  rsp_status :: nat
  rsp_body :: http_body

definition writeError :: "nat \<Rightarrow> string \<Rightarrow> http_response" where
  "writeError status message = \<lparr>rsp_status = status, rsp_body = ErrorBody message\<rparr>"

text \<open>\<open>io.ReadAll(io.LimitReader(r.Body, limit))\<close>: a reader cut off at the limit never reports
  the error behind it.\<close>

definition read_limited :: "nat \<Rightarrow> http_request \<Rightarrow> gerr + string" where
  "read_limited limit r =
     (if length (req_body r) \<ge> limit then Inr (take limit (req_body r))
      else case req_body_err r of Some e \<Rightarrow> Inl e | None \<Rightarrow> Inr (req_body r))"

text \<open>The last segment of the path.\<close>

definition refText :: "string \<Rightarrow> string" where
  "refText path =
     (let t = (if has_prefix path ''/'' then tl path else path)
      in case cut_last (CHR ''/'') t of None \<Rightarrow> t | Some (_, seg) \<Rightarrow> seg)"

type_synonym ('v, 'w) bridge_call =
  "go_ctx \<Rightarrow> capability_ref \<Rightarrow> string \<Rightarrow> 'w \<Rightarrow> ('v goany \<times> gerr option) \<times> 'w"

definition Dispatch ::
  "(capability_ref \<Rightarrow> bool) \<Rightarrow> ('v, 'w) bridge_call \<Rightarrow> ('v goany \<Rightarrow> gerr + string)
     \<Rightarrow> http_request \<Rightarrow> 'w \<Rightarrow> http_response \<times> 'w" where
  "Dispatch exposed call marshal r w =
     (case ParseRef (refText (req_path r)) of
        Inl err \<Rightarrow> (writeError StatusBadRequest (err_text err), w)
      | Inr ref \<Rightarrow>
          if \<not> exposed ref then (writeError StatusNotFound ''unknown capability'', w)
          else (case read_limited (MaxRequestBytes + 1) r of
            Inl _ \<Rightarrow> (writeError StatusBadRequest ''cannot read request body'', w)
          | Inr body \<Rightarrow>
              if length body > MaxRequestBytes
              then (writeError StatusRequestEntityTooLarge ''request body too large'', w)
              else (case call (req_ctx r) ref (if body = [] then ''{}'' else body) w of
                ((result, Some err), w') \<Rightarrow>
                  (let status = StatusFor err in (writeError status (publicMessage status), w'))
              | ((result, None), w') \<Rightarrow>
                  (case encodeResult result marshal of
                     Inl _ \<Rightarrow> (writeError StatusInternalServerError ''internal error'', w')
                   | Inr encoded \<Rightarrow> (\<lparr>rsp_status = StatusOK, rsp_body = EncodedBody encoded\<rparr>, w')))))"

definition ListHandler :: "capability_ref list \<Rightarrow> http_response" where
  "ListHandler refs = \<lparr>rsp_status = StatusOK, rsp_body = RefsBody refs\<rparr>"

section \<open>gRPC (grpc.go)\<close>

datatype grpc_code = NotFound | PermissionDenied | InvalidArgument | Unauthenticated | Internal

text \<open>A gRPC answer: the response payload, or a status with its message.\<close>

type_synonym 'a grpc_result = "(grpc_code \<times> string) + 'a"

definition grpcCodeFor :: "gerr \<Rightarrow> grpc_code" where
  "grpcCodeFor err =
     (if errors_is err ErrNotFound then NotFound
      else if errors_is err ErrForbidden then PermissionDenied
      else if errors_is err ErrTypeMismatch then InvalidArgument
      else if errors_is err ErrNoTenantContext then Unauthenticated
      else Internal)"

fun publicGRPCMessage :: "grpc_code \<Rightarrow> string" where
  "publicGRPCMessage NotFound = ''not found''"
| "publicGRPCMessage PermissionDenied = ''forbidden''"
| "publicGRPCMessage InvalidArgument = ''invalid request for this capability''"
| "publicGRPCMessage Unauthenticated = ''unauthorized''"
| "publicGRPCMessage Internal = ''internal error''"

definition GRPC_Call ::
  "(capability_ref \<Rightarrow> bool) \<Rightarrow> ('v, 'w) bridge_call \<Rightarrow> ('v goany \<Rightarrow> gerr + string)
     \<Rightarrow> go_ctx \<Rightarrow> string \<Rightarrow> string \<Rightarrow> 'w \<Rightarrow> string grpc_result \<times> 'w" where
  "GRPC_Call exposed call encode ctx capability payload w =
     (case ParseRef capability of
        Inl err \<Rightarrow> (Inl (InvalidArgument, err_text err), w)
      | Inr ref \<Rightarrow>
          if \<not> exposed ref then (Inl (NotFound, ''unknown capability''), w)
          else (let payload' = (if payload = [] then ''{}'' else payload) in
            if length payload' > MaxRequestBytes
            then (Inl (InvalidArgument, ''request payload too large''), w)
            else (case call ctx ref payload' w of
              ((result, Some err), w') \<Rightarrow>
                (let code = grpcCodeFor err in (Inl (code, publicGRPCMessage code), w'))
            | ((result, None), w') \<Rightarrow>
                (case encodeResult result encode of
                   Inl _ \<Rightarrow> (Inl (Internal, ''internal error''), w')
                 | Inr encoded \<Rightarrow> (Inr encoded, w')))))"

definition GRPC_List :: "capability_ref list \<Rightarrow> (string \<times> string) list grpc_result" where
  "GRPC_List refs = Inr (map (\<lambda>ref. (cap_name ref, cap_version ref)) refs)"

section \<open>The wiring (internal/app/bootstrap/app.go)\<close>

definition dispatchCapabilityCtx :: "('v, 'w) registry \<Rightarrow> ('v, 'w) bridge_call" where
  "dispatchCapabilityCtx r ctx ref payload w = Bus_Call r ctx ref (ARaw payload) w"

section \<open>References as text\<close>

lemma ParseRef_Inr_iff:
  "ParseRef s = Inr ref \<longleftrightarrow> cap_key ref = s \<and> CHR ''@'' \<notin> set (cap_name ref) \<and> cap_name ref \<noteq> [] \<and> cap_version ref \<noteq> []"
proof (cases ref)
  case (CapabilityRef n v)
  have "ParseRef s = Inr ref \<longleftrightarrow> cut (CHR ''@'') s = Some (n, v) \<and> n \<noteq> [] \<and> v \<noteq> []"
    by (auto simp: ParseRef_def Let_def CapabilityRef split: option.splits)
  then show ?thesis by (auto simp: cut_Some_iff cap_key_def CapabilityRef)
qed

lemma ParseRef_key: "ParseRef s = Inr ref \<Longrightarrow> cap_key ref = s"
  by (simp add: ParseRef_Inr_iff)

text \<open>Text parses exactly when it has something on both sides of its first at sign.\<close>

lemma ParseRef_ok_iff:
  "(\<exists>ref. ParseRef s = Inr ref) \<longleftrightarrow> (\<exists>n v. s = n @ ''@'' @ v \<and> CHR ''@'' \<notin> set n \<and> n \<noteq> [] \<and> v \<noteq> [])"
proof
  assume "\<exists>ref. ParseRef s = Inr ref"
  then obtain ref where "ParseRef s = Inr ref" ..
  then show "\<exists>n v. s = n @ ''@'' @ v \<and> CHR ''@'' \<notin> set n \<and> n \<noteq> [] \<and> v \<noteq> []"
    by (intro exI[of _ "cap_name ref"] exI[of _ "cap_version ref"]) (auto simp: ParseRef_Inr_iff cap_key_def)
next
  assume "\<exists>n v. s = n @ ''@'' @ v \<and> CHR ''@'' \<notin> set n \<and> n \<noteq> [] \<and> v \<noteq> []"
  then obtain n v where "s = n @ ''@'' @ v" "CHR ''@'' \<notin> set n" "n \<noteq> []" "v \<noteq> []" by blast
  then show "\<exists>ref. ParseRef s = Inr ref"
    by (intro exI[of _ "CapabilityRef n v"]) (simp add: ParseRef_Inr_iff cap_key_def)
qed

lemma refText_last: "CHR ''/'' \<notin> set s \<Longrightarrow> refText (''/'' @ p @ ''/'' @ s) = s"
proof -
  assume "CHR ''/'' \<notin> set s"
  then have "cut_last (CHR ''/'') (p @ ''/'' @ s) = Some (p, s)" by (simp add: cut_last_Some_iff)
  then show ?thesis by (simp add: refText_def)
qed

section \<open>What a transport may rely on\<close>

text \<open>
  The bridge's narrow registry interface, with what its provider promises: the listing names
  exactly the exposed keys.
\<close>

locale bridge_registry =
  fixes is_exposed :: "capability_ref \<Rightarrow> 'r \<Rightarrow> bool" and list_exposed :: "'r \<Rightarrow> capability_ref list"
    and ok :: "'r \<Rightarrow> bool"
  assumes exposed_listed: "ok r \<Longrightarrow> is_exposed ref r \<longleftrightarrow> cap_key ref \<in> cap_key ` set (list_exposed r)"
begin

lemma listed_exposed: "ok r \<Longrightarrow> ref \<in> set (list_exposed r) \<Longrightarrow> is_exposed ref r"
  by (simp add: exposed_listed)

lemma same_key_exposed: "ok r \<Longrightarrow> cap_key a = cap_key b \<Longrightarrow> is_exposed a r = is_exposed b r"
  by (simp add: exposed_listed)

text \<open>A key that was listed and is sent back as text passes the exposure test.\<close>

lemma parsed_listed_exposed:
  assumes "ok r" "ref \<in> set (list_exposed r)" "ParseRef (cap_key ref) = Inr parsed"
  shows "is_exposed parsed r"
  using assms listed_exposed same_key_exposed ParseRef_key by metis

text \<open>What a transport serves is in the listing.\<close>

lemma served_listed:
  assumes "ok r" "ParseRef s = Inr parsed" "is_exposed parsed r"
  shows "s \<in> cap_key ` set (list_exposed r)"
  using assms exposed_listed ParseRef_key by metis

end

interpretation kernel_bridge: bridge_registry IsExposed ListExposed registry_inv
  by unfold_locales (rule IsExposed_listed)

section \<open>Two transports, one meaning\<close>

text \<open>The HTTP status that stands for a gRPC code.\<close>

fun http_of :: "grpc_code \<Rightarrow> nat" where
  "http_of NotFound = StatusNotFound"
| "http_of PermissionDenied = StatusForbidden"
| "http_of InvalidArgument = StatusBadRequest"
| "http_of Unauthenticated = StatusUnauthorized"
| "http_of Internal = StatusInternalServerError"

lemma StatusFor_grpc: "StatusFor err = http_of (grpcCodeFor err)"
  by (simp add: StatusFor_def grpcCodeFor_def)

lemma publicMessage_grpc: "publicMessage (http_of code) = publicGRPCMessage code"
  by (cases code) (simp_all add: publicMessage_def http_status_defs)

definition as_http :: "string grpc_result \<Rightarrow> http_response" where
  "as_http ans = (case ans of
     Inr encoded \<Rightarrow> \<lparr>rsp_status = StatusOK, rsp_body = EncodedBody encoded\<rparr>
   | Inl (code, message) \<Rightarrow> writeError (http_of code) message)"

lemma read_limited_small:
  "length (req_body r) < n \<Longrightarrow> req_body_err r = None \<Longrightarrow> read_limited n r = Inr (req_body r)"
  by (simp add: read_limited_def)

lemma read_limited_large: "length (req_body r) \<ge> n \<Longrightarrow> read_limited n r = Inr (take n (req_body r))"
  by (simp add: read_limited_def)

lemma MaxRequestBytes_pos: "length ''{}'' \<le> MaxRequestBytes"
  by (simp add: MaxRequestBytes_def)

lemma Dispatch_as_http:
  assumes rt: "refText (req_path q) = cap" and "req_body_err q = None" and "length (req_body q) \<le> MaxRequestBytes"
  shows "Dispatch exposed call marshal q w =
    map_prod as_http (\<lambda>w. w) (GRPC_Call exposed call marshal (req_ctx q) cap (req_body q) w)"
proof -
  have body: "read_limited (Suc MaxRequestBytes) q = Inr (req_body q)"
    using assms(2,3) by (simp add: read_limited_small)
  have small: "\<not> MaxRequestBytes < length (req_body q)" "\<not> MaxRequestBytes < length ''{}''"
    using assms(3) MaxRequestBytes_pos by simp_all
  show ?thesis
  proof (cases "ParseRef cap")
    case (Inr ref)
    obtain res e w' where c: "call (req_ctx q) ref (if req_body q = [] then ''{}'' else req_body q) w = ((res, e), w')"
      by (metis prod.exhaust)
    show ?thesis
      using small c by (cases "exposed ref"; cases e; cases "encodeResult res marshal"; cases "req_body q = []")
        (simp_all add: Dispatch_def GRPC_Call_def rt body Inr as_http_def Let_def
          StatusFor_grpc publicMessage_grpc)
  qed (use small in \<open>simp add: Dispatch_def GRPC_Call_def rt as_http_def\<close>)
qed

section \<open>Properties\<close>

text \<open>
  C24: the outside world sees the exposed capabilities and nothing else. Two deployments that
  list the same exposed capabilities and serve those with the same handlers answer every
  request, well formed or not, over either transport, in the same way and with the same
  effects, whatever other capabilities, modules and hooks either of them has. So no request
  distinguishes an internal capability from one that does not exist.
\<close>

theorem bridge_noninterference:
  fixes r1 r2 :: "('v, 'w) registry"
  assumes "reachable_registry r1" and "reachable_registry r2" and "ListExposed r1 = ListExposed r2"
    and "\<forall>ref\<in>set (ListExposed r1). ResolveCapability ref r1 = ResolveCapability ref r2"
  shows "Dispatch (\<lambda>ref. IsExposed ref r1) (dispatchCapabilityCtx r1) marshal q w
           = Dispatch (\<lambda>ref. IsExposed ref r2) (dispatchCapabilityCtx r2) marshal q w \<and>
         GRPC_Call (\<lambda>ref. IsExposed ref r1) (dispatchCapabilityCtx r1) marshal ctx cap payload w
           = GRPC_Call (\<lambda>ref. IsExposed ref r2) (dispatchCapabilityCtx r2) marshal ctx cap payload w"
proof -
  note inv = assms(1,2)[THEN reachable_registry_inv]
  have exp: "IsExposed ref r1 = IsExposed ref r2" for ref
    using inv[THEN kernel_bridge.exposed_listed, of ref] assms(3) by simp
  have "dispatchCapabilityCtx r1 c ref p w = dispatchCapabilityCtx r2 c ref p w" if exposed: "IsExposed ref r1" for c ref p w
  proof -
    obtain ref' where "ref' \<in> set (ListExposed r1)" "cap_key ref' = cap_key ref"
      using exposed kernel_bridge.exposed_listed[OF inv(1)] by force
    then have "ResolveCapability ref r1 = ResolveCapability ref r2"
      using assms(4) by (metis ResolveCapability_def)
    then show ?thesis by (simp add: dispatchCapabilityCtx_def Bus_Call_def)
  qed
  then show ?thesis
    using exp by (auto simp: Dispatch_def GRPC_Call_def Let_def split: sum.splits)
qed

text \<open>A deployment with one capability that is not exposed, against an empty one.\<close>

definition internal_module :: "(unit, string list) gomodule" where
  "internal_module = (sample_module ''b'')\<lparr>m_desc := (m_desc (sample_module ''b''))\<lparr>d_exposed := []\<rparr>\<rparr>"

definition internal_registry :: "(unit, string list) registry" where
  "internal_registry = snd (RegisterModule internal_module registry_New)"

lemmas internal_eval = internal_registry_def internal_module_def register_eval registry_New_def

lemma internal_registered: "RegisterModule internal_module registry_New = (None, internal_registry)"
  by (simp add: internal_eval)

theorem bridge_noninterference_witness:
  "ResolveCapability (CapabilityRef ''x'' ''v1'') internal_registry \<noteq> None \<and>
   (\<forall>marshal q w. Dispatch (\<lambda>ref. IsExposed ref internal_registry) (dispatchCapabilityCtx internal_registry) marshal q w =
     Dispatch (\<lambda>ref. IsExposed ref (registry_New :: (unit, string list) registry))
       (dispatchCapabilityCtx registry_New) marshal q w)"
proof -
  have r: "reachable_registry internal_registry" by (rule registered[OF fresh internal_registered])
  have l: "ListExposed internal_registry = []" "ListExposed (registry_New :: (unit, string list) registry) = []"
    and c: "ResolveCapability (CapabilityRef ''x'' ''v1'') internal_registry \<noteq> None"
    by (simp_all add: internal_eval ListExposed_def ResolveCapability_def)
  have "ListExposed internal_registry = ListExposed (registry_New :: (unit, string list) registry)" and
    "\<forall>ref\<in>set (ListExposed internal_registry). ResolveCapability ref internal_registry = ResolveCapability ref registry_New"
    by (simp_all add: l)
  from bridge_noninterference[OF r fresh this] c show ?thesis by blast
qed

text \<open>
  A capability is one capability over both transports. When the same reference and the
  same payload of at most the request limit arrive over HTTP, as the last path segment and
  the body, and over gRPC, the two make the same call with the same effects and give the same
  answer: the same encoded result, or the same message under the corresponding status. A
  larger payload is refused by both before anything is called.
\<close>

theorem transports_agree:
  assumes "req_path q = ''/'' @ route @ ''/'' @ cap" and "CHR ''/'' \<notin> set cap" and "req_body_err q = None"
  shows "(length (req_body q) \<le> MaxRequestBytes \<longrightarrow>
      Dispatch exposed call marshal q w =
        map_prod as_http (\<lambda>w. w) (GRPC_Call exposed call marshal (req_ctx q) cap (req_body q) w)) \<and>
    (length (req_body q) > MaxRequestBytes \<longrightarrow>
      (\<exists>rsp code msg. Dispatch exposed call marshal q w = (rsp, w) \<and> 400 \<le> rsp_status rsp \<and>
         GRPC_Call exposed call marshal (req_ctx q) cap (req_body q) w = (Inl (code, msg), w)))"
proof -
  have rt: "refText (req_path q) = cap" using assms(1,2) refText_last by simp
  show ?thesis
  proof (cases "length (req_body q) \<le> MaxRequestBytes")
    case True
    then show ?thesis using Dispatch_as_http [of q, OF rt assms(3) True] by simp
  next
    case False
    then have body: "read_limited (Suc MaxRequestBytes) q = Inr (take (Suc MaxRequestBytes) (req_body q))"
      by (simp add: read_limited_large)
    then show ?thesis
      using False by (cases "ParseRef cap"; cases "exposed (projr (ParseRef cap))")
        (auto simp add: Dispatch_def GRPC_Call_def rt Let_def writeError_def http_status_defs)
  qed
qed

theorem transports_agree_witness:
  "Dispatch (\<lambda>ref. IsExposed ref sample_registry) (dispatchCapabilityCtx sample_registry) (\<lambda>v. Inr ''null'')
     \<lparr>req_path = ''/v1/x@v1'', req_body = [], req_body_err = None, req_ctx = Background\<rparr> [] =
   map_prod as_http (\<lambda>w. w) (GRPC_Call (\<lambda>ref. IsExposed ref sample_registry)
     (dispatchCapabilityCtx sample_registry) (\<lambda>v. Inr ''null'') Background ''x@v1'' [] [])"
proof -
  let ?q = "\<lparr>req_path = ''/v1/x@v1'', req_body = [], req_body_err = None, req_ctx = Background\<rparr>"
  have q: "req_path ?q = ''/'' @ ''v1'' @ ''/'' @ ''x@v1''" "CHR ''/'' \<notin> set ''x@v1''" "req_body_err ?q = None"
    by simp_all
  from transports_agree[OF q, of "\<lambda>ref. IsExposed ref sample_registry"
      "dispatchCapabilityCtx sample_registry" "\<lambda>v. Inr ''null''" "[]", THEN conjunct1]
  show ?thesis by simp
qed

text \<open>
  What reaches a handler is bounded. Neither transport ever calls a capability that is
  not exposed, or with an empty payload, or with one of more than 1 MiB: replacing the kernel
  call by one that behaves differently on any such argument changes no answer and no effect.
\<close>

theorem bridge_calls_bounded:
  assumes "\<And>c ref p w. exposed ref \<Longrightarrow> p \<noteq> [] \<Longrightarrow> length p \<le> 2 ^ 20 \<Longrightarrow> call c ref p w = call' c ref p w"
  shows "Dispatch exposed call marshal q w = Dispatch exposed call' marshal q w \<and>
         GRPC_Call exposed call marshal ctx cap payload w = GRPC_Call exposed call' marshal ctx cap payload w"
proof -
  have same: "exposed ref \<Longrightarrow> call c ref ''{}'' w = call' c ref ''{}'' w"
    "exposed ref \<Longrightarrow> p \<noteq> [] \<Longrightarrow> \<not> length p > MaxRequestBytes \<Longrightarrow> call c ref p w = call' c ref p w" for c ref p w
    using assms[of ref "''{}''" c w] assms[of ref p c w] by (simp_all add: MaxRequestBytes_def)
  have small: "length (if p = [] then ''{}'' else p) > MaxRequestBytes \<longleftrightarrow> length p > MaxRequestBytes" for p :: string
    by (simp add: MaxRequestBytes_def)
  show ?thesis unfolding Dispatch_def GRPC_Call_def Let_def small
    by (auto simp: same split: sum.splits)
qed

text \<open>A call that panics on what it must never be given.\<close>

theorem bridge_calls_bounded_witness:
  "\<forall>q w. Dispatch (\<lambda>_. True) (\<lambda>c ref p w. if p = [] then undefined else ((ARaw p, None), Suc w))
       (\<lambda>v :: unit goany. Inr ''null'') q w =
     Dispatch (\<lambda>_. True) (\<lambda>c ref p w. ((ARaw p, None), Suc w)) (\<lambda>v :: unit goany. Inr ''null'') q w"
proof (intro allI)
  fix q and w :: nat
  show "Dispatch (\<lambda>_. True) (\<lambda>c ref p w. if p = [] then undefined else ((ARaw p, None), Suc w))
       (\<lambda>v :: unit goany. Inr ''null'') q w =
     Dispatch (\<lambda>_. True) (\<lambda>c ref p w. ((ARaw p, None), Suc w)) (\<lambda>v :: unit goany. Inr ''null'') q w"
    by (rule bridge_calls_bounded[THEN conjunct1]) simp
qed

end
