(* ===== verification/Typed.thy ===== *)
theory Typed
  imports Bridge
begin

text \<open>
  The typed edges of \<^verbatim>\<open>pkg/modulekit/typed.go\<close>, which turn the registry's values of type \<open>any\<close> into
  the concrete types of a contract and back, and how they make a capability the same from
  inside the process and from a transport.

  A type parameter is a named Go type: its name as \<open>%T\<close> prints it, and \<open>json.Unmarshal\<close>
  into it, which depends on the type's fields and is therefore part of the instantiation. A
  result pair whose error is not nil is returned as the error alone: the value beside it is
  the type's zero value.
\<close>

record 'v gotype =
  ty_name :: string
  ty_unmarshal :: "string \<Rightarrow> gerr + 'v"

text \<open>\<open>%T\<close> of a value.\<close>

fun dyn_type :: "'v goany \<Rightarrow> string" where
  "dyn_type ANil = ''<nil>''"
| "dyn_type (ARaw _) = ''modulekit.RawPayload''"
| "dyn_type (ARej _) = ''modulekit.Rejection''"
| "dyn_type (ARejPtr _) = ''*modulekit.Rejection''"
| "dyn_type (AVal n _) = n"
| "dyn_type (APtr n _) = ''*'' @ n"

definition coerce :: "'v gotype \<Rightarrow> 'v goany \<Rightarrow> gerr + 'v" where
  "coerce T v =
     (let mismatch = Inl (wrapf ErrTypeMismatch [''got '', dyn_type v, '', want '', ty_name T]) in
      case v of
        AVal n x \<Rightarrow> if n = ty_name T then Inr x else mismatch
      | APtr n (Some x) \<Rightarrow> if n = ty_name T then Inr x else mismatch
      | ARaw raw \<Rightarrow>
          (case ty_unmarshal T raw of
             Inl e \<Rightarrow> Inl (wrapf ErrTypeMismatch [''decoding into '', ty_name T, '': '', err_text e])
           | Inr x \<Rightarrow> Inr x)
      | _ \<Rightarrow> mismatch)"

type_synonym ('v, 'w) typed_fn = "go_ctx \<Rightarrow> 'v \<Rightarrow> 'w \<Rightarrow> ('v \<times> gerr option) \<times> 'w"

definition HandleTyped ::
  "'v gotype \<Rightarrow> 'v gotype \<Rightarrow> capability_ref \<Rightarrow> ('v, 'w) typed_fn \<Rightarrow> ('v, 'w) registry
     \<Rightarrow> gerr option \<times> ('v, 'w) registry" where
  "HandleTyped Req Resp ref fn =
     RegisterCapability ref (\<lambda>ctx request w.
       case coerce Req request of
         Inl err \<Rightarrow> ((ANil, Some (prefixf [''capability '', cap_key ref] err)), w)
       | Inr req \<Rightarrow> (let ((resp, err), w') = fn ctx req w in ((AVal (ty_name Resp) resp, err), w')))"

type_synonym ('v, 'w) caller = "go_ctx \<Rightarrow> capability_ref \<Rightarrow> 'v goany \<Rightarrow> 'w \<Rightarrow> ('v goany \<times> gerr option) \<times> 'w"

definition CallTyped ::
  "'v gotype \<Rightarrow> 'v gotype \<Rightarrow> go_ctx \<Rightarrow> ('v, 'w) caller \<Rightarrow> capability_ref \<Rightarrow> 'v \<Rightarrow> 'w \<Rightarrow> (gerr + 'v) \<times> 'w" where
  "CallTyped Req Resp ctx caller ref req w =
     (case caller ctx ref (AVal (ty_name Req) req) w of
        ((result, Some err), w') \<Rightarrow> (Inl err, w')
      | ((result, None), w') \<Rightarrow>
          (case coerce Resp result of
             Inl err \<Rightarrow> (Inl (prefixf [''capability '', cap_key ref, '' response''] err), w')
           | Inr resp \<Rightarrow> (Inr resp, w')))"

definition SubscribeTyped ::
  "'v gotype \<Rightarrow> hook_ref \<Rightarrow> string \<Rightarrow> int \<Rightarrow> (go_ctx \<Rightarrow> 'v \<Rightarrow> 'w \<Rightarrow> 'v hook_run \<times> 'w)
     \<Rightarrow> ('v, 'w) registry \<Rightarrow> gerr option \<times> ('v, 'w) registry" where
  "SubscribeTyped T ref moduleID priority fn =
     Registry_Subscribe \<lparr>sub_ref = ref, sub_module = moduleID, sub_priority = priority,
       sub_handler = Some (\<lambda>ctx value w.
         case coerce T value of
           Inl err \<Rightarrow> (HReturn ANil (Some (prefixf [''hook '', hook_key ref, '' subscriber '', moduleID] err)), w)
         | Inr typed \<Rightarrow> fn ctx typed w)\<rparr>"

text \<open>One run of a typed transformer, before its result is put into an \<open>any\<close>.\<close>

datatype 'v typed_run = TReturn 'v "gerr option" | TPanic string | TBlocked "gerr option"

fun untyped_run :: "'v gotype \<Rightarrow> 'v typed_run \<Rightarrow> 'v hook_run" where
  "untyped_run T (TReturn x e) = HReturn (AVal (ty_name T) x) e"
| "untyped_run T (TPanic p) = HPanic p"
| "untyped_run T (TBlocked e) = HBlocked e"

definition TransformTyped ::
  "'v gotype \<Rightarrow> hook_ref \<Rightarrow> string \<Rightarrow> int \<Rightarrow> (go_ctx \<Rightarrow> 'v \<Rightarrow> 'w \<Rightarrow> 'v typed_run \<times> 'w)
     \<Rightarrow> ('v, 'w) registry \<Rightarrow> gerr option \<times> ('v, 'w) registry" where
  "TransformTyped T ref moduleID priority fn =
     SubscribeTyped T ref moduleID priority (\<lambda>ctx value w. map_prod (untyped_run T) (\<lambda>w. w) (fn ctx value w))"

section \<open>Coercion\<close>

lemma coerce_val [simp]: "coerce T (AVal (ty_name T) x) = Inr x" "coerce T (APtr (ty_name T) (Some x)) = Inr x"
  by (simp_all add: coerce_def)

lemma coerce_raw: "ty_unmarshal T raw = Inr x \<Longrightarrow> coerce T (ARaw raw) = Inr x"
  by (simp add: coerce_def)

text \<open>Every failure is a type mismatch, which the transports report as the caller's fault.\<close>

lemma coerce_mismatch:
  assumes "coerce T v = Inl err"
  shows "StatusFor (prefixf ps err) = StatusBadRequest"
proof -
  obtain qs where "err = wrapf ErrTypeMismatch qs"
    using assms by (auto simp: coerce_def Let_def split: goany.splits option.splits sum.splits if_splits)
  then show ?thesis
    by (simp add: StatusFor_def prefixf_def wrapf_def sentinel_defs ErrNoTenantContext_def)
qed

lemma HandleTyped_resolves:
  assumes "HandleTyped Req Resp ref fn r = (None, r')"
  shows "Bus_Call r' ctx ref request w =
    (case coerce Req request of
       Inl err \<Rightarrow> ((ANil, Some (prefixf [''capability '', cap_key ref] err)), w)
     | Inr req \<Rightarrow> (let ((resp, err), w') = fn ctx req w in ((AVal (ty_name Resp) resp, err), w')))"
  using assms
  by (auto simp: HandleTyped_def RegisterCapability_def Bus_Call_def ResolveCapability_def split: option.splits)

section \<open>Properties\<close>

text \<open>
  C31: one capability, any tier. After a typed capability was registered, a typed call through
  the bus returns exactly what the provider's function returns on that request, errors and
  effects included. A transport that delivers any encoding of the request that decodes to it
  gets the same as the in-process call, without the provider seeing a difference; and a
  payload that does not decode is never given to the provider and answered as a bad request.
\<close>

theorem typed_capability_any_tier:
  assumes "HandleTyped Req Resp ref fn r = (None, r')"
  shows "CallTyped Req Resp ctx (Bus_Call r') ref req w =
      (case fn ctx req w of ((resp, None), w') \<Rightarrow> (Inr resp, w') | ((resp, Some err), w') \<Rightarrow> (Inl err, w')) \<and>
    (case ty_unmarshal Req payload of
       Inr x \<Rightarrow> dispatchCapabilityCtx r' ctx ref payload w = Bus_Call r' ctx ref (AVal (ty_name Req) x) w
     | Inl e \<Rightarrow> (\<exists>err. dispatchCapabilityCtx r' ctx ref payload w = ((ANil, Some err), w) \<and>
         StatusFor err = StatusBadRequest))"
proof (intro conjI)
  show "CallTyped Req Resp ctx (Bus_Call r') ref req w =
      (case fn ctx req w of ((resp, None), w') \<Rightarrow> (Inr resp, w') | ((resp, Some err), w') \<Rightarrow> (Inl err, w'))"
    by (simp add: CallTyped_def HandleTyped_resolves[OF assms] Let_def split: prod.splits option.splits)
next
  show "case ty_unmarshal Req payload of
       Inr x \<Rightarrow> dispatchCapabilityCtx r' ctx ref payload w = Bus_Call r' ctx ref (AVal (ty_name Req) x) w
     | Inl e \<Rightarrow> (\<exists>err. dispatchCapabilityCtx r' ctx ref payload w = ((ANil, Some err), w) \<and>
         StatusFor err = StatusBadRequest)"
  proof (cases "ty_unmarshal Req payload")
    case (Inl e)
    then obtain err where "coerce Req (ARaw payload) = Inl err" by (auto simp: coerce_def)
    with coerce_mismatch[OF this] Inl show ?thesis
      by (simp add: dispatchCapabilityCtx_def HandleTyped_resolves[OF assms])
  next
    case (Inr x)
    then show ?thesis
      by (simp add: dispatchCapabilityCtx_def HandleTyped_resolves[OF assms] coerce_raw)
  qed
qed

text \<open>A capability that doubles a number, over decimal payloads of one digit.\<close>

definition digit_type :: "int gotype" where
  "digit_type = \<lparr>ty_name = ''demo.Digit'',
     ty_unmarshal = (\<lambda>p. if p = ''4'' then Inr 4 else Inl (ErrNew ''bad digit''))\<rparr>"

definition double_fn :: "(int, nat) typed_fn" where
  "double_fn ctx x w = ((2 * x, None), Suc w)"

theorem typed_capability_any_tier_witness:
  "\<exists>r'. HandleTyped digit_type digit_type (CapabilityRef ''double'' ''v1'') double_fn registry_New = (None, r') \<and>
     CallTyped digit_type digit_type Background (Bus_Call r') (CapabilityRef ''double'' ''v1'') 4 0 = (Inr 8, 1) \<and>
     dispatchCapabilityCtx r' Background (CapabilityRef ''double'' ''v1'') ''4'' 0 =
       Bus_Call r' Background (CapabilityRef ''double'' ''v1'') (AVal ''demo.Digit'' 4) 0"
proof -
  let ?ref = "CapabilityRef ''double'' ''v1''"
  obtain r' where r: "HandleTyped digit_type digit_type ?ref double_fn registry_New = (None, r')"
    by (simp add: HandleTyped_def RegisterCapability_def registry_New_def)
  show ?thesis
    using typed_capability_any_tier[OF r, of Background 4 0 "''4''"] r
    by (auto simp: digit_type_def double_fn_def)
qed
end
