(* ===== verification/Portable.thy ===== *)
theory Portable
  imports Prelude
begin

text \<open>
  The tier check of \<^verbatim>\<open>pkg/modulekit/portable.go\<close>: whether a contract type can cross a process
  boundary. What \<open>reflect\<close> tells about types is a finite table from a type's identity to its
  kind, so that types may refer to themselves and to each other; a type outside the table is
  of a kind without components. The walk recurses once per type, so it is given as much fuel
  as there are types, and one more for a leaf outside the table: \<open>checkPortable_fuel\<close> shows
  that this is always enough.
\<close>

record rfield =
  rf_name :: string
  rf_exported :: bool
  rf_zero_size :: bool
  rf_type :: string

datatype rkind =
    KOpaque string
  | KElem string
  | KMap string string
  | KStruct "rfield list"
  | KScalar

record rtypes =
  rt_kind :: "rkind gomap"
  rt_string :: "string \<Rightarrow> string"

definition kind_of :: "rtypes \<Rightarrow> string \<Rightarrow> rkind" where
  "kind_of E t = (case mget (rt_kind E) t of Some k \<Rightarrow> k | None \<Rightarrow> KScalar)"

definition ErrNotPortable :: gerr where
  "ErrNotPortable = ErrNew ''modulekit: contract is not portable across tiers''"

definition describe :: "rtypes \<Rightarrow> string \<Rightarrow> string list \<Rightarrow> string" where
  "describe E root path =
     (if path = [] then rt_string E root else rt_string E root @ ''.'' @ join ''.'' path)"

text \<open>The result of a walk: the error, if any, and the types seen by then.\<close>

type_synonym walk = "gerr option \<times> string list"

text \<open>The loop over a struct's fields, with the walk of a field's type as an argument.\<close>

fun check_fields ::
  "(string \<Rightarrow> string list \<Rightarrow> string list \<Rightarrow> walk option) \<Rightarrow> (string list \<Rightarrow> gerr) \<Rightarrow> string list
     \<Rightarrow> rfield list \<Rightarrow> string list \<Rightarrow> walk option" where
  "check_fields check hidden path [] seen = Some (None, seen)"
| "check_fields check hidden path (f # fs) seen =
     (if \<not> rf_exported f
      then (if rf_zero_size f then check_fields check hidden path fs seen
            else Some (Some (hidden (path @ [rf_name f])), seen))
      else (case check (rf_type f) (path @ [rf_name f]) seen of
              Some (None, seen') \<Rightarrow> check_fields check hidden path fs seen'
            | other \<Rightarrow> other))"

primrec checkPortable ::
  "nat \<Rightarrow> rtypes \<Rightarrow> string \<Rightarrow> string \<Rightarrow> string list \<Rightarrow> string list \<Rightarrow> walk option" where
  "checkPortable 0 E root t path seen = None"
| "checkPortable (Suc n) E root t path seen =
     (if t \<in> set seen then Some (None, seen)
      else (let seen = t # seen in
        case kind_of E t of
          KOpaque kind \<Rightarrow>
            Some (Some (wrapf ErrNotPortable
              [describe E root path, '' is a '', kind, '', which has no representation outside this process'']), seen)
        | KElem u \<Rightarrow> checkPortable n E root u path seen
        | KMap k v \<Rightarrow>
            (case checkPortable n E root k (path @ [''key'']) seen of
               Some (None, seen') \<Rightarrow> checkPortable n E root v (path @ [''value'']) seen'
             | other \<Rightarrow> other)
        | KStruct fs \<Rightarrow>
            check_fields (checkPortable n E root)
              (\<lambda>p. wrapf ErrNotPortable [describe E root p,
                 '' is unexported, so an encoder cannot read it and the value would arrive incomplete''])
              path fs seen
        | KScalar \<Rightarrow> Some (None, seen)))"

definition AssertPortable :: "rtypes \<Rightarrow> string option \<Rightarrow> gerr option option" where
  "AssertPortable E v =
     (case v of
        None \<Rightarrow> Some (Some (wrapf ErrNotPortable [''nil carries no type'']))
      | Some root \<Rightarrow>
          map_option fst (checkPortable (length (rt_kind E) + 1) E root root [] []))"

section \<open>What it decides\<close>

text \<open>A type that cannot cross on its own account, and the types whose values it carries.\<close>

definition intrinsically_bad :: "rtypes \<Rightarrow> string \<Rightarrow> bool" where
  "intrinsically_bad E t = (case kind_of E t of
     KOpaque _ \<Rightarrow> True
   | KStruct fs \<Rightarrow> list_ex (\<lambda>f. \<not> rf_exported f \<and> \<not> rf_zero_size f) fs
   | _ \<Rightarrow> False)"

definition carries :: "rtypes \<Rightarrow> string \<Rightarrow> string set" where
  "carries E t = (case kind_of E t of
     KElem u \<Rightarrow> {u} | KMap k v \<Rightarrow> {k, v} | KStruct fs \<Rightarrow> rf_type ` set (filter rf_exported fs) | _ \<Rightarrow> {})"

inductive reaches :: "rtypes \<Rightarrow> string \<Rightarrow> string \<Rightarrow> bool" for E t where
  refl: "reaches E t t"
| step: "reaches E t u \<Longrightarrow> v \<in> carries E u \<Longrightarrow> reaches E t v"

definition doomed :: "rtypes \<Rightarrow> string \<Rightarrow> bool" where
  "doomed E t \<longleftrightarrow> (\<exists>u. reaches E t u \<and> intrinsically_bad E u)"

lemma doomed_self: "intrinsically_bad E t \<Longrightarrow> doomed E t"
  unfolding doomed_def by (blast intro: reaches.refl)

lemma reaches_first: "reaches E u v \<Longrightarrow> u \<in> carries E t \<Longrightarrow> reaches E t v"
  by (induction rule: reaches.induct) (blast intro: reaches.intros)+

lemma doomed_carries: "doomed E u \<Longrightarrow> u \<in> carries E t \<Longrightarrow> doomed E t"
  unfolding doomed_def by (blast intro: reaches_first)

text \<open>What a clean walk leaves: everything new has been looked at and is fine.\<close>

definition clean_walk :: "rtypes \<Rightarrow> string list \<Rightarrow> string list \<Rightarrow> bool" where
  "clean_walk E seen seen' \<longleftrightarrow> set seen \<subseteq> set seen' \<and>
     (\<forall>u\<in>set seen' - set seen. \<not> intrinsically_bad E u \<and> carries E u \<subseteq> set seen')"

lemma clean_walk_refl [simp]: "clean_walk E s s"
  by (simp add: clean_walk_def)

lemma clean_walk_subset: "clean_walk E a b \<Longrightarrow> set a \<subseteq> set b"
  by (simp add: clean_walk_def)

lemma clean_walkD: "clean_walk E a b \<Longrightarrow> u \<in> set b \<Longrightarrow> u \<notin> set a \<Longrightarrow> \<not> intrinsically_bad E u \<and> carries E u \<subseteq> set b"
  by (simp add: clean_walk_def)

lemma clean_walk_trans:
  assumes "clean_walk E a b" "clean_walk E b c"
  shows "clean_walk E a c"
  unfolding clean_walk_def
proof (intro conjI ballI)
  show "set a \<subseteq> set c" using assms by (blast dest: clean_walk_subset)
  fix u assume u: "u \<in> set c - set a"
  show "\<not> intrinsically_bad E u" and "carries E u \<subseteq> set c"
    using u assms clean_walkD[of E a b u] clean_walkD[of E b c u] clean_walk_subset[of E b c] by blast+
qed

text \<open>The outcome of walking the types \<open>ts\<close>: clean, or an error that some bad type explains.\<close>

definition walk_ok :: "rtypes \<Rightarrow> string set \<Rightarrow> string list \<Rightarrow> walk option \<Rightarrow> bool" where
  "walk_ok E ts seen res = (case res of
     None \<Rightarrow> True
   | Some (None, seen') \<Rightarrow> clean_walk E seen seen' \<and> ts \<subseteq> set seen'
   | Some (Some e, _) \<Rightarrow> errors_is e ErrNotPortable \<and> (\<exists>t\<in>ts. doomed E t))"

lemma check_fields_ok:
  assumes "\<And>t path seen. walk_ok E {t} seen (check t path seen)" and "\<And>p. errors_is (hidden p) ErrNotPortable"
    and "check_fields check hidden path fs seen = Some (r, seen')"
  shows "case r of
     None \<Rightarrow> clean_walk E seen seen' \<and> rf_type ` set (filter rf_exported fs) \<subseteq> set seen' \<and>
       \<not> list_ex (\<lambda>f. \<not> rf_exported f \<and> \<not> rf_zero_size f) fs
   | Some e \<Rightarrow> errors_is e ErrNotPortable \<and> (list_ex (\<lambda>f. \<not> rf_exported f \<and> \<not> rf_zero_size f) fs \<or>
       (\<exists>t\<in>rf_type ` set (filter rf_exported fs). doomed E t))"
  using assms(3)
proof (induction fs arbitrary: seen)
  case (Cons f fs)
  show ?case
  proof (cases "rf_exported f")
    case True
    obtain r1 s1 where c: "check (rf_type f) (path @ [rf_name f]) seen = Some (r1, s1)"
      using Cons.prems True by (auto split: option.splits)
    note w = assms(1)[of "rf_type f" seen "path @ [rf_name f]", unfolded c walk_ok_def, simplified]
    show ?thesis
    proof (cases r1)
      case None
      have "clean_walk E seen s1" "rf_type f \<in> set s1" using w None by auto
      moreover from Cons.prems True c None have "check_fields check hidden path fs s1 = Some (r, seen')" by simp
      from Cons.IH[OF this] have "case r of
         None \<Rightarrow> clean_walk E s1 seen' \<and> rf_type ` set (filter rf_exported fs) \<subseteq> set seen' \<and>
           \<not> list_ex (\<lambda>f. \<not> rf_exported f \<and> \<not> rf_zero_size f) fs
       | Some e \<Rightarrow> errors_is e ErrNotPortable \<and> (list_ex (\<lambda>f. \<not> rf_exported f \<and> \<not> rf_zero_size f) fs \<or>
           (\<exists>t\<in>rf_type ` set (filter rf_exported fs). doomed E t))" .
      ultimately show ?thesis using True
        by (cases r) (auto dest: clean_walk_trans clean_walk_subset)
    next
      case (Some e)
      with Cons.prems True c have "r = Some e" by simp
      with w Some True show ?thesis by auto
    qed
  next
    case False
    show ?thesis
    proof (cases "rf_zero_size f")
      case True
      with Cons.IH[of seen] Cons.prems False show ?thesis by (cases r) simp_all
    next
      case False
      with \<open>\<not> rf_exported f\<close> Cons.prems show ?thesis by (auto simp: assms(2))
    qed
  qed
qed simp

lemma clean_walk_Cons:
  assumes "clean_walk E (t # seen) seen'" "\<not> intrinsically_bad E t" "carries E t \<subseteq> set seen'"
  shows "clean_walk E seen seen' \<and> t \<in> set seen'"
  using assms by (auto simp: clean_walk_def)

lemma wrapf_not_portable: "errors_is (wrapf ErrNotPortable ps) ErrNotPortable"
  by (simp add: wrapf_def ErrNotPortable_def)

lemma checkPortable_ok: "walk_ok E {t} seen (checkPortable n E root t path seen)"
proof (induction n arbitrary: t path seen)
  case (Suc n)
  show ?case
  proof (cases "t \<in> set seen")
    case False
    show ?thesis
    proof (cases "kind_of E t")
      case (KOpaque k)
      then have "intrinsically_bad E t" by (simp add: intrinsically_bad_def)
      with False KOpaque show ?thesis
        by (auto simp: walk_ok_def wrapf_not_portable intro: doomed_self)
    next
      case (KElem u)
      then have t: "\<not> intrinsically_bad E t" "carries E t = {u}" by (simp_all add: intrinsically_bad_def carries_def)
      show ?thesis
        using Suc.IH[of u "t # seen" path] False KElem t
        by (auto simp: walk_ok_def split: option.splits dest: clean_walk_Cons intro: doomed_carries)
    next
      case (KMap k v)
      then have t: "\<not> intrinsically_bad E t" "carries E t = {k, v}" by (simp_all add: intrinsically_bad_def carries_def)
      note IH = Suc.IH[of k "t # seen" "path @ [''key'']", unfolded walk_ok_def]
      show ?thesis
      proof (cases "checkPortable n E root k (path @ [''key'']) (t # seen)")
        case (Some w)
        then obtain r s where w: "checkPortable n E root k (path @ [''key'']) (t # seen) = Some (r, s)" by (cases w) auto
        show ?thesis
        proof (cases r)
          case None
          have k: "clean_walk E (t # seen) s" "k \<in> set s" using IH w None by auto
          have "clean_walk E seen s' \<and> t \<in> set s'" if s': "clean_walk E s s'" "v \<in> set s'" for s'
          proof -
            have "carries E t \<subseteq> set s'" using t k(2) s'(2) clean_walk_subset[OF s'(1)] by auto
            then show ?thesis using clean_walk_Cons[OF clean_walk_trans[OF k(1) s'(1)] t(1)] by simp
          qed
          then show ?thesis
            using Suc.IH[of v s "path @ [''value'']"] False KMap t w None
            by (auto simp: walk_ok_def split: option.splits intro: doomed_carries)
        next
          case (Some e)
          with IH w False KMap t show ?thesis by (auto simp: walk_ok_def intro: doomed_carries)
        qed
      qed (use False KMap in \<open>simp add: walk_ok_def\<close>)
    next
      case (KStruct fs)
      let ?hidden = "\<lambda>p. wrapf ErrNotPortable [describe E root p,
        '' is unexported, so an encoder cannot read it and the value would arrive incomplete'']"
      have t: "intrinsically_bad E t = list_ex (\<lambda>f. \<not> rf_exported f \<and> \<not> rf_zero_size f) fs"
        "carries E t = rf_type ` set (filter rf_exported fs)"
        using KStruct by (simp_all add: intrinsically_bad_def carries_def)
      show ?thesis
      proof (cases "check_fields (checkPortable n E root) ?hidden path fs (t # seen)")
        case (Some w)
        then obtain r s where w: "check_fields (checkPortable n E root) ?hidden path fs (t # seen) = Some (r, s)"
          by (cases w) auto
        note fields = check_fields_ok[OF Suc.IH wrapf_not_portable w, folded t]
        show ?thesis
          using fields False KStruct w
          by (cases r) (auto simp: walk_ok_def dest: clean_walk_Cons intro: doomed_carries doomed_self)
      qed (use False KStruct in \<open>simp add: walk_ok_def\<close>)
    next
      case KScalar
      then have "\<not> intrinsically_bad E t" "carries E t = {}" by (simp_all add: intrinsically_bad_def carries_def)
      with False KScalar show ?thesis by (auto simp: walk_ok_def clean_walk_def)
    qed
  qed (simp add: walk_ok_def)
qed (simp add: walk_ok_def)

section \<open>The walk ends\<close>

text \<open>The types of the table that have not been seen yet bound the depth still to come.\<close>

definition unseen :: "rtypes \<Rightarrow> string list \<Rightarrow> nat" where
  "unseen E seen = card (fst ` set (rt_kind E) - set seen)"

lemma unseen_mono: "set seen \<subseteq> set seen' \<Longrightarrow> unseen E seen' \<le> unseen E seen"
  unfolding unseen_def by (rule card_mono) auto

lemma unseen_Cons: "kind_of E t \<noteq> KScalar \<Longrightarrow> t \<notin> set seen \<Longrightarrow> unseen E (t # seen) < unseen E seen"
  unfolding unseen_def
  by (rule psubset_card_mono) (auto simp: kind_of_def split: option.splits dest!: mget_in_keys)

lemma clean_mono: "walk_ok E ts seen (Some (None, seen')) \<Longrightarrow> set seen \<subseteq> set seen'"
  by (simp add: walk_ok_def clean_walk_def)

lemma check_fields_fuel:
  assumes "\<And>t path seen. unseen E seen < n \<Longrightarrow> check t path seen \<noteq> None"
    and "\<And>t path seen. walk_ok E {t} seen (check t path seen)" and "unseen E seen < n"
  shows "check_fields check hidden path fs seen \<noteq> None"
  using assms(3)
proof (induction fs arbitrary: seen)
  case (Cons f fs)
  obtain r s where c: "check (rf_type f) (path @ [rf_name f]) seen = Some (r, s)"
    using assms(1)[OF Cons.prems] by (metis option.exhaust prod.exhaust)
  have "unseen E s < n" if "r = None"
    using assms(2)[of "rf_type f" seen "path @ [rf_name f]"] c that Cons.prems
    by (metis clean_mono unseen_mono le_less_trans)
  with Cons c show ?case by (cases r) auto
qed simp

lemma checkPortable_fuel: "unseen E seen < n \<Longrightarrow> checkPortable n E root t path seen \<noteq> None"
proof (induction n arbitrary: t path seen)
  case (Suc n)
  show ?case
  proof (cases "t \<in> set seen \<or> kind_of E t = KScalar")
    case False
    then have u: "unseen E (t # seen) < n" using unseen_Cons[of E t seen] Suc.prems by simp
    show ?thesis
    proof (cases "kind_of E t")
      case (KMap k v)
      obtain r s where c: "checkPortable n E root k (path @ [''key'']) (t # seen) = Some (r, s)"
        using Suc.IH[OF u] by (metis option.exhaust prod.exhaust)
      have "unseen E s < n" if "r = None"
        using checkPortable_ok[of E k "t # seen" n root "path @ [''key'']"] c that u
        by (metis clean_mono unseen_mono le_less_trans)
      with Suc.IH False KMap c show ?thesis by (cases r) auto
    next
      case (KStruct fs)
      with False check_fields_fuel[OF Suc.IH checkPortable_ok u] show ?thesis by simp
    qed (use False Suc.IH[OF u] in auto)
  qed auto
qed simp

section \<open>Properties\<close>

text \<open>
  C32: the portability check decides portability, on every type. Whatever types a contract
  refers to, recursive ones included, the walk ends; it accepts the type exactly when no type
  whose values travel with it, at any depth, is opaque to an encoder or hides state in an
  unexported field; and every refusal is an \<open>ErrNotPortable\<close>.
\<close>

theorem AssertPortable_decides:
  "\<exists>res. AssertPortable E (Some root) = Some res \<and>
     (res = None \<longleftrightarrow> \<not> (\<exists>t. reaches E root t \<and> intrinsically_bad E t)) \<and>
     (res = None \<or> errors_is (the res) ErrNotPortable)"
proof -
  have "unseen E [] \<le> length (rt_kind E)"
    unfolding unseen_def by simp (metis card_length length_map set_map)
  then have "checkPortable (length (rt_kind E) + 1) E root root [] [] \<noteq> None"
    by (intro checkPortable_fuel) simp
  then obtain r s where c: "checkPortable (length (rt_kind E) + 1) E root root [] [] = Some (r, s)" by auto
  have ok: "walk_ok E {root} [] (Some (r, s))" using checkPortable_ok[of E root "[]"] c by metis
  have "\<not> intrinsically_bad E t" if "r = None" "reaches E root t" for t
  proof -
    have s: "clean_walk E [] s" "root \<in> set s" using ok that(1) by (simp_all add: walk_ok_def)
    from that(2) have "t \<in> set s"
      by (induction rule: reaches.induct) (use s in \<open>auto simp: clean_walk_def\<close>)
    with s(1) show ?thesis by (simp add: clean_walk_def)
  qed
  moreover have "AssertPortable E (Some root) = Some r" using c by (simp add: AssertPortable_def)
  ultimately show ?thesis using ok by (cases r) (auto simp: walk_ok_def doomed_def)
qed

end
