(* ===== verification/Migrations.thy ===== *)
theory Migrations
  imports Registry
begin

text \<open>
  Module schemas: \<^verbatim>\<open>pkg/modulekit/migrations.go\<close> (the version table a module's migrations are
  recorded in) and \<^verbatim>\<open>internal/app/migrations/\<close> (which dialect a DSN selects and how a module's
  files are applied). Goose, which executes the SQL, is a parameter.
\<close>

section \<open>The version table of a module\<close>

definition is_id_char :: "char \<Rightarrow> bool" where
  "is_id_char c = (CHR ''a'' \<le> c \<and> c \<le> CHR ''z'' \<or> CHR ''0'' \<le> c \<and> c \<le> CHR ''9'')"

definition is_id_sep :: "char \<Rightarrow> bool" where
  "is_id_sep c = (c = CHR ''.'' \<or> c = CHR ''-'')"

text \<open>
  The automaton of \<open>^[a-z0-9]+([.-][a-z0-9]+)*$\<close>; the flag says that the text read so far is
  a match.
\<close>

fun id_match :: "bool \<Rightarrow> string \<Rightarrow> bool" where
  "id_match ok [] = ok"
| "id_match ok (c # cs) =
     (if is_id_char c then id_match True cs
      else if ok \<and> is_id_sep c then id_match False cs
      else False)"

definition moduleIDPattern :: "string \<Rightarrow> bool" where
  "moduleIDPattern s = id_match False s"

definition sql_safe :: "char \<Rightarrow> char" where
  "sql_safe c = (if c = CHR ''.'' then CHR ''_'' else if c = CHR ''-'' then CHR ''_'' else c)"

definition MigrationTableFor :: "string \<Rightarrow> gerr + string" where
  "MigrationTableFor moduleID =
     (if moduleID = []
      then Inl (ErrNew ''modulekit: module ID is required to derive a migration table'')
      else if \<not> moduleIDPattern moduleID
      then Inl (ErrNew (''modulekit: module ID '' @ go_quote moduleID @ '' must be lowercase reverse-DNS ''
                  @ ''(letters, digits, dots, hyphens) to derive a migration table''))
      else (let safe = map sql_safe moduleID;
                name = ''schema_version_'' @ safe
            in if length name > 63
               then Inl (ErrNew (''modulekit: module ID '' @ go_quote moduleID
                           @ '' is too long: its version table ''
                           @ ''name would exceed the 63-character identifier limit''))
               else Inr name))"

section \<open>Dialects (internal/app/migrations/runner.go, module.go)\<close>

definition has_suffix :: "string \<Rightarrow> string \<Rightarrow> bool" where
  "has_suffix s t = has_prefix (rev s) (rev t)"

definition detectDialect :: "string \<Rightarrow> string" where
  "detectDialect dsn =
     (let lower = to_lower dsn in
      if lower = '':memory:'' \<or> has_prefix lower ''file:'' \<or> has_suffix lower ''.db''
         \<or> has_suffix lower ''.sqlite''
      then ''sqlite3'' else ''postgres'')"

datatype goose_dialect = DialectSQLite3 | DialectPostgres

definition gooseDialect :: "string \<Rightarrow> gerr + goose_dialect" where
  "gooseDialect dsn =
     (if detectDialect dsn = ''sqlite3'' then Inr DialectSQLite3
      else if detectDialect dsn = ''postgres'' then Inr DialectPostgres
      else Inl (ErrNew (''migrations: no goose dialect for '' @ go_quote dsn)))"

text \<open>
  What goose offers: the package-level API used for the kernel's own schema, and a provider
  bound to a dialect, the files and a version table. \<open>'d\<close> is the database, \<open>'f\<close> a file system;
  \<open>Up\<close> answers with the number of migrations it applied.
\<close>

record ('d, 'f) goose =
  g_SetDialect :: "string \<Rightarrow> gerr option"
  g_Up :: "'f \<Rightarrow> string \<Rightarrow> 'd \<Rightarrow> gerr option \<times> 'd"
  g_NewProvider :: "goose_dialect \<Rightarrow> 'f \<Rightarrow> string \<Rightarrow> gerr option"
  g_provider_Up :: "goose_dialect \<Rightarrow> 'f \<Rightarrow> string \<Rightarrow> 'd \<Rightarrow> (gerr + nat) \<times> 'd"

definition RunMigrations :: "('d, 'f) goose \<Rightarrow> 'f \<Rightarrow> string \<Rightarrow> 'd \<Rightarrow> gerr option \<times> 'd" where
  "RunMigrations G migrationFiles dsn db =
     (let dialect = detectDialect dsn in
      case g_SetDialect G dialect of
        Some e \<Rightarrow> (Some (prefixf [''migrations: set dialect '', go_quote dialect] e), db)
      | None \<Rightarrow>
          (case g_Up G migrationFiles dialect db of
             (Some e, db') \<Rightarrow> (Some (prefixf [''migrations: apply''] e), db')
           | (None, db') \<Rightarrow> (None, db')))"

text \<open>
  A module's \<open>Migrations\<close> method, when it has one: an error, or the files (\<open>None\<close> when nil).
\<close>

type_synonym 'f module_schema = "(gerr + 'f option) option"

definition RunModuleMigrations ::
  "('d, 'f) goose \<Rightarrow> string \<Rightarrow> descriptor \<Rightarrow> 'f module_schema \<Rightarrow> 'd \<Rightarrow> gerr option \<times> 'd" where
  "RunModuleMigrations G dsn d schema db =
     (case schema of
        None \<Rightarrow> (None, db)
      | Some migrations \<Rightarrow>
          (case MigrationTableFor (d_id d) of
             Inl e \<Rightarrow> (Some e, db)
           | Inr table \<Rightarrow>
               (case migrations of
                  Inl e \<Rightarrow> (Some (prefixf [''migrations: read schema for module '', d_id d] e), db)
                | Inr None \<Rightarrow> (None, db)
                | Inr (Some files) \<Rightarrow>
                    (case gooseDialect dsn of
                       Inl e \<Rightarrow> (Some e, db)
                     | Inr dialect \<Rightarrow>
                         (case g_NewProvider G dialect files table of
                            Some e \<Rightarrow> (Some (prefixf [''migrations: prepare module '', d_id d] e), db)
                          | None \<Rightarrow>
                              (case g_provider_Up G dialect files table db of
                                 (Inl e, db') \<Rightarrow>
                                   (Some (prefixf [''migrations: apply module '', d_id d] e), db')
                               | (Inr _, db') \<Rightarrow> (None, db')))))))"

section \<open>What a version table can be\<close>

lemma id_match_chars:
  "id_match ok s \<Longrightarrow> c \<in> set s \<Longrightarrow> is_id_char c \<or> is_id_sep c"
  by (induction ok s rule: id_match.induct) (auto split: if_splits)

lemma sql_safe_chars:
  assumes "is_id_char c \<or> is_id_sep c"
  shows "is_id_char (sql_safe c) \<or> sql_safe c = CHR ''_''"
  using assms by (auto simp: sql_safe_def is_id_sep_def)

text \<open>The reference reading of the pattern: non-empty segments joined by single separators.\<close>

definition id_segment :: "string \<Rightarrow> bool" where
  "id_segment s \<longleftrightarrow> s \<noteq> [] \<and> list_all is_id_char s"

inductive dotted :: "string \<Rightarrow> bool" where
  seg: "id_segment s \<Longrightarrow> dotted s"
| more: "dotted s \<Longrightarrow> is_id_sep c \<Longrightarrow> id_segment t \<Longrightarrow> dotted (s @ c # t)"

lemma id_match_append_chars: "list_all is_id_char t \<Longrightarrow> t \<noteq> [] \<Longrightarrow> id_match ok t"
  by (induction t arbitrary: ok) (auto split: if_splits, metis id_match.simps(1))

lemma sep_not_char: "is_id_sep c \<Longrightarrow> \<not> is_id_char c"
  by (auto simp: is_id_sep_def is_id_char_def less_eq_char_def)

lemma id_match_split:
  "id_match ok (s @ c # t) \<longleftrightarrow> id_match ok s \<and> id_match False t" if "is_id_sep c"
  using sep_not_char [OF that] that
  by (induction ok s rule: id_match.induct) auto

lemma dotted_imp_match: "dotted s \<Longrightarrow> id_match False s"
  by (induction rule: dotted.induct)
     (auto simp: id_segment_def id_match_append_chars id_match_split)

lemma id_match_imp_dotted: "id_match False s \<Longrightarrow> dotted s"
proof (induction "length s" arbitrary: s rule: less_induct)
  case less
  show ?case
  proof (cases "list_all is_id_char s")
    case True
    with less.prems show ?thesis by (cases s) (auto intro: dotted.seg simp: id_segment_def)
  next
    case False
    then have "\<exists>c\<in>set s. \<not> is_id_char c" by (simp add: list_all_iff)
    from split_list_last_prop [OF this]
    obtain a c b where s: "s = a @ c # b" "\<not> is_id_char c" "list_all is_id_char b"
      by (auto simp: list_all_iff)
    then have c: "is_id_sep c" using id_match_chars [OF less.prems, of c] by auto
    have "id_match False a" "id_match False b"
      using less.prems id_match_split [OF c] s(1) by auto
    moreover from this have "b \<noteq> []" by auto
    ultimately show ?thesis
      using less.hyps [of a] c s(1,3) by (auto intro: dotted.more simp: id_segment_def)
  qed
qed

lemma moduleIDPattern_iff: "moduleIDPattern s \<longleftrightarrow> dotted s"
  unfolding moduleIDPattern_def using dotted_imp_match id_match_imp_dotted by blast

lemma MigrationTableFor_Inr:
  "MigrationTableFor i = Inr t \<longleftrightarrow>
     dotted i \<and> t = ''schema_version_'' @ map sql_safe i \<and> length t \<le> 63"
  by (auto simp: MigrationTableFor_def Let_def moduleIDPattern_iff [symmetric] moduleIDPattern_def
           split: if_splits)

section \<open>Properties\<close>

definition dash_as_dot :: "char \<Rightarrow> char" where
  "dash_as_dot c = (if c = CHR ''-'' then CHR ''.'' else c)"

lemma sql_safe_eq_iff:
  assumes "is_id_char c \<or> is_id_sep c" "is_id_char d \<or> is_id_sep d"
  shows "sql_safe c = sql_safe d \<longleftrightarrow> dash_as_dot c = dash_as_dot d"
proof -
  have "\<not> is_id_char (CHR ''_'')" "\<not> is_id_char (CHR ''.'')" "\<not> is_id_char (CHR ''-'')"
    by (simp_all add: is_id_char_def less_eq_char_def)
  then show ?thesis using assms by (auto simp: sql_safe_def dash_as_dot_def is_id_sep_def)
qed

lemma map_sql_safe_eq_iff:
  assumes "\<And>c. c \<in> set i \<union> set j \<Longrightarrow> is_id_char c \<or> is_id_sep c"
  shows "map sql_safe i = map sql_safe j \<longleftrightarrow> map dash_as_dot i = map dash_as_dot j"
  using assms
proof (induction i arbitrary: j)
  case (Cons c i)
  then show ?case by (cases j) (auto simp: sql_safe_eq_iff)
qed simp

lemma dotted_chars: "dotted i \<Longrightarrow> c \<in> set i \<Longrightarrow> is_id_char c \<or> is_id_sep c"
  using dotted_imp_match id_match_chars by blast

text \<open>
  A derived version table is an identifier of at most 63 lower-case letters, digits and
  underscores, so nothing of a module ID reaches SQL that would need quoting or be truncated;
  and two module IDs share a version table exactly when they differ only in where one has a
  hyphen and the other a dot.
\<close>

theorem version_table_safe_and_shared:
  assumes "MigrationTableFor i = Inr t" "MigrationTableFor j = Inr u"
  shows "length t \<le> 63 \<and> (\<forall>c \<in> set t. is_id_char c \<or> c = CHR ''_'')
         \<and> (t = u \<longleftrightarrow> map dash_as_dot i = map dash_as_dot j)"
proof -
  from assms have i: "dotted i" "t = ''schema_version_'' @ map sql_safe i" "length t \<le> 63"
    and j: "dotted j" "u = ''schema_version_'' @ map sql_safe j"
    unfolding MigrationTableFor_Inr by blast+
  have "is_id_char c \<or> c = CHR ''_''" if "c \<in> set ''schema_version_''" for c
    using that by (auto simp: is_id_char_def less_eq_char_def)
  moreover have "is_id_char c \<or> c = CHR ''_''" if "c \<in> set (map sql_safe i)" for c
    using that sql_safe_chars dotted_chars [OF i(1)] by auto
  ultimately have "\<forall>c \<in> set t. is_id_char c \<or> c = CHR ''_''"
    unfolding i(2) set_append by blast
  moreover have "t = u \<longleftrightarrow> map dash_as_dot i = map dash_as_dot j"
    unfolding i(2) j(2) same_append_eq
    by (rule map_sql_safe_eq_iff) (use dotted_chars i(1) j(1) in auto)
  ultimately show ?thesis using i(3) by blast
qed

lemma acme_tables:
  "MigrationTableFor ''com.acme.x'' = Inr ''schema_version_com_acme_x''"
  "MigrationTableFor ''com.acme-x'' = Inr ''schema_version_com_acme_x''"
  by code_simp+

theorem version_table_safe_and_shared_witness:
  "length ''schema_version_com_acme_x'' \<le> 63
   \<and> map dash_as_dot ''com.acme.x'' = map dash_as_dot ''com.acme-x''"
  using version_table_safe_and_shared [OF acme_tables] by blast

end
