(* ===== verification/Wasm_Abi.thy ===== *)
theory Wasm_Abi
  imports Typed Portable Events Migrations "HOL-Library.Word"
begin

text \<open>
  The guest ABI of \<^verbatim>\<open>internal/kernel/wasmhost/\<close>: \<^verbatim>\<open>abi.go\<close> (packed results, the status byte),
  \<^verbatim>\<open>codec.go\<close> (the envelopes) and the invocation-scoped state of \<^verbatim>\<open>hostcalls.go\<close>. Machine
  integers keep their width: a \<open>uint32\<close> is a \<open>32 word\<close>, a \<open>uint64\<close> a \<open>64 word\<close>.

  A guest's linear memory belongs to wazero and is a parameter: \<open>api_memory\<close> has the methods of
  \<open>api.Memory\<close> this code calls, \<open>linear_memory\<close> states what its documentation promises, and
  the interpretation \<open>bytes\<close> shows that a vector of bytes keeps those promises.
\<close>

unbundle bit_operations_syntax

type_synonym uint32 = "32 word"
type_synonym uint64 = "64 word"

section \<open>abi.go\<close>

definition ExportAlloc :: string where "ExportAlloc = ''sannad_alloc''"
definition ExportHandle :: string where "ExportHandle = ''sannad_handle''"

definition ErrGuestContract :: gerr where
  "ErrGuestContract = ErrNew ''wasmhost: guest does not implement the Sannad ABI''"
definition ErrGuestFailed :: gerr where
  "ErrGuestFailed = ErrNew ''wasmhost: guest execution failed''"
definition ErrGuestTimeout :: gerr where
  "ErrGuestTimeout = ErrNew ''wasmhost: guest exceeded its time limit''"
definition ErrResponseTooLarge :: gerr where
  "ErrResponseTooLarge = ErrNew ''wasmhost: guest response exceeds the limit''"
definition ErrHostCallDenied :: gerr where
  "ErrHostCallDenied = ErrNew ''wasmhost: host call not approved for this module''"
definition ErrCallCycle :: gerr where
  "ErrCallCycle = ErrNew ''wasmhost: capability call cycle detected''"
definition ErrCallDepthExceeded :: gerr where
  "ErrCallDepthExceeded = ErrNew ''wasmhost: max capability call depth exceeded''"

definition packResult :: "uint64 \<Rightarrow> uint32 \<times> uint32" where
  "packResult v = (ucast (drop_bit 32 v), ucast v)"

definition Pack :: "uint32 \<Rightarrow> uint32 \<Rightarrow> uint64" where
  "Pack ptr len = push_bit 32 (ucast ptr) OR ucast len"

definition abi_StatusOK :: char where "abi_StatusOK = CHR 0x00"
definition abi_StatusError :: char where "abi_StatusError = CHR 0x01"

definition statusOf :: "string \<Rightarrow> gerr + (char \<times> string)" where
  "statusOf response =
     (case response of
        [] \<Rightarrow> Inl (wrapf ErrGuestFailed [''empty response''])
      | status # payload \<Rightarrow> Inr (status, payload))"

definition EncodeResponse :: "char \<Rightarrow> string \<Rightarrow> string" where
  "EncodeResponse status payload = [status] @ payload"

section \<open>codec.go\<close>

record envelope =
  env_Capability :: string
  env_TenantID :: string
  env_Payload :: string

record hookEnvelope =
  hk_Operation :: string
  hk_Name :: string
  hk_HookKind :: string
  hk_TenantID :: string
  hk_Payload :: string

record v2CallEnvelope =
  ce_Capability :: string
  ce_Payload :: string

record v2EventEnvelope =
  ee_Event :: string
  ee_Payload :: string

text \<open>
  What \<open>encoding/json\<close> and \<open>reflect\<close> know of the types involved: the type table of the
  portability check, \<open>json.Marshal\<close> of a request or a result and of the two envelopes the host
  writes, and \<open>json.Unmarshal\<close> into the two envelopes a guest writes.
\<close>

record 'v json_lib =
  js_types :: rtypes
  js_marshal :: "'v goany \<Rightarrow> gerr + string"
  js_marshal_envelope :: "envelope \<Rightarrow> gerr + string"
  js_marshal_hook :: "hookEnvelope \<Rightarrow> gerr + string"
  js_unmarshal_call :: "string \<Rightarrow> gerr + v2CallEnvelope"
  js_unmarshal_event :: "string \<Rightarrow> gerr + v2EventEnvelope"

fun is_nil :: "'v goany \<Rightarrow> bool" where
  "is_nil ANil = True"
| "is_nil _ = False"

text \<open>\<open>modulekit.AssertPortable(value)\<close>; the walk always ends (\<open>Portable.checkPortable_fuel\<close>).\<close>

definition assert_portable :: "'v json_lib \<Rightarrow> 'v goany \<Rightarrow> gerr option" where
  "assert_portable J value =
     (case AssertPortable (js_types J) (if is_nil value then None else Some (dyn_type value)) of
        Some r \<Rightarrow> r | None \<Rightarrow> None)"

definition JSON_EncodeRequest ::
  "'v json_lib \<Rightarrow> capability_ref \<Rightarrow> string \<Rightarrow> 'v goany \<Rightarrow> gerr + string" where
  "JSON_EncodeRequest J ref tenantID request =
     (case (if is_nil request then None else assert_portable J request) of
        Some e \<Rightarrow> Inl (prefixf [''capability '', cap_key ref] e)
      | None \<Rightarrow>
          (case (case request of
                   ARaw raw \<Rightarrow>
                     if \<not> json_Valid raw
                     then Inl (ErrNew (''wasmhost: request for '' @ cap_key ref @ '' is not valid JSON''))
                     else Inr raw
                 | _ \<Rightarrow>
                     (case js_marshal J request of
                        Inl e \<Rightarrow> Inl (prefixf [''wasmhost: encode request for '', cap_key ref] e)
                      | Inr payload \<Rightarrow> Inr payload)) of
             Inl e \<Rightarrow> Inl e
           | Inr payload \<Rightarrow>
               (case js_marshal_envelope J \<lparr>env_Capability = cap_key ref, env_TenantID = tenantID,
                                            env_Payload = payload\<rparr> of
                  Inl e \<Rightarrow> Inl (prefixf [''wasmhost: encode envelope for '', cap_key ref] e)
                | Inr encoded \<Rightarrow> Inr encoded)))"

definition JSON_DecodeResponse :: "capability_ref \<Rightarrow> string \<Rightarrow> gerr + 'v goany" where
  "JSON_DecodeResponse ref payload = Inr (ARaw payload)"

section \<open>callState (hostcalls.go)\<close>

record callState =
  cs_results :: "(uint32 \<times> string) list"
  cs_nextH :: uint32
  cs_lastErr :: string

definition newCallState :: callState where
  "newCallState = \<lparr>cs_results = [], cs_nextH = 0, cs_lastErr = []\<rparr>"

definition callState_store :: "string \<Rightarrow> uint32 \<Rightarrow> callState \<Rightarrow> (uint32 \<times> bool) \<times> callState" where
  "callState_store data mx s =
     (if word_of_nat (length (cs_results s)) \<ge> mx then ((0, False), s)
      else (let h = cs_nextH s + 1 in
            ((h, True), s\<lparr>cs_nextH := h, cs_results := AList.update h data (cs_results s)\<rparr>)))"

definition callState_get :: "uint32 \<Rightarrow> callState \<Rightarrow> string option" where
  "callState_get handle s = map_of (cs_results s) handle"

definition callState_drop :: "uint32 \<Rightarrow> callState \<Rightarrow> bool \<times> callState" where
  "callState_drop handle s =
     (case map_of (cs_results s) handle of
        None \<Rightarrow> (False, s)
      | Some _ \<Rightarrow> (True, s\<lparr>cs_results := AList.delete handle (cs_results s)\<rparr>))"

definition callState_setErr :: "string \<Rightarrow> callState \<Rightarrow> callState" where
  "callState_setErr msg s = s\<lparr>cs_lastErr := msg\<rparr>"

definition callState_getErr :: "callState \<Rightarrow> string" where
  "callState_getErr s = cs_lastErr s"

definition splitCapabilityKey :: "string \<Rightarrow> gerr + (string \<times> string)" where
  "splitCapabilityKey key =
     (case cut_last (CHR ''@'') key of
        None \<Rightarrow> Inl (ErrNew (''invalid capability reference '' @ go_quote key))
      | Some (name, version) \<Rightarrow>
          if name = [] \<or> version = []
          then Inl (ErrNew (''invalid capability reference '' @ go_quote key))
          else Inr (name, version))"

section \<open>Linear memory (wazero)\<close>

record 'm api_memory =
  mem_Read :: "'m \<Rightarrow> uint32 \<Rightarrow> uint32 \<Rightarrow> string option"
  mem_Write :: "'m \<Rightarrow> uint32 \<Rightarrow> string \<Rightarrow> 'm option"

text \<open>Little-endian access, four and eight bytes at a time.\<close>

definition le_bytes :: "nat \<Rightarrow> nat \<Rightarrow> string" where
  "le_bytes n v = map (\<lambda>i. char_of (v div 256 ^ i mod 256)) [0..<n]"

definition le_value :: "string \<Rightarrow> nat" where
  "le_value bs = foldr (\<lambda>b acc. of_char b + 256 * acc) bs 0"

definition mem_ReadUint32Le :: "'m api_memory \<Rightarrow> 'm \<Rightarrow> uint32 \<Rightarrow> uint32 option" where
  "mem_ReadUint32Le M m ptr = map_option (\<lambda>bs. word_of_nat (le_value bs)) (mem_Read M m ptr 4)"

definition mem_WriteUint64Le :: "'m api_memory \<Rightarrow> 'm \<Rightarrow> uint32 \<Rightarrow> uint64 \<Rightarrow> 'm option" where
  "mem_WriteUint64Le M m ptr v = mem_Write M m ptr (le_bytes 8 (unat v))"

locale linear_memory =
  fixes rd :: "'m \<Rightarrow> uint32 \<Rightarrow> uint32 \<Rightarrow> string option"
    and wr :: "'m \<Rightarrow> uint32 \<Rightarrow> string \<Rightarrow> 'm option"
  assumes read_length: "rd m p n = Some bs \<Longrightarrow> length bs = unat n"
    and read_back: "wr m p bs = Some m' \<Longrightarrow> length bs < 2 ^ 32 \<Longrightarrow> rd m' p (word_of_nat (length bs)) = Some bs"
    and write_elsewhere: "wr m p bs = Some m' \<Longrightarrow>
           unat q + unat n \<le> unat p \<or> unat p + length bs \<le> unat q \<Longrightarrow> rd m' q n = rd m q n"
    and write_in_range: "rd m p n \<noteq> None \<Longrightarrow> unat n = length bs \<Longrightarrow> wr m p bs \<noteq> None"
begin

text \<open>Writing a word and reading it back; a write never moves the end of the memory.\<close>

lemma write_then_read_word:
  assumes "wr m p (le_bytes 4 v) = Some m'"
  shows "rd m' p 4 = Some (le_bytes 4 v)"
  using read_back [OF assms] by (simp add: le_bytes_def)

lemma read_any_length: "rd m p n = Some bs \<Longrightarrow> length bs < 2 ^ 32"
  using read_length [of m p n bs] unsigned_less [of n, where ?'a = nat] by simp

end

text \<open>A memory as WebAssembly defines it: a vector of bytes, every access checked against its size.\<close>

definition bytes_read :: "string \<Rightarrow> uint32 \<Rightarrow> uint32 \<Rightarrow> string option" where
  "bytes_read m p n =
     (if unat p + unat n \<le> length m then Some (take (unat n) (drop (unat p) m)) else None)"

definition bytes_write :: "string \<Rightarrow> uint32 \<Rightarrow> string \<Rightarrow> string option" where
  "bytes_write m p bs =
     (if unat p + length bs \<le> length m
      then Some (take (unat p) m @ bs @ drop (unat p + length bs) m) else None)"

definition bytes_memory :: "string api_memory" where
  "bytes_memory = \<lparr>mem_Read = bytes_read, mem_Write = bytes_write\<rparr>"

lemma bytes_write_nth:
  assumes "bytes_write m p bs = Some m'" "i < length m"
  shows "length m' = length m
    \<and> m' ! i = (if unat p \<le> i \<and> i < unat p + length bs then bs ! (i - unat p) else m ! i)"
  using assms by (auto simp: bytes_write_def nth_append split: if_splits)

lemma bytes_write_length: "bytes_write m p bs = Some m' \<Longrightarrow> length m' = length m"
  by (auto simp: bytes_write_def split: if_splits)

lemma bytes_read_elsewhere:
  assumes w: "bytes_write m p bs = Some m'"
    and apart: "unat q + unat n \<le> unat p \<or> unat p + length bs \<le> unat q"
  shows "bytes_read m' q n = bytes_read m q n"
proof (cases "unat q + unat n \<le> length m")
  case True
  have "take (unat n) (drop (unat q) m') = take (unat n) (drop (unat q) m)"
  proof (rule nth_equalityI)
    show "length (take (unat n) (drop (unat q) m')) = length (take (unat n) (drop (unat q) m))"
      using bytes_write_length [OF w] by simp
    fix i assume "i < length (take (unat n) (drop (unat q) m'))"
    then have "i < unat n" "unat q + i < length m" using True by auto
    then show "take (unat n) (drop (unat q) m') ! i = take (unat n) (drop (unat q) m) ! i"
      using bytes_write_nth [OF w, of "unat q + i"] apart True bytes_write_length [OF w] by auto
  qed
  then show ?thesis using bytes_write_length [OF w] by (simp add: bytes_read_def)
next
  case False
  then show ?thesis using bytes_write_length [OF w] by (simp add: bytes_read_def)
qed

interpretation bytes: linear_memory bytes_read bytes_write
proof unfold_locales
  fix m p bs m' assume w: "bytes_write m p bs = Some m'" and l: "length bs < 2 ^ 32"
  have "unat (word_of_nat (length bs) :: uint32) = length bs"
    using l by (simp add: unat_of_nat)
  then show "bytes_read m' p (word_of_nat (length bs)) = Some bs"
    using w by (auto simp: bytes_read_def bytes_write_def split: if_splits)
next
  fix m p bs m' and q n :: uint32
  assume "bytes_write m p bs = Some m'" "unat q + unat n \<le> unat p \<or> unat p + length bs \<le> unat q"
  then show "bytes_read m' q n = bytes_read m q n" by (rule bytes_read_elsewhere)
qed (auto simp: bytes_read_def bytes_write_def split: if_splits)

section \<open>Packed results and result handles\<close>

lemma bit_Pack:
  "bit (Pack p l) n \<longleftrightarrow> (if n < 32 then bit l n else bit p (n - 32))" if "n < 64"
  using that by (auto simp: Pack_def bit_simps dest: bit_imp_le_length)

lemma packResult_Pack: "packResult (Pack p l) = (p, l)"
proof -
  have "ucast (drop_bit 32 (Pack p l)) = p"
    by (rule bit_word_eqI) (simp add: bit_simps bit_Pack)
  moreover have "ucast (Pack p l) = l"
    by (rule bit_word_eqI) (simp add: bit_simps bit_Pack)
  ultimately show ?thesis by (simp add: packResult_def)
qed

lemma Pack_packResult: "Pack (fst (packResult v)) (snd (packResult v)) = v"
  by (rule bit_word_eqI) (auto simp: packResult_def bit_Pack bit_simps)

text \<open>
  C33: A guest's packed return value and the host's reading of it are inverse bijections between
  64-bit words and pairs of 32-bit words, and the status prefix is read back with the payload it
  was written with: no pointer, length or payload is lost or confused by the ABI's encoding.
\<close>

theorem abi_roundtrip:
  "packResult (Pack ptr len) = (ptr, len)
   \<and> Pack (fst (packResult v)) (snd (packResult v)) = v
   \<and> bij_betw (\<lambda>(p, l). Pack p l) UNIV UNIV
   \<and> statusOf (EncodeResponse status payload) = Inr (status, payload)"
proof (intro conjI packResult_Pack Pack_packResult)
  show "bij_betw (\<lambda>(p, l). Pack p l) UNIV UNIV"
    by (rule bij_betw_byWitness [where f' = packResult])
       (auto simp: packResult_Pack Pack_packResult case_prod_unfold)
  show "statusOf (EncodeResponse status payload) = Inr (status, payload)"
    by (simp add: EncodeResponse_def statusOf_def)
qed

text \<open>
  The well-formedness of an invocation's result table: distinct handles, at most \<open>mx\<close> of them,
  none of a result longer than the limit.
\<close>

definition state_ok :: "uint32 \<Rightarrow> uint32 \<Rightarrow> callState \<Rightarrow> bool" where
  "state_ok mx limit s \<longleftrightarrow>
     distinct (map fst (cs_results s)) \<and> length (cs_results s) \<le> unat mx
     \<and> (\<forall>(h, d) \<in> set (cs_results s). length d \<le> unat limit)"

lemma state_ok_new [simp]: "state_ok mx limit newCallState"
  by (simp add: state_ok_def newCallState_def)

lemma state_ok_setErr [simp]: "state_ok mx limit (callState_setErr msg s) = state_ok mx limit s"
  by (simp add: state_ok_def callState_setErr_def)

lemma word_len_less:
  assumes "\<not> mx \<le> (word_of_nat n :: uint32)" "n < 2 ^ 32" shows "n < unat mx"
  using assms by (simp add: word_le_nat_alt unat_of_nat not_le)

lemma state_ok_store:
  assumes ok: "state_ok mx limit s" and d: "length data \<le> unat limit"
  shows "state_ok mx limit (snd (callState_store data mx s))"
proof (cases "mx \<le> word_of_nat (length (cs_results s))")
  case False
  let ?h = "cs_nextH s + 1"
  have "length (cs_results s) < 2 ^ 32"
    using ok unsigned_less [of mx, where ?'a = nat] by (auto simp: state_ok_def)
  then have len: "length (cs_results s) < unat mx" by (rule word_len_less [OF False])
  have upd: "length (AList.update h d al) \<le> Suc (length al)"
    "set (AList.update h d al) \<subseteq> insert (h, d) (set al)" for h :: uint32 and d :: string and al
    by (induction al) auto
  show ?thesis
    using False ok len d upd [of ?h data "cs_results s"]
    by (auto simp: callState_store_def Let_def state_ok_def distinct_update)
qed (use ok in \<open>simp add: callState_store_def\<close>)

lemma state_ok_drop: "state_ok mx limit s \<Longrightarrow> state_ok mx limit (snd (callState_drop h s))"
proof -
  assume ok: "state_ok mx limit s"
  have "length (AList.delete h (cs_results s)) \<le> length (cs_results s)" by (rule length_delete_le)
  moreover have "set (AList.delete h (cs_results s)) \<subseteq> set (cs_results s)"
    by (auto simp: AList.delete_eq)
  ultimately show "state_ok mx limit (snd (callState_drop h s))"
    using ok by (auto simp: callState_drop_def state_ok_def distinct_delete split: option.split)
qed

end
