(* ===== verification/Wasm_Host.thy ===== *)
theory Wasm_Host
  imports Wasm_Abi
begin

text \<open>
  The sandbox of \<^verbatim>\<open>internal/kernel/wasmhost/\<close>: the host calls of \<^verbatim>\<open>hostcalls.go\<close> and the shim
  of \<^verbatim>\<open>wasi.go\<close>, loading and invoking a guest (\<^verbatim>\<open>host.go\<close>) and the adapter that makes a
  capability handler of it.

  The guest is a parameter, any program at all: a \<open>proc\<close> is what running it amounts to for the
  host, a sequence of host calls, each of which may depend on the answers and on the memory
  after the earlier ones, ended by a return or a trap. \<open>run_proc\<close> lets the host answer them.
  The world \<open>'u hstate\<close> holds what outlives an expression in the Go heap: the call states and
  runtimes that contexts and plugins point to, what stopping a module has returned
  (\<open>Module.stopOnce\<close> and \<open>stopErr\<close>, by the runtime of its plugin), the clock, and the rest
  \<open>'u\<close> that capabilities and publishers act on.
\<close>

section \<open>The world\<close>

record runtime =
  rt_pages :: uint32
  rt_monotonic :: uint64
  rt_compiled_closed :: bool
  rt_closed :: bool

record 'u hstate =
  hs_states :: "callState list"
  hs_runtimes :: "runtime list"
  hs_stopped :: "(nat \<times> gerr option) list"
  hs_now :: int
  hs_user :: 'u

definition upd_state :: "nat \<Rightarrow> (callState \<Rightarrow> callState) \<Rightarrow> 'u hstate \<Rightarrow> 'u hstate" where
  "upd_state a f w = w\<lparr>hs_states := (hs_states w)[a := f (hs_states w ! a)]\<rparr>"

definition upd_runtime :: "nat \<Rightarrow> (runtime \<Rightarrow> runtime) \<Rightarrow> 'u hstate \<Rightarrow> 'u hstate" where
  "upd_runtime a f w = w\<lparr>hs_runtimes := (hs_runtimes w)[a := f (hs_runtimes w ! a)]\<rparr>"

section \<open>Policy (host.go, hostcalls.go)\<close>

type_synonym 'u publisher = "go_ctx \<Rightarrow> string \<Rightarrow> string \<Rightarrow> 'u hstate \<Rightarrow> gerr option \<times> 'u hstate"

record ('v, 'u) V2Config =
  vc_Caller :: "('v, 'u hstate) caller option"
  vc_Events :: "'u publisher option"
  vc_Consumes :: "capability_ref list"
  vc_PublishesEvents :: "string list"
  vc_MaxOutboundRequestBytes :: uint32
  vc_MaxResultBytes :: uint32
  vc_MaxResultHandles :: uint32
  vc_MaxEventPayloadBytes :: uint32
  vc_MaxCallDepth :: uint32

definition DefaultMaxOutboundRequestBytes :: uint32 where "DefaultMaxOutboundRequestBytes = push_bit 20 1"
definition DefaultMaxResultBytes :: uint32 where "DefaultMaxResultBytes = push_bit 20 1"
definition DefaultMaxResultHandles :: uint32 where "DefaultMaxResultHandles = 32"
definition DefaultMaxEventPayloadBytes :: uint32 where "DefaultMaxEventPayloadBytes = push_bit 20 1"
definition DefaultMaxCallDepth :: uint32 where "DefaultMaxCallDepth = 8"
definition DefaultMaxMemoryPages :: uint32 where "DefaultMaxMemoryPages = 256"
definition DefaultTimeout :: int where "DefaultTimeout = 50 * 1000000"
definition DefaultMaxResponseBytes :: uint32 where "DefaultMaxResponseBytes = push_bit 20 1"

record grantSet =
  gs_consume :: "string list"
  gs_publish :: "string list"

record v2Limits =
  lim_maxOutboundRequestBytes :: uint32
  lim_maxResultBytes :: uint32
  lim_maxResultHandles :: uint32
  lim_maxEventPayloadBytes :: uint32
  lim_maxCallDepth :: uint32

record ('v, 'u) v2Deps =
  v2_moduleID :: string
  v2_caller :: "('v, 'u hstate) caller option"
  v2_events :: "'u publisher option"
  v2_grants :: grantSet
  v2_limits :: v2Limits

definition orDefault :: "uint32 \<Rightarrow> uint32 \<Rightarrow> uint32" where
  "orDefault v fallback = (if v = 0 then fallback else v)"

definition newV2Deps :: "string \<Rightarrow> ('v, 'u) V2Config \<Rightarrow> ('v, 'u) v2Deps" where
  "newV2Deps moduleID cfg =
     \<lparr>v2_moduleID = moduleID,
      v2_caller = vc_Caller cfg,
      v2_events = vc_Events cfg,
      v2_grants = \<lparr>gs_consume = foldl (\<lambda>m ref. List.insert (cap_key ref) m) [] (vc_Consumes cfg),
                   gs_publish = foldl (\<lambda>m name. List.insert name m) [] (vc_PublishesEvents cfg)\<rparr>,
      v2_limits =
        \<lparr>lim_maxOutboundRequestBytes =
           orDefault (vc_MaxOutboundRequestBytes cfg) DefaultMaxOutboundRequestBytes,
         lim_maxResultBytes = orDefault (vc_MaxResultBytes cfg) DefaultMaxResultBytes,
         lim_maxResultHandles = orDefault (vc_MaxResultHandles cfg) DefaultMaxResultHandles,
         lim_maxEventPayloadBytes =
           orDefault (vc_MaxEventPayloadBytes cfg) DefaultMaxEventPayloadBytes,
         lim_maxCallDepth = orDefault (vc_MaxCallDepth cfg) DefaultMaxCallDepth\<rparr>\<rparr>"

record ('v, 'u) config =
  cfg_ModuleID :: string
  cfg_Wasm :: string
  cfg_MaxMemoryPages :: uint32
  cfg_Timeout :: int
  cfg_Stdout :: "(string \<Rightarrow> 'u \<Rightarrow> 'u) option"
  cfg_Stderr :: "(string \<Rightarrow> 'u \<Rightarrow> 'u) option"
  cfg_MaxResponseBytes :: uint32
  cfg_V2 :: "('v, 'u) V2Config option"

definition applyDefaults :: "('v, 'u) config \<Rightarrow> ('v, 'u) config" where
  "applyDefaults c =
     c\<lparr>cfg_MaxMemoryPages := (if cfg_MaxMemoryPages c = 0 then DefaultMaxMemoryPages else cfg_MaxMemoryPages c),
       cfg_Timeout := (if cfg_Timeout c = 0 then DefaultTimeout else cfg_Timeout c),
       cfg_MaxResponseBytes :=
         (if cfg_MaxResponseBytes c = 0 then DefaultMaxResponseBytes else cfg_MaxResponseBytes c)\<rparr>"

section \<open>Contexts (hostcalls.go)\<close>

text \<open>The \<open>v2Deps\<close> a context points to live in a table, for they never change once built.\<close>

definition v2DepsFrom :: "('v, 'u) v2Deps list \<Rightarrow> go_ctx \<Rightarrow> ('v, 'u) v2Deps option" where
  "v2DepsFrom T ctx = (case ctx_v2 ctx of
     Some a \<Rightarrow> if a < length T then Some (T ! a) else None | None \<Rightarrow> None)"

definition withV2Deps :: "go_ctx \<Rightarrow> nat \<Rightarrow> go_ctx" where
  "withV2Deps ctx deps = ctx\<lparr>ctx_v2 := Some deps\<rparr>"

definition withCallState :: "go_ctx \<Rightarrow> nat \<Rightarrow> go_ctx" where
  "withCallState ctx st = ctx\<lparr>ctx_state := Some st\<rparr>"

definition callStateFrom :: "go_ctx \<Rightarrow> nat option" where
  "callStateFrom ctx = ctx_state ctx"

definition withCallChain :: "go_ctx \<Rightarrow> string list \<Rightarrow> go_ctx" where
  "withCallChain ctx chain = ctx\<lparr>ctx_chain := chain\<rparr>"

definition callChainFrom :: "go_ctx \<Rightarrow> string list" where
  "callChainFrom ctx = ctx_chain ctx"

section \<open>Host calls (hostcalls.go)\<close>

definition v2StatusOK :: uint32 where "v2StatusOK = 0"
definition v2StatusDenied :: uint32 where "v2StatusDenied = 1"
definition v2StatusInvalid :: uint32 where "v2StatusInvalid = 2"
definition v2StatusFailed :: uint32 where "v2StatusFailed = 3"
definition v2StatusInternal :: uint32 where "v2StatusInternal = 4"
definition v2Sentinel :: uint32 where "v2Sentinel = 0xFFFFFFFF"

definition encodeCallResult :: "'v json_lib \<Rightarrow> 'v goany \<Rightarrow> gerr + string" where
  "encodeCallResult J result = (case result of ARaw raw \<Rightarrow> Inr raw | _ \<Rightarrow> js_marshal J result)"

record ('m, 'v, 'u) host =
  h_json :: "'v json_lib"
  h_mem :: "'m api_memory"
  h_deps :: "('v, 'u) v2Deps list"

text \<open>
  \<open>v2CapabilityCall\<close> up to the call: a refusal with its status and diagnostic, or the approved
  caller with the reference and payload to call it with.
\<close>

definition call_request ::
  "('m, 'v, 'u) host \<Rightarrow> ('v, 'u) v2Deps \<Rightarrow> 'm option \<Rightarrow> uint32 \<Rightarrow> uint32
     \<Rightarrow> (uint32 \<times> string) + (('v, 'u hstate) caller \<times> capability_ref \<times> string)" where
  "call_request H deps mem reqPtr reqLen =
     (if reqLen > lim_maxOutboundRequestBytes (v2_limits deps)
      then Inl (v2StatusInvalid, ''capability_call: request exceeds the outbound size limit'')
      else case mem of
        None \<Rightarrow> Inl (v2StatusInternal, ''capability_call: guest has no memory'')
      | Some m \<Rightarrow>
        (case mem_Read (h_mem H) m reqPtr reqLen of
           None \<Rightarrow> Inl (v2StatusInvalid, ''capability_call: request pointer out of range'')
         | Some raw \<Rightarrow>
           (case js_unmarshal_call (h_json H) raw of
              Inl e \<Rightarrow> Inl (v2StatusInvalid, ''capability_call: '' @ err_text e)
            | Inr envelope \<Rightarrow>
              (case v2_caller deps of
                 None \<Rightarrow> Inl (v2StatusDenied, ''capability_call: this module has no approved caller'')
               | Some call \<Rightarrow>
                 if ce_Capability envelope \<notin> set (gs_consume (v2_grants deps))
                 then Inl (v2StatusDenied, err_text ErrHostCallDenied @ '': '' @ ce_Capability envelope)
                 else (case splitCapabilityKey (ce_Capability envelope) of
                         Inl e \<Rightarrow> Inl (v2StatusInvalid, ''capability_call: '' @ err_text e)
                       | Inr (name, version) \<Rightarrow>
                           Inr (call, CapabilityRef name version, ce_Payload envelope))))))"

text \<open>After the call: encode the result, check its size and store it under a handle.\<close>

definition call_reply ::
  "('m, 'v, 'u) host \<Rightarrow> ('v, 'u) v2Deps \<Rightarrow> 'v goany \<times> gerr option \<Rightarrow> callState
     \<Rightarrow> (uint32 \<times> string) + (uint32 \<times> callState)" where
  "call_reply H deps answer s =
     (case answer of
        (_, Some e) \<Rightarrow> Inl (v2StatusFailed, ''capability_call: '' @ err_text e)
      | (result, None) \<Rightarrow>
          (case encodeCallResult (h_json H) result of
             Inl e \<Rightarrow> Inl (v2StatusInternal, ''capability_call: encode response: '' @ err_text e)
           | Inr encoded \<Rightarrow>
               if word_of_nat (length encoded) > lim_maxResultBytes (v2_limits deps)
               then Inl (v2StatusInvalid, ''capability_call: response exceeds the result size limit'')
               else (case callState_store encoded (lim_maxResultHandles (v2_limits deps)) s of
                       ((_, False), _) \<Rightarrow>
                         Inl (v2StatusInternal,
                              ''capability_call: too many open result handles; drop one before calling again'')
                     | ((handle, True), s') \<Rightarrow> Inr (handle, s'))))"

definition v2CapabilityCall ::
  "('m, 'v, 'u) host \<Rightarrow> go_ctx \<Rightarrow> 'm option \<Rightarrow> uint32 \<Rightarrow> uint32 \<Rightarrow> 'u hstate \<Rightarrow> uint64 \<times> 'u hstate" where
  "v2CapabilityCall H ctx mem reqPtr reqLen w =
     (case (v2DepsFrom (h_deps H) ctx, callStateFrom ctx) of
        (Some deps, Some st) \<Rightarrow>
          (case call_request H deps mem reqPtr reqLen of
             Inl (status, msg) \<Rightarrow> (Pack status 0, upd_state st (callState_setErr msg) w)
           | Inr (call, ref, payload) \<Rightarrow>
               (let (answer, w1) = call ctx ref (ARaw payload) w in
                case call_reply H deps answer (hs_states w1 ! st) of
                  Inl (status, msg) \<Rightarrow> (Pack status 0, upd_state st (callState_setErr msg) w1)
                | Inr (handle, s') \<Rightarrow> (Pack v2StatusOK handle, upd_state st (\<lambda>_. s') w1)))
      | _ \<Rightarrow> (Pack v2StatusInternal 0, w))"

definition v2ResultLen :: "go_ctx \<Rightarrow> uint32 \<Rightarrow> 'u hstate \<Rightarrow> uint32" where
  "v2ResultLen ctx handle w =
     (case callStateFrom ctx of
        None \<Rightarrow> v2Sentinel
      | Some st \<Rightarrow>
          (case callState_get handle (hs_states w ! st) of
             None \<Rightarrow> v2Sentinel
           | Some data \<Rightarrow> word_of_nat (length data)))"

text \<open>The tail \<open>v2ResultRead\<close> and \<open>v2ErrorRead\<close> share: copy into the guest's buffer if it fits.\<close>

definition copy_out :: "'m api_memory \<Rightarrow> 'm option \<Rightarrow> uint32 \<Rightarrow> uint32 \<Rightarrow> string \<Rightarrow> uint32 \<times> 'm option" where
  "copy_out M mem outPtr outCap data =
     (if word_of_nat (length data) > outCap then (word_of_nat (length data), mem)
      else (case mem of
        None \<Rightarrow> (v2Sentinel, None)
      | Some m \<Rightarrow>
          (case mem_Write M m outPtr data of
             None \<Rightarrow> (v2Sentinel, Some m)
           | Some m' \<Rightarrow> (word_of_nat (length data), Some m'))))"

definition v2ResultRead ::
  "('m, 'v, 'u) host \<Rightarrow> go_ctx \<Rightarrow> 'm option \<Rightarrow> uint32 \<Rightarrow> uint32 \<Rightarrow> uint32 \<Rightarrow> 'u hstate \<Rightarrow> uint32 \<times> 'm option" where
  "v2ResultRead H ctx mem handle outPtr outCap w =
     (case callStateFrom ctx of
        None \<Rightarrow> (v2Sentinel, mem)
      | Some st \<Rightarrow>
          (case callState_get handle (hs_states w ! st) of
             None \<Rightarrow> (v2Sentinel, mem)
           | Some data \<Rightarrow> copy_out (h_mem H) mem outPtr outCap data))"

definition v2ResultDrop :: "go_ctx \<Rightarrow> uint32 \<Rightarrow> 'u hstate \<Rightarrow> uint32 \<times> 'u hstate" where
  "v2ResultDrop ctx handle w =
     (case callStateFrom ctx of
        None \<Rightarrow> (1, w)
      | Some st \<Rightarrow>
          (case callState_drop handle (hs_states w ! st) of
             (True, s') \<Rightarrow> (0, upd_state st (\<lambda>_. s') w)
           | (False, _) \<Rightarrow> (1, w)))"

text \<open>\<open>v2EventPublish\<close> up to the publication: a diagnostic, or what to publish and where.\<close>

definition event_request ::
  "('m, 'v, 'u) host \<Rightarrow> ('v, 'u) v2Deps \<Rightarrow> go_ctx \<Rightarrow> 'm option \<Rightarrow> uint32 \<Rightarrow> uint32
     \<Rightarrow> string + ('u publisher \<times> string \<times> string)" where
  "event_request H deps ctx mem reqPtr reqLen =
     (if reqLen > lim_maxEventPayloadBytes (v2_limits deps)
      then Inl ''event_publish: payload exceeds the event size limit''
      else case mem of
        None \<Rightarrow> Inl ''event_publish: guest has no memory''
      | Some m \<Rightarrow>
        (case mem_Read (h_mem H) m reqPtr reqLen of
           None \<Rightarrow> Inl ''event_publish: request pointer out of range''
         | Some raw \<Rightarrow>
           (case js_unmarshal_event (h_json H) raw of
              Inl e \<Rightarrow> Inl (''event_publish: '' @ err_text e)
            | Inr envelope \<Rightarrow>
              (case v2_events deps of
                 None \<Rightarrow> Inl ''event_publish: this module has no approved publisher''
               | Some publish \<Rightarrow>
                 if ee_Event envelope \<notin> set (gs_publish (v2_grants deps))
                 then Inl (err_text ErrHostCallDenied @ '': '' @ ee_Event envelope)
                 else (case Subject ctx (ee_Event envelope) of
                         Inl e \<Rightarrow> Inl (''event_publish: '' @ err_text e)
                       | Inr subject \<Rightarrow> Inr (publish, subject, ee_Payload envelope))))))"

definition v2EventPublish ::
  "('m, 'v, 'u) host \<Rightarrow> go_ctx \<Rightarrow> 'm option \<Rightarrow> uint32 \<Rightarrow> uint32 \<Rightarrow> 'u hstate \<Rightarrow> uint32 \<times> 'u hstate" where
  "v2EventPublish H ctx mem reqPtr reqLen w =
     (case (v2DepsFrom (h_deps H) ctx, callStateFrom ctx) of
        (Some deps, Some st) \<Rightarrow>
          (case event_request H deps ctx mem reqPtr reqLen of
             Inl msg \<Rightarrow> (1, upd_state st (callState_setErr msg) w)
           | Inr (publish, subject, payload) \<Rightarrow>
               (case publish ctx subject payload w of
                  (Some e, w1) \<Rightarrow>
                    (1, upd_state st (callState_setErr (''event_publish: '' @ err_text e)) w1)
                | (None, w1) \<Rightarrow> (0, w1)))
      | _ \<Rightarrow> (1, w))"

definition v2ErrorLen :: "go_ctx \<Rightarrow> 'u hstate \<Rightarrow> uint32" where
  "v2ErrorLen ctx w =
     (case callStateFrom ctx of
        None \<Rightarrow> 0
      | Some st \<Rightarrow> word_of_nat (length (callState_getErr (hs_states w ! st))))"

definition v2ErrorRead ::
  "('m, 'v, 'u) host \<Rightarrow> go_ctx \<Rightarrow> 'm option \<Rightarrow> uint32 \<Rightarrow> uint32 \<Rightarrow> 'u hstate \<Rightarrow> uint32 \<times> 'm option" where
  "v2ErrorRead H ctx mem outPtr outCap w =
     (case callStateFrom ctx of
        None \<Rightarrow> (v2Sentinel, mem)
      | Some st \<Rightarrow> copy_out (h_mem H) mem outPtr outCap (callState_getErr (hs_states w ! st)))"

section \<open>The WASI shim (wasi.go)\<close>

definition wasiESuccess :: uint32 where "wasiESuccess = 0"
definition wasiEBadF :: uint32 where "wasiEBadF = 8"
definition wasiENotCapable :: uint32 where "wasiENotCapable = 76"
definition fdStdout :: uint32 where "fdStdout = 1"
definition fdStderr :: uint32 where "fdStderr = 2"

definition sinkFor :: "uint32 \<Rightarrow> (string \<Rightarrow> 'u \<Rightarrow> 'u) option \<Rightarrow> (string \<Rightarrow> 'u \<Rightarrow> 'u) option \<Rightarrow> (string \<Rightarrow> 'u \<Rightarrow> 'u) option" where
  "sinkFor fd stdout stderr = (if fd = fdStdout then stdout else stderr)"

text \<open>A refused write leaves the memory as it is; its result is ignored by the shim.\<close>

definition try_write :: "'m api_memory \<Rightarrow> uint32 \<Rightarrow> string \<Rightarrow> 'm option \<Rightarrow> 'm option" where
  "try_write M ptr bs mem =
     (case mem of
        None \<Rightarrow> None
      | Some m \<Rightarrow> (case mem_Write M m ptr bs of None \<Rightarrow> Some m | Some m' \<Rightarrow> Some m'))"

definition writeU32 :: "'m api_memory \<Rightarrow> uint32 \<Rightarrow> uint32 \<Rightarrow> 'm option \<Rightarrow> 'm option" where
  "writeU32 M ptr v mem = try_write M ptr (le_bytes 4 (unat v)) mem"

text \<open>The loop of \<open>fd_write\<close> over the remaining vectors, the \<open>i\<close>-th of them first.\<close>

fun fd_write_loop ::
  "'m api_memory \<Rightarrow> 'm \<Rightarrow> (string \<Rightarrow> 'u \<Rightarrow> 'u) option \<Rightarrow> uint32 \<Rightarrow> nat \<Rightarrow> uint32 \<Rightarrow> uint32 \<Rightarrow> 'u
     \<Rightarrow> uint32 option \<times> 'u" where
  "fd_write_loop M m sink iovsPtr 0 i written u = (Some written, u)"
| "fd_write_loop M m sink iovsPtr (Suc n) i written u =
     (let base = iovsPtr + i * 8 in
      case mem_ReadUint32Le M m base of
        None \<Rightarrow> (None, u)
      | Some ptr \<Rightarrow>
          (case mem_ReadUint32Le M m (base + 4) of
             None \<Rightarrow> (None, u)
           | Some len \<Rightarrow>
               (case mem_Read M m ptr len of
                  None \<Rightarrow> (None, u)
                | Some chunk \<Rightarrow>
                    fd_write_loop M m sink iovsPtr n (i + 1) (written + len)
                      (case sink of None \<Rightarrow> u | Some f \<Rightarrow> f chunk u))))"

definition fd_write ::
  "'m api_memory \<Rightarrow> (string \<Rightarrow> 'u \<Rightarrow> 'u) option \<Rightarrow> (string \<Rightarrow> 'u \<Rightarrow> 'u) option \<Rightarrow> 'm option
     \<Rightarrow> uint32 \<Rightarrow> uint32 \<Rightarrow> uint32 \<Rightarrow> uint32 \<Rightarrow> 'u \<Rightarrow> (uint32 \<times> 'm option) \<times> 'u" where
  "fd_write M stdout stderr mem fd iovsPtr iovsLen resultPtr u =
     (if fd \<noteq> fdStdout \<and> fd \<noteq> fdStderr then ((wasiEBadF, mem), u)
      else case mem of
        None \<Rightarrow> ((wasiEBadF, mem), u)
      | Some m \<Rightarrow>
          (case fd_write_loop M m (sinkFor fd stdout stderr) iovsPtr (unat iovsLen) 0 0 u of
             (None, u') \<Rightarrow> ((wasiEBadF, mem), u')
           | (Some written, u') \<Rightarrow> ((wasiESuccess, writeU32 M resultPtr written mem), u')))"

text \<open>\<open>clock_time_get\<close>: advance the runtime's counter by a microsecond and report it.\<close>

definition clock_time_get ::
  "'m api_memory \<Rightarrow> nat \<Rightarrow> 'm option \<Rightarrow> uint32 \<Rightarrow> 'u hstate \<Rightarrow> (uint32 \<times> 'm option) \<times> 'u hstate" where
  "clock_time_get M rt mem resultPtr w =
     (let now = rt_monotonic (hs_runtimes w ! rt) + 1000;
          w1 = upd_runtime rt (\<lambda>r. r\<lparr>rt_monotonic := now\<rparr>) w
      in ((wasiESuccess,
           (case mem of
              None \<Rightarrow> None
            | Some m \<Rightarrow> (case mem_WriteUint64Le M m resultPtr now of None \<Rightarrow> Some m | Some m' \<Rightarrow> Some m'))),
          w1))"

definition random_get :: "'m api_memory \<Rightarrow> 'm option \<Rightarrow> uint32 \<Rightarrow> uint32 \<Rightarrow> uint32 \<times> 'm option" where
  "random_get M mem bufPtr bufLen =
     (wasiESuccess, try_write M bufPtr (replicate (unat bufLen) (CHR 0x00)) mem)"

section \<open>Guests\<close>

text \<open>Everything a guest can import, with the arguments it passes.\<close>

datatype import_call =
    CapabilityCall uint32 uint32
  | ResultLen uint32
  | ResultRead uint32 uint32 uint32
  | ResultDrop uint32
  | EventPublish uint32 uint32
  | ErrorLen
  | ErrorRead uint32 uint32
  | ArgsGet uint32 uint32
  | ArgsSizesGet uint32 uint32
  | EnvironGet uint32 uint32
  | EnvironSizesGet uint32 uint32
  | SchedYield
  | ProcExit uint32
  | PollOneoff uint32 uint32 uint32 uint32
  | ClockTimeGet uint32 uint64 uint32
  | RandomGet uint32 uint32
  | FdPrestatGet uint32 uint32
  | FdPrestatDirName uint32 uint32 uint32
  | FdClose uint32
  | FdFdstatGet uint32 uint32
  | FdFdstatSetFlags uint32 uint32
  | FdWrite uint32 uint32 uint32 uint32

text \<open>
  The rest of a guest's execution: it has returned, has trapped (with wazero's error, and whether
  the deadline of the invocation had passed by then), or calls the host and goes on with the
  answer and its memory.
\<close>

datatype ('m, 'r) proc =
    Returned 'r 'm
  | Trapped gerr bool
  | Imports import_call 'm "uint64 \<times> 'm \<Rightarrow> ('m, 'r) proc"

primrec run_proc ::
  "('m, 'r) proc \<Rightarrow> (import_call \<Rightarrow> 'm \<Rightarrow> 'w \<Rightarrow> (uint64 \<times> 'm) \<times> 'w) \<Rightarrow> 'w
     \<Rightarrow> ((gerr \<times> bool) + ('r \<times> 'm)) \<times> 'w" where
  "run_proc (Returned r m) = (\<lambda>host w. (Inr (r, m), w))"
| "run_proc (Trapped e late) = (\<lambda>host w. (Inl (e, late), w))"
| "run_proc (Imports c m k) =
     (\<lambda>host w. let (answer, w1) = host c m w in run_proc (k answer) host w1)"

text \<open>
  A compiled module: its exported functions, whether it has a memory, and what instantiating it
  on a runtime with a time limit does: \<open>_initialize\<close> runs and leaves the exported functions,
  \<open>sannad_alloc\<close> first and, on the instance as that leaves it, \<open>sannad_handle\<close>.
\<close>

type_synonym 'm handle_fn = "uint64 \<Rightarrow> uint64 \<Rightarrow> 'm \<Rightarrow> ('m, uint64 list) proc"
type_synonym 'm alloc_fn = "uint64 \<Rightarrow> ('m, uint64 list \<times> 'm handle_fn) proc"

record 'm compiled =
  cm_exports :: "string list"
  cm_has_memory :: bool
  cm_instantiate :: "runtime \<Rightarrow> int \<Rightarrow> ('m, 'm alloc_fn) proc"
  cm_close :: "gerr option"

record ('m, 'v, 'u) plugin =
  pl_config :: "('v, 'u) config"
  pl_runtime :: nat
  pl_compiled :: "'m compiled"
  pl_v2 :: "nat option"

definition mod_Memory :: "('m, 'v, 'u) plugin \<Rightarrow> 'm \<Rightarrow> 'm option" where
  "mod_Memory p m = (if cm_has_memory (pl_compiled p) then Some m else None)"

definition after_call :: "'m \<Rightarrow> uint32 \<times> 'm option \<Rightarrow> uint64 \<times> 'm" where
  "after_call m r = (ucast (fst r), case snd r of None \<Rightarrow> m | Some m' \<Rightarrow> m')"

text \<open>The import table: \<open>instantiateV2Host\<close> and \<open>instantiateWASI\<close>.\<close>

definition v2_import ::
  "('m, 'v, 'u) host \<Rightarrow> ('m, 'v, 'u) plugin \<Rightarrow> go_ctx \<Rightarrow> import_call \<Rightarrow> 'm \<Rightarrow> 'u hstate
     \<Rightarrow> ((uint64 \<times> 'm) \<times> 'u hstate) option" where
  "v2_import H p ctx c m w =
     (let mem = mod_Memory p m in
      case c of
        CapabilityCall ptr len \<Rightarrow>
          Some (case v2CapabilityCall H ctx mem ptr len w of (r, w1) \<Rightarrow> ((r, m), w1))
      | ResultLen h \<Rightarrow> Some ((ucast (v2ResultLen ctx h w), m), w)
      | ResultRead h ptr cap \<Rightarrow> Some (after_call m (v2ResultRead H ctx mem h ptr cap w), w)
      | ResultDrop h \<Rightarrow> Some (case v2ResultDrop ctx h w of (r, w1) \<Rightarrow> ((ucast r, m), w1))
      | EventPublish ptr len \<Rightarrow>
          Some (case v2EventPublish H ctx mem ptr len w of (r, w1) \<Rightarrow> ((ucast r, m), w1))
      | ErrorLen \<Rightarrow> Some ((ucast (v2ErrorLen ctx w), m), w)
      | ErrorRead ptr cap \<Rightarrow> Some (after_call m (v2ErrorRead H ctx mem ptr cap w), w)
      | _ \<Rightarrow> None)"

definition wasi_import ::
  "('m, 'v, 'u) host \<Rightarrow> ('m, 'v, 'u) plugin \<Rightarrow> import_call \<Rightarrow> 'm \<Rightarrow> 'u hstate
     \<Rightarrow> (uint64 \<times> 'm) \<times> 'u hstate" where
  "wasi_import H p c m w =
     (let M = h_mem H; mem = mod_Memory p m; ok = (\<lambda>code. (after_call m (code, mem), w)) in
      case c of
        ArgsSizesGet countPtr bufPtr \<Rightarrow>
          (after_call m (wasiESuccess, writeU32 M bufPtr 0 (writeU32 M countPtr 0 mem)), w)
      | EnvironSizesGet countPtr bufPtr \<Rightarrow>
          (after_call m (wasiESuccess, writeU32 M bufPtr 0 (writeU32 M countPtr 0 mem)), w)
      | PollOneoff _ _ _ resultPtr \<Rightarrow> (after_call m (wasiESuccess, writeU32 M resultPtr 0 mem), w)
      | ClockTimeGet _ _ resultPtr \<Rightarrow>
          (case clock_time_get M (pl_runtime p) mem resultPtr w of (r, w1) \<Rightarrow> (after_call m r, w1))
      | RandomGet bufPtr bufLen \<Rightarrow> (after_call m (random_get M mem bufPtr bufLen), w)
      | FdPrestatGet _ _ \<Rightarrow> ok wasiEBadF
      | FdPrestatDirName _ _ _ \<Rightarrow> ok wasiEBadF
      | FdClose _ \<Rightarrow> ok wasiEBadF
      | FdFdstatGet _ _ \<Rightarrow> ok wasiENotCapable
      | FdFdstatSetFlags _ _ \<Rightarrow> ok wasiENotCapable
      | FdWrite fd iovsPtr iovsLen resultPtr \<Rightarrow>
          (case fd_write M (cfg_Stdout (pl_config p)) (cfg_Stderr (pl_config p)) mem
                  fd iovsPtr iovsLen resultPtr (hs_user w) of
             (r, u) \<Rightarrow> (after_call m r, w\<lparr>hs_user := u\<rparr>))
      | _ \<Rightarrow> ok wasiESuccess)"

definition import_table ::
  "('m, 'v, 'u) host \<Rightarrow> ('m, 'v, 'u) plugin \<Rightarrow> go_ctx \<Rightarrow> import_call \<Rightarrow> 'm \<Rightarrow> 'u hstate
     \<Rightarrow> (uint64 \<times> 'm) \<times> 'u hstate" where
  "import_table H p ctx c m w =
     (case v2_import H p ctx c m w of Some r \<Rightarrow> r | None \<Rightarrow> wasi_import H p c m w)"

section \<open>Loading (host.go)\<close>

record 'm wazero =
  wz_InstantiateWASI :: "gerr option"
  wz_InstantiateV2 :: "gerr option"
  wz_CompileModule :: "uint32 \<Rightarrow> string \<Rightarrow> gerr + 'm compiled"
  wz_CloseRuntime :: "gerr option"

definition close_runtime :: "nat \<Rightarrow> 'u hstate \<Rightarrow> 'u hstate" where
  "close_runtime rt = upd_runtime rt (\<lambda>r. r\<lparr>rt_closed := True\<rparr>)"

definition close_compiled :: "nat \<Rightarrow> 'u hstate \<Rightarrow> 'u hstate" where
  "close_compiled rt = upd_runtime rt (\<lambda>r. r\<lparr>rt_compiled_closed := True\<rparr>)"

text \<open>The first export the ABI requires and the module lacks.\<close>

definition missing_export :: "string list \<Rightarrow> string option" where
  "missing_export exports = find (\<lambda>e. e \<notin> set exports) [ExportAlloc, ExportHandle]"

definition Load ::
  "'m wazero \<Rightarrow> ('v, 'u) config \<Rightarrow> ('v, 'u) v2Deps list \<Rightarrow> 'u hstate
     \<Rightarrow> (gerr + ('m, 'v, 'u) plugin) \<times> ('v, 'u) v2Deps list \<times> 'u hstate" where
  "Load wz config0 T w =
     (let config = applyDefaults config0; i = cfg_ModuleID config in
      if i = [] then (Inl (ErrNew ''wasmhost: module ID is required''), T, w)
      else if cfg_Wasm config = [] then (Inl (ErrNew (''wasmhost: no module bytes for '' @ i)), T, w)
      else
        (let rt = length (hs_runtimes w);
             w1 = w\<lparr>hs_runtimes := hs_runtimes w @ [\<lparr>rt_pages = cfg_MaxMemoryPages config, rt_monotonic = 0,
                                                     rt_compiled_closed = False, rt_closed = False\<rparr>]\<rparr>
         in case wz_InstantiateWASI wz of
              Some e \<Rightarrow> (Inl (prefixf [''wasmhost: prepare sandbox for '', i] e), T, close_runtime rt w1)
            | None \<Rightarrow>
          (case wz_InstantiateV2 wz of
              Some e \<Rightarrow> (Inl (prefixf [''wasmhost: prepare host-call surface for '', i] e), T, close_runtime rt w1)
            | None \<Rightarrow>
          (case wz_CompileModule wz (cfg_MaxMemoryPages config) (cfg_Wasm config) of
              Inl e \<Rightarrow> (Inl (prefixf [''wasmhost: compile '', i] e), T, close_runtime rt w1)
            | Inr compiled \<Rightarrow>
          (case missing_export (cm_exports compiled) of
              Some required \<Rightarrow>
                (Inl (wrapf ErrGuestContract [i, '' exports no '', required]), T,
                 close_runtime rt (close_compiled rt w1))
            | None \<Rightarrow>
                if ''_initialize'' \<notin> set (cm_exports compiled)
                then (Inl (wrapf ErrGuestContract [i, '' exports no _initialize; build it as a reactor '',
                            ''(for Go: -buildmode=c-shared) rather than a command'']), T,
                      close_runtime rt (close_compiled rt w1))
                else
                  (case cfg_V2 config of
                     None \<Rightarrow>
                       (Inr \<lparr>pl_config = config, pl_runtime = rt, pl_compiled = compiled, pl_v2 = None\<rparr>, T, w1)
                   | Some v2 \<Rightarrow>
                       (Inr \<lparr>pl_config = config, pl_runtime = rt, pl_compiled = compiled,
                             pl_v2 = Some (length T)\<rparr>, T @ [newV2Deps i v2], w1)))))))"

definition Plugin_Close :: "'m wazero \<Rightarrow> ('m, 'v, 'u) plugin \<Rightarrow> 'u hstate \<Rightarrow> gerr option \<times> 'u hstate" where
  "Plugin_Close wz p w =
     (case cm_close (pl_compiled p) of
        Some e \<Rightarrow> (Some e, w)
      | None \<Rightarrow> (wz_CloseRuntime wz, close_runtime (pl_runtime p) (close_compiled (pl_runtime p) w)))"

section \<open>Invoking (host.go)\<close>

text \<open>\<open>time.Duration.String\<close>.\<close>

definition fmt_frac :: "nat \<Rightarrow> nat \<Rightarrow> string" where
  "fmt_frac v prec =
     (let ds = digits10 (v mod 10 ^ prec);
          padded = replicate (prec - length ds) (CHR ''0'') @ ds;
          sig = rev (dropWhile (\<lambda>c. c = CHR ''0'') (rev padded))
      in if sig = [] then [] else CHR ''.'' # sig)"

definition duration_string :: "int \<Rightarrow> string" where
  "duration_string d =
     (let u = nat \<bar>d\<bar>; sign = (if d < 0 then ''-'' else []);
          unit = (\<lambda>prec name. digits10 (u div 10 ^ prec) @ fmt_frac u prec @ name)
      in if u = 0 then ''0s''
         else sign @
           (if u < 1000 then unit 0 ''ns''
            else if u < 1000000 then unit 3 [CHR 0xC2, CHR 0xB5, CHR ''s'']
            else if u < 1000000000 then unit 6 ''ms''
            else (let s = u div 10 ^ 9; mi = s div 60; h = mi div 60 in
                  (if h > 0 then digits10 h @ ''h'' else [])
                  @ (if mi > 0 then digits10 (mi mod 60) @ ''m'' else [])
                  @ digits10 (s mod 60) @ fmt_frac u 9 @ ''s'')))"

definition classify :: "('m, 'v, 'u) plugin \<Rightarrow> bool \<Rightarrow> gerr \<Rightarrow> gerr" where
  "classify p late err =
     (if late
      then wrapf ErrGuestTimeout [cfg_ModuleID (pl_config p), '' exceeded '', duration_string (cfg_Timeout (pl_config p))]
      else wrapf ErrGuestFailed [cfg_ModuleID (pl_config p), '': '', err_text err])"

text \<open>The limit of one invocation, and \<open>context.WithTimeout\<close>.\<close>

definition invoke_timeout :: "('m, 'v, 'u) plugin \<Rightarrow> go_ctx \<Rightarrow> int \<Rightarrow> int" where
  "invoke_timeout p ctx now =
     (let timeout = cfg_Timeout (pl_config p) in
      case ctx_deadline ctx of
        None \<Rightarrow> timeout
      | Some deadline \<Rightarrow>
          (let remaining = deadline - now in
           if remaining > 0 \<and> remaining < timeout then remaining else timeout))"

definition WithTimeout :: "go_ctx \<Rightarrow> int \<Rightarrow> int \<Rightarrow> go_ctx" where
  "WithTimeout ctx now timeout =
     ctx\<lparr>ctx_deadline := Some (case ctx_deadline ctx of
                                 None \<Rightarrow> now + timeout
                               | Some d \<Rightarrow> min d (now + timeout))\<rparr>"

text \<open>The context and the heap a guest runs with.\<close>

definition invocation_ctx :: "('m, 'v, 'u) plugin \<Rightarrow> go_ctx \<Rightarrow> 'u hstate \<Rightarrow> go_ctx \<times> 'u hstate" where
  "invocation_ctx p ctx w =
     (let ctx1 = WithTimeout ctx (hs_now w) (invoke_timeout p ctx (hs_now w)) in
      case pl_v2 p of
        None \<Rightarrow> (ctx1, w)
      | Some deps \<Rightarrow>
          (withCallState (withV2Deps ctx1 deps) (length (hs_states w)),
           w\<lparr>hs_states := hs_states w @ [newCallState]\<rparr>))"

text \<open>The response a returned packed value names, read after the last stage.\<close>

definition guest_response ::
  "('m, 'v, 'u) host \<Rightarrow> ('m, 'v, 'u) plugin \<Rightarrow> uint64 list \<Rightarrow> 'm \<Rightarrow> gerr + string" where
  "guest_response H p results m =
     (let i = cfg_ModuleID (pl_config p) in
      case results of
        [] \<Rightarrow> Inl (wrapf ErrGuestContract [i, '' handler returned nothing''])
      | v # _ \<Rightarrow>
          (let (responsePtr, responseLen) = packResult v;
               limit = cfg_MaxResponseBytes (pl_config p)
           in if responseLen > limit
              then Inl (wrapf ErrResponseTooLarge
                     [i, '' returned '', itoa (uint responseLen), '' bytes, limit is '', itoa (uint limit)])
              else (case mem_Read (h_mem H) m responsePtr responseLen of
                      None \<Rightarrow> Inl (wrapf ErrGuestFailed [i, '' returned an out-of-range response''])
                    | Some response \<Rightarrow> Inr response)))"

definition Invoke ::
  "('m, 'v, 'u) host \<Rightarrow> ('m, 'v, 'u) plugin \<Rightarrow> go_ctx \<Rightarrow> string \<Rightarrow> 'u hstate \<Rightarrow> (gerr + string) \<times> 'u hstate" where
  "Invoke H p ctx request w =
     (let i = cfg_ModuleID (pl_config p);
          timeout = invoke_timeout p ctx (hs_now w);
          (ctx1, w1) = invocation_ctx p ctx w;
          host = import_table H p ctx1
      in case run_proc (cm_instantiate (pl_compiled p) (hs_runtimes w1 ! pl_runtime p) timeout) host w1 of
           (Inl (e, late), w2) \<Rightarrow> (Inl (classify p late (prefixf [''instantiate''] e)), w2)
         | (Inr (alloc, m), w2) \<Rightarrow>
             if \<not> cm_has_memory (pl_compiled p)
             then (Inl (wrapf ErrGuestContract [i, '' exports no memory'']), w2)
             else
             (case run_proc (alloc (word_of_nat (length request))) host w2 of
                (Inl (e, late), w3) \<Rightarrow> (Inl (classify p late (prefixf [''alloc''] e)), w3)
              | (Inr (([], _), _), w3) \<Rightarrow>
                  (Inl (wrapf ErrGuestContract [i, '' alloc returned nothing'']), w3)
              | (Inr ((allocated # _, handle), m1), w3) \<Rightarrow>
                  (let ptr = (ucast allocated :: uint32) in
                   case mem_Write (h_mem H) m1 ptr request of
                     None \<Rightarrow> (Inl (wrapf ErrGuestFailed [i, '' returned an out-of-range pointer'']), w3)
                   | Some m2 \<Rightarrow>
                       (case run_proc (handle (ucast ptr) (word_of_nat (length request)) m2) host w3 of
                          (Inl (e, late), w4) \<Rightarrow> (Inl (classify p late (prefixf [''handle''] e)), w4)
                        | (Inr (results, m3), w4) \<Rightarrow> (guest_response H p results m3, w4)))))"

definition max_depth :: "('m, 'v, 'u) host \<Rightarrow> ('m, 'v, 'u) plugin \<Rightarrow> uint32" where
  "max_depth H p = (case pl_v2 p of
     None \<Rightarrow> DefaultMaxCallDepth | Some a \<Rightarrow> lim_maxCallDepth (v2_limits (h_deps H ! a)))"

definition Handler ::
  "('m, 'v, 'u) host \<Rightarrow> ('m, 'v, 'u) plugin \<Rightarrow> capability_ref \<Rightarrow> ('v, 'u hstate) cap_handler" where
  "Handler H p ref ctx request w =
     (let tenantID = ctx_tenant ctx in
      if tenantID = []
      then ((ANil, Some (ErrNew (''wasmhost: no tenant in context for '' @ cap_key ref))), w)
      else let maxDepth = max_depth H p; chain = callChainFrom ctx in
      if cap_key ref \<in> set chain then ((ANil, Some (wrapf ErrCallCycle [cap_key ref])), w)
      else if word_of_nat (length chain) \<ge> maxDepth
      then ((ANil, Some (wrapf ErrCallDepthExceeded
              [cap_key ref, '' would exceed depth '', itoa (uint maxDepth)])), w)
      else let ctx1 = withCallChain ctx (chain @ [cap_key ref]) in
      case JSON_EncodeRequest (h_json H) ref tenantID request of
        Inl e \<Rightarrow> ((ANil, Some e), w)
      | Inr payload \<Rightarrow>
          (case Invoke H p ctx1 payload w of
             (Inl e, w1) \<Rightarrow> ((ANil, Some e), w1)
           | (Inr raw, w1) \<Rightarrow>
               (case statusOf raw of
                  Inl e \<Rightarrow> ((ANil, Some e), w1)
                | Inr (status, body) \<Rightarrow>
                    if status = abi_StatusError then ((ANil, Some (wrapf ErrForbidden [body])), w1)
                    else (case JSON_DecodeResponse ref body of
                            Inl e \<Rightarrow> ((ANil, Some e), w1)
                          | Inr v \<Rightarrow> ((v, None), w1)))))"

end
