(* ===== verification/Wasm_Sandbox.thy ===== *)
theory Wasm_Sandbox
  imports Wasm_Host
begin

text \<open>
  What the sandbox guarantees of any guest: what it can observe of the deployment it runs in,
  how large its results can be, that nested calls between guests end, and where the code falls
  short of its own rules.
\<close>

section \<open>What a guest can observe\<close>

text \<open>
  Two policies are the same to a guest running with context \<open>ctx\<close> if their limits and grants
  are equal and their callers and publishers agree on what the grants allow: granted capabilities
  called with this very context, granted events on the subjects of this context's tenant.
\<close>

definition same_calls :: "string set \<Rightarrow> go_ctx \<Rightarrow> ('v, 'w) caller \<Rightarrow> ('v, 'w) caller \<Rightarrow> bool" where
  "same_calls granted ctx f g \<longleftrightarrow>
     (\<forall>ref payload w. cap_key ref \<in> granted \<longrightarrow> f ctx ref (ARaw payload) w = g ctx ref (ARaw payload) w)"

definition same_publishes :: "string set \<Rightarrow> go_ctx \<Rightarrow> 'u publisher \<Rightarrow> 'u publisher \<Rightarrow> bool" where
  "same_publishes granted ctx f g \<longleftrightarrow>
     (\<forall>e subject payload w. e \<in> granted \<longrightarrow> Subject ctx e = Inr subject
        \<longrightarrow> f ctx subject payload w = g ctx subject payload w)"

definition same_policy :: "go_ctx \<Rightarrow> ('v, 'u) v2Deps \<Rightarrow> ('v, 'u) v2Deps \<Rightarrow> bool" where
  "same_policy ctx d d' \<longleftrightarrow>
     v2_limits d = v2_limits d' \<and> v2_grants d = v2_grants d'
     \<and> rel_option (same_calls (set (gs_consume (v2_grants d))) ctx) (v2_caller d) (v2_caller d')
     \<and> rel_option (same_publishes (set (gs_publish (v2_grants d))) ctx) (v2_events d) (v2_events d')"

definition same_host :: "go_ctx \<Rightarrow> ('m, 'v, 'u) host \<Rightarrow> ('m, 'v, 'u) host \<Rightarrow> bool" where
  "same_host ctx H H' \<longleftrightarrow>
     h_json H = h_json H' \<and> h_mem H = h_mem H'
     \<and> rel_option (same_policy ctx) (v2DepsFrom (h_deps H) ctx) (v2DepsFrom (h_deps H') ctx)"

lemma same_policy_refl [simp]: "same_policy ctx d d"
  by (auto simp: same_policy_def same_calls_def same_publishes_def intro!: option.rel_refl)

lemma splitCapabilityKey_key:
  "splitCapabilityKey k = Inr (n, v) \<Longrightarrow> cap_key (CapabilityRef n v) = k"
  by (auto simp: splitCapabilityKey_def cap_key_def cut_last_Some_iff split: option.splits if_splits)

lemma call_request_cong:
  assumes "same_host ctx H H'" "same_policy ctx d d'"
  shows "rel_sum (=) (rel_prod (same_calls (set (gs_consume (v2_grants d))) ctx) (=))
           (call_request H d mem ptr len) (call_request H' d' mem ptr len)"
proof -
  have eqs: "h_json H' = h_json H" "h_mem H' = h_mem H" "v2_limits d' = v2_limits d" "v2_grants d' = v2_grants d"
    and rel: "rel_option (same_calls (set (gs_consume (v2_grants d))) ctx) (v2_caller d) (v2_caller d')"
    using assms by (auto simp: same_host_def same_policy_def)
  from rel consider "v2_caller d = None" "v2_caller d' = None"
    | f g where "v2_caller d = Some f" "v2_caller d' = Some g" "same_calls (set (gs_consume (v2_grants d))) ctx f g"
    by (auto elim: option.rel_cases)
  then show ?thesis
    unfolding call_request_def eqs by cases (simp_all split: option.split sum.split)
qed

lemma call_request_granted:
  "call_request H d mem ptr len = Inr (call, ref, payload) \<Longrightarrow>
     cap_key ref \<in> set (gs_consume (v2_grants d)) \<and> v2_caller d = Some call"
  by (auto simp: call_request_def splitCapabilityKey_key split: option.splits sum.splits if_splits)

lemma event_request_cong:
  assumes "same_host ctx H H'" "same_policy ctx d d'"
  shows "rel_sum (=) (rel_prod (same_publishes (set (gs_publish (v2_grants d))) ctx) (=))
           (event_request H d ctx mem ptr len) (event_request H' d' ctx mem ptr len)"
proof -
  have eqs: "h_json H' = h_json H" "h_mem H' = h_mem H" "v2_limits d' = v2_limits d" "v2_grants d' = v2_grants d"
    and rel: "rel_option (same_publishes (set (gs_publish (v2_grants d))) ctx) (v2_events d) (v2_events d')"
    using assms by (auto simp: same_host_def same_policy_def)
  from rel consider "v2_events d = None" "v2_events d' = None"
    | f g where "v2_events d = Some f" "v2_events d' = Some g" "same_publishes (set (gs_publish (v2_grants d))) ctx f g"
    by (auto elim: option.rel_cases)
  then show ?thesis
    unfolding event_request_def eqs by cases (simp_all split: option.split sum.split)
qed

lemma event_request_granted:
  "event_request H d ctx mem ptr len = Inr (publish, subject, payload) \<Longrightarrow>
     \<exists>e \<in> set (gs_publish (v2_grants d)). Subject ctx e = Inr subject"
  by (auto simp: event_request_def split: option.splits sum.splits if_splits)

lemma call_reply_cong:
  "same_host ctx H H' \<Longrightarrow> same_policy ctx d d' \<Longrightarrow> call_reply H d a s = call_reply H' d' a s"
proof -
  assume "same_host ctx H H'" "same_policy ctx d d'"
  then have eqs: "h_json H = h_json H'" "v2_limits d = v2_limits d'"
    by (auto simp: same_host_def same_policy_def)
  show "call_reply H d a s = call_reply H' d' a s" unfolding call_reply_def eqs ..
qed

lemma v2CapabilityCall_cong:
  assumes same: "same_host ctx H H'"
  shows "v2CapabilityCall H ctx mem ptr len w = v2CapabilityCall H' ctx mem ptr len w"
proof (cases "callStateFrom ctx")
  case (Some st)
  show ?thesis
  proof (cases "v2DepsFrom (h_deps H) ctx")
    case None
    then have "v2DepsFrom (h_deps H') ctx = None" using same by (simp add: same_host_def)
    with None show ?thesis by (simp add: v2CapabilityCall_def)
  next
    case (Some d)
    with same obtain d' where d': "v2DepsFrom (h_deps H') ctx = Some d'" "same_policy ctx d d'"
      by (auto simp: same_host_def option_rel_Some1)
    note rq = call_request_cong [OF same d'(2), of mem ptr len]
    show ?thesis
    proof (cases "call_request H d mem ptr len")
      case (Inl a)
      with rq have "call_request H' d' mem ptr len = Inl a"
        by (cases "call_request H' d' mem ptr len") auto
      with Inl Some d'(1) \<open>callStateFrom ctx = Some st\<close> show ?thesis by (simp add: v2CapabilityCall_def)
    next
      case (Inr b)
      obtain call ref payload where b: "b = (call, ref, payload)" by (cases b) auto
      from rq Inr b obtain call' where r': "call_request H' d' mem ptr len = Inr (call', ref, payload)"
        and calls: "same_calls (set (gs_consume (v2_grants d))) ctx call call'"
        by (cases "call_request H' d' mem ptr len") auto
      have "call ctx ref (ARaw payload) w = call' ctx ref (ARaw payload) w"
        using calls call_request_granted [of H d] Inr b by (auto simp: same_calls_def)
      with Inr b r' Some d' \<open>callStateFrom ctx = Some st\<close> same show ?thesis
        by (simp add: v2CapabilityCall_def call_reply_cong)
    qed
  qed
qed (simp add: v2CapabilityCall_def split: option.splits)

lemma v2EventPublish_cong:
  assumes same: "same_host ctx H H'"
  shows "v2EventPublish H ctx mem ptr len w = v2EventPublish H' ctx mem ptr len w"
proof (cases "callStateFrom ctx")
  case (Some st)
  show ?thesis
  proof (cases "v2DepsFrom (h_deps H) ctx")
    case None
    then have "v2DepsFrom (h_deps H') ctx = None" using same by (simp add: same_host_def)
    with None show ?thesis by (simp add: v2EventPublish_def)
  next
    case (Some d)
    with same obtain d' where d': "v2DepsFrom (h_deps H') ctx = Some d'" "same_policy ctx d d'"
      by (auto simp: same_host_def option_rel_Some1)
    note rq = event_request_cong [OF same d'(2), of mem ptr len]
    show ?thesis
    proof (cases "event_request H d ctx mem ptr len")
      case (Inl a)
      with rq have "event_request H' d' ctx mem ptr len = Inl a"
        by (cases "event_request H' d' ctx mem ptr len") auto
      with Inl Some d'(1) \<open>callStateFrom ctx = Some st\<close> show ?thesis by (simp add: v2EventPublish_def)
    next
      case (Inr b)
      obtain pub subject payload where b: "b = (pub, subject, payload)" by (cases b) auto
      from rq Inr b obtain pub' where r': "event_request H' d' ctx mem ptr len = Inr (pub', subject, payload)"
        and pubs: "same_publishes (set (gs_publish (v2_grants d))) ctx pub pub'"
        by (cases "event_request H' d' ctx mem ptr len") auto
      have "pub ctx subject payload w = pub' ctx subject payload w"
        using pubs event_request_granted [of H d] Inr b unfolding same_publishes_def by metis
      with Inr b r' Some d' \<open>callStateFrom ctx = Some st\<close> same show ?thesis
        by (simp add: v2EventPublish_def)
    qed
  qed
qed (simp add: v2EventPublish_def split: option.splits)

lemma import_table_cong:
  assumes same: "same_host ctx H H'"
  shows "import_table H p ctx = import_table H' p ctx"
proof (intro ext)
  fix c m w
  have mem: "h_mem H = h_mem H'" using same by (simp add: same_host_def)
  have "v2ResultRead H = v2ResultRead H'" "v2ErrorRead H = v2ErrorRead H'"
    by (intro ext; simp only: v2ResultRead_def v2ErrorRead_def mem)+
  then have "v2_import H p ctx c m w = v2_import H' p ctx c m w"
    by (cases c) (simp_all add: v2_import_def v2CapabilityCall_cong [OF same] v2EventPublish_cong [OF same])
  moreover have "wasi_import H p c m w = wasi_import H' p c m w"
    unfolding wasi_import_def mem ..
  ultimately show "import_table H p ctx c m w = import_table H' p ctx c m w"
    unfolding import_table_def by (simp only:)
qed

lemma Invoke_cong:
  assumes same: "same_host (fst (invocation_ctx p ctx w)) H H'"
  shows "Invoke H p ctx request w = Invoke H' p ctx request w"
proof -
  have mem: "h_mem H = h_mem H'" using same by (simp add: same_host_def)
  have resp: "guest_response H p = guest_response H' p"
    unfolding guest_response_def mem ..
  obtain ctx1 w1 where inv: "invocation_ctx p ctx w = (ctx1, w1)" by fastforce
  have imp: "import_table H p ctx1 = import_table H' p ctx1"
    using import_table_cong same inv by simp
  show ?thesis unfolding Invoke_def inv Let_def prod.case mem resp imp ..
qed

lemma Handler_cong:
  assumes json: "h_json H = h_json H'" and depth: "max_depth H p = max_depth H' p"
    and same: "ctx_tenant ctx \<noteq> [] \<Longrightarrow> cap_key ref \<notin> set (ctx_chain ctx)
      \<Longrightarrow> word_of_nat (length (ctx_chain ctx)) < max_depth H p
      \<Longrightarrow> same_host (fst (invocation_ctx p (withCallChain ctx (ctx_chain ctx @ [cap_key ref])) w)) H H'"
  shows "Handler H p ref ctx request w = Handler H' p ref ctx request w"
  using json depth Invoke_cong [OF same]
  by (auto simp: Handler_def callChainFrom_def Let_def not_le split: sum.split)

lemma invocation_ctx_keeps:
  "ctx_tenant (fst (invocation_ctx p ctx w)) = ctx_tenant ctx"
  "ctx_caller (fst (invocation_ctx p ctx w)) = ctx_caller ctx"
  "ctx_system (fst (invocation_ctx p ctx w)) = ctx_system ctx"
  "ctx_chain (fst (invocation_ctx p ctx w)) = ctx_chain ctx"
  by (auto simp: invocation_ctx_def WithTimeout_def withCallState_def withV2Deps_def Let_def split: option.split)

lemma invocation_ctx_granted:
  assumes "pl_v2 p = Some a"
  shows "ctx_v2 (fst (invocation_ctx p ctx w)) = Some a"
    "ctx_state (fst (invocation_ctx p ctx w)) = Some (length (hs_states w))"
    "snd (invocation_ctx p ctx w) = w\<lparr>hs_states := hs_states w @ [newCallState]\<rparr>"
  using assms by (simp_all add: invocation_ctx_def withCallState_def withV2Deps_def Let_def)

lemma invocation_ctx_ungranted:
  assumes "pl_v2 p = None"
  shows "ctx_v2 (fst (invocation_ctx p ctx w)) = ctx_v2 ctx"
    "ctx_state (fst (invocation_ctx p ctx w)) = ctx_state ctx"
    "snd (invocation_ctx p ctx w) = w"
  using assms by (simp_all add: invocation_ctx_def WithTimeout_def Let_def)

lemma withCallChain_simps [simp]:
  "ctx_tenant (withCallChain ctx c) = ctx_tenant ctx" "ctx_caller (withCallChain ctx c) = ctx_caller ctx"
  "ctx_system (withCallChain ctx c) = ctx_system ctx" "ctx_chain (withCallChain ctx c) = c"
  "ctx_v2 (withCallChain ctx c) = ctx_v2 ctx" "ctx_state (withCallChain ctx c) = ctx_state ctx"
  by (simp_all add: withCallChain_def)

text \<open>
  C4: Least privilege. Whatever a guest with a policy does, one call of its capability has the
  same result and the same effects in any two deployments that agree on what the policy grants:
  the granted capabilities, called under the tenant, caller and call chain the host established
  and with a fresh result table, and the granted events on the subjects of that tenant. So a
  guest can neither use nor observe any other capability, event, tenant or caller identity.
\<close>

theorem guest_least_privilege:
  assumes policy: "pl_v2 p = Some a" "a < length (h_deps H)" "a < length (h_deps H')"
    and libs: "h_json H = h_json H'" "h_mem H = h_mem H'"
    and agree: "\<And>ctx'. ctx_tenant ctx' = ctx_tenant ctx \<Longrightarrow> ctx_caller ctx' = ctx_caller ctx
      \<Longrightarrow> ctx_system ctx' = ctx_system ctx \<Longrightarrow> ctx_chain ctx' = ctx_chain ctx @ [cap_key ref]
      \<Longrightarrow> ctx_v2 ctx' = Some a \<Longrightarrow> ctx_state ctx' = Some (length (hs_states w))
      \<Longrightarrow> same_policy ctx' (h_deps H ! a) (h_deps H' ! a)"
  shows "Handler H p ref ctx request w = Handler H' p ref ctx request w"
proof (rule Handler_cong)
  let ?c = "fst (invocation_ctx p (withCallChain ctx (ctx_chain ctx @ [cap_key ref])) w)"
  have "same_policy c (h_deps H ! a) (h_deps H' ! a)" if "c = ?c" for c
    using that policy(1) by (intro agree) (simp_all add: invocation_ctx_keeps invocation_ctx_granted)
  then have pol: "same_policy ?c (h_deps H ! a) (h_deps H' ! a)" by blast
  then show "max_depth H p = max_depth H' p"
    using policy(1) by (simp add: max_depth_def same_policy_def)
  from pol policy libs show "same_host ?c H H'"
    by (simp add: same_host_def v2DepsFrom_def invocation_ctx_granted)
qed (rule libs)

section \<open>Nested calls end\<close>

text \<open>
  The bus of a deployment that serves some capabilities from guests: a guest's caller is the bus
  again. \<open>kernel_calls n below\<close> unrolls that \<open>n\<close> times, and \<open>below\<close> stands for whatever lies
  below; a call that does not depend on \<open>below\<close> ends within \<open>n\<close> nested calls.
\<close>

definition with_caller :: "('v, 'u hstate) caller \<Rightarrow> ('m, 'v, 'u) host \<Rightarrow> ('m, 'v, 'u) host" where
  "with_caller f H = H\<lparr>h_deps := map (\<lambda>d. d\<lparr>v2_caller := Some f\<rparr>) (h_deps H)\<rparr>"

definition guest_handlers ::
  "('m, 'v, 'u) host \<Rightarrow> (capability_ref \<times> ('m, 'v, 'u) plugin) list \<Rightarrow> ('v, 'u hstate) cap_handler gomap" where
  "guest_handlers H P = map (\<lambda>(ref, p). (cap_key ref, Handler H p ref)) P"

primrec kernel_calls ::
  "nat \<Rightarrow> ('v, 'u hstate) caller \<Rightarrow> ('m, 'v, 'u) host \<Rightarrow> (capability_ref \<times> ('m, 'v, 'u) plugin) list
     \<Rightarrow> ('v, 'u hstate) registry \<Rightarrow> ('v, 'u hstate) caller" where
  "kernel_calls 0 below H P r = below"
| "kernel_calls (Suc n) below H P r =
     Bus_Call (r\<lparr>reg_handlers :=
       guest_handlers (with_caller (kernel_calls n below H P r) H) P @ reg_handlers r\<rparr>)"

definition policies_loaded :: "('m, 'v, 'u) host \<Rightarrow> ('m, 'v, 'u) plugin \<Rightarrow> bool" where
  "policies_loaded H p = (case pl_v2 p of None \<Rightarrow> True | Some a \<Rightarrow> a < length (h_deps H))"

lemma max_depth_with_caller:
  "policies_loaded H p \<Longrightarrow> max_depth (with_caller f H) p = max_depth H p"
  by (auto simp: policies_loaded_def max_depth_def with_caller_def split: option.splits)

lemma same_host_with_caller:
  assumes "\<And>ref payload w. f ctx ref (ARaw payload) w = g ctx ref (ARaw payload) w"
  shows "same_host ctx (with_caller f H) (with_caller g H)"
  using assms
  by (auto simp: same_host_def with_caller_def v2DepsFrom_def same_policy_def same_calls_def
        same_publishes_def intro!: option.rel_refl split: option.split)

lemma guest_handlers_find:
  "mget (guest_handlers H P) k =
     map_option (\<lambda>(ref, p). Handler H p ref) (find (\<lambda>(ref, p). cap_key ref = k) P)"
  by (induction P) (auto simp: guest_handlers_def)

lemma kernel_calls_below_irrelevant:
  assumes depth: "\<And>ref p. (ref, p) \<in> set P \<Longrightarrow> policies_loaded H p \<and> unat (max_depth H p) \<le> D"
    and "D < n + length (ctx_chain ctx)" "length (ctx_chain ctx) < 2 ^ 32" "0 < n"
  shows "kernel_calls n below H P r ctx ref request w = kernel_calls n below' H P r ctx ref request w"
  using assms(2-4)
proof (induction n arbitrary: ctx ref request w)
  case (Suc n)
  let ?H = "\<lambda>b. with_caller (kernel_calls n b H P r) H"
  have handler: "Handler (?H below) p pref ctx request w = Handler (?H below') p pref ctx request w"
    if p: "(pref, p) \<in> set P" for pref p
  proof (rule Handler_cong)
    show "max_depth (?H below) p = max_depth (?H below') p"
      using depth [OF p] by (simp add: max_depth_with_caller)
    assume "word_of_nat (length (ctx_chain ctx)) < max_depth (?H below) p"
    then have "length (ctx_chain ctx) < unat (max_depth H p)"
      using Suc.prems(2) depth [OF p] by (simp add: max_depth_with_caller word_less_nat_alt unat_of_nat)
    then have deeper: "Suc (length (ctx_chain ctx)) \<le> D" "Suc (length (ctx_chain ctx)) < 2 ^ 32"
      using depth [OF p] unsigned_less [of "max_depth H p", where ?'a = nat] by simp_all
    let ?c = "fst (invocation_ctx p (withCallChain ctx (ctx_chain ctx @ [cap_key pref])) w)"
    have "length (ctx_chain ?c) = Suc (length (ctx_chain ctx))"
      by (simp add: invocation_ctx_keeps)
    with deeper Suc.prems(1) show "same_host ?c (?H below) (?H below')"
      by (intro same_host_with_caller Suc.IH) simp_all
  qed (simp add: with_caller_def)
  then show ?case
    by (auto simp: Bus_Call_def ResolveCapability_def map_add_def guest_handlers_find
             dest!: find_SomeD split: option.split)
qed simp

text \<open>
  C14: Nested calls end. If no guest's depth limit exceeds \<open>D\<close>, then a call that starts a chain,
  through however many guests, each calling the bus as it likes, is decided within \<open>D + 1\<close>
  nested bus calls: what lies below that depth is never reached, whatever the guests do.
\<close>

theorem nested_guest_calls_end:
  assumes "\<And>ref p. (ref, p) \<in> set P \<Longrightarrow> policies_loaded H p \<and> unat (max_depth H p) \<le> D"
    and "ctx_chain ctx = []"
  shows "kernel_calls (Suc D) below H P r ctx ref request w = kernel_calls (Suc D) below' H P r ctx ref request w"
  using assms by (intro kernel_calls_below_irrelevant [where D = D]) auto

section \<open>Bounds of an invocation\<close>















section \<open>Result handles\<close>

text \<open>What every host call keeps, every guest keeps.\<close>

locale host_invariant =
  fixes host :: "import_call \<Rightarrow> 'm \<Rightarrow> 'w \<Rightarrow> (uint64 \<times> 'm) \<times> 'w"
    and I :: "'w \<Rightarrow> bool"
  assumes keeps: "I w \<Longrightarrow> I (snd (host c m w))"
begin

lemma run_proc_keeps: "I w \<Longrightarrow> I (snd (run_proc proc host w))"
proof (induction proc arbitrary: w)
  case (Imports c m k)
  have "I (snd (host c m w))" using Imports.prems by (rule keeps)
  then show ?case using Imports.IH [OF rangeI] by (simp add: case_prod_unfold Let_def)
qed simp_all

end

definition table_ok :: "('v, 'u) v2Deps \<Rightarrow> nat \<Rightarrow> 'u hstate \<Rightarrow> bool" where
  "table_ok d st w \<longleftrightarrow>
     st < length (hs_states w)
     \<and> state_ok (lim_maxResultHandles (v2_limits d)) (lim_maxResultBytes (v2_limits d)) (hs_states w ! st)"

lemma table_ok_upd:
  "table_ok d st w \<Longrightarrow>
     (state_ok (lim_maxResultHandles (v2_limits d)) (lim_maxResultBytes (v2_limits d)) (hs_states w ! st) \<Longrightarrow>
      state_ok (lim_maxResultHandles (v2_limits d)) (lim_maxResultBytes (v2_limits d)) (f (hs_states w ! st)))
   \<Longrightarrow> table_ok d st (upd_state st f w)"
  by (simp add: table_ok_def upd_state_def)

lemma call_reply_ok:
  assumes "call_reply H d a s = Inr (h, s')"
    "state_ok (lim_maxResultHandles (v2_limits d)) (lim_maxResultBytes (v2_limits d)) s"
    "\<And>bytes. snd a = None \<Longrightarrow> encodeCallResult (h_json H) (fst a) = Inr bytes \<Longrightarrow> length bytes < 2 ^ 32"
  shows "state_ok (lim_maxResultHandles (v2_limits d)) (lim_maxResultBytes (v2_limits d)) s'"
proof -
  from assms(1) obtain bytes where
    b: "snd a = None" "encodeCallResult (h_json H) (fst a) = Inr bytes"
    "word_of_nat (length bytes) \<le> lim_maxResultBytes (v2_limits d)"
    "s' = snd (callState_store bytes (lim_maxResultHandles (v2_limits d)) s)"
    by (auto simp: call_reply_def not_less split: prod.splits option.splits sum.splits if_splits bool.splits)
  then have "length bytes \<le> unat (lim_maxResultBytes (v2_limits d))"
    using assms(3) [OF b(1,2)] by (simp add: word_le_nat_alt unat_of_nat)
  with state_ok_store [OF assms(2)] b(4) show ?thesis by simp
qed

text \<open>The capabilities and the publisher of a policy, as far as the result table is concerned.\<close>

definition leaves_table :: "('v, 'u) v2Deps \<Rightarrow> go_ctx \<Rightarrow> nat \<Rightarrow> bool" where
  "leaves_table d ctx st \<longleftrightarrow>
     (\<forall>f. v2_caller d = Some f \<longrightarrow>
        (\<forall>ref x w. table_ok d st w \<longrightarrow> table_ok d st (snd (f ctx ref x w))))
     \<and> (\<forall>g. v2_events d = Some g \<longrightarrow>
        (\<forall>subject x w. table_ok d st w \<longrightarrow> table_ok d st (snd (g ctx subject x w))))"

text \<open>
  The capabilities of a policy answer with less than 4 GiB. The host compares \<open>uint32(len)\<close> with
  the limit, so that a longer answer would pass as its length modulo \<open>2 ^ 32\<close>.
\<close>

definition short_answers :: "('m, 'v, 'u) host \<Rightarrow> ('v, 'u) v2Deps \<Rightarrow> go_ctx \<Rightarrow> bool" where
  "short_answers H d ctx \<longleftrightarrow>
     (\<forall>f. v2_caller d = Some f \<longrightarrow>
        (\<forall>ref x w result w' bytes. f ctx ref x w = ((result, None), w') \<and>
           encodeCallResult (h_json H) result = Inr bytes \<longrightarrow> length bytes < 2 ^ 32))"

lemma v2CapabilityCall_table_ok:
  assumes d: "v2DepsFrom (h_deps H) ctx = Some d" "callStateFrom ctx = Some st"
    and ext: "leaves_table d ctx st" and short: "short_answers H d ctx" and ok: "table_ok d st w"
  shows "table_ok d st (snd (v2CapabilityCall H ctx mem ptr len w))"
proof (cases "call_request H d mem ptr len")
  case (Inl r)
  with d ok show ?thesis by (cases r) (simp add: v2CapabilityCall_def table_ok_upd)
next
  case (Inr r)
  obtain f ref payload where r: "r = (f, ref, payload)" by (cases r) auto
  obtain a w1 where f: "f ctx ref (ARaw payload) w = (a, w1)" by fastforce
  have caller: "v2_caller d = Some f" using call_request_granted [of H d mem ptr len f ref payload] Inr r by simp
  with ext ok f have w1: "table_ok d st w1" unfolding leaves_table_def by (metis snd_conv)
  have small: "length bytes < 2 ^ 32" if "snd a = None" "encodeCallResult (h_json H) (fst a) = Inr bytes" for bytes
    using short caller f that unfolding short_answers_def by (metis prod.collapse)
  show ?thesis
  proof (cases "call_reply H d a (hs_states w1 ! st)")
    case (Inl q)
    with Inr r f d w1 show ?thesis by (cases q) (simp add: v2CapabilityCall_def table_ok_upd)
  next
    case (Inr q)
    with \<open>call_request H d mem ptr len = Inr r\<close> r f d w1 show ?thesis
      by (cases q) (auto simp: v2CapabilityCall_def intro: table_ok_upd call_reply_ok [OF _ _ small])
  qed
qed

lemma v2EventPublish_table_ok:
  assumes d: "v2DepsFrom (h_deps H) ctx = Some d" "callStateFrom ctx = Some st"
    and ext: "leaves_table d ctx st" and ok: "table_ok d st w"
  shows "table_ok d st (snd (v2EventPublish H ctx mem ptr len w))"
proof (cases "event_request H d ctx mem ptr len")
  case (Inl r)
  with d ok show ?thesis by (simp add: v2EventPublish_def table_ok_upd)
next
  case (Inr r)
  obtain g subject payload where r: "r = (g, subject, payload)" by (cases r) auto
  obtain a w1 where g: "g ctx subject payload w = (a, w1)" by fastforce
  have "v2_events d = Some g"
    using Inr r by (auto simp: event_request_def split: option.splits sum.splits if_splits)
  with ext ok g have "table_ok d st w1" unfolding leaves_table_def by (metis snd_conv)
  with Inr r g d show ?thesis by (cases a) (simp_all add: v2EventPublish_def table_ok_upd)
qed

lemma table_ok_clock: "table_ok d st w \<Longrightarrow> table_ok d st (snd (clock_time_get M rt mem ptr w))"
  by (simp add: clock_time_get_def table_ok_def upd_runtime_def Let_def)

text \<open>An invocation keeps what its host calls keep, from the heap it starts with.\<close>

lemma Invoke_keeps:
  assumes "host_invariant (import_table H p (fst (invocation_ctx p ctx w))) I"
    and "I (snd (invocation_ctx p ctx w))"
  shows "I (snd (Invoke H p ctx request w))"
proof -
  obtain c1 w1 where cw: "invocation_ctx p ctx w = (c1, w1)" by fastforce
  have run: "run_proc q (import_table H p c1) w2 = (r, w3) \<Longrightarrow> I w2 \<Longrightarrow> I w3" for q w2 r w3
    using host_invariant.run_proc_keeps [OF assms(1), of w2 q] cw by simp
  have start: "I w1" using assms(2) cw by simp
  show ?thesis
    using start unfolding Invoke_def Let_def cw
    by (auto dest: run split: prod.split sum.split list.split option.split)
qed

lemma import_keeps_table:
  assumes d: "v2DepsFrom (h_deps H) ctx = Some d" "callStateFrom ctx = Some st"
    and ext: "leaves_table d ctx st" "short_answers H d ctx" and ok: "table_ok d st w"
  shows "table_ok d st (snd (import_table H p ctx c m w))"
proof -
  have drop: "table_ok d st (snd (v2ResultDrop ctx h w))" for h
  proof -
    have "state_ok mx lim (snd (callState_drop h s))" if "state_ok mx lim s" for mx lim s
      using that by (rule state_ok_drop)
    then show ?thesis
      using d(2) ok by (auto simp: v2ResultDrop_def table_ok_def upd_state_def split: prod.split bool.split)
         (metis snd_conv)+
  qed
  have user: "table_ok d st (w\<lparr>hs_user := u\<rparr>)" for u
    using ok by (simp add: table_ok_def)
  show ?thesis
    using ok drop user v2CapabilityCall_table_ok [OF d ext ok] v2EventPublish_table_ok [OF d ext(1) ok]
    by (cases c)
       (simp_all add: import_table_def v2_import_def wasi_import_def Let_def case_prod_unfold table_ok_clock)
qed

text \<open>
  C16: Bounds of the result table. Whatever a guest with a policy does during an invocation, its
  result table holds at most the configured number of results at a time, under distinct handles,
  none longer than the configured maximum. Two conditions: the capabilities the guest may call and
  the publisher do not themselves break this bound of the caller's table, and an answer of a
  capability encodes to less than 4 GiB, beyond which the comparison of 32-bit lengths fails.
\<close>

theorem result_table_bounded:
  assumes p: "pl_v2 p = Some a" "a < length (h_deps H)"
    and ext: "leaves_table (h_deps H ! a) (fst (invocation_ctx p ctx w)) (length (hs_states w))"
      "short_answers H (h_deps H ! a) (fst (invocation_ctx p ctx w))"
  shows "table_ok (h_deps H ! a) (length (hs_states w)) (snd (Invoke H p ctx request w))"
proof -
  let ?c = "fst (invocation_ctx p ctx w)" and ?w = "snd (invocation_ctx p ctx w)"
  let ?d = "h_deps H ! a" and ?st = "length (hs_states w)"
  have d: "v2DepsFrom (h_deps H) ?c = Some ?d" "callStateFrom ?c = Some ?st"
    using p by (simp_all add: v2DepsFrom_def callStateFrom_def invocation_ctx_granted)
  have start: "table_ok ?d ?st ?w"
    using p(1) by (simp add: table_ok_def invocation_ctx_granted)
  have inv: "host_invariant (import_table H p ?c) (table_ok ?d ?st)"
    by unfold_locales (rule import_keeps_table [OF d ext])
  from Invoke_keeps [OF inv start] show ?thesis .
qed

text \<open>The shim itself never touches a result table or the host's clock.\<close>

interpretation wasi: host_invariant "wasi_import H p" "\<lambda>w. hs_states w = S \<and> hs_now w = t"
proof unfold_locales
  fix w :: "'c hstate" and c and m :: 'a assume "hs_states w = S \<and> hs_now w = t"
  then show "hs_states (snd (wasi_import H p c m w)) = S \<and> hs_now (snd (wasi_import H p c m w)) = t"
    by (cases c) (simp_all add: wasi_import_def clock_time_get_def upd_runtime_def Let_def case_prod_unfold)
qed

text \<open>
  C17: A result is read back. When \<open>capability_call\<close> answers with a handle, the call was made
  exactly once and the handle stands for its encoded result: \<open>result_len\<close> reports its length,
  \<open>result_read\<close> into a buffer that is large enough puts exactly those bytes into guest memory,
  and into one that is too small leaves the memory alone and reports the length to retry with;
  neither changes anything on the host, so a retry never repeats the call.
\<close>

theorem call_result_read_back:
  assumes mem: "linear_memory (mem_Read (h_mem H)) (mem_Write (h_mem H))"
    and ctx: "v2DepsFrom (h_deps H) ctx = Some d" "callStateFrom ctx = Some st"
    and rq: "call_request H d mo ptr len = Inr (call, cref, payload)"
    and call: "call ctx cref (ARaw payload) w = ((result, None), w1)" "st < length (hs_states w1)"
    and bytes: "encodeCallResult (h_json H) result = Inr bytes" "length bytes < 2 ^ 32"
    and ok: "v2CapabilityCall H ctx mo ptr len w = (Pack v2StatusOK h, w2)"
  shows "hs_states w2 = (hs_states w1)[st := hs_states w2 ! st] \<and> hs_user w2 = hs_user w1
    \<and> v2ResultLen ctx h w2 = word_of_nat (length bytes)
    \<and> (\<forall>m m' out cap. word_of_nat (length bytes) \<le> cap \<longrightarrow> mem_Write (h_mem H) m out bytes = Some m'
         \<longrightarrow> v2ResultRead H ctx (Some m) h out cap w2 = (word_of_nat (length bytes), Some m')
             \<and> mem_Read (h_mem H) m' out (word_of_nat (length bytes)) = Some bytes)
    \<and> (\<forall>m out cap. cap < word_of_nat (length bytes)
         \<longrightarrow> v2ResultRead H ctx (Some m) h out cap w2 = (word_of_nat (length bytes), Some m))"
proof -
  have inj: "Pack s 0 = Pack v2StatusOK h \<Longrightarrow> s = v2StatusOK" for s
    by (metis packResult_Pack prod.inject)
  have reply: "\<exists>s'. call_reply H d (result, None) (hs_states w1 ! st) = Inr (h, s')
      \<and> w2 = upd_state st (\<lambda>_. s') w1"
  proof (cases "call_reply H d (result, None) (hs_states w1 ! st)")
    case (Inl q)
    then have "fst q \<noteq> v2StatusOK"
      by (auto simp: call_reply_def v2StatusOK_def v2StatusFailed_def v2StatusInternal_def v2StatusInvalid_def
               split: option.splits sum.splits if_splits prod.splits bool.splits)
    with Inl ok ctx rq call(1) inj show ?thesis by (cases q) (auto simp: v2CapabilityCall_def)
  next
    case (Inr q)
    with ok ctx rq call(1) show ?thesis
      by (cases q) (auto simp: v2CapabilityCall_def dest: arg_cong [where f = packResult] simp: packResult_Pack)
  qed
  then obtain s' where s': "call_reply H d (result, None) (hs_states w1 ! st) = Inr (h, s')"
    "w2 = upd_state st (\<lambda>_. s') w1" by blast
  from s'(1) bytes(1) have "callState_get h s' = Some bytes"
    by (auto simp: call_reply_def callState_store_def callState_get_def Let_def update_conv' split: if_splits)
  with call(2) have got: "callState_get h (hs_states w2 ! st) = Some bytes"
    by (simp add: s'(2) upd_state_def)
  have frame: "hs_states w2 = (hs_states w1)[st := hs_states w2 ! st]" "hs_user w2 = hs_user w1"
    using call(2) by (simp_all add: s'(2) upd_state_def)
  show ?thesis
    using ctx(2) got bytes(2) linear_memory.read_back [OF mem]
    by (intro conjI frame) (auto simp: v2ResultLen_def v2ResultRead_def copy_out_def dest: leD)
qed

section \<open>Guests without a policy\<close>

text \<open>
  C40: A guest without a policy is not refused when it serves a call of a guest that has one. The
  invocation clears neither pointer of the caller's context, so its \<open>capability_call\<close> is decided
  by the caller's grants and made through the caller's \<open>v2Deps\<close>, and it reads the results the
  caller has stored, although \<open>Config.V2\<close> promises that a guest without grants is refused.
\<close>

theorem ungranted_guest_inherits_authority:
  assumes none: "pl_v2 p = None"
    and caller: "v2DepsFrom (h_deps H) ctx = Some d" "callStateFrom ctx = Some st"
    and rq: "call_request H d (mod_Memory p m) ptr len = Inr (call, cref, payload)"
    and inv: "invocation_ctx p ctx w = (ctx1, w1)"
  shows "w1 = w
    \<and> snd (import_table H p ctx1 (CapabilityCall ptr len) m w1)
        = (let (answer, w2) = call ctx1 cref (ARaw payload) w in
           case call_reply H d answer (hs_states w2 ! st) of
             Inl (status, msg) \<Rightarrow> upd_state st (callState_setErr msg) w2
           | Inr (handle, s') \<Rightarrow> upd_state st (\<lambda>_. s') w2)
    \<and> (\<forall>h bytes. callState_get h (hs_states w ! st) = Some bytes
         \<longrightarrow> import_table H p ctx1 (ResultLen h) m w1 = ((ucast (word_of_nat (length bytes) :: uint32), m), w1))"
proof -
  have c1: "ctx_v2 ctx1 = ctx_v2 ctx" "ctx_state ctx1 = ctx_state ctx" "w1 = w"
    using invocation_ctx_ungranted [OF none, of ctx w] inv by simp_all
  then have d: "v2DepsFrom (h_deps H) ctx1 = Some d" "callStateFrom ctx1 = Some st"
    using caller by (simp_all add: v2DepsFrom_def callStateFrom_def)
  have "snd (v2CapabilityCall H ctx1 (mod_Memory p m) ptr len w)
        = (let (answer, w2) = call ctx1 cref (ARaw payload) w in
           case call_reply H d answer (hs_states w2 ! st) of
             Inl (status, msg) \<Rightarrow> upd_state st (callState_setErr msg) w2
           | Inr (handle, s') \<Rightarrow> upd_state st (\<lambda>_. s') w2)"
    using d rq by (simp add: v2CapabilityCall_def Let_def split: prod.split sum.split)
  moreover have "v2ResultLen ctx1 h w = word_of_nat (length bytes)"
    if "callState_get h (hs_states w ! st) = Some bytes" for h bytes
    using that d(2) by (simp add: v2ResultLen_def)
  ultimately show ?thesis
    using c1(3) by (simp add: import_table_def v2_import_def case_prod_unfold Let_def)
qed

text \<open>The clock counter belongs to the runtime: nothing resets it between invocations.\<close>

lemma clock_counts_on:
  assumes "rt < length (hs_runtimes w)" "clock_time_get M rt mem ptr w = (r, w')"
  shows "rt_monotonic (hs_runtimes w' ! rt) = rt_monotonic (hs_runtimes w ! rt) + 1000"
    "hs_runtimes (snd (invocation_ctx p ctx w')) = hs_runtimes w'"
  using assms by (auto simp: clock_time_get_def upd_runtime_def invocation_ctx_def Let_def split: option.split)

section \<open>Loading\<close>

lemma upd_runtime_new:
  "upd_runtime (length (hs_runtimes w)) f (w\<lparr>hs_runtimes := hs_runtimes w @ [r]\<rparr>)
     = w\<lparr>hs_runtimes := hs_runtimes w @ [f r]\<rparr>"
  by (simp add: upd_runtime_def)

lemma missing_export_None: "missing_export ex = None \<longleftrightarrow> ExportAlloc \<in> set ex \<and> ExportHandle \<in> set ex"
  by (auto simp: missing_export_def)

text \<open>
  A failed load leaves no policy and no open runtime behind; a loaded guest has the exports the
  ABI requires, nonzero limits, its own open runtime and, if the operator gave one, its own policy.
\<close>

lemma Load_outcome:
  assumes "Load wz c T w = (res, T', w')"
  shows "(case res of
      Inl e \<Rightarrow> T' = T \<and> (w' = w \<or> (\<exists>r. w' = w\<lparr>hs_runtimes := hs_runtimes w @ [r]\<rparr> \<and> rt_closed r))
    | Inr p \<Rightarrow>
        {ExportAlloc, ExportHandle, ''_initialize''} \<subseteq> set (cm_exports (pl_compiled p))
        \<and> cfg_MaxResponseBytes (pl_config p) \<noteq> 0 \<and> cfg_Timeout (pl_config p) \<noteq> 0
        \<and> pl_runtime p = length (hs_runtimes w) \<and> length (hs_runtimes w') = Suc (length (hs_runtimes w))
        \<and> \<not> rt_closed (hs_runtimes w' ! pl_runtime p)
        \<and> (case cfg_V2 c of
             None \<Rightarrow> pl_v2 p = None \<and> T' = T
           | Some v2 \<Rightarrow> pl_v2 p = Some (length T) \<and> T' = T @ [newV2Deps (cfg_ModuleID c) v2]))"
  using assms
  by (auto simp: Load_def Let_def applyDefaults_def close_runtime_def close_compiled_def upd_runtime_new
        missing_export_None DefaultTimeout_def DefaultMaxResponseBytes_def
        split: if_splits option.splits sum.splits)

section \<open>A deployment with one guest\<close>

text \<open>
  A guest that asks for the capability whose name stands at the start of its memory, reads the
  result behind it and returns it with a success byte. Its memory is a vector of bytes.
\<close>

definition demo_json :: "unit json_lib" where
  "demo_json =
     \<lparr>js_types = \<lparr>rt_kind = [], rt_string = (\<lambda>t. t)\<rparr>,
      js_marshal = (\<lambda>v. Inr ''null''),
      js_marshal_envelope = (\<lambda>e. Inr (env_Payload e)),
      js_marshal_hook = (\<lambda>e. Inr (hk_Payload e)),
      js_unmarshal_call = (\<lambda>raw. Inr \<lparr>ce_Capability = raw, ce_Payload = ''{}''\<rparr>),
      js_unmarshal_event = (\<lambda>raw. Inr \<lparr>ee_Event = raw, ee_Payload = ''{}''\<rparr>)\<rparr>"

definition demo_memory :: string where
  "demo_memory = ''billing.read@v1'' @ replicate 49 (CHR 0x00)"

definition demo_compiled :: "string compiled" where
  "demo_compiled =
     \<lparr>cm_exports = [ExportAlloc, ExportHandle, ''_initialize''], cm_has_memory = True,
      cm_instantiate = (\<lambda>rt timeout. Returned
        (\<lambda>n. Returned ([16], \<lambda>ptr len m.
           Imports (CapabilityCall 0 15) m (\<lambda>(r, m).
           Imports (ResultRead (snd (packResult r)) 33 8) m (\<lambda>(n, m).
           Returned [Pack 32 (1 + ucast n)] m))) demo_memory) demo_memory),
      cm_close = None\<rparr>"

definition demo_caller :: "string \<Rightarrow> (unit, nat hstate) caller" where
  "demo_caller secret ctx ref request w =
     (if cap_key ref = ''billing.read@v1'' then ((ARaw ''42'', None), w\<lparr>hs_user := Suc (hs_user w)\<rparr>)
      else ((ARaw secret, None), w))"

definition demo_v2 :: "string \<Rightarrow> (unit, nat) V2Config" where
  "demo_v2 secret =
     \<lparr>vc_Caller = Some (demo_caller secret), vc_Events = None,
      vc_Consumes = [CapabilityRef ''billing.read'' ''v1''], vc_PublishesEvents = [],
      vc_MaxOutboundRequestBytes = 0, vc_MaxResultBytes = 0, vc_MaxResultHandles = 0,
      vc_MaxEventPayloadBytes = 0, vc_MaxCallDepth = 0\<rparr>"

definition demo_config :: "(unit, nat) config" where
  "demo_config =
     \<lparr>cfg_ModuleID = ''com.acme.guest'', cfg_Wasm = ''wasm'', cfg_MaxMemoryPages = 1, cfg_Timeout = 1000,
      cfg_Stdout = None, cfg_Stderr = None, cfg_MaxResponseBytes = 16, cfg_V2 = None\<rparr>"

definition demo_plugin :: "nat option \<Rightarrow> (string, unit, nat) plugin" where
  "demo_plugin v2 = \<lparr>pl_config = demo_config, pl_runtime = 0, pl_compiled = demo_compiled, pl_v2 = v2\<rparr>"

definition demo_host :: "string \<Rightarrow> (string, unit, nat) host" where
  "demo_host secret =
     \<lparr>h_json = demo_json, h_mem = bytes_memory, h_deps = [newV2Deps ''com.acme.guest'' (demo_v2 secret)]\<rparr>"

definition demo_world :: "nat hstate" where
  "demo_world =
     \<lparr>hs_states = [], hs_runtimes = [\<lparr>rt_pages = 1, rt_monotonic = 0, rt_compiled_closed = False, rt_closed = False\<rparr>],
      hs_stopped = [], hs_now = 0, hs_user = 0\<rparr>"

definition demo_ctx :: go_ctx where "demo_ctx = WithTenantID Background ''acme''"

definition demo_ref :: capability_ref where "demo_ref = CapabilityRef ''acme.price'' ''v1''"

lemmas demo_defs =
  demo_plugin_def demo_host_def demo_world_def demo_ctx_def demo_v2_def demo_config_def demo_ref_def


lemma demo_memory_ok: "linear_memory (mem_Read (h_mem (demo_host s))) (mem_Write (h_mem (demo_host s)))"
  using bytes.linear_memory_axioms by (simp add: demo_host_def bytes_memory_def)

theorem guest_least_privilege_witness:
  "Handler (demo_host ''x'') (demo_plugin (Some 0)) demo_ref demo_ctx (ARaw ''{}'') demo_world
     = Handler (demo_host ''y'') (demo_plugin (Some 0)) demo_ref demo_ctx (ARaw ''{}'') demo_world
   \<and> v2_caller (h_deps (demo_host ''x'') ! 0) \<noteq> v2_caller (h_deps (demo_host ''y'') ! 0)"
proof
  have "same_policy ctx' (h_deps (demo_host ''x'') ! 0) (h_deps (demo_host ''y'') ! 0)" for ctx'
    by (simp add: same_policy_def demo_host_def newV2Deps_def demo_v2_def same_calls_def demo_caller_def cap_key_def)
  then show "Handler (demo_host ''x'') (demo_plugin (Some 0)) demo_ref demo_ctx (ARaw ''{}'') demo_world
     = Handler (demo_host ''y'') (demo_plugin (Some 0)) demo_ref demo_ctx (ARaw ''{}'') demo_world"
    by (intro guest_least_privilege [where a = 0]) (simp_all add: demo_plugin_def demo_host_def)
  have "demo_caller ''x'' demo_ctx (CapabilityRef ''admin.wipe'' ''v1'') ANil demo_world
      \<noteq> demo_caller ''y'' demo_ctx (CapabilityRef ''admin.wipe'' ''v1'') ANil demo_world"
    by (simp add: demo_caller_def cap_key_def)
  then show "v2_caller (h_deps (demo_host ''x'') ! 0) \<noteq> v2_caller (h_deps (demo_host ''y'') ! 0)"
    by (auto simp: demo_host_def newV2Deps_def demo_v2_def)
qed

theorem nested_guest_calls_end_witness:
  "kernel_calls 9 (demo_caller ''x'') (demo_host ''x'') [(demo_ref, demo_plugin (Some 0))] registry_New
       demo_ctx demo_ref (ARaw ''{}'') demo_world
   = kernel_calls 9 (demo_caller ''y'') (demo_host ''x'') [(demo_ref, demo_plugin (Some 0))] registry_New
       demo_ctx demo_ref (ARaw ''{}'') demo_world"
  using nested_guest_calls_end [of "[(demo_ref, demo_plugin (Some 0))]" "demo_host ''x''" 8 demo_ctx
      "demo_caller ''x''" registry_New demo_ref "ARaw ''{}''" demo_world "demo_caller ''y''"]
  by (simp add: policies_loaded_def max_depth_def demo_plugin_def demo_host_def newV2Deps_def demo_v2_def
      orDefault_def DefaultMaxCallDepth_def demo_ctx_def WithTenantID_def Background_def)


theorem result_table_bounded_witness:
  "table_ok (h_deps (demo_host ''x'') ! 0) 0
     (snd (Invoke (demo_host ''x'') (demo_plugin (Some 0)) demo_ctx ''{}'' demo_world))"
proof -
  have "leaves_table (h_deps (demo_host ''x'') ! 0) ctx 0" for ctx
    by (auto simp: leaves_table_def demo_host_def newV2Deps_def demo_v2_def demo_caller_def table_ok_def)
  moreover have "short_answers (demo_host ''x'') (h_deps (demo_host ''x'') ! 0) ctx" for ctx
    by (auto simp: short_answers_def demo_host_def newV2Deps_def demo_v2_def demo_caller_def encodeCallResult_def
        split: if_splits)
  ultimately show ?thesis
    using result_table_bounded [of "demo_plugin (Some 0)" 0 "demo_host ''x''" demo_ctx demo_world "''{}''"]
    by (simp add: demo_plugin_def demo_host_def demo_world_def)
qed

definition demo_call_ctx :: go_ctx where
  "demo_call_ctx = demo_ctx\<lparr>ctx_v2 := Some 0, ctx_state := Some 0\<rparr>"

definition demo_call_world :: "nat hstate" where
  "demo_call_world = demo_world\<lparr>hs_states := [newCallState]\<rparr>"

lemma demo_request:
  "call_request (demo_host ''x'') (h_deps (demo_host ''x'') ! 0) (Some demo_memory) 0 15
     = Inr (demo_caller ''x'', CapabilityRef ''billing.read'' ''v1'', ''{}'')"
proof -
  have "mem_Read bytes_memory demo_memory 0 15 = Some ''billing.read@v1''" by code_simp
  moreover have "splitCapabilityKey ''billing.read@v1'' = Inr (''billing.read'', ''v1'')" by code_simp
  ultimately show ?thesis
    by (simp add: call_request_def demo_host_def demo_json_def newV2Deps_def demo_v2_def orDefault_def
        DefaultMaxOutboundRequestBytes_def cap_key_def)
qed

theorem call_result_read_back_witness:
  "v2ResultLen demo_call_ctx 1
     (snd (v2CapabilityCall (demo_host ''x'') demo_call_ctx (Some demo_memory) 0 15 demo_call_world)) = 2"
proof -
  let ?w2 = "snd (v2CapabilityCall (demo_host ''x'') demo_call_ctx (Some demo_memory) 0 15 demo_call_world)"
  have "fst (v2CapabilityCall (demo_host ''x'') demo_call_ctx (Some demo_memory) 0 15 demo_call_world)
      = Pack v2StatusOK 1"
    by code_simp
  then have ok: "v2CapabilityCall (demo_host ''x'') demo_call_ctx (Some demo_memory) 0 15 demo_call_world
      = (Pack v2StatusOK 1, ?w2)"
    by (metis prod.collapse)
  have "v2DepsFrom (h_deps (demo_host ''x'')) demo_call_ctx = Some (h_deps (demo_host ''x'') ! 0)"
    "callStateFrom demo_call_ctx = Some 0"
    by (simp_all add: v2DepsFrom_def callStateFrom_def demo_call_ctx_def demo_host_def)
  note at = call_result_read_back [where result = "ARaw ''42''"
      and ?w1.0 = "demo_call_world\<lparr>hs_user := Suc (hs_user demo_call_world)\<rparr>",
      OF demo_memory_ok this demo_request _ _ _ _ ok]
  have "v2ResultLen demo_call_ctx 1 ?w2 = word_of_nat (length ''42'')"
    by (rule at [THEN conjunct2, THEN conjunct2, THEN conjunct1])
       (simp_all add: demo_caller_def cap_key_def encodeCallResult_def demo_call_world_def)
  then show ?thesis by simp
qed

theorem ungranted_guest_inherits_authority_witness:
  "pl_v2 (demo_plugin None) = None
   \<and> snd (import_table (demo_host ''x'') (demo_plugin None) (fst (invocation_ctx (demo_plugin None) demo_call_ctx demo_call_world))
            (CapabilityCall 0 15) demo_memory demo_call_world)
       = demo_call_world\<lparr>hs_user := 1, hs_states := [\<lparr>cs_results = [(1, ''42'')], cs_nextH = 1, cs_lastErr = []\<rparr>]\<rparr>"
proof -
  let ?c = "fst (invocation_ctx (demo_plugin None) demo_call_ctx demo_call_world)"
  have deps: "v2DepsFrom (h_deps (demo_host ''x'')) demo_call_ctx = Some (h_deps (demo_host ''x'') ! 0)"
    "callStateFrom demo_call_ctx = Some 0"
    by (simp_all add: v2DepsFrom_def callStateFrom_def demo_call_ctx_def demo_host_def)
  have none: "pl_v2 (demo_plugin None) = None" by (simp add: demo_plugin_def)
  have inv: "invocation_ctx (demo_plugin None) demo_call_ctx demo_call_world = (?c, demo_call_world)"
    by (metis invocation_ctx_ungranted(3) [OF none] prod.collapse)
  have rq: "call_request (demo_host ''x'') (h_deps (demo_host ''x'') ! 0) (mod_Memory (demo_plugin None) demo_memory) 0 15
     = Inr (demo_caller ''x'', CapabilityRef ''billing.read'' ''v1'', ''{}'')"
    using demo_request by (simp add: mod_Memory_def demo_plugin_def demo_compiled_def)
  have reply: "call_reply (demo_host ''x'') (h_deps (demo_host ''x'') ! 0) (ARaw ''42'', None) newCallState
     = Inr (1, \<lparr>cs_results = [(1, ''42'')], cs_nextH = 1, cs_lastErr = []\<rparr>)"
    by code_simp
  show ?thesis
    using ungranted_guest_inherits_authority [OF none deps rq inv] reply none
    by (simp add: demo_caller_def cap_key_def demo_call_world_def upd_state_def demo_world_def)
qed

end
