(* ===== verification/Wasm_Module.thy ===== *)
theory Wasm_Module
  imports Wasm_Sandbox
begin

text \<open>
  Sandboxed modules (\<^verbatim>\<open>internal/kernel/wasmhost/module.go\<close>): the operator-approved manifest and
  its validation, building a module from it, and its installation into the registry of the
  kernel, which cannot tell it from an embedded module.
\<close>

section \<open>Manifests\<close>

definition CurrentABIVersion :: uint32 where "CurrentABIVersion = 2"
definition MinSupportedABIVersion :: uint32 where "MinSupportedABIVersion = 1"

record hookGrant =
  hg_Ref :: hook_ref
  hg_Kind :: hook_kind
  hg_Priority :: int

record approvedManifest =
  mf_ID :: string
  mf_ABIVersion :: uint32
  mf_Provides :: "capability_ref list"
  mf_Exposed :: "capability_ref list"
  mf_Consumes :: "capability_ref list"
  mf_PublishesEvents :: "string list"
  mf_SubscribesHooks :: "hookGrant list"

definition containsAt :: "string \<Rightarrow> bool" where
  "containsAt v = list_ex (\<lambda>r. r = CHR ''@'') v"

definition validateCapabilityRef :: "capability_ref \<Rightarrow> gerr option" where
  "validateCapabilityRef ref =
     (if cap_name ref = [] \<or> cap_version ref = []
      then Some (ErrNew (''capability reference '' @ go_quote (cap_key ref) @ '' must have a name and version''))
      else if containsAt (cap_name ref) \<or> containsAt (cap_version ref)
      then Some (ErrNew (''capability reference '' @ go_quote (cap_key ref) @ '' contains an invalid @ separator''))
      else None)"

definition manifest_err :: "string list \<Rightarrow> gerr" where
  "manifest_err parts = ErrNew (concat (''wasmhost: module '' # parts))"

text \<open>The loops of \<open>validateManifest\<close>, each with the keys seen so far.\<close>

fun check_refs :: "string \<Rightarrow> string \<Rightarrow> capability_ref list \<Rightarrow> string list \<Rightarrow> gerr + string list" where
  "check_refs i verb [] seen = Inr seen"
| "check_refs i verb (ref # refs) seen =
     (case validateCapabilityRef ref of
        Some e \<Rightarrow> Inl (prefixf [''wasmhost: module '', i] e)
      | None \<Rightarrow>
          if cap_key ref \<in> set seen
          then Inl (manifest_err [i, verb, cap_key ref, '' more than once''])
          else check_refs i verb refs (cap_key ref # seen))"

fun check_exposed :: "string \<Rightarrow> string list \<Rightarrow> capability_ref list \<Rightarrow> string list \<Rightarrow> gerr option" where
  "check_exposed i provided [] seen = None"
| "check_exposed i provided (ref # refs) seen =
     (case validateCapabilityRef ref of
        Some e \<Rightarrow> Some (prefixf [''wasmhost: module '', i] e)
      | None \<Rightarrow>
          if cap_key ref \<notin> set provided
          then Some (manifest_err [i, '' exposes '', cap_key ref, '' but does not provide it''])
          else if cap_key ref \<in> set seen
          then Some (manifest_err [i, '' exposes '', cap_key ref, '' more than once''])
          else check_exposed i provided refs (cap_key ref # seen))"

fun check_events :: "string \<Rightarrow> string list \<Rightarrow> string list \<Rightarrow> gerr option" where
  "check_events i [] seen = None"
| "check_events i (name # names) seen =
     (if name = [] then Some (manifest_err [i, '' declares an empty published event name''])
      else if contains_any name ''*>''
      then Some (manifest_err [i, '' publishes '', go_quote name,
                   '': wildcards are forbidden, event grants are exact names''])
      else if name \<in> set seen
      then Some (manifest_err [i, '' publishes '', name, '' more than once''])
      else check_events i names (name # seen))"

fun check_hooks :: "string \<Rightarrow> hookGrant list \<Rightarrow> string list \<Rightarrow> gerr option" where
  "check_hooks i [] seen = None"
| "check_hooks i (g # gs) seen =
     (if hook_name (hg_Ref g) = [] \<or> hook_version (hg_Ref g) = []
      then Some (manifest_err [i, '': hook reference needs both a name and a version''])
      else if \<not> HookKind_Valid (hg_Kind g)
      then Some (manifest_err [i, '' subscribes to '', hook_key (hg_Ref g), '' with unknown hook kind '',
                   go_quote (hg_Kind g)])
      else if hook_key (hg_Ref g) \<in> set seen
      then Some (manifest_err [i, '' subscribes to '', hook_key (hg_Ref g), '' more than once''])
      else check_hooks i gs (hook_key (hg_Ref g) # seen))"

definition validateManifest :: "approvedManifest \<Rightarrow> gerr + approvedManifest" where
  "validateManifest input =
     (let i = mf_ID input in
      if mf_ABIVersion input < MinSupportedABIVersion \<or> mf_ABIVersion input > CurrentABIVersion
      then Inl (manifest_err [go_quote i, '' requests ABI version '', itoa (uint (mf_ABIVersion input)),
                  ''; host supports '', itoa (uint MinSupportedABIVersion), '' through '',
                  itoa (uint CurrentABIVersion)])
      else if mf_ABIVersion input = 1
        \<and> (mf_Consumes input \<noteq> [] \<or> mf_PublishesEvents input \<noteq> [] \<or> mf_SubscribesHooks input \<noteq> [])
      then Inl (manifest_err [i, '' declares ABI version 1 but requests v2 grants (consumes, published events, or hook subscriptions); '',
                  ''a v1 guest has no import table to exercise them''])
      else (case MigrationTableFor i of
        Inl e \<Rightarrow> Inl (prefixf [''wasmhost: invalid approved manifest''] e)
      | Inr _ \<Rightarrow>
          if mf_Provides input = [] then Inl (manifest_err [i, '' provides no capabilities''])
          else (case check_refs i '' provides '' (mf_Provides input) [] of
            Inl e \<Rightarrow> Inl e
          | Inr provided \<Rightarrow>
              (case check_exposed i provided (mf_Exposed input) [] of
                 Some e \<Rightarrow> Inl e
               | None \<Rightarrow>
                   (case check_refs i '' consumes '' (mf_Consumes input) [] of
                      Inl e \<Rightarrow> Inl e
                    | Inr _ \<Rightarrow>
                        (case check_events i (mf_PublishesEvents input) [] of
                           Some e \<Rightarrow> Inl e
                         | None \<Rightarrow>
                             (case check_hooks i (mf_SubscribesHooks input) [] of
                                Some e \<Rightarrow> Inl e
                              | None \<Rightarrow> Inr input)))))))"

section \<open>Building a module\<close>

record ('v, 'u) moduleConfig =
  mc_Manifest :: approvedManifest
  mc_Wasm :: string
  mc_Caller :: "('v, 'u hstate) caller option"
  mc_Events :: "'u publisher option"
  mc_MaxMemoryPages :: uint32
  mc_Timeout :: int
  mc_MaxResponseBytes :: uint32
  mc_Stdout :: "(string \<Rightarrow> 'u \<Rightarrow> 'u) option"
  mc_Stderr :: "(string \<Rightarrow> 'u \<Rightarrow> 'u) option"
  mc_MaxOutboundRequestBytes :: uint32
  mc_MaxResultBytes :: uint32
  mc_MaxResultHandles :: uint32
  mc_MaxEventPayloadBytes :: uint32
  mc_MaxCallDepth :: uint32

record ('m, 'v, 'u) wasm_module =
  wm_manifest :: approvedManifest
  wm_plugin :: "('m, 'v, 'u) plugin"

definition v2_of :: "approvedManifest \<Rightarrow> ('v, 'u) moduleConfig \<Rightarrow> ('v, 'u) V2Config option" where
  "v2_of manifest config =
     (if mf_Consumes manifest \<noteq> [] \<or> mf_PublishesEvents manifest \<noteq> []
      then Some \<lparr>vc_Caller = mc_Caller config, vc_Events = mc_Events config,
                 vc_Consumes = mf_Consumes manifest, vc_PublishesEvents = mf_PublishesEvents manifest,
                 vc_MaxOutboundRequestBytes = mc_MaxOutboundRequestBytes config,
                 vc_MaxResultBytes = mc_MaxResultBytes config,
                 vc_MaxResultHandles = mc_MaxResultHandles config,
                 vc_MaxEventPayloadBytes = mc_MaxEventPayloadBytes config,
                 vc_MaxCallDepth = mc_MaxCallDepth config\<rparr>
      else None)"

definition NewModule ::
  "'m wazero \<Rightarrow> ('v, 'u) moduleConfig \<Rightarrow> ('v, 'u) v2Deps list \<Rightarrow> 'u hstate
     \<Rightarrow> (gerr + ('m, 'v, 'u) wasm_module) \<times> ('v, 'u) v2Deps list \<times> 'u hstate" where
  "NewModule wz config T w =
     (case validateManifest (mc_Manifest config) of
        Inl e \<Rightarrow> (Inl e, T, w)
      | Inr manifest \<Rightarrow>
          if mf_Consumes manifest \<noteq> [] \<and> Option.is_none (mc_Caller config)
          then (Inl (manifest_err [mf_ID manifest, '' consumes capabilities but no caller was provided'']), T, w)
          else if mf_PublishesEvents manifest \<noteq> [] \<and> Option.is_none (mc_Events config)
          then (Inl (manifest_err [mf_ID manifest, '' publishes events but no event publisher was provided'']), T, w)
          else (case Load wz \<lparr>cfg_ModuleID = mf_ID manifest, cfg_Wasm = mc_Wasm config,
                              cfg_MaxMemoryPages = mc_MaxMemoryPages config, cfg_Timeout = mc_Timeout config,
                              cfg_Stdout = mc_Stdout config, cfg_Stderr = mc_Stderr config,
                              cfg_MaxResponseBytes = mc_MaxResponseBytes config,
                              cfg_V2 = v2_of manifest config\<rparr> T w of
                  (Inl e, T', w') \<Rightarrow> (Inl e, T', w')
                | (Inr plugin, T', w') \<Rightarrow> (Inr \<lparr>wm_manifest = manifest, wm_plugin = plugin\<rparr>, T', w')))"

section \<open>The module interface\<close>

definition Wasm_Descriptor :: "('m, 'v, 'u) wasm_module \<Rightarrow> descriptor" where
  "Wasm_Descriptor m =
     \<lparr>d_id = mf_ID (wm_manifest m), d_kind = ''sandboxed'', d_provides = mf_Provides (wm_manifest m),
      d_consumes = mf_Consumes (wm_manifest m), d_offers = [], d_storage = StorageNone,
      d_exposed = mf_Exposed (wm_manifest m)\<rparr>"

definition offeredKind :: "hook_point list \<Rightarrow> hook_ref \<Rightarrow> hook_kind option" where
  "offeredKind points ref =
     map_option hp_kind (find (\<lambda>point. hook_key (hp_ref point) = hook_key ref) points)"

text \<open>The payload of a hook invocation.\<close>

definition hook_payload :: "'v json_lib \<Rightarrow> hook_ref \<Rightarrow> 'v goany \<Rightarrow> gerr + string" where
  "hook_payload J ref value =
     (case value of
        ANil \<Rightarrow> Inr ''null''
      | ARaw v \<Rightarrow>
          if \<not> json_Valid v
          then Inl (ErrNew (''wasmhost: hook '' @ hook_key ref @ '' payload is not valid JSON''))
          else Inr v
      | _ \<Rightarrow>
          (case assert_portable J value of
             Some e \<Rightarrow> Inl (prefixf [''hook '', hook_key ref] e)
           | None \<Rightarrow>
               (case js_marshal J value of
                  Inl e \<Rightarrow> Inl (prefixf [''wasmhost: encode hook '', hook_key ref, '' payload''] e)
                | Inr payload \<Rightarrow> Inr payload)))"

text \<open>What a guest's response means to a hook point of the approved kind.\<close>

definition hook_answer :: "hookGrant \<Rightarrow> char \<Rightarrow> string \<Rightarrow> 'v goany \<times> gerr option" where
  "hook_answer grant status body =
     (if hg_Kind grant = KindObserver then (ANil, None)
      else if hg_Kind grant = KindValidator
      then (if status = abi_StatusOK then (ANil, None) else (ARej (Rejection [] body), None))
      else if hg_Kind grant = KindTransformer
      then (if status = abi_StatusError
            then (ANil, Some (ErrNew (''hook '' @ hook_key (hg_Ref grant) @ '': '' @ body)))
            else if body = [] \<or> body = ''null'' then (ANil, None)
            else (ARaw body, None))
      else (ANil, Some (ErrNew (''wasmhost: unknown hook kind '' @ go_quote (hg_Kind grant)
                          @ '' for '' @ hook_key (hg_Ref grant)))))"

definition hook_call ::
  "('m, 'v, 'u) host \<Rightarrow> ('m, 'v, 'u) wasm_module \<Rightarrow> hookGrant \<Rightarrow> go_ctx \<Rightarrow> 'v goany \<Rightarrow> 'u hstate
     \<Rightarrow> ('v goany \<times> gerr option) \<times> 'u hstate" where
  "hook_call H m grant ctx value w =
     (let tenantID = ctx_tenant ctx; key = hook_key (hg_Ref grant) in
      if tenantID = [] then ((ANil, Some (ErrNew (''wasmhost: no tenant in context for hook '' @ key))), w)
      else case hook_payload (h_json H) (hg_Ref grant) value of
        Inl e \<Rightarrow> ((ANil, Some e), w)
      | Inr payload \<Rightarrow>
          (case js_marshal_hook (h_json H)
                  \<lparr>hk_Operation = ''hook'', hk_Name = key, hk_HookKind = hg_Kind grant,
                   hk_TenantID = tenantID, hk_Payload = payload\<rparr> of
             Inl e \<Rightarrow> ((ANil, Some (prefixf [''wasmhost: encode hook envelope for '', key] e)), w)
           | Inr encoded \<Rightarrow>
               (case Invoke H (wm_plugin m) ctx encoded w of
                  (Inl e, w1) \<Rightarrow> ((ANil, Some e), w1)
                | (Inr raw, w1) \<Rightarrow>
                    (case statusOf raw of
                       Inl e \<Rightarrow> ((ANil, Some e), w1)
                     | Inr (status, body) \<Rightarrow> (hook_answer grant status body, w1)))))"

definition hookHandler ::
  "('m, 'v, 'u) host \<Rightarrow> ('m, 'v, 'u) wasm_module \<Rightarrow> hookGrant \<Rightarrow> ('v, 'u hstate) hook_handler" where
  "hookHandler H m grant ctx value w =
     (case hook_call H m grant ctx value w of ((v, e), w1) \<Rightarrow> (HReturn v e, w1))"

text \<open>\<open>Install\<close>: the loop over the provided capabilities, then the one over the hook grants.\<close>

fun install_hooks ::
  "('m, 'v, 'u) host \<Rightarrow> ('m, 'v, 'u) wasm_module \<Rightarrow> hookGrant list \<Rightarrow> ('v, 'u hstate) install" where
  "install_hooks H m [] = InstallDone None"
| "install_hooks H m (grant # gs) =
     DoListOffered (\<lambda>points.
       if (case offeredKind points (hg_Ref grant) of None \<Rightarrow> False | Some offered \<Rightarrow> offered \<noteq> hg_Kind grant)
       then InstallDone (Some (ErrNew (concat [''wasmhost: '', mf_ID (wm_manifest m), '' expects hook '',
              hook_key (hg_Ref grant), '' to be '', go_quote (hg_Kind grant), '' but it is offered as '',
              go_quote (case offeredKind points (hg_Ref grant) of None \<Rightarrow> [] | Some k \<Rightarrow> k)])))
       else DoSubscribe \<lparr>sub_ref = hg_Ref grant, sub_module = mf_ID (wm_manifest m),
                         sub_priority = hg_Priority grant, sub_handler = Some (hookHandler H m grant)\<rparr>
         (\<lambda>err. case err of
            Some e \<Rightarrow> InstallDone (Some (prefixf [''wasmhost: subscribe '', hook_key (hg_Ref grant), '' for '',
                        mf_ID (wm_manifest m)] e))
          | None \<Rightarrow> install_hooks H m gs))"

fun install_capabilities ::
  "('m, 'v, 'u) host \<Rightarrow> ('m, 'v, 'u) wasm_module \<Rightarrow> capability_ref list \<Rightarrow> ('v, 'u hstate) install" where
  "install_capabilities H m [] = install_hooks H m (mf_SubscribesHooks (wm_manifest m))"
| "install_capabilities H m (ref # refs) =
     DoRegister ref (Handler H (wm_plugin m) ref)
       (\<lambda>err. case err of
          Some e \<Rightarrow> InstallDone (Some (prefixf [''wasmhost: register '', cap_key ref, '' for '',
                      mf_ID (wm_manifest m)] e))
        | None \<Rightarrow> install_capabilities H m refs)"

definition Wasm_Install :: "('m, 'v, 'u) host \<Rightarrow> ('m, 'v, 'u) wasm_module \<Rightarrow> ('v, 'u hstate) install" where
  "Wasm_Install H m = install_capabilities H m (mf_Provides (wm_manifest m))"

definition Wasm_Stop :: "'m wazero \<Rightarrow> ('m, 'v, 'u) wasm_module \<Rightarrow> go_ctx \<Rightarrow> 'u hstate \<Rightarrow> gerr option \<times> 'u hstate" where
  "Wasm_Stop wz m ctx w =
     (case map_of (hs_stopped w) (pl_runtime (wm_plugin m)) of
        Some stopErr \<Rightarrow> (stopErr, w)
      | None \<Rightarrow>
          (let (e, w1) = Plugin_Close wz (wm_plugin m) w
           in (e, w1\<lparr>hs_stopped := (pl_runtime (wm_plugin m), e) # hs_stopped w1\<rparr>)))"

definition as_module :: "'m wazero \<Rightarrow> ('m, 'v, 'u) host \<Rightarrow> ('m, 'v, 'u) wasm_module \<Rightarrow> ('v, 'u hstate) gomodule" where
  "as_module wz H m =
     \<lparr>m_desc = Wasm_Descriptor m, m_install = Wasm_Install H m, m_start = (\<lambda>ctx w. (None, w)),
      m_stop = Wasm_Stop wz m\<rparr>"

section \<open>What validation decides\<close>

definition ref_ok :: "capability_ref \<Rightarrow> bool" where
  "ref_ok ref \<longleftrightarrow> cap_name ref \<noteq> [] \<and> cap_version ref \<noteq> []
     \<and> CHR ''@'' \<notin> set (cap_name ref) \<and> CHR ''@'' \<notin> set (cap_version ref)"

definition event_ok :: "string \<Rightarrow> bool" where
  "event_ok name \<longleftrightarrow> name \<noteq> [] \<and> CHR ''*'' \<notin> set name \<and> CHR ''>'' \<notin> set name"

definition hook_grant_ok :: "hookGrant \<Rightarrow> bool" where
  "hook_grant_ok g \<longleftrightarrow> hook_name (hg_Ref g) \<noteq> [] \<and> hook_version (hg_Ref g) \<noteq> [] \<and> HookKind_Valid (hg_Kind g)"

definition manifest_ok :: "approvedManifest \<Rightarrow> bool" where
  "manifest_ok m \<longleftrightarrow>
     (mf_ABIVersion m = 2 \<or> mf_ABIVersion m = 1 \<and> mf_Consumes m = [] \<and> mf_PublishesEvents m = []
        \<and> mf_SubscribesHooks m = [])
     \<and> (\<exists>t. MigrationTableFor (mf_ID m) = Inr t)
     \<and> mf_Provides m \<noteq> []
     \<and> list_all ref_ok (mf_Provides m @ mf_Exposed m @ mf_Consumes m)
     \<and> distinct (map cap_key (mf_Provides m)) \<and> distinct (map cap_key (mf_Exposed m))
     \<and> distinct (map cap_key (mf_Consumes m))
     \<and> cap_key ` set (mf_Exposed m) \<subseteq> cap_key ` set (mf_Provides m)
     \<and> list_all event_ok (mf_PublishesEvents m) \<and> distinct (mf_PublishesEvents m)
     \<and> list_all hook_grant_ok (mf_SubscribesHooks m)
     \<and> distinct (map (hook_key \<circ> hg_Ref) (mf_SubscribesHooks m))"

lemma validateCapabilityRef_iff: "validateCapabilityRef ref = None \<longleftrightarrow> ref_ok ref"
  by (auto simp: validateCapabilityRef_def ref_ok_def containsAt_def list_ex_iff)

lemma check_refs_iff:
  "check_refs i verb refs seen = Inr out \<longleftrightarrow>
     list_all ref_ok refs \<and> distinct (map cap_key refs) \<and> cap_key ` set refs \<inter> set seen = {}
     \<and> out = rev (map cap_key refs) @ seen"
  by (induction i verb refs seen rule: check_refs.induct)
     (auto simp: validateCapabilityRef_iff [symmetric] split: option.split)

lemma check_exposed_iff:
  "check_exposed i provided refs seen = None \<longleftrightarrow>
     list_all ref_ok refs \<and> distinct (map cap_key refs) \<and> cap_key ` set refs \<inter> set seen = {}
     \<and> cap_key ` set refs \<subseteq> set provided"
  by (induction i provided refs seen rule: check_exposed.induct)
     (auto simp: validateCapabilityRef_iff [symmetric] split: option.split)

lemma event_ok_iff: "event_ok name \<longleftrightarrow> name \<noteq> [] \<and> \<not> contains_any name ''*>''"
proof -
  have "contains_any name ''*>'' \<longleftrightarrow> CHR ''*'' \<in> set name \<or> CHR ''>'' \<in> set name"
    unfolding contains_any_iff by simp blast
  then show ?thesis by (simp add: event_ok_def)
qed

lemma check_events_iff:
  "check_events i names seen = None \<longleftrightarrow>
     list_all event_ok names \<and> distinct names \<and> set names \<inter> set seen = {}"
proof (induction names arbitrary: seen)
  case (Cons name names)
  show ?case
  proof (cases "event_ok name")
    case True
    then have "name \<noteq> []" "\<not> contains_any name ''*>''" by (simp_all add: event_ok_iff)
    then have "check_events i (name # names) seen = None
        \<longleftrightarrow> name \<notin> set seen \<and> check_events i names (name # seen) = None"
      by simp
    with Cons.IH [of "name # seen"] True show ?thesis by auto
  next
    case False
    then have "check_events i (name # names) seen \<noteq> None" by (auto simp: event_ok_iff)
    with False show ?thesis by simp
  qed
qed simp

lemma check_hooks_iff:
  "check_hooks i gs seen = None \<longleftrightarrow>
     list_all hook_grant_ok gs \<and> distinct (map (hook_key \<circ> hg_Ref) gs)
     \<and> (hook_key \<circ> hg_Ref) ` set gs \<inter> set seen = {}"
  by (induction i gs seen rule: check_hooks.induct) (auto simp: hook_grant_ok_def)

lemma abi_range:
  "\<not> (v < MinSupportedABIVersion \<or> v > CurrentABIVersion) \<longleftrightarrow> v = 1 \<or> v = 2" for v :: uint32
proof -
  have eq: "v = word_of_nat n \<longleftrightarrow> unat v = n" if "n < 2 ^ 32" for n
    using that by (auto simp: word_unat_eq_iff unat_of_nat)
  show ?thesis
    using eq [of 1] eq [of 2]
    by (auto simp: MinSupportedABIVersion_def CurrentABIVersion_def word_less_nat_alt)
qed

lemma validateManifest_iff: "validateManifest m = Inr m' \<longleftrightarrow> manifest_ok m \<and> m' = m"
proof (cases "mf_ABIVersion m = 1 \<or> mf_ABIVersion m = 2")
  case False
  then have "mf_ABIVersion m < MinSupportedABIVersion \<or> mf_ABIVersion m > CurrentABIVersion"
    using abi_range by blast
  with False show ?thesis by (auto simp: validateManifest_def Let_def manifest_ok_def)
next
  case True
  then have range: "\<not> (mf_ABIVersion m < MinSupportedABIVersion \<or> mf_ABIVersion m > CurrentABIVersion)"
    using abi_range by blast
  let ?i = "mf_ID m"
  let ?v1 = "mf_ABIVersion m = 1 \<and> (mf_Consumes m \<noteq> [] \<or> mf_PublishesEvents m \<noteq> [] \<or> mf_SubscribesHooks m \<noteq> [])"
  have "validateManifest m = Inr m' \<longleftrightarrow>
      \<not> ?v1 \<and> (\<exists>t. MigrationTableFor ?i = Inr t) \<and> mf_Provides m \<noteq> []
      \<and> (\<exists>ks. check_refs ?i '' provides '' (mf_Provides m) [] = Inr ks
              \<and> check_exposed ?i ks (mf_Exposed m) [] = None)
      \<and> (\<exists>ks. check_refs ?i '' consumes '' (mf_Consumes m) [] = Inr ks)
      \<and> check_events ?i (mf_PublishesEvents m) [] = None
      \<and> check_hooks ?i (mf_SubscribesHooks m) [] = None \<and> m' = m"
    using range unfolding validateManifest_def Let_def
    by (simp split: sum.split option.split) blast
  then show ?thesis
    using True unfolding check_refs_iff check_exposed_iff check_events_iff check_hooks_iff manifest_ok_def
    by auto
qed

lemma splitCapabilityKey_ref:
  "ref_ok ref \<Longrightarrow> splitCapabilityKey (cap_key ref) = Inr (cap_name ref, cap_version ref)"
proof -
  assume "ref_ok ref"
  then have "cut_last (CHR ''@'') (cap_key ref) = Some (cap_name ref, cap_version ref)"
    "cap_name ref \<noteq> []" "cap_version ref \<noteq> []"
    by (simp_all add: cut_last_Some_iff cap_key_def ref_ok_def)
  then show ?thesis by (simp add: splitCapabilityKey_def)
qed

lemma newV2Deps_consume:
  "set (gs_consume (v2_grants (newV2Deps i cfg))) = cap_key ` set (vc_Consumes cfg)"
proof -
  have "set (foldl (\<lambda>m ref. List.insert (cap_key ref) m) acc refs) = set acc \<union> cap_key ` set refs" for acc refs
    by (induction refs arbitrary: acc) auto
  then show ?thesis by (simp add: newV2Deps_def)
qed

text \<open>
  C18: The manifest check decides exactly well-formedness. A manifest is accepted, unchanged, if
  and only if its ABI version is supported and asks for no newer features, its ID yields a version
  table, it provides something, no reference is repeated or contains a stray separator, what it
  exposes it provides, its event names are not empty, contain neither \<open>*\<close> nor \<open>>\<close> and are distinct,
  and its hook grants are exact and distinct; and every capability it may consume is one a guest can
  actually name: the grant's key splits back into it. Of what the manifest's documentation forbids in
  event names, the check excludes the wildcards only: \<open>broker_subject_accepted\<close> below is a manifest
  with a broker subject and a tenant segment that passes.
\<close>

theorem validateManifest_decides:
  "(validateManifest m = Inr m' \<longleftrightarrow> manifest_ok m \<and> m' = m)
   \<and> (manifest_ok m \<longrightarrow> (\<forall>ref \<in> set (mf_Consumes m).
        splitCapabilityKey (cap_key ref) = Inr (cap_name ref, cap_version ref)
        \<and> cap_key ref \<in> set (gs_consume (v2_grants (newV2Deps i (cfg\<lparr>vc_Consumes := mf_Consumes m\<rparr>))))))"
  by (auto simp: validateManifest_iff newV2Deps_consume manifest_ok_def list_all_iff intro!: splitCapabilityKey_ref)

definition demo_manifest :: approvedManifest where
  "demo_manifest =
     \<lparr>mf_ID = ''com.acme.guest'', mf_ABIVersion = 2, mf_Provides = [CapabilityRef ''acme.price'' ''v1''],
      mf_Exposed = [CapabilityRef ''acme.price'' ''v1''], mf_Consumes = [CapabilityRef ''billing.read'' ''v1''],
      mf_PublishesEvents = [''price.changed''],
      mf_SubscribesHooks = [\<lparr>hg_Ref = HookRef ''crm.contact.create'' ''v1'', hg_Kind = KindValidator, hg_Priority = 5\<rparr>]\<rparr>"

lemma demo_manifest_ok: "manifest_ok demo_manifest"
proof -
  have "validateManifest demo_manifest = Inr demo_manifest" by code_simp
  then show ?thesis by (simp only: validateManifest_iff)
qed

lemma broker_subject_accepted:
  "let m = demo_manifest\<lparr>mf_PublishesEvents := [''sannad.acme.orders.created'']\<rparr> in validateManifest m = Inr m"
  by code_simp

theorem validateManifest_decides_witness:
  "validateManifest demo_manifest = Inr demo_manifest
   \<and> splitCapabilityKey (cap_key (CapabilityRef ''billing.read'' ''v1'')) = Inr (''billing.read'', ''v1'')"
proof -
  have "CapabilityRef ''billing.read'' ''v1'' \<in> set (mf_Consumes demo_manifest)"
    by (simp add: demo_manifest_def)
  with validateManifest_decides [where m = demo_manifest and m' = demo_manifest and cfg = "demo_v2 ''x''"]
    demo_manifest_ok
  show ?thesis by fastforce
qed

section \<open>Hooks\<close>

lemma hook_kinds_apart:
  "KindObserver \<noteq> KindValidator" "KindTransformer \<noteq> KindValidator" "KindTransformer \<noteq> KindObserver"
  by (simp_all add: KindObserver_def KindValidator_def KindTransformer_def)

lemma hook_answer_kind:
  assumes "hook_answer grant status body = (v, e)"
  shows "hg_Kind grant = KindValidator \<Longrightarrow>
           v = (if status = abi_StatusOK then ANil else ARej (Rejection [] body)) \<and> e = None"
    "hg_Kind grant = KindObserver \<Longrightarrow> v = ANil"
    "hg_Kind grant = KindTransformer \<Longrightarrow> v = ANil \<or> v = ARaw body \<and> e = None"
  using assms hook_kinds_apart by (auto simp: hook_answer_def split: if_splits)

lemma hook_call_cases:
  assumes "hook_call H m grant ctx value w = ((v, e), w')"
  obtains request status body where "ctx_tenant ctx \<noteq> []"
      "Invoke H (wm_plugin m) ctx request w = (Inr (status # body), w')" "hook_answer grant status body = (v, e)"
    | "v = ANil" "e \<noteq> None"
  using assms
  by (auto simp: hook_call_def Let_def statusOf_def split: if_splits sum.splits prod.splits list.splits)

text \<open>
  C19: A sandboxed validator fails closed. A hook grant of kind validator lets an operation pass
  only if there is a tenant and the guest itself, invoked for it, returned the success status; a
  trap, a timeout, a malformed or empty response or an unencodable value is an error, and any
  other status is a rejection with the guest's reason. An observer can neither veto nor change
  anything, and a transformer can only error, keep the value or replace it.
\<close>

theorem sandboxed_hook_contract:
  assumes "hook_call H m grant ctx value w = ((v, e), w')"
  shows "(hg_Kind grant = KindValidator \<longrightarrow> e = None \<longrightarrow>
            ctx_tenant ctx \<noteq> []
            \<and> (\<exists>request status body. Invoke H (wm_plugin m) ctx request w = (Inr (status # body), w')
                 \<and> v = (if status = abi_StatusOK then ANil else ARej (Rejection [] body))))
     \<and> (hg_Kind grant = KindObserver \<longrightarrow> v = ANil)
     \<and> (hg_Kind grant = KindTransformer \<longrightarrow> v = ANil \<or> (\<exists>body. v = ARaw body \<and> e = None))"
  using assms
proof (cases rule: hook_call_cases)
  case (1 request status body)
  then show ?thesis using hook_answer_kind [OF 1(3)] by blast
next
  case 2
  then show ?thesis by blast
qed

definition demo_module :: "(string, unit, nat) wasm_module" where
  "demo_module = \<lparr>wm_manifest = demo_manifest, wm_plugin = demo_plugin (Some 0)\<rparr>"

definition demo_grant :: hookGrant where
  "demo_grant = \<lparr>hg_Ref = HookRef ''crm.contact.create'' ''v1'', hg_Kind = KindValidator, hg_Priority = 5\<rparr>"

theorem sandboxed_hook_contract_witness:
  "fst (hook_call (demo_host ''x'') demo_module demo_grant demo_ctx (ARaw ''{}'') demo_world) = (ANil, None)
   \<and> (\<exists>request status body.
        Invoke (demo_host ''x'') (wm_plugin demo_module) demo_ctx request demo_world
          = (Inr (status # body),
             snd (hook_call (demo_host ''x'') demo_module demo_grant demo_ctx (ARaw ''{}'') demo_world))
        \<and> status = abi_StatusOK)"
proof -
  let ?r = "hook_call (demo_host ''x'') demo_module demo_grant demo_ctx (ARaw ''{}'') demo_world"
  have pass: "fst ?r = (ANil, None)" by code_simp
  then have "?r = ((ANil, None), snd ?r)" by (metis prod.collapse)
  from sandboxed_hook_contract [OF this] have
    "\<exists>request status body. Invoke (demo_host ''x'') (wm_plugin demo_module) demo_ctx request demo_world
        = (Inr (status # body), snd ?r)
        \<and> (ANil :: unit goany) = (if status = abi_StatusOK then ANil else ARej (Rejection [] body))"
    by (simp add: demo_grant_def)
  then show ?thesis using pass by (metis goany.distinct(3))
qed

section \<open>Installation\<close>

definition with_guest_handlers ::
  "('m, 'v, 'u) host \<Rightarrow> ('m, 'v, 'u) plugin \<Rightarrow> capability_ref list \<Rightarrow> ('v, 'u hstate) cap_handler gomap
     \<Rightarrow> ('v, 'u hstate) cap_handler gomap" where
  "with_guest_handlers H p refs hs = foldl (\<lambda>hs ref. mput (cap_key ref) (Handler H p ref) hs) hs refs"

lemma with_guest_handlers_get:
  assumes "distinct (map cap_key refs)"
  shows "mget (with_guest_handlers H p refs hs) k =
    (case find (\<lambda>ref. cap_key ref = k) refs of Some ref \<Rightarrow> Some (Handler H p ref) | None \<Rightarrow> mget hs k)"
  using assms
proof (induction refs arbitrary: hs)
  case (Cons ref refs)
  have "find (\<lambda>r. cap_key r = cap_key ref) refs = None"
    using Cons.prems by (auto simp: find_None_iff image_iff)
  with Cons show ?case by (auto simp: with_guest_handlers_def split: option.split)
qed (simp add: with_guest_handlers_def)

lemma install_capabilities_run:
  assumes "distinct (map cap_key refs)" "\<And>ref. ref \<in> set refs \<Longrightarrow> mget (reg_handlers r) (cap_key ref) = None"
  shows "run_install (install_capabilities H m refs) r =
    run_install (install_hooks H m (mf_SubscribesHooks (wm_manifest m)))
      (r\<lparr>reg_handlers := with_guest_handlers H (wm_plugin m) refs (reg_handlers r)\<rparr>)"
  using assms
proof (induction refs arbitrary: r)
  case (Cons ref refs)
  let ?r = "r\<lparr>reg_handlers := mput (cap_key ref) (Handler H (wm_plugin m) ref) (reg_handlers r)\<rparr>"
  have "run_install (install_capabilities H m (ref # refs)) r = run_install (install_capabilities H m refs) ?r"
    using Cons.prems(2) [of ref] by (simp add: RegisterCapability_def)
  moreover have "mget (reg_handlers ?r) (cap_key ref') = None" if "ref' \<in> set refs" for ref'
    using that Cons.prems by (auto simp: image_iff)
  ultimately show ?case using Cons.IH [of ?r] Cons.prems(1) by (simp add: with_guest_handlers_def)
qed (simp add: with_guest_handlers_def)

text \<open>
  A validated sandboxed module enters the kernel like any other. If its manifest is
  well-formed, subscribes to no hooks, and neither its ID nor any of its capabilities is taken,
  registration succeeds; from then on the bus serves each provided capability by the guest's
  handler and every other capability as before, and nothing but the manifest's exposed
  references has become reachable from outside.
\<close>

theorem sandboxed_module_registers:
  assumes ok: "manifest_ok (wm_manifest m)" and hooks: "mf_SubscribesHooks (wm_manifest m) = []"
    and fresh: "mget (reg_modules r) (mf_ID (wm_manifest m)) = None"
      "\<And>ref. ref \<in> set (mf_Provides (wm_manifest m)) \<Longrightarrow> mget (reg_handlers r) (cap_key ref) = None"
  shows "\<exists>r'. RegisterModule (as_module wz H m) r = (None, r')
    \<and> (\<forall>ref \<in> set (mf_Provides (wm_manifest m)).
         Bus_Call r' ctx ref request w = Handler H (wm_plugin m) ref ctx request w)
    \<and> (\<forall>ref. cap_key ref \<notin> cap_key ` set (mf_Provides (wm_manifest m)) \<longrightarrow>
         Bus_Call r' ctx ref request w = Bus_Call r ctx ref request w)
    \<and> (\<forall>ref. IsExposed ref r' \<longleftrightarrow>
         IsExposed ref r \<or> cap_key ref \<in> cap_key ` set (mf_Exposed (wm_manifest m)))"
proof -
  let ?mf = "wm_manifest m" and ?e = "enter_module (as_module wz H m) r"
  let ?hs = "with_guest_handlers H (wm_plugin m) (mf_Provides ?mf) (reg_handlers r)"
  let ?r = "?e\<lparr>reg_handlers := ?hs, reg_installing := [], reg_order := reg_order r @ [mf_ID ?mf]\<rparr>"
  have dist: "distinct (map cap_key (mf_Provides ?mf))" and sub: "cap_key ` set (mf_Exposed ?mf) \<subseteq> cap_key ` set (mf_Provides ?mf)"
    using ok by (simp_all add: manifest_ok_def)
  have e: "reg_handlers ?e = reg_handlers r" "reg_order ?e = reg_order r"
    by (simp_all add: enter_module_def Let_def)
  have inst: "install_phase (as_module wz H m) ?e = (None, ?e\<lparr>reg_handlers := ?hs\<rparr>)"
    using install_capabilities_run [of "mf_Provides ?mf" ?e H m] dist fresh(2) hooks e
    by (simp add: install_phase_def as_module_def Wasm_Descriptor_def Wasm_Install_def)
  have "unprovided (Wasm_Descriptor m) = []"
    using sub by (auto simp: unprovided_def Wasm_Descriptor_def filter_empty_conv)
  moreover have "StorageMode_Valid (d_storage (Wasm_Descriptor m))" "d_id (Wasm_Descriptor m) = mf_ID ?mf"
    by (simp_all add: StorageMode_Valid_def Wasm_Descriptor_def)
  moreover have "m_desc (as_module wz H m) = Wasm_Descriptor m" by (simp add: as_module_def)
  ultimately have reg: "RegisterModule (as_module wz H m) r = (None, ?r)"
    using fresh(1) inst e by (simp add: RegisterModule_def Let_def)
  have own: "find (\<lambda>x. cap_key x = cap_key ref) (mf_Provides ?mf) = Some ref" if "ref \<in> set (mf_Provides ?mf)" for ref
    using that dist by (auto simp: find_Some_iff in_set_conv_nth distinct_conv_nth)
  have other: "find (\<lambda>x. cap_key x = cap_key ref) (mf_Provides ?mf) = None"
    if "cap_key ref \<notin> cap_key ` set (mf_Provides ?mf)" for ref
    using that by (auto simp: find_None_iff image_iff)
  have exposed: "mget (foldl (\<lambda>m ref. mput (cap_key ref) ref m) x refs) k \<noteq> None
      \<longleftrightarrow> mget x k \<noteq> None \<or> k \<in> cap_key ` set refs" for x refs k
    by (induction refs arbitrary: x) auto
  show ?thesis
    using reg own other exposed dist
    by (intro exI [of _ ?r])
       (auto simp: Bus_Call_def ResolveCapability_def with_guest_handlers_get IsExposed_def enter_module_def
          as_module_def Wasm_Descriptor_def Let_def)
qed

definition demo_wazero :: "string wazero" where
  "demo_wazero = \<lparr>wz_InstantiateWASI = None, wz_InstantiateV2 = None,
     wz_CompileModule = (\<lambda>pages wasm. Inr demo_compiled), wz_CloseRuntime = None\<rparr>"

definition quiet_module :: "(string, unit, nat) wasm_module" where
  "quiet_module = demo_module\<lparr>wm_manifest := demo_manifest\<lparr>mf_SubscribesHooks := []\<rparr>\<rparr>"

theorem sandboxed_module_registers_witness:
  "\<exists>r'. RegisterModule (as_module demo_wazero (demo_host ''x'') quiet_module) registry_New = (None, r')
     \<and> Bus_Call r' demo_ctx demo_ref (ARaw ''{}'') demo_world
         = Handler (demo_host ''x'') (demo_plugin (Some 0)) demo_ref demo_ctx (ARaw ''{}'') demo_world
     \<and> IsExposed demo_ref r'"
proof -
  have "manifest_ok (wm_manifest quiet_module)" "mf_SubscribesHooks (wm_manifest quiet_module) = []"
    "wm_plugin quiet_module = demo_plugin (Some 0)"
    "demo_ref \<in> set (mf_Provides (wm_manifest quiet_module))"
    "demo_ref \<in> set (mf_Exposed (wm_manifest quiet_module))"
    using demo_manifest_ok
    by (simp_all add: quiet_module_def demo_module_def demo_manifest_def demo_ref_def manifest_ok_def)
  with sandboxed_module_registers [of quiet_module registry_New demo_wazero "demo_host ''x''"
      demo_ctx "ARaw ''{}''" demo_world]
  show ?thesis by (fastforce simp: registry_New_def)
qed

section \<open>Stopping\<close>

text \<open>Stopping is idempotent: a second stop changes nothing and answers as the first did.\<close>

lemma Wasm_Stop_idempotent:
  "Wasm_Stop wz m ctx w = (e, w1) \<Longrightarrow> Wasm_Stop wz m ctx' w1 = (e, w1)"
  by (auto simp: Wasm_Stop_def Let_def case_prod_unfold split: option.splits)

text \<open>A guest that closes cleanly leaves its runtime closed.\<close>

lemma Wasm_Stop_closes:
  assumes "map_of (hs_stopped w) (pl_runtime (wm_plugin m)) = None" "cm_close (pl_compiled (wm_plugin m)) = None"
    "pl_runtime (wm_plugin m) < length (hs_runtimes w)" "Wasm_Stop wz m ctx w = (e, w1)"
  shows "rt_closed (hs_runtimes w1 ! pl_runtime (wm_plugin m))"
  using assms
  by (auto simp: Wasm_Stop_def Plugin_Close_def close_runtime_def close_compiled_def upd_runtime_def Let_def)

end
