(* ===== verification/Tables.thy ===== *)
theory Tables
  imports Prelude
begin

text \<open>
  Direct use of GORM by the platform packages, on tables that are not tenant-scoped models:
  one table is a record of the calls the code chains on it, with the \<open>WHERE\<close> clause as a
  predicate on the row type, the assignments of an update as a function, and GORM and the
  database as parameters. \<open>table_ok\<close> states what the code relies on: a read returns the rows
  that satisfy its predicate, a write that succeeds has exactly the effect it names, one
  that fails has none, no call touches another table, and two rows never share a primary
  key. Whether a call fails is left open; a cancelled context is one reason.
\<close>

record ('r, 'd) dbtable =
  db_find :: "('r \<Rightarrow> bool) \<Rightarrow> 'd \<Rightarrow> (gerr + 'r list) \<times> 'd"
  db_first :: "('r \<Rightarrow> bool) \<Rightarrow> 'd \<Rightarrow> (gerr + 'r) \<times> 'd"
  db_count :: "('r \<Rightarrow> bool) \<Rightarrow> 'd \<Rightarrow> (gerr + nat) \<times> 'd"
  db_create :: "'r \<Rightarrow> 'd \<Rightarrow> gerr option \<times> 'd"
  db_first_or_create :: "('r \<Rightarrow> bool) \<Rightarrow> 'r \<Rightarrow> ('r \<Rightarrow> 'r) \<Rightarrow> 'd \<Rightarrow> gerr option \<times> 'd"
  db_update :: "('r \<Rightarrow> bool) \<Rightarrow> ('r \<Rightarrow> 'r) \<Rightarrow> 'd \<Rightarrow> (gerr + nat) \<times> 'd"
  db_delete :: "('r \<Rightarrow> bool) \<Rightarrow> 'd \<Rightarrow> (gerr + nat) \<times> 'd"

definition gorm_ErrRecordNotFound :: gerr where "gorm_ErrRecordNotFound = ErrNew ''record not found''"

definition upd_where :: "('r \<Rightarrow> bool) \<Rightarrow> ('r \<Rightarrow> 'r) \<Rightarrow> 'r list \<Rightarrow> 'r list" where
  "upd_where P f rs = map (\<lambda>r. if P r then f r else r) rs"

definition insertable :: "('r \<Rightarrow> 'k) \<Rightarrow> 'r \<Rightarrow> 'r list \<Rightarrow> bool" where
  "insertable key r rs = (key r \<notin> key ` set rs)"

text \<open>
  The interface: \<open>rows\<close> is what the table holds, \<open>rest\<close> everything else in the database, \<open>key\<close> the
  primary key.
\<close>

locale sql_table =
  fixes T :: "('r, 'd) dbtable" and rows :: "'d \<Rightarrow> 'r list" and rest :: "'d \<Rightarrow> 'e" and key :: "'r \<Rightarrow> 'k"
  assumes keys_distinct: "distinct (map key (rows d))"
    and find_rows: "db_find T P d = (res, d') \<Longrightarrow> rows d' = rows d \<and> rest d' = rest d"
    and find_ok: "db_find T P d = (Inr rs, d') \<Longrightarrow> set rs = {r \<in> set (rows d). P r} \<and> length rs = length (filter P (rows d))"
    and first_rows: "db_first T P d = (res1, d') \<Longrightarrow> rows d' = rows d \<and> rest d' = rest d"
    and first_ok: "db_first T P d = (Inr r, d') \<Longrightarrow> r \<in> set (rows d) \<and> P r"
    and first_none: "db_first T P d = (Inl e, d') \<Longrightarrow> errors_is e gorm_ErrRecordNotFound \<Longrightarrow> \<forall>r\<in>set (rows d). \<not> P r"
    and count_rows: "db_count T P d = (res2, d') \<Longrightarrow> rows d' = rows d \<and> rest d' = rest d"
    and count_ok: "db_count T P d = (Inr n, d') \<Longrightarrow> n = length (filter P (rows d))"
    and create_fail: "db_create T r d = (Some e, d') \<Longrightarrow> rows d' = rows d \<and> rest d' = rest d"
    and create_ok: "db_create T r d = (None, d') \<Longrightarrow> insertable key r (rows d) \<and> rows d' = rows d @ [r] \<and> rest d' = rest d"
    and foc_fail: "db_first_or_create T P r f d = (Some e, d') \<Longrightarrow> rows d' = rows d \<and> rest d' = rest d"
    and foc_ok: "db_first_or_create T P r f d = (None, d') \<Longrightarrow> rest d' = rest d \<and>
       (if \<exists>x\<in>set (rows d). P x
        then \<exists>x\<in>set (rows d). P x \<and> rows d' = upd_where (\<lambda>y. key y = key x) f (rows d)
        else insertable key r (rows d) \<and> rows d' = rows d @ [r])"
    and update_fail: "db_update T P f d = (Inl e, d') \<Longrightarrow> rows d' = rows d \<and> rest d' = rest d"
    and update_ok: "db_update T P f d = (Inr n, d') \<Longrightarrow>
       rows d' = upd_where P f (rows d) \<and> n = length (filter P (rows d)) \<and> rest d' = rest d"
    and delete_fail: "db_delete T P d = (Inl e, d') \<Longrightarrow> rows d' = rows d \<and> rest d' = rest d"
    and delete_ok: "db_delete T P d = (Inr n, d') \<Longrightarrow>
       rows d' = filter (\<lambda>r. \<not> P r) (rows d) \<and> n = length (filter P (rows d)) \<and> rest d' = rest d"
begin

lemma count_zero: "db_count T P d = (Inr 0, d') \<Longrightarrow> r \<in> set (rows d) \<Longrightarrow> \<not> P r"
  using count_ok[of P d 0 d'] by (auto simp: filter_empty_conv)

lemma count_pos: "db_count T P d = (Inr n, d') \<Longrightarrow> n > 0 \<longleftrightarrow> (\<exists>r\<in>set (rows d). P r)"
  using count_ok[of P d n d'] by (auto simp: filter_empty_conv)

lemma update_keeps: "db_update T P f d = (res, d') \<Longrightarrow> r \<in> set (rows d) \<Longrightarrow> \<not> P r \<Longrightarrow> r \<in> set (rows d')"
  using update_fail[of P f d _ d'] update_ok[of P f d _ d'] by (cases res) (auto simp: upd_where_def)

lemma delete_keeps: "db_delete T P d = (res, d') \<Longrightarrow> r \<in> set (rows d) \<Longrightarrow> \<not> P r \<Longrightarrow> r \<in> set (rows d')"
  using delete_fail[of P d _ d'] delete_ok[of P d _ d'] by (cases res) auto

lemma delete_only: "db_delete T P d = (res, d') \<Longrightarrow> r \<in> set (rows d') \<Longrightarrow> r \<in> set (rows d)"
  using delete_fail[of P d _ d'] delete_ok[of P d _ d'] by (cases res) auto

end

lemma upd_where_other: "r \<in> set rs \<Longrightarrow> \<not> P r \<Longrightarrow> r \<in> set (upd_where P f rs)"
  by (auto simp: upd_where_def)

lemma find_by_key:
  assumes "distinct (map key rs)" "r \<in> set rs" "key r = k"
  shows "find (\<lambda>x. key x = k) rs = Some r"
proof -
  obtain x where x: "find (\<lambda>x. key x = k) rs = Some x"
    using assms(2,3) by (metis (mono_tags) find_NoneD option.exhaust)
  then have "x \<in> set rs" "key x = key r" using find_SomeD[OF x] assms(3) by simp_all
  then have "x = r" using assms(1,2) by (metis distinct_map inj_onD)
  with x show ?thesis by simp
qed

lemma find_no_key: "\<forall>r\<in>set rs. key r \<noteq> k \<Longrightarrow> find (\<lambda>x. key x = k) rs = None"
  by (induction rs) auto

section \<open>A table in memory\<close>

text \<open>
  An implementation of the interface, with which hypotheses about a database are shown
  satisfiable. Its database is a list of rows and anything else; of rows that share a key
  only the first counts, and a write that would duplicate a key fails.
\<close>

fun dedup :: "('r \<Rightarrow> 'k) \<Rightarrow> 'r list \<Rightarrow> 'r list" where
  "dedup key [] = []"
| "dedup key (r # rs) = r # filter (\<lambda>x. key x \<noteq> key r) (dedup key rs)"

lemma dedup_distinct: "distinct (map key (dedup key rs))"
  by (induction rs) (auto simp: distinct_map intro: inj_on_subset)

lemma dedup_id: "distinct (map key rs) \<Longrightarrow> dedup key rs = rs"
  by (induction rs) (auto intro!: filter_True, metis imageI)

definition mem_rows :: "('r \<Rightarrow> 'k) \<Rightarrow> 'r list \<times> 'e \<Rightarrow> 'r list" where
  "mem_rows key d = dedup key (fst d)"

definition mem_commit :: "('r \<Rightarrow> 'k) \<Rightarrow> 'r list \<Rightarrow> 'r list \<times> 'e \<Rightarrow> gerr option \<times> 'r list \<times> 'e" where
  "mem_commit key rs d =
     (if distinct (map key rs) then (None, (rs, snd d)) else (Some (ErrNew ''duplicated key not allowed''), d))"

definition mem_table :: "('r \<Rightarrow> 'k) \<Rightarrow> ('r, 'r list \<times> 'e) dbtable" where
  "mem_table key = \<lparr>
     db_find = (\<lambda>P d. (Inr (filter P (mem_rows key d)), d)),
     db_first = (\<lambda>P d. (case find P (mem_rows key d) of Some r \<Rightarrow> Inr r | None \<Rightarrow> Inl gorm_ErrRecordNotFound, d)),
     db_count = (\<lambda>P d. (Inr (length (filter P (mem_rows key d))), d)),
     db_create = (\<lambda>r d. mem_commit key (mem_rows key d @ [r]) d),
     db_first_or_create = (\<lambda>P r f d. mem_commit key (case find P (mem_rows key d) of
         Some x \<Rightarrow> upd_where (\<lambda>y. key y = key x) f (mem_rows key d) | None \<Rightarrow> mem_rows key d @ [r]) d),
     db_update = (\<lambda>P f d. case mem_commit key (upd_where P f (mem_rows key d)) d of
         (None, d') \<Rightarrow> (Inr (length (filter P (mem_rows key d))), d') | (Some e, d') \<Rightarrow> (Inl e, d')),
     db_delete = (\<lambda>P d. case mem_commit key (filter (\<lambda>r. \<not> P r) (mem_rows key d)) d of
         (None, d') \<Rightarrow> (Inr (length (filter P (mem_rows key d))), d') | (Some e, d') \<Rightarrow> (Inl e, d'))\<rparr>"

lemma mem_commit_None: "mem_commit key rs d = (None, d') \<Longrightarrow> mem_rows key d' = rs \<and> snd d' = snd d \<and> distinct (map key rs)"
  by (auto simp: mem_commit_def mem_rows_def dedup_id split: if_splits)

lemma mem_commit_Some: "mem_commit key rs d = (Some e, d') \<Longrightarrow> d' = d"
  by (auto simp: mem_commit_def split: if_splits)

interpretation mem: sql_table "mem_table key :: ('r, 'r list \<times> 'e) dbtable" "mem_rows key" snd key
proof (unfold_locales, goal_cases)
  case (1 d)
  show ?case by (simp add: mem_rows_def dedup_distinct)
next
  case (6 P d e d')
  then show ?case by (auto simp: mem_table_def split: option.splits dest: find_NoneD)
next
  case (12 P r f d d')
  then show ?case
    by (auto simp: mem_table_def insertable_def split: option.splits dest: find_NoneD find_SomeD dest!: mem_commit_None)
qed (auto simp: mem_table_def insertable_def split: prod.splits option.splits if_splits dest: find_SomeD
    dest!: mem_commit_None mem_commit_Some)

text \<open>The same table as one component of a larger database, read by \<open>get\<close> and written by \<open>put\<close>.\<close>

definition slot_run :: "('d \<Rightarrow> 'r list) \<Rightarrow> ('r list \<Rightarrow> 'd \<Rightarrow> 'd) \<Rightarrow> ('r list \<times> unit \<Rightarrow> 'a \<times> 'r list \<times> unit) \<Rightarrow> 'd \<Rightarrow> 'a \<times> 'd" where
  "slot_run get put f d = (case f (get d, ()) of (res, rs, _) \<Rightarrow> (res, put rs d))"

definition slot_table :: "('r \<Rightarrow> 'k) \<Rightarrow> ('d \<Rightarrow> 'r list) \<Rightarrow> ('r list \<Rightarrow> 'd \<Rightarrow> 'd) \<Rightarrow> ('r, 'd) dbtable" where
  "slot_table key get put = \<lparr>
     db_find = (\<lambda>P. slot_run get put (db_find (mem_table key) P)),
     db_first = (\<lambda>P. slot_run get put (db_first (mem_table key) P)),
     db_count = (\<lambda>P. slot_run get put (db_count (mem_table key) P)),
     db_create = (\<lambda>r. slot_run get put (db_create (mem_table key) r)),
     db_first_or_create = (\<lambda>P r f. slot_run get put (db_first_or_create (mem_table key) P r f)),
     db_update = (\<lambda>P f. slot_run get put (db_update (mem_table key) P f)),
     db_delete = (\<lambda>P. slot_run get put (db_delete (mem_table key) P))\<rparr>"

lemma slot_runE:
  assumes "slot_run get put f d = (res, d')"
  obtains rs where "f (get d, ()) = (res, rs, ())" "d' = put rs d"
  using assms by (auto simp: slot_run_def split: prod.splits)

lemma slot_frame: "(\<And>rs d. f (put rs d) = f d) \<Longrightarrow> slot_run get put g d = (res, d') \<Longrightarrow> f d' = f d"
  by (elim slot_runE) simp

lemma mem_rows_get: "mem_rows key (rs, x) = dedup key rs"
  by (simp add: mem_rows_def)

lemma slot_sql_table:
  assumes get: "\<And>rs d. get (put rs d) = rs" and frame: "\<And>rs d. rest (put rs d) = rest d"
  shows "sql_table (slot_table key get put) (\<lambda>d. dedup key (get d)) rest key"
proof (unfold_locales, goal_cases)
  case 1
  show ?case by (rule dedup_distinct)
next
  case (12 P r f d d')
  then obtain rs where "db_first_or_create (mem_table key) P r f (get d, ()) = (None, rs, ())" "d' = put rs d"
    by (auto simp: slot_table_def elim: slot_runE)
  with mem.foc_ok[OF this(1)] show ?case by (simp only: get frame mem_rows_get) simp
qed (auto simp: slot_table_def get frame mem_rows_get elim!: slot_runE
    dest: mem.find_rows mem.find_ok mem.first_rows mem.first_ok mem.first_none mem.count_rows mem.count_ok mem.create_fail
      mem.create_ok mem.foc_fail mem.foc_ok mem.update_fail mem.update_ok mem.delete_fail mem.delete_ok)

end
