(* ===== verification/Audit_Trail.thy ===== *)
theory Audit_Trail
  imports Tables
begin

text \<open>
  Reading the audit trail (\<^verbatim>\<open>internal/platform/auth/audit_log.go\<close>): the filter a query is
  built from, the ordering clause, and the query over the table of events. The table and the
  database's ordering are parameters; writing an event is in the theory of the accounts.
\<close>

text \<open>Columns no query looks at are one opaque payload.\<close>

record gormAuditEvent =
  ga_ID :: string
  ga_Type :: string
  ga_ActorID :: string
  ga_SubjectID :: string
  ga_Status :: string
  ga_TenantID :: string
  ga_CreatedAt :: int
  ga_payload :: string

record audit_filter =
  af_TenantID :: string
  af_ActorID :: string
  af_SubjectID :: string
  af_Types :: "string list"
  af_Statuses :: "string list"
  af_StartTime :: "int option"
  af_EndTime :: "int option"
  af_Limit :: int
  af_Offset :: int
  af_OrderBy :: string

definition parseOrderBy :: "string \<Rightarrow> string" where
  "parseOrderBy orderBy =
     (case orderBy of
        CHR ''-'' # column \<Rightarrow> column @ '' DESC''
      | _ \<Rightarrow> orderBy @ '' ASC'')"

text \<open>The conjunction of the clauses a filter adds; an empty field adds none.\<close>

definition audit_where :: "audit_filter \<Rightarrow> gormAuditEvent \<Rightarrow> bool" where
  "audit_where f r \<longleftrightarrow>
     (af_TenantID f \<noteq> [] \<longrightarrow> ga_TenantID r = af_TenantID f) \<and>
     (af_ActorID f \<noteq> [] \<longrightarrow> ga_ActorID r = af_ActorID f) \<and>
     (af_SubjectID f \<noteq> [] \<longrightarrow> ga_SubjectID r = af_SubjectID f) \<and>
     (af_Types f \<noteq> [] \<longrightarrow> ga_Type r \<in> set (af_Types f)) \<and>
     (af_Statuses f \<noteq> [] \<longrightarrow> ga_Status r \<in> set (af_Statuses f)) \<and>
     (case af_StartTime f of Some t \<Rightarrow> ga_CreatedAt r \<ge> t | None \<Rightarrow> True) \<and>
     (case af_EndTime f of Some t \<Rightarrow> ga_CreatedAt r \<le> t | None \<Rightarrow> True)"

definition page :: "int \<Rightarrow> int \<Rightarrow> 'a list \<Rightarrow> 'a list" where
  "page limit offset rows =
     (let shifted = (if offset > 0 then drop (nat offset) rows else rows)
      in if limit > 0 then take (nat limit) shifted else shifted)"

definition QueryAuditEvents ::
  "(gormAuditEvent, 'd) dbtable \<Rightarrow> (string \<Rightarrow> gormAuditEvent list \<Rightarrow> gormAuditEvent list) \<Rightarrow> audit_filter \<Rightarrow> 'd
     \<Rightarrow> (gerr + gormAuditEvent list) \<times> 'd" where
  "QueryAuditEvents T order f d =
     (case db_find T (audit_where f) d of
        (Inl err, d') \<Rightarrow> (Inl (prefixf [''auth: query audit events''] err), d')
      | (Inr rows, d') \<Rightarrow>
          (let clause = (if af_OrderBy f \<noteq> [] then parseOrderBy (af_OrderBy f) else ''created_at DESC'')
           in (Inr (page (af_Limit f) (af_Offset f) (order clause rows)), d')))"

lemma page_subset: "set (page limit offset rows) \<subseteq> set rows"
  by (auto simp: page_def Let_def split: if_splits dest: in_set_takeD in_set_dropD)

lemma page_length: "0 < limit \<Longrightarrow> int (length (page limit offset rows)) \<le> limit"
  by (auto simp: page_def Let_def)

text \<open>An ordering of rows that only rearranges them.\<close>

definition rearranges :: "('a list \<Rightarrow> 'a list) \<Rightarrow> bool" where
  "rearranges g \<longleftrightarrow> (\<forall>xs. set (g xs) = set xs)"

lemma QueryAuditEvents_rows:
  assumes "sql_table T rows rest key" and "\<And>clause. rearranges (order clause)"
    and "QueryAuditEvents T order f d = (Inr evs, d')"
  shows "set evs \<subseteq> set (filter (audit_where f) (rows d)) \<and> (0 < af_Limit f \<longrightarrow> int (length evs) \<le> af_Limit f)
    \<and> rows d' = rows d"
proof -
  obtain rs clause where find: "db_find T (audit_where f) d = (Inr rs, d')"
    and evs: "evs = page (af_Limit f) (af_Offset f) (order clause rs)"
    using assms(3) by (auto simp: QueryAuditEvents_def Let_def split: prod.splits sum.splits)
  have "set (order clause rs) = set rs" using assms(2) by (simp add: rearranges_def)
  then show ?thesis
    using page_subset [of "af_Limit f" "af_Offset f" "order clause rs"] page_length
      sql_table.find_ok [OF assms(1) find] sql_table.find_rows [OF assms(1) find] by (auto simp: evs)
qed

end
