(* ===== verification/Ttl_Cache.thy ===== *)
theory Ttl_Cache
  imports Prelude
begin

text \<open>
  Answers that are remembered for a while: the tenant directory and the session revocation
  store both keep, per process, what the database last said about a key and when, and trust
  it for a fixed time. The locale states what the two lookups have in common, over the
  database as other processes change it, and shows once what a caller may conclude from an
  answer. Times are nanoseconds, as \<open>time.Time\<close> and \<open>time.Duration\<close> count them.
\<close>

type_synonym 'v ttl_cache = "('v \<times> int) gomap"

definition fresh_entry :: "int \<Rightarrow> int \<Rightarrow> 'v ttl_cache \<Rightarrow> string \<Rightarrow> 'v option" where
  "fresh_entry ttl now c k = (case mget c k of
     Some (v, checkedAt) \<Rightarrow> if now - checkedAt < ttl then Some v else None
   | None \<Rightarrow> None)"

text \<open>
  What one process and the world around it do, in the order of the clock: look a key up;
  put an answer the database would give now into the cache, or drop one; or anything at all
  happens to the database, from here or elsewhere. A lookup reads the clock before it
  consults its cache and again when it stores an answer. The history records each database the
  process lived through, with its time, newest first.
\<close>

inductive ttl_run ::
  "(int \<times> int \<Rightarrow> string \<Rightarrow> 'v ttl_cache \<Rightarrow> 'd \<Rightarrow> (gerr + 'v) \<times> 'v ttl_cache \<times> 'd) \<Rightarrow> ('d \<Rightarrow> string \<Rightarrow> 'v)
     \<Rightarrow> (int \<times> 'd) list \<Rightarrow> 'v ttl_cache \<Rightarrow> bool" for lookup truth where
  start: "ttl_run lookup truth [(t, d)] []"
| look: "ttl_run lookup truth ((t, d) # H) c \<Longrightarrow> t \<le> now \<Longrightarrow> now \<le> later \<Longrightarrow>
    lookup (now, later) k c d = (res, c', d') \<Longrightarrow> ttl_run lookup truth ((later, d') # (t, d) # H) c'"
| put: "ttl_run lookup truth ((t, d) # H) c \<Longrightarrow> v = truth d k \<Longrightarrow>
    ttl_run lookup truth ((t, d) # H) (mput k (v, t) c)"
| drop: "ttl_run lookup truth H c \<Longrightarrow> ttl_run lookup truth H (mdel k c)"
| other: "ttl_run lookup truth ((t, d) # H) c \<Longrightarrow> t \<le> t' \<Longrightarrow> ttl_run lookup truth ((t', d') # (t, d) # H) c"

lemma ttl_run_ordered: "ttl_run lookup truth H c \<Longrightarrow> (t, d) \<in> set H \<Longrightarrow> t \<le> fst (hd H)"
  by (induction arbitrary: t d rule: ttl_run.induct) force+

locale ttl_lookup =
  fixes ttl :: int
    and lookup :: "int \<times> int \<Rightarrow> string \<Rightarrow> 'v ttl_cache \<Rightarrow> 'd \<Rightarrow> (gerr + 'v) \<times> 'v ttl_cache \<times> 'd"
    and truth :: "'d \<Rightarrow> string \<Rightarrow> 'v"
  assumes lookup_cached: "fresh_entry ttl now c k = Some v \<Longrightarrow> lookup (now, later) k c d = (res, c', d') \<Longrightarrow> res = Inr v \<and> c' = c \<and> d' = d"
    and lookup_read: "fresh_entry ttl now c k = None \<Longrightarrow> lookup (now, later) k c d = (Inr v, c', d') \<Longrightarrow>
          v = truth d k \<and> c' = mput k (v, later) c"
    and lookup_error: "fresh_entry ttl now c k = None \<Longrightarrow> lookup (now, later) k c d = (Inl e, c', d') \<Longrightarrow> c' = c"
    and lookup_truth: "lookup (now, later) k c d = (res, c', d') \<Longrightarrow> truth d' = truth d"
begin

text \<open>Every cached answer was the database's at the time it carries.\<close>

lemma cache_was_true: "ttl_run lookup truth H c \<Longrightarrow> mget c k = Some (v, t) \<Longrightarrow> \<exists>d. (t, d) \<in> set H \<and> truth d k = v"
proof (induction arbitrary: v t rule: ttl_run.induct)
  case (look t0 d H c now later k' res c' d')
  show ?case
  proof (cases "fresh_entry ttl now c k'")
    case None
    show ?thesis
    proof (cases res)
      case (Inr w)
      then have "w = truth d k'" "c' = mput k' (w, later) c"
        using lookup_read[OF None] look.hyps(4) by blast+
      then show ?thesis
        using look.prems look.IH lookup_truth[OF look.hyps(4)] by (auto split: if_splits)
    next
      case (Inl e)
      then have "c' = c" using lookup_error[OF None] look.hyps(4) by blast
      then show ?thesis using look.prems look.IH by auto
    qed
  next
    case (Some w)
    then show ?thesis using lookup_cached[OF Some look.hyps(4)] look by auto
  qed
qed (auto split: if_splits)

text \<open>
  What an answer means: within the last \<open>ttl\<close> there was a moment at which the database said so.
\<close>

lemma answer_within:
  assumes "ttl_run lookup truth ((t, d) # H) c" "now \<le> later" "lookup (now, later) k c d = (Inr v, c', d')" "0 < ttl"
  shows "\<exists>t0 d0. (t0, d0) \<in> set ((later, d') # (t, d) # H) \<and> now - t0 < ttl \<and> truth d0 k = v"
proof (cases "fresh_entry ttl now c k")
  case None
  then show ?thesis
    using lookup_read[OF None assms(3)] lookup_truth[OF assms(3)] assms(2,4) by (intro exI[of _ later] exI[of _ d']) simp
next
  case (Some w)
  then obtain t0 where c: "mget c k = Some (w, t0)" "now - t0 < ttl"
    by (auto simp: fresh_entry_def split: option.splits if_splits)
  moreover have "w = v" using lookup_cached[OF Some assms(3)] by simp
  ultimately show ?thesis using cache_was_true[OF assms(1) c(1)] by auto
qed

lemma answer_recent:
  assumes "ttl_run lookup truth ((t, d) # H) c" "t \<le> now" "now \<le> later" "lookup (now, later) k c d = (Inr v, c', d')" "0 < ttl"
  shows "\<exists>t0 d0. (t0, d0) \<in> set ((later, d') # (t, d) # H) \<and> now - t0 < ttl \<and> truth d0 k = v"
  by (rule answer_within[OF assms(1,3-5)])

text \<open>So once the database has said the same thing for \<open>ttl\<close>, that is the only answer left.\<close>

lemma settled_answer:
  assumes "ttl_run lookup truth ((t, d) # H) c" "t \<le> now" "now \<le> later" "lookup (now, later) k c d = (Inr v, c', d')" "0 < ttl"
    and "\<forall>(t0, d0) \<in> set ((t, d) # H). now - t0 < ttl \<longrightarrow> truth d0 k = w" and "truth d k = w"
  shows "v = w"
  using answer_recent[OF assms(1-5)] assms(6,7) lookup_truth[OF assms(4)] by auto

end

end
