(* ===== verification/Sessions.thy ===== *)
theory Sessions
  imports Tables Ttl_Cache
begin

text \<open>
  Sessions: the revocation list of \<^verbatim>\<open>internal/platform/auth/revocation.go\<close> and the tenant-bound tokens
  of \<^verbatim>\<open>internal/platform/auth/session.go\<close>. Signing and verifying a token is golang-jwt's and a
  parameter; what is relied on of it is the locale \<open>jwt_lib\<close>. Clock readings are arguments, in
  nanoseconds: \<open>now\<close> stands for those an operation makes before it calls the database and
  \<open>later\<close> for those it makes afterwards.
\<close>

section \<open>The revocation list (revocation.go)\<close>

record RevokedSession =
  rs_SessionID :: string
  rs_TenantID :: string
  rs_ExpiresAt :: int
  rs_RevokedAt :: int
  rs_Reason :: string

definition ReasonLogout :: string where "ReasonLogout = ''logout''"
definition ReasonCompromise :: string where "ReasonCompromise = ''compromise''"
definition ReasonAdmin :: string where "ReasonAdmin = ''admin''"

definition ErrSessionRevoked :: gerr where "ErrSessionRevoked = ErrNew ''auth: session has been revoked''"

definition RevocationTTL :: int where "RevocationTTL = 30 * 1000000000"

type_synonym rev_cache = "bool ttl_cache"
type_synonym clock = "int \<times> int"

text \<open>\<open>Assign\<close> with a struct overwrites the fields that are not the zero value; the two times never are.\<close>

definition assign_revoked :: "RevokedSession \<Rightarrow> RevokedSession \<Rightarrow> RevokedSession" where
  "assign_revoked new old =
     \<lparr>rs_SessionID = rs_SessionID old,
      rs_TenantID = (if rs_TenantID new = [] then rs_TenantID old else rs_TenantID new),
      rs_ExpiresAt = rs_ExpiresAt new, rs_RevokedAt = rs_RevokedAt new,
      rs_Reason = (if rs_Reason new = [] then rs_Reason old else rs_Reason new)\<rparr>"

definition Revoke ::
  "(RevokedSession, 'd) dbtable \<Rightarrow> clock \<Rightarrow> string \<Rightarrow> string \<Rightarrow> int \<Rightarrow> string \<Rightarrow> rev_cache \<Rightarrow> 'd
     \<Rightarrow> gerr option \<times> rev_cache \<times> 'd" where
  "Revoke T clk sessionID tenantID expiresAt reason cache d =
     (if sessionID = [] then (Some (ErrNew ''auth: cannot revoke a session with no ID''), cache, d)
      else let record = \<lparr>rs_SessionID = sessionID, rs_TenantID = tenantID, rs_ExpiresAt = expiresAt,
                         rs_RevokedAt = fst clk, rs_Reason = reason\<rparr> in
        case db_first_or_create T (\<lambda>r. rs_SessionID r = sessionID) record (assign_revoked record) d of
          (Some err, d') \<Rightarrow> (Some (prefixf [''auth: revoke session''] err), cache, d')
        | (None, d') \<Rightarrow> (None, mput sessionID (True, snd clk) cache, d'))"

text \<open>The cached part of \<open>IsRevoked\<close>, for a session with an ID.\<close>

definition rev_lookup ::
  "(RevokedSession, 'd) dbtable \<Rightarrow> clock \<Rightarrow> string \<Rightarrow> rev_cache \<Rightarrow> 'd \<Rightarrow> (gerr + bool) \<times> rev_cache \<times> 'd" where
  "rev_lookup T clk sessionID cache d =
     (case fresh_entry RevocationTTL (fst clk) cache sessionID of
        Some revoked \<Rightarrow> (Inr revoked, cache, d)
      | None \<Rightarrow>
          (case db_count T (\<lambda>r. rs_SessionID r = sessionID) d of
             (Inl err, d') \<Rightarrow> (Inl (prefixf [''auth: check revocation''] err), cache, d')
           | (Inr n, d') \<Rightarrow> (Inr (n > 0), mput sessionID (n > 0, snd clk) cache, d')))"

definition IsRevoked ::
  "(RevokedSession, 'd) dbtable \<Rightarrow> clock \<Rightarrow> string \<Rightarrow> rev_cache \<Rightarrow> 'd \<Rightarrow> (gerr + bool) \<times> rev_cache \<times> 'd" where
  "IsRevoked T clk sessionID cache d =
     (if sessionID = [] then (Inl (ErrNew ''auth: token carries no session ID''), cache, d)
      else rev_lookup T clk sessionID cache d)"

definition PurgeExpired ::
  "(RevokedSession, 'd) dbtable \<Rightarrow> int \<Rightarrow> rev_cache \<Rightarrow> 'd \<Rightarrow> (gerr + nat) \<times> rev_cache \<times> 'd" where
  "PurgeExpired T cutoff cache d =
     (case db_find T (\<lambda>r. rs_ExpiresAt r \<le> cutoff) d of
        (Inl err, d1) \<Rightarrow> (Inl (prefixf [''auth: list expired revocations''] err), cache, d1)
      | (Inr expired, d1) \<Rightarrow>
          if expired = [] then (Inr 0, cache, d1)
          else (case db_delete T (\<lambda>r. rs_ExpiresAt r \<le> cutoff) d1 of
                  (Inl err, d2) \<Rightarrow> (Inl (prefixf [''auth: purge revocations''] err), cache, d2)
                | (Inr affected, d2) \<Rightarrow>
                    (Inr affected, foldl (\<lambda>c row. mdel (rs_SessionID row) c) cache expired, d2)))"

section \<open>Tokens (session.go)\<close>

record TenantClaims =
  cl_SessionID :: string
  cl_TenantID :: string
  cl_TokenVersion :: int
  cl_Subject :: string
  cl_ExpiresAt :: "int option"
  cl_IssuedAt :: "int option"

definition ErrNoTenantClaim :: gerr where "ErrNoTenantClaim = ErrNew ''auth: token carries no tenant_id claim''"

definition ErrRevocationUnavailable :: gerr where
  "ErrRevocationUnavailable = ErrNew ''auth: revocation is not configured; sessions remain valid until they expire''"

text \<open>
  golang-jwt: \<open>jw_sign key claims\<close> is \<open>SignedString\<close> of an HS256 token; \<open>jw_parse now keyfunc token\<close> is
  \<open>ParseWithClaims\<close>, which asks the key function about the algorithm the token names.
\<close>

record jwt =
  jw_sign :: "string \<Rightarrow> TenantClaims \<Rightarrow> gerr + string"
  jw_parse :: "int \<Rightarrow> (string \<Rightarrow> gerr + string) \<Rightarrow> string \<Rightarrow> gerr + TenantClaims"

record strategy =
  st_secret :: string
  st_expiry :: int
  st_refreshExpiry :: int
  st_previousSecrets :: "string list"
  st_revocations :: bool

definition NewTenantJWTStrategy :: "string \<Rightarrow> int \<Rightarrow> int \<Rightarrow> string list \<Rightarrow> strategy" where
  "NewTenantJWTStrategy secret expiry refreshExpiry previous =
     \<lparr>st_secret = secret, st_expiry = expiry, st_refreshExpiry = refreshExpiry,
      st_previousSecrets = previous, st_revocations = False\<rparr>"

definition WithRevocation :: "strategy \<Rightarrow> strategy" where
  "WithRevocation s = s\<lparr>st_revocations := True\<rparr>"

text \<open>\<open>jwt.NewNumericDate\<close> keeps whole seconds.\<close>

definition NewNumericDate :: "int \<Rightarrow> int" where
  "NewNumericDate t = t div 1000000000 * 1000000000"

definition strategy_sign ::
  "jwt \<Rightarrow> strategy \<Rightarrow> string \<Rightarrow> string \<Rightarrow> string \<Rightarrow> int \<Rightarrow> int \<Rightarrow> int \<Rightarrow> gerr + string" where
  "strategy_sign J s sessionID identityID tenantID tokenVersion issued expires =
     (case jw_sign J (st_secret s)
        \<lparr>cl_SessionID = sessionID, cl_TenantID = tenantID, cl_TokenVersion = tokenVersion, cl_Subject = identityID,
         cl_ExpiresAt = Some (NewNumericDate expires), cl_IssuedAt = Some (NewNumericDate issued)\<rparr> of
        Inl err \<Rightarrow> Inl (prefixf [''auth: sign token''] err)
      | Inr signed \<Rightarrow> Inr signed)"

record session =
  se_ID :: string
  se_IdentityID :: string
  se_RefreshToken :: string
  se_ExpiresAt :: int
  se_RefreshExpiresAt :: int
  se_IssuedAt :: int

definition CreateForTenant ::
  "jwt \<Rightarrow> strategy \<Rightarrow> int \<Rightarrow> string \<Rightarrow> string \<Rightarrow> string \<Rightarrow> int \<Rightarrow> gerr + session" where
  "CreateForTenant J s now sessionID identityID tenantID ver =
     (if tenantID = [] then Inl (prefixf [''auth: cannot issue a session without a tenant''] ErrNoTenantClaim)
      else case strategy_sign J s sessionID identityID tenantID ver now (now + st_expiry s) of
        Inl err \<Rightarrow> Inl err
      | Inr access \<Rightarrow>
          (case strategy_sign J s sessionID identityID tenantID ver now (now + st_refreshExpiry s) of
             Inl err \<Rightarrow> Inl err
           | Inr refresh \<Rightarrow>
               Inr \<lparr>se_ID = access, se_IdentityID = identityID, se_RefreshToken = refresh,
                    se_ExpiresAt = now + st_expiry s, se_RefreshExpiresAt = now + st_refreshExpiry s, se_IssuedAt = now\<rparr>))"

definition parseWithKey :: "jwt \<Rightarrow> int \<Rightarrow> string \<Rightarrow> string \<Rightarrow> gerr + TenantClaims" where
  "parseWithKey J now token key =
     jw_parse J now (\<lambda>alg. if alg \<noteq> ''HS256'' then Inl (ErrNew (''auth: unexpected signing method '' @ alg)) else Inr key) token"

fun parse_keys :: "jwt \<Rightarrow> int \<Rightarrow> string \<Rightarrow> gerr \<Rightarrow> string list \<Rightarrow> gerr + TenantClaims" where
  "parse_keys J now token lastErr [] = Inl (prefixf [''auth: parse token''] lastErr)"
| "parse_keys J now token lastErr (key # keys) =
     (case parseWithKey J now token key of
        Inr claims \<Rightarrow> Inr claims
      | Inl err \<Rightarrow> parse_keys J now token err keys)"

text \<open>There is always the active secret to try, so the error the loop starts from is never shown.\<close>

definition strategy_parse :: "jwt \<Rightarrow> strategy \<Rightarrow> int \<Rightarrow> string \<Rightarrow> gerr + TenantClaims" where
  "strategy_parse J s now token =
     parse_keys J now token (ErrNew []) (st_secret s # st_previousSecrets s)"

text \<open>The revocation check \<open>ValidateClaims\<close> and \<open>Refresh\<close> share: an error, or nothing.\<close>

definition refuse_revoked ::
  "strategy \<Rightarrow> (RevokedSession, 'd) dbtable \<Rightarrow> clock \<Rightarrow> string \<Rightarrow> rev_cache \<Rightarrow> 'd \<Rightarrow> gerr option \<times> rev_cache \<times> 'd" where
  "refuse_revoked s T clk sessionID cache d =
     (if \<not> st_revocations s then (None, cache, d)
      else case IsRevoked T clk sessionID cache d of
        (Inl err, c', d') \<Rightarrow> (Some err, c', d')
      | (Inr revoked, c', d') \<Rightarrow> (if revoked then Some ErrSessionRevoked else None, c', d'))"

definition ValidateClaims ::
  "jwt \<Rightarrow> strategy \<Rightarrow> (RevokedSession, 'd) dbtable \<Rightarrow> clock \<Rightarrow> string \<Rightarrow> rev_cache \<Rightarrow> 'd
     \<Rightarrow> (gerr + TenantClaims) \<times> rev_cache \<times> 'd" where
  "ValidateClaims J s T clk token cache d =
     (case strategy_parse J s (fst clk) token of
        Inl err \<Rightarrow> (Inl err, cache, d)
      | Inr claims \<Rightarrow>
          if cl_TenantID claims = [] then (Inl ErrNoTenantClaim, cache, d)
          else case refuse_revoked s T clk (cl_SessionID claims) cache d of
            (Some err, s') \<Rightarrow> (Inl err, s')
          | (None, s') \<Rightarrow> (Inr claims, s'))"

text \<open>A token without an expiry or issue time would be a nil dereference here; none is ever signed.\<close>

definition ValidateWithTenant ::
  "jwt \<Rightarrow> strategy \<Rightarrow> (RevokedSession, 'd) dbtable \<Rightarrow> clock \<Rightarrow> string \<Rightarrow> rev_cache \<Rightarrow> 'd
     \<Rightarrow> (gerr + string \<times> session) \<times> rev_cache \<times> 'd" where
  "ValidateWithTenant J s T clk token cache d =
     (case ValidateClaims J s T clk token cache d of
        (Inl err, st) \<Rightarrow> (Inl err, st)
      | (Inr claims, st) \<Rightarrow>
          (case (cl_ExpiresAt claims, cl_IssuedAt claims) of
             (Some e, Some i) \<Rightarrow>
               (Inr (cl_TenantID claims, \<lparr>se_ID = token, se_IdentityID = cl_Subject claims, se_RefreshToken = [],
                  se_ExpiresAt = e, se_RefreshExpiresAt = 0, se_IssuedAt = i\<rparr>), st)
           | _ \<Rightarrow> (Inl (ErrNew ''panic: nil pointer dereference''), st)))"

definition Refresh ::
  "jwt \<Rightarrow> strategy \<Rightarrow> (RevokedSession, 'd) dbtable \<Rightarrow> clock \<Rightarrow> string \<Rightarrow> rev_cache \<Rightarrow> 'd
     \<Rightarrow> (gerr + session) \<times> rev_cache \<times> 'd" where
  "Refresh J s T clk refreshToken cache d =
     (case strategy_parse J s (fst clk) refreshToken of
        Inl err \<Rightarrow> (Inl err, cache, d)
      | Inr claims \<Rightarrow>
          if cl_TenantID claims = [] then (Inl ErrNoTenantClaim, cache, d)
          else case refuse_revoked s T clk (cl_SessionID claims) cache d of
            (Some err, s') \<Rightarrow> (Inl err, s')
          | (None, s') \<Rightarrow> (CreateForTenant J s (snd clk) (cl_SessionID claims) (cl_Subject claims)
                             (cl_TenantID claims) (cl_TokenVersion claims), s'))"

definition Session_Delete ::
  "jwt \<Rightarrow> strategy \<Rightarrow> (RevokedSession, 'd) dbtable \<Rightarrow> clock \<Rightarrow> string \<Rightarrow> rev_cache \<Rightarrow> 'd
     \<Rightarrow> gerr option \<times> rev_cache \<times> 'd" where
  "Session_Delete J s T clk token cache d =
     (if \<not> st_revocations s then (Some ErrRevocationUnavailable, cache, d)
      else case strategy_parse J s (fst clk) token of
        Inl err \<Rightarrow> (Some err, cache, d)
      | Inr claims \<Rightarrow>
          if cl_SessionID claims = []
          then (Some (ErrNew ''auth: token carries no session ID and cannot be revoked''), cache, d)
          else let expiry = fst clk + st_refreshExpiry s;
                   revoke = (\<lambda>e. Revoke T clk (cl_SessionID claims) (cl_TenantID claims) e ReasonLogout cache d)
               in case cl_ExpiresAt claims of
                    None \<Rightarrow> revoke expiry
                  | Some _ \<Rightarrow>
                      (case cl_IssuedAt claims of
                         None \<Rightarrow> (Some (ErrNew ''panic: nil pointer dereference''), cache, d)
                       | Some i \<Rightarrow>
                           revoke (if i + st_refreshExpiry s > expiry then i + st_refreshExpiry s else expiry)))"

section \<open>What is relied on of golang-jwt\<close>

text \<open>
  \<open>authentic alg key claims token\<close>: the token carries the claims and names the algorithm, and its
  signature verifies under the key. A token carries one set of claims; an HS256 token that
  verifies under a key was signed with it; parsing accepts exactly the authentic tokens that
  have not expired, for the key the key function gives for their algorithm.
\<close>

definition unexpired :: "int \<Rightarrow> TenantClaims \<Rightarrow> bool" where
  "unexpired now c = (case cl_ExpiresAt c of Some e \<Rightarrow> now < e | None \<Rightarrow> True)"

definition jwt_ok :: "jwt \<Rightarrow> (string \<Rightarrow> string \<Rightarrow> TenantClaims \<Rightarrow> string \<Rightarrow> bool) \<Rightarrow> bool" where
  "jwt_ok J authentic \<longleftrightarrow>
     (\<forall>key c tok. jw_sign J key c = Inr tok \<longleftrightarrow> authentic ''HS256'' key c tok) \<and>
     (\<forall>alg key c alg' key' c' tok. authentic alg key c tok \<and> authentic alg' key' c' tok \<longrightarrow> c = c') \<and>
     (\<forall>now kf tok c. jw_parse J now kf tok = Inr c \<longleftrightarrow>
        (\<exists>alg key. kf alg = Inr key \<and> authentic alg key c tok \<and> unexpired now c))"

definition session_keys :: "strategy \<Rightarrow> string set" where
  "session_keys s = set (st_secret s # st_previousSecrets s)"

lemma parseWithKey_iff:
  assumes "jwt_ok J au"
  shows "parseWithKey J now tok key = Inr c \<longleftrightarrow> jw_sign J key c = Inr tok \<and> unexpired now c"
proof -
  have "parseWithKey J now tok key = Inr c \<longleftrightarrow> au ''HS256'' key c tok \<and> unexpired now c"
    using assms unfolding jwt_ok_def parseWithKey_def by (auto split: if_splits)
  then show ?thesis using assms unfolding jwt_ok_def by blast
qed

lemma claims_unique:
  assumes "jwt_ok J au" "jw_sign J key c = Inr tok" "jw_sign J key' c' = Inr tok"
  shows "c' = c"
  using assms unfolding jwt_ok_def by blast

lemma parse_keys_sound:
  assumes "jwt_ok J au" "parse_keys J now tok e keys = Inr c"
  shows "(\<exists>key\<in>set keys. jw_sign J key c = Inr tok) \<and> unexpired now c"
  using assms(2) by (induction keys arbitrary: e) (auto split: sum.splits simp: parseWithKey_iff[OF assms(1)])

lemma parse_keys_complete:
  assumes "jwt_ok J au" "key \<in> set keys" "jw_sign J key c = Inr tok" "unexpired now c"
  shows "parse_keys J now tok e keys = Inr c"
  using assms(2)
proof (induction keys arbitrary: e)
  case (Cons k ks)
  show ?case
  proof (cases "parseWithKey J now tok k")
    case (Inr c')
    then have "c' = c" using claims_unique[OF assms(1,3)] parseWithKey_iff[OF assms(1)] by blast
    with Inr show ?thesis by simp
  next
    case (Inl e')
    then have "k \<noteq> key" using parseWithKey_iff[OF assms(1), of now tok key c] assms(3,4) by auto
    with Inl Cons show ?thesis by simp
  qed
qed simp

lemma strategy_parse_iff:
  assumes "jwt_ok J au"
  shows "strategy_parse J s now tok = Inr c \<longleftrightarrow>
    (\<exists>key\<in>session_keys s. jw_sign J key c = Inr tok) \<and> unexpired now c"
  unfolding strategy_parse_def session_keys_def
  using parse_keys_sound[OF assms] parse_keys_complete[OF assms] by blast

section \<open>What the list says\<close>

definition revoked_in :: "RevokedSession list \<Rightarrow> string \<Rightarrow> bool" where
  "revoked_in rs sessionID = (sessionID \<in> rs_SessionID ` set rs)"

locale revocation_table = sql_table T rows rest rs_SessionID
  for T :: "(RevokedSession, 'd) dbtable" and rows and rest :: "'d \<Rightarrow> 'e"
begin

lemma rev_lookup_ttl: "ttl_lookup RevocationTTL (rev_lookup T) (\<lambda>d. revoked_in (rows d))"
proof (unfold_locales, goal_cases)
  case (2 now c k later d v c' d')
  then show ?case
    by (auto simp: rev_lookup_def revoked_in_def image_iff split: prod.splits sum.splits dest!: count_pos)
next
  case (4 now later k c d res c' d')
  then show ?case
    by (auto simp: rev_lookup_def split: option.splits prod.splits sum.splits dest!: count_rows)
qed (auto simp: rev_lookup_def split: prod.splits sum.splits)

lemma Revoke_rows:
  assumes "Revoke T clk k tn e reason c d = (None, c', d')"
  shows "\<exists>r\<in>set (rows d'). rs_SessionID r = k \<and> rs_ExpiresAt r = e"
    and "r \<in> set (rows d) \<Longrightarrow> rs_SessionID r \<noteq> k \<Longrightarrow> r \<in> set (rows d')" and "c' = mput k (True, snd clk) c"
proof -
  let ?rec = "\<lparr>rs_SessionID = k, rs_TenantID = tn, rs_ExpiresAt = e, rs_RevokedAt = fst clk, rs_Reason = reason\<rparr>"
  have r: "db_first_or_create T (\<lambda>r. rs_SessionID r = k) ?rec (assign_revoked ?rec) d = (None, d')"
    and c: "c' = mput k (True, snd clk) c"
    using assms by (auto simp: Revoke_def Let_def split: if_splits option.splits prod.splits)
  show "\<exists>r\<in>set (rows d'). rs_SessionID r = k \<and> rs_ExpiresAt r = e"
  proof (cases "\<exists>x\<in>set (rows d). rs_SessionID x = k")
    case True
    then obtain x where x: "x \<in> set (rows d)" "rs_SessionID x = k"
      "rows d' = upd_where (\<lambda>y. rs_SessionID y = rs_SessionID x) (assign_revoked ?rec) (rows d)"
      using foc_ok[OF r] by auto
    then have "assign_revoked ?rec x \<in> set (rows d')" by (auto simp: upd_where_def)
    then show ?thesis using x(2) by (intro bexI[of _ "assign_revoked ?rec x"]) (simp_all add: assign_revoked_def)
  qed (use foc_ok[OF r] in auto)
  from foc_ok[OF r] show "r \<in> set (rows d) \<Longrightarrow> rs_SessionID r \<noteq> k \<Longrightarrow> r \<in> set (rows d')"
    by (auto simp: upd_where_def split: if_splits)
  show "c' = mput k (True, snd clk) c" by (rule c)
qed

lemma Revoke_fails:
  "Revoke T clk k tn e reason c d = (Some err, c', d') \<Longrightarrow> rows d' = rows d \<and> c' = c"
  by (auto simp: Revoke_def Let_def split: if_splits option.splits prod.splits dest!: foc_fail)

lemma foldl_mdel_other:
  "mget (foldl (\<lambda>c row. mdel (rs_SessionID row) c) c rs) k = Some v \<Longrightarrow> mget c k = Some v"
proof (induction rs arbitrary: c)
  case (Cons a rs)
  from Cons.IH[of "mdel (rs_SessionID a) c"] Cons.prems show ?case by (simp split: if_splits)
qed simp

lemma Purge_keeps:
  assumes "PurgeExpired T cutoff c d = (res, c', d')"
  shows "r \<in> set (rows d) \<Longrightarrow> cutoff < rs_ExpiresAt r \<Longrightarrow> r \<in> set (rows d')"
    and "mget c' k = Some v \<Longrightarrow> mget c k = Some v"
  using assms find_rows[of "\<lambda>r. rs_ExpiresAt r \<le> cutoff" d]
    delete_keeps[of "\<lambda>r. rs_ExpiresAt r \<le> cutoff"]
  by (fastforce simp: PurgeExpired_def split: sum.splits prod.splits if_splits dest: foldl_mdel_other)+

end

sublocale revocation_table \<subseteq> rev: ttl_lookup RevocationTTL "rev_lookup T" "\<lambda>d. revoked_in (rows d)"
  by (rule rev_lookup_ttl)

interpretation mem_revocations: revocation_table
  "mem_table rs_SessionID :: (RevokedSession, RevokedSession list \<times> 'e) dbtable" "mem_rows rs_SessionID" snd ..

section \<open>A process after a logout\<close>

text \<open>What a process may do with sessions, at the times its clock shows, and the tokens it accepts.\<close>

datatype sess_op =
    DoValidate clock string
  | DoRefresh clock string
  | DoPurge int
  | DoLogout clock string

fun op_span :: "sess_op \<Rightarrow> clock" where
  "op_span (DoValidate clk _) = clk"
| "op_span (DoRefresh clk _) = clk"
| "op_span (DoPurge now) = (now, now)"
| "op_span (DoLogout clk _) = clk"

fun in_order :: "int \<Rightarrow> sess_op list \<Rightarrow> bool" where
  "in_order t [] = True"
| "in_order t (x # xs) = (t \<le> fst (op_span x) \<and> fst (op_span x) \<le> snd (op_span x) \<and> in_order (snd (op_span x)) xs)"

fun run_sess_op ::
  "jwt \<Rightarrow> strategy \<Rightarrow> (RevokedSession, 'd) dbtable \<Rightarrow> sess_op \<Rightarrow> rev_cache \<Rightarrow> 'd \<Rightarrow> string list \<times> rev_cache \<times> 'd" where
  "run_sess_op J s T (DoValidate clk tok) c d =
     (case ValidateClaims J s T clk tok c d of (Inr _, st) \<Rightarrow> ([tok], st) | (Inl _, st) \<Rightarrow> ([], st))"
| "run_sess_op J s T (DoRefresh clk tok) c d =
     (case Refresh J s T clk tok c d of (Inr _, st) \<Rightarrow> ([tok], st) | (Inl _, st) \<Rightarrow> ([], st))"
| "run_sess_op J s T (DoPurge now) c d = ([], snd (PurgeExpired T now c d))"
| "run_sess_op J s T (DoLogout clk tok) c d = ([], snd (Session_Delete J s T clk tok c d))"

fun run_sess ::
  "jwt \<Rightarrow> strategy \<Rightarrow> (RevokedSession, 'd) dbtable \<Rightarrow> sess_op list \<Rightarrow> rev_cache \<Rightarrow> 'd \<Rightarrow> string list \<times> rev_cache \<times> 'd" where
  "run_sess J s T [] c d = ([], c, d)"
| "run_sess J s T (x # xs) c d =
     (let (toks, c1, d1) = run_sess_op J s T x c d; (rest, c2, d2) = run_sess J s T xs c1 d1 in (toks @ rest, c2, d2))"

text \<open>
  The state a logout leaves: up to \<open>E\<close> the session is on the list, until \<open>E\<close> at least, and nothing
  else is remembered about it.
\<close>

definition held :: "string \<Rightarrow> int \<Rightarrow> int \<Rightarrow> RevokedSession list \<Rightarrow> rev_cache \<Rightarrow> bool" where
  "held sid E now rs c \<longleftrightarrow> E \<le> now \<or>
     (\<exists>r\<in>set rs. rs_SessionID r = sid \<and> E \<le> rs_ExpiresAt r) \<and> (\<forall>v t. mget c sid = Some (v, t) \<longrightarrow> v)"

lemma held_later: "held sid E now rs c \<Longrightarrow> now \<le> now' \<Longrightarrow> held sid E now' rs c"
  by (auto simp: held_def)

definition dead_by :: "int \<Rightarrow> TenantClaims \<Rightarrow> bool" where
  "dead_by E c = (\<exists>e. cl_ExpiresAt c = Some e \<and> e \<le> E)"

context revocation_table
begin

lemma refuse_held:
  assumes "held sid E (fst clk) (rows d) c" "st_revocations s" "refuse_revoked s T clk k c d = (res, c', d')"
  shows "held sid E (fst clk) (rows d') c'" and "k = sid \<Longrightarrow> fst clk < E \<Longrightarrow> res \<noteq> None"
proof -
  show "held sid E (fst clk) (rows d') c'"
  proof (cases "E \<le> fst clk")
    case False
    then have h: "\<exists>r\<in>set (rows d). rs_SessionID r = sid \<and> E \<le> rs_ExpiresAt r" "\<forall>v t. mget c sid = Some (v, t) \<longrightarrow> v"
      using assms(1) by (auto simp: held_def)
    have "rows d' = rows d"
      using assms(2,3) count_rows[of "\<lambda>r. rs_SessionID r = k" d]
      by (auto simp: refuse_revoked_def IsRevoked_def rev_lookup_def split: if_splits option.splits sum.splits prod.splits)
    moreover have "v" if "mget c' sid = Some (v, t)" for v t
      using that assms(2,3) h count_pos[of "\<lambda>r. rs_SessionID r = k" d]
      by (fastforce simp: refuse_revoked_def IsRevoked_def rev_lookup_def split: if_splits option.splits sum.splits prod.splits)
    ultimately show ?thesis using h(1) by (auto simp: held_def)
  qed (simp add: held_def)
  show "res \<noteq> None" if "k = sid" "fst clk < E"
  proof -
    have h: "\<exists>r\<in>set (rows d). rs_SessionID r = sid" "\<forall>v t. mget c sid = Some (v, t) \<longrightarrow> v"
      using assms(1) that(2) by (auto simp: held_def)
    show ?thesis
      using assms(2,3) h that(1) count_pos[of "\<lambda>r. rs_SessionID r = k" d]
      by (fastforce simp: refuse_revoked_def IsRevoked_def rev_lookup_def fresh_entry_def
          split: if_splits option.splits sum.splits prod.splits)
  qed
qed

lemma Purge_held:
  assumes "held sid E now (rows d) c" "PurgeExpired T now c d = (res, c', d')"
  shows "held sid E now (rows d') c'"
proof (cases "E \<le> now")
  case False
  then obtain r where r: "r \<in> set (rows d)" "rs_SessionID r = sid" "E \<le> rs_ExpiresAt r"
    and c: "\<forall>v t. mget c sid = Some (v, t) \<longrightarrow> v" using assms(1) by (auto simp: held_def)
  have "r \<in> set (rows d')" using Purge_keeps(1)[OF assms(2) r(1)] False r(3) by simp
  then show ?thesis using r c Purge_keeps(2)[OF assms(2)] unfolding held_def by blast
qed (simp add: held_def)

lemma Delete_held:
  assumes "held sid E (fst clk) (rows d) c" "Session_Delete J s T clk tok c d = (res, c', d')"
    and "E \<le> fst clk + st_refreshExpiry s"
  shows "held sid E (fst clk) (rows d') c'"
proof (cases "strategy_parse J s (fst clk) tok")
  case (Inr cl)
  show ?thesis
  proof (cases "st_revocations s \<and> cl_SessionID cl \<noteq> [] \<and> (cl_ExpiresAt cl = None \<or> cl_IssuedAt cl \<noteq> None)")
    case True
    then obtain e where e: "Revoke T clk (cl_SessionID cl) (cl_TenantID cl) e ReasonLogout c d = (res, c', d')"
      "fst clk + st_refreshExpiry s \<le> e"
      using assms(2) Inr by (auto simp: Session_Delete_def Let_def split: option.splits if_splits)
    show ?thesis
    proof (cases res)
      case None
      note r = Revoke_rows[OF e(1)[unfolded None]]
      show ?thesis
      proof (cases "cl_SessionID cl = sid")
        case True
        then show ?thesis using r(1,3) e(2) assms(3) by (force simp: held_def)
      next
        case False
        then show ?thesis using assms(1) r(2,3) unfolding held_def by (metis mget_mput)
      qed
    next
      case (Some err)
      then show ?thesis using Revoke_fails[OF e(1)[unfolded Some]] assms(1) by simp
    qed
  next
    case False
    then have "c' = c \<and> d' = d" using assms(2) Inr by (cases "st_revocations s") (auto simp: Session_Delete_def Let_def split: if_splits)
    then show ?thesis using assms(1) by simp
  qed
qed (use assms in \<open>auto simp: Session_Delete_def split: if_splits\<close>)

text \<open>No token of the session that is dead by \<open>E\<close> is accepted any more, and the state stays.\<close>

lemma step_held:
  assumes jwt: "jwt_ok J au" and rev: "st_revocations s" and h: "held sid E now (rows d) c"
    and ord: "now \<le> fst (op_span x)" "fst (op_span x) \<le> snd (op_span x)"
    and E: "E \<le> now + st_refreshExpiry s" and run: "run_sess_op J s T x c d = (toks, c', d')"
  shows "held sid E (snd (op_span x)) (rows d') c'" and
    "tok \<in> set toks \<Longrightarrow> jw_sign J key cl = Inr tok \<Longrightarrow> cl_SessionID cl = sid \<Longrightarrow> \<not> dead_by E cl"
proof -
  have h': "held sid E (fst (op_span x)) (rows d) c" by (rule held_later[OF h ord(1)])
  have E': "E \<le> fst (op_span x) + st_refreshExpiry s" using E ord(1) by simp
  have "held sid E (fst (op_span x)) (rows d') c' \<and>
    (\<forall>tok\<in>set toks. \<forall>cl. strategy_parse J s (fst (op_span x)) tok = Inr cl \<and> cl_SessionID cl = sid \<longrightarrow> E \<le> fst (op_span x))
    \<and> (\<forall>tok\<in>set toks. \<exists>cl. strategy_parse J s (fst (op_span x)) tok = Inr cl)"
  proof (cases x)
    case (DoValidate clk tok)
    then show ?thesis
      using run h' refuse_held[OF _ rev, of sid E clk d c]
      by (fastforce simp: ValidateClaims_def split: sum.splits option.splits prod.splits if_splits)
  next
    case (DoRefresh clk tok)
    then show ?thesis
      using run h' refuse_held[OF _ rev, of sid E clk d c]
      by (fastforce simp: Refresh_def split: sum.splits option.splits prod.splits if_splits)
  next
    case (DoPurge n)
    then show ?thesis using run h' Purge_held[of sid E n d c] by (auto split: prod.splits) (metis prod.collapse)
  next
    case (DoLogout clk tok)
    then show ?thesis using run h' E' Delete_held[of sid E clk d c J s tok] by (auto split: prod.splits) (metis prod.collapse)
  qed
  note all = this
  show "held sid E (snd (op_span x)) (rows d') c'" using held_later[OF _ ord(2)] all by blast
  assume t: "tok \<in> set toks" "jw_sign J key cl = Inr tok" "cl_SessionID cl = sid"
  then obtain cl' where cl': "strategy_parse J s (fst (op_span x)) tok = Inr cl'" using all by blast
  then have "unexpired (fst (op_span x)) cl'" "cl' = cl"
    using strategy_parse_iff[OF jwt] claims_unique[OF jwt t(2)] by blast+
  with all t cl' show "\<not> dead_by E cl" by (fastforce simp: unexpired_def dead_by_def)
qed

lemma run_held:
  assumes "jwt_ok J au" "st_revocations s" "held sid E now (rows d) c" "in_order now xs"
    "E \<le> now + st_refreshExpiry s" "run_sess J s T xs c d = (toks, c', d')"
    "tok \<in> set toks" "jw_sign J key cl = Inr tok" "cl_SessionID cl = sid"
  shows "\<not> dead_by E cl"
  using assms(3-7)
proof (induction xs arbitrary: now c d toks c' d')
  case (Cons x xs)
  obtain t1 c1 d1 where s: "run_sess_op J s T x c d = (t1, c1, d1)" by (metis prod_cases3)
  obtain t2 c2 d2 where r: "run_sess J s T xs c1 d1 = (t2, c2, d2)" by (metis prod_cases3)
  have o: "now \<le> fst (op_span x)" "fst (op_span x) \<le> snd (op_span x)" "in_order (snd (op_span x)) xs"
    using Cons.prems(2) by simp_all
  note step = step_held[OF assms(1,2) Cons.prems(1) o(1,2) Cons.prems(3) s]
  have "tok \<in> set t1 \<or> tok \<in> set t2" using Cons.prems(4,5) s r by auto
  then show ?case
  proof
    assume "tok \<in> set t2"
    moreover have "E \<le> snd (op_span x) + st_refreshExpiry s" using Cons.prems(3) o(1,2) by linarith
    ultimately show ?thesis using Cons.IH[OF step(1) o(3) _ r] by blast
  qed (rule step(2)[OF _ assms(8,9)])
qed simp

end

section \<open>Issued tokens\<close>

definition issued_claims :: "string \<Rightarrow> string \<Rightarrow> string \<Rightarrow> int \<Rightarrow> int \<Rightarrow> int \<Rightarrow> TenantClaims" where
  "issued_claims sid ident tenant ver issued expires =
     \<lparr>cl_SessionID = sid, cl_TenantID = tenant, cl_TokenVersion = ver, cl_Subject = ident,
      cl_ExpiresAt = Some (NewNumericDate expires), cl_IssuedAt = Some (NewNumericDate issued)\<rparr>"

lemma CreateForTenant_Inr:
  assumes "CreateForTenant J s now sid ident tenant ver = Inr sess"
  shows "tenant \<noteq> []" "jw_sign J (st_secret s) (issued_claims sid ident tenant ver now (now + st_expiry s)) = Inr (se_ID sess)"
    "jw_sign J (st_secret s) (issued_claims sid ident tenant ver now (now + st_refreshExpiry s)) = Inr (se_RefreshToken sess)"
  using assms
  by (auto simp: CreateForTenant_def strategy_sign_def issued_claims_def split: if_splits sum.splits)

lemma NewNumericDate_le: "NewNumericDate t \<le> t"
  by (simp add: NewNumericDate_def minus_mod_eq_div_mult [symmetric])

lemma issued_dead_by: "expires \<le> E \<Longrightarrow> dead_by E (issued_claims sid ident tenant ver issued expires)"
  using NewNumericDate_le[of expires] by (simp add: dead_by_def issued_claims_def)

lemma unexpired_issued: "unexpired now (issued_claims sid ident tenant ver i e) \<longleftrightarrow> now < NewNumericDate e"
  by (simp add: unexpired_def issued_claims_def)

lemma refuse_None_keeps_binding:
  assumes "Refresh J s T clk tok c d = (Inr sess, st)" "strategy_parse J s (fst clk) tok = Inr cl"
  shows "CreateForTenant J s (snd clk) (cl_SessionID cl) (cl_Subject cl) (cl_TenantID cl) (cl_TokenVersion cl) = Inr sess"
  using assms by (auto simp: Refresh_def split: if_splits option.splits prod.splits)

context revocation_table
begin

lemma logout_held:
  assumes "Session_Delete J s T clk tok c d = (None, c', d')" "strategy_parse J s (fst clk) tok = Inr cl"
  shows "st_revocations s" "held (cl_SessionID cl) (fst clk + st_refreshExpiry s) now (rows d') c'"
proof -
  show "st_revocations s" using assms(1) by (auto simp: Session_Delete_def split: if_splits)
  obtain e where e: "Revoke T clk (cl_SessionID cl) (cl_TenantID cl) e ReasonLogout c d = (None, c', d')"
    "fst clk + st_refreshExpiry s \<le> e"
    using assms by (auto simp: Session_Delete_def Let_def split: option.splits if_splits)
  show "held (cl_SessionID cl) (fst clk + st_refreshExpiry s) now (rows d') c'"
    using Revoke_rows(1,3)[OF e(1)] e(2) by (force simp: held_def)
qed

lemma Delete_parsed: "Session_Delete J s T clk tok c d = (None, c', d') \<Longrightarrow> \<exists>cl. strategy_parse J s (fst clk) tok = Inr cl"
  by (auto simp: Session_Delete_def split: if_splits sum.splits)

end

section \<open>Properties\<close>

text \<open>
  C12: a token that is let in is genuine, and its session was off the revocation list at some
  recent moment (not necessarily now: another process may have revoked it since the answer
  was cached).
  However this process and others have used and changed the revocation list before, when
  \<open>ValidateClaims\<close> accepts a token, it was signed for exactly these claims with the active or a
  retired secret, it has not expired, it names a tenant and a session, and at some moment
  less than \<open>RevocationTTL\<close> earlier the list did not hold that session. A list that cannot be
  read lets nobody in whose answer has run out.
\<close>

theorem validated_token_is_genuine:
  assumes "jwt_ok J authentic" and "revocation_table T rows rest" and "st_revocations s"
    and "ttl_run (rev_lookup T) (\<lambda>d. revoked_in (rows d)) ((t, d) # H) cache" and "t \<le> now" and "now \<le> later"
    and "ValidateClaims J s T (now, later) token cache d = (Inr claims, cache', d')"
  shows "(\<exists>key\<in>set (st_secret s # st_previousSecrets s). jw_sign J key claims = Inr token) \<and>
    (case cl_ExpiresAt claims of Some e \<Rightarrow> now < e | None \<Rightarrow> True) \<and>
    cl_TenantID claims \<noteq> [] \<and> cl_SessionID claims \<noteq> [] \<and>
    (\<exists>t0 d0. (t0, d0) \<in> set ((later, d') # (t, d) # H) \<and> now - t0 < RevocationTTL \<and>
       cl_SessionID claims \<notin> rs_SessionID ` set (rows d0))"
proof -
  have p: "strategy_parse J s now token = Inr claims" and tn: "cl_TenantID claims \<noteq> []"
    and r: "refuse_revoked s T (now, later) (cl_SessionID claims) cache d = (None, cache', d')"
    using assms(7) by (auto simp: ValidateClaims_def split: sum.splits if_splits option.splits prod.splits)
  have l: "cl_SessionID claims \<noteq> []" "rev_lookup T (now, later) (cl_SessionID claims) cache d = (Inr False, cache', d')"
    using r assms(3) by (auto simp: refuse_revoked_def IsRevoked_def split: if_splits sum.splits prod.splits)
  have "0 < RevocationTTL" by (simp add: RevocationTTL_def)
  from ttl_lookup.answer_recent[OF revocation_table.rev_lookup_ttl[OF assms(2)] assms(4-6) l(2) this]
  have "\<exists>t0 d0. (t0, d0) \<in> set ((later, d') # (t, d) # H) \<and> now - t0 < RevocationTTL \<and>
       cl_SessionID claims \<notin> rs_SessionID ` set (rows d0)" by (simp add: revoked_in_def)
  moreover have "\<exists>key\<in>set (st_secret s # st_previousSecrets s). jw_sign J key claims = Inr token"
    "case cl_ExpiresAt claims of Some e \<Rightarrow> now < e | None \<Rightarrow> True"
    using p unfolding strategy_parse_iff[OF assms(1)] session_keys_def unexpired_def by blast+
  ultimately show ?thesis using tn l(1) by blast
qed

text \<open>A signer that knows the tokens of one session, for the witnesses.\<close>

definition table_jwt :: "(string \<times> TenantClaims \<times> string) list \<Rightarrow> jwt" where
  "table_jwt tbl = \<lparr>
     jw_sign = (\<lambda>key c. case find (\<lambda>(k, c', t). k = key \<and> c' = c) tbl of Some (_, _, t) \<Rightarrow> Inr t | None \<Rightarrow> Inl (ErrNew ''key'')),
     jw_parse = (\<lambda>now kf tok. case find (\<lambda>(k, c, t). t = tok) tbl of
         None \<Rightarrow> Inl (ErrNew ''malformed'')
       | Some (k, c, _) \<Rightarrow> (case kf ''HS256'' of Inl e \<Rightarrow> Inl e
           | Inr key \<Rightarrow> if key = k \<and> unexpired now c then Inr c else Inl (ErrNew ''signature''))) \<rparr>"

definition table_authentic :: "(string \<times> TenantClaims \<times> string) list \<Rightarrow> string \<Rightarrow> string \<Rightarrow> TenantClaims \<Rightarrow> string \<Rightarrow> bool" where
  "table_authentic tbl alg key c tok = (alg = ''HS256'' \<and> (key, c, tok) \<in> set tbl)"

lemma find_unique:
  assumes "x \<in> set xs" "P x" "\<And>y. y \<in> set xs \<Longrightarrow> P y \<Longrightarrow> y = x"
  shows "find P xs = Some x"
proof (cases "find P xs")
  case None
  with assms(1,2) find_NoneD show ?thesis by metis
next
  case (Some y)
  with assms(3) find_SomeD show ?thesis by metis
qed

lemma table_jwt_ok:
  assumes "distinct (map (\<lambda>(k, c, t). (k, c)) tbl)" "distinct (map (\<lambda>(k, c, t). t) tbl)"
  shows "jwt_ok (table_jwt tbl) (table_authentic tbl)"
proof -
  have inj: "inj_on (\<lambda>(k, c, t). (k, c)) (set tbl)" "inj_on (\<lambda>(k, c, t). t) (set tbl)"
    using assms by (simp_all add: distinct_map)
  have by_claims: "t' = t" if "(k, c, t) \<in> set tbl" "(k, c, t') \<in> set tbl" for k c t t'
    using inj_onD[OF inj(1) _ that] by simp
  have by_token: "k' = k \<and> c' = c" if "(k, c, t) \<in> set tbl" "(k', c', t) \<in> set tbl" for k c k' c' t
    using inj_onD[OF inj(2) _ that] by simp
  have "jw_sign (table_jwt tbl) key c = Inr tok \<longleftrightarrow> (key, c, tok) \<in> set tbl" for key c tok
  proof
    assume "jw_sign (table_jwt tbl) key c = Inr tok"
    then have "find (\<lambda>(k, c', t). k = key \<and> c' = c) tbl = None \<Longrightarrow> False" by (simp add: table_jwt_def)
    then obtain x where x: "find (\<lambda>(k, c', t). k = key \<and> c' = c) tbl = Some x" by blast
    then show "(key, c, tok) \<in> set tbl"
      using find_SomeD[OF x] \<open>jw_sign (table_jwt tbl) key c = Inr tok\<close> by (cases x) (simp add: table_jwt_def)
  next
    assume m: "(key, c, tok) \<in> set tbl"
    have "find (\<lambda>(k, c', t). k = key \<and> c' = c) tbl = Some (key, c, tok)"
      by (rule find_unique[OF m]) (use by_claims[OF m] in auto)
    then show "jw_sign (table_jwt tbl) key c = Inr tok" by (simp add: table_jwt_def)
  qed
  moreover have "jw_parse (table_jwt tbl) now kf tok = Inr c \<longleftrightarrow>
    (\<exists>key. kf ''HS256'' = Inr key \<and> (key, c, tok) \<in> set tbl \<and> unexpired now c)" for now kf tok c
  proof
    assume p: "jw_parse (table_jwt tbl) now kf tok = Inr c"
    then have "find (\<lambda>(k, c, t). t = tok) tbl = None \<Longrightarrow> False" by (simp add: table_jwt_def)
    then obtain x where x: "find (\<lambda>(k, c, t). t = tok) tbl = Some x" by blast
    then show "\<exists>key. kf ''HS256'' = Inr key \<and> (key, c, tok) \<in> set tbl \<and> unexpired now c"
      using find_SomeD[OF x] p by (cases x) (auto simp: table_jwt_def split: sum.splits if_splits)
  next
    assume "\<exists>key. kf ''HS256'' = Inr key \<and> (key, c, tok) \<in> set tbl \<and> unexpired now c"
    then obtain key where m: "kf ''HS256'' = Inr key" "(key, c, tok) \<in> set tbl" "unexpired now c" by blast
    have "find (\<lambda>(k, c, t). t = tok) tbl = Some (key, c, tok)"
      by (rule find_unique[OF m(2)]) (use by_token[OF m(2)] in auto)
    then show "jw_parse (table_jwt tbl) now kf tok = Inr c" using m by (simp add: table_jwt_def)
  qed
  ultimately show ?thesis unfolding jwt_ok_def table_authentic_def using by_token by auto
qed

definition demo_strategy :: strategy where
  "demo_strategy = WithRevocation (NewTenantJWTStrategy ''k'' (10 * 1000000000) (20 * 1000000000) [''old''])"

definition demo_tokens :: "(string \<times> TenantClaims \<times> string) list" where
  "demo_tokens = [(''k'', issued_claims ''s1'' ''u1'' ''acme'' 3 0 (10 * 1000000000), ''access''),
                  (''k'', issued_claims ''s1'' ''u1'' ''acme'' 3 0 (20 * 1000000000), ''refresh'')]"

lemmas demo_defs = demo_strategy_def demo_tokens_def WithRevocation_def NewTenantJWTStrategy_def table_jwt_def
  issued_claims_def NewNumericDate_def

lemma demo_jwt: "jwt_ok (table_jwt demo_tokens) (table_authentic demo_tokens)"
  by (rule table_jwt_ok) (simp_all add: demo_defs)

lemma demo_create: "CreateForTenant (table_jwt demo_tokens) demo_strategy 0 ''s1'' ''u1'' ''acme'' 3 =
  Inr \<lparr>se_ID = ''access'', se_IdentityID = ''u1'', se_RefreshToken = ''refresh'', se_ExpiresAt = 10 * 1000000000,
    se_RefreshExpiresAt = 20 * 1000000000, se_IssuedAt = 0\<rparr>"
  by (simp add: CreateForTenant_def strategy_sign_def demo_defs)

lemma demo_parse: "strategy_parse (table_jwt demo_tokens) demo_strategy 5 ''access'' =
  Inr (issued_claims ''s1'' ''u1'' ''acme'' 3 0 (10 * 1000000000))"
  by (simp add: strategy_parse_def parseWithKey_def unexpired_def demo_defs)

abbreviation demo_db :: "(RevokedSession, RevokedSession list \<times> unit) dbtable" where
  "demo_db \<equiv> mem_table rs_SessionID"

theorem validated_token_is_genuine_witness:
  "''s1'' \<notin> rs_SessionID ` set (mem_rows rs_SessionID ([], ())) \<and>
   (\<exists>key\<in>set [''k'', ''old'']. jw_sign (table_jwt demo_tokens) key (issued_claims ''s1'' ''u1'' ''acme'' 3 0 (10 * 1000000000)) = Inr ''access'')"
proof -
  let ?d = "([], ()) :: RevokedSession list \<times> unit"
  have rev: "st_revocations demo_strategy" by (simp add: demo_defs)
  have "ValidateClaims (table_jwt demo_tokens) demo_strategy demo_db (5, 6) ''access'' [] ?d =
    (Inr (issued_claims ''s1'' ''u1'' ''acme'' 3 0 (10 * 1000000000)), [(''s1'', (False, 6))], ?d)"
    using rev by (simp add: ValidateClaims_def demo_parse refuse_revoked_def IsRevoked_def rev_lookup_def fresh_entry_def
        mem_table_def mem_rows_def issued_claims_def)
  from validated_token_is_genuine[OF demo_jwt mem_revocations.revocation_table_axioms rev ttl_run.start _ _ this, of 5,
      THEN conjunct1]
  show ?thesis by (simp add: demo_strategy_def WithRevocation_def NewTenantJWTStrategy_def mem_rows_def)
qed

text \<open>
  C11: logout is final. After a logout with any token of a session has succeeded, whatever
  sequence of validations, refreshes, purges and further logouts the process goes through at
  any later times, it never again accepts, for validation or for refresh, an access or
  refresh token that had been issued for that session by then. In particular the purge of old
  entries never revives a session, because an entry is kept until the last of these tokens
  has expired.
\<close>

theorem logout_is_final:
  assumes "jwt_ok J authentic" and "revocation_table T rows rest" and "st_expiry s \<le> st_refreshExpiry s"
    and "Session_Delete J s T (now, later) token cache d = (None, cache', d')" and "now \<le> later"
    and "strategy_parse J s now token = Inr claims"
    and "CreateForTenant J s issued (cl_SessionID claims) ident tenant ver = Inr sess" and "issued \<le> now"
    and "in_order later ops" and "run_sess J s T ops cache' d' = (accepted, cache'', d'')"
  shows "se_ID sess \<notin> set accepted \<and> se_RefreshToken sess \<notin> set accepted"
proof -
  let ?E = "now + st_refreshExpiry s" and ?sid = "cl_SessionID claims"
  note created = CreateForTenant_Inr[OF assms(7)]
  have rev: "st_revocations s" and held: "held ?sid ?E later (rows d') cache'"
    using revocation_table.logout_held[OF assms(2,4)] assms(6) by simp_all
  have E: "?E \<le> later + st_refreshExpiry s" using assms(5) by simp
  have dead: "dead_by ?E (issued_claims ?sid ident tenant ver issued (issued + st_expiry s))"
    "dead_by ?E (issued_claims ?sid ident tenant ver issued (issued + st_refreshExpiry s))"
    using assms(3,8) by (simp_all add: issued_dead_by)
  have sid: "cl_SessionID (issued_claims ?sid ident tenant ver issued x) = ?sid" for x by (simp add: issued_claims_def)
  show ?thesis
    using revocation_table.run_held[OF assms(2,1) rev held assms(9) E assms(10) _ created(2) sid]
      revocation_table.run_held[OF assms(2,1) rev held assms(9) E assms(10) _ created(3) sid] dead by blast
qed

theorem logout_is_final_witness:
  "''refresh'' \<notin> set (fst (run_sess (table_jwt demo_tokens) demo_strategy demo_db
      [DoPurge 8, DoRefresh (9, 10) ''refresh'']
      (fst (snd (Session_Delete (table_jwt demo_tokens) demo_strategy demo_db (5, 6) ''access'' [] ([], ()))))
      (snd (snd (Session_Delete (table_jwt demo_tokens) demo_strategy demo_db (5, 6) ''access'' [] ([], ()))))))"
proof -
  let ?del = "Session_Delete (table_jwt demo_tokens) demo_strategy demo_db (5, 6) ''access'' [] ([], ())"
  let ?run = "run_sess (table_jwt demo_tokens) demo_strategy demo_db [DoPurge 8, DoRefresh (9, 10) ''refresh'']
    (fst (snd ?del)) (snd (snd ?del))"
  have "fst ?del = None"
    using demo_parse by (simp add: Session_Delete_def Let_def Revoke_def mem_table_def mem_rows_def mem_commit_def demo_defs)
  then have del: "?del = (None, fst (snd ?del), snd (snd ?del))" by (metis prod.collapse)
  have exp: "st_expiry demo_strategy \<le> st_refreshExpiry demo_strategy" by (simp add: demo_defs)
  have created: "CreateForTenant (table_jwt demo_tokens) demo_strategy 0
      (cl_SessionID (issued_claims ''s1'' ''u1'' ''acme'' 3 0 (10 * 1000000000))) ''u1'' ''acme'' 3 =
    Inr \<lparr>se_ID = ''access'', se_IdentityID = ''u1'', se_RefreshToken = ''refresh'', se_ExpiresAt = 10 * 1000000000,
      se_RefreshExpiresAt = 20 * 1000000000, se_IssuedAt = 0\<rparr>"
    using demo_create by (simp add: issued_claims_def)
  have ord: "(5::int) \<le> 6" "(0::int) \<le> 5" "in_order 6 [DoPurge 8, DoRefresh (9, 10) ''refresh'']" by simp_all
  have run: "?run = (fst ?run, fst (snd ?run), snd (snd ?run))" by (simp only: prod.collapse)
  from logout_is_final[OF demo_jwt mem_revocations.revocation_table_axioms exp del ord(1) demo_parse created ord(2,3) run,
      THEN conjunct2, unfolded session.simps]
  show ?thesis .
qed

text \<open>
  C34: a session stays what it was issued as. Both tokens of a session validate, until they
  expire, as exactly the tenant, subject, session and token version they were issued for,
  also by a strategy that has since rotated the secret and kept the old one; and refreshing
  any token of it issues tokens of which the same is true, so that no chain of refreshes
  changes tenant or identity or sheds the version a forced logout looks at.
\<close>

theorem session_binding_preserved:
  assumes "jwt_ok J authentic" and "CreateForTenant J s now sid ident tenant ver = Inr sess"
    and "st_secret s \<in> set (st_secret s' # st_previousSecrets s')"
  shows "(\<forall>t < NewNumericDate (now + st_expiry s). \<exists>c. strategy_parse J s' t (se_ID sess) = Inr c \<and>
        (cl_SessionID c, cl_Subject c, cl_TenantID c, cl_TokenVersion c) = (sid, ident, tenant, ver)) \<and>
    (\<forall>t < NewNumericDate (now + st_refreshExpiry s). \<exists>c. strategy_parse J s' t (se_RefreshToken sess) = Inr c \<and>
        (cl_SessionID c, cl_Subject c, cl_TenantID c, cl_TokenVersion c) = (sid, ident, tenant, ver)) \<and>
    (\<forall>T clk cache d sess' st tok. tok \<in> {se_ID sess, se_RefreshToken sess} \<and>
        Refresh J s' T clk tok cache d = (Inr sess', st) \<longrightarrow>
        CreateForTenant J s' (snd clk) sid ident tenant ver = Inr sess')"
proof (intro conjI allI impI)
  note created = CreateForTenant_Inr[OF assms(2)]
  have key: "st_secret s \<in> session_keys s'" using assms(3) by (simp add: session_keys_def)
  have parsed: "strategy_parse J s' t tok = Inr (issued_claims sid ident tenant ver now e)"
    if "jw_sign J (st_secret s) (issued_claims sid ident tenant ver now e) = Inr tok" "t < NewNumericDate e" for t tok e
    unfolding strategy_parse_iff[OF assms(1)] unexpired_issued using that key by blast
  show "\<exists>c. strategy_parse J s' t (se_ID sess) = Inr c \<and>
        (cl_SessionID c, cl_Subject c, cl_TenantID c, cl_TokenVersion c) = (sid, ident, tenant, ver)"
    if "t < NewNumericDate (now + st_expiry s)" for t
    using parsed[OF created(2) that] by (simp add: issued_claims_def)
  show "\<exists>c. strategy_parse J s' t (se_RefreshToken sess) = Inr c \<and>
        (cl_SessionID c, cl_Subject c, cl_TenantID c, cl_TokenVersion c) = (sid, ident, tenant, ver)"
    if "t < NewNumericDate (now + st_refreshExpiry s)" for t
    using parsed[OF created(3) that] by (simp add: issued_claims_def)
  fix T :: "(RevokedSession, 'd) dbtable" and clk cache d sess' st tok
  assume r: "tok \<in> {se_ID sess, se_RefreshToken sess} \<and> Refresh J s' T clk tok cache d = (Inr sess', st)"
  then obtain e where e: "jw_sign J (st_secret s) (issued_claims sid ident tenant ver now e) = Inr tok"
    using created(2,3) by blast
  obtain c where c: "strategy_parse J s' (fst clk) tok = Inr c" using r by (auto simp: Refresh_def split: sum.splits)
  then have "c = issued_claims sid ident tenant ver now e"
    using claims_unique[OF assms(1) e] unfolding strategy_parse_iff[OF assms(1)] by blast
  then show "CreateForTenant J s' (snd clk) sid ident tenant ver = Inr sess'"
    using refuse_None_keeps_binding[OF conjunct2[OF r] c] by (simp add: issued_claims_def)
qed

theorem session_binding_preserved_witness:
  "\<exists>c. strategy_parse (table_jwt demo_tokens) (demo_strategy\<lparr>st_secret := ''new'', st_previousSecrets := [''k'']\<rparr>) 7 ''refresh'' = Inr c
     \<and> (cl_SessionID c, cl_Subject c, cl_TenantID c, cl_TokenVersion c) = (''s1'', ''u1'', ''acme'', 3)"
proof -
  let ?s = "demo_strategy\<lparr>st_secret := ''new'', st_previousSecrets := [''k'']\<rparr>"
  have k: "st_secret demo_strategy \<in> set (st_secret ?s # st_previousSecrets ?s)" by (simp add: demo_defs)
  have "(7::int) < NewNumericDate (0 + st_refreshExpiry demo_strategy)" by (simp add: demo_defs)
  with session_binding_preserved[OF demo_jwt demo_create k, THEN conjunct2, THEN conjunct1, rule_format]
  show ?thesis by simp
qed

end
