(* ===== verification/Accounts.thy ===== *)
theory Accounts
  imports Sessions
begin

text \<open>
  Accounts and what they may do, \<^verbatim>\<open>internal/platform/auth\<close>: the authentication service (\<^verbatim>\<open>service.go\<close>), account
  locking and session revocation (\<^verbatim>\<open>admin.go\<close>), service accounts (\<^verbatim>\<open>service_account.go\<close>), role storage (\<^verbatim>\<open>rbac.go\<close>),
  erasure and export (\<^verbatim>\<open>gdpr.go\<close>) and the audit call (\<^verbatim>\<open>audit_log.go\<close>).

  None of these tables is a tenant-scoped model: the code filters by tenant itself. Kayan's
  registration, federated login, API-key check, permission decision and audit logger are
  parameters, as are bcrypt, UUIDs and the database.
\<close>

section \<open>Tables\<close>

record Account =
  ac_ID :: string
  ac_TenantID :: string
  ac_Email :: string
  ac_PasswordHash :: string
  ac_Traits :: string
  ac_Active :: bool
  ac_TokenVersion :: int

record ServiceAccount =
  sa_ID :: string
  sa_TenantID :: string
  sa_Name :: string
  sa_APIKeyHash :: string
  sa_Active :: bool
  sa_CreatedAt :: int
  sa_UpdatedAt :: int

text \<open>The identifier of a new assignment is the database's; 0 asks for one.\<close>

record RoleAssignment =
  ra_ID :: nat
  ra_TenantID :: string
  ra_IdentityID :: string
  ra_Role :: string
  ra_CreatedAt :: int

record RoleDefinition =
  rd_Name :: string
  rd_TenantID :: string
  rd_Permissions :: "string list"
  rd_Inherits :: "string list"
  rd_Description :: string

record oidcIdentity =
  oi_ID :: string
  oi_Provider :: string
  oi_Sub :: string
  oi_AccountID :: string
  oi_CreatedAt :: int

record samlIdentity =
  si_ID :: string
  si_IdPID :: string
  si_NameID :: string
  si_AccountID :: string
  si_CreatedAt :: int

text \<open>Kayan's \<open>rbac.Role\<close>.\<close>

record rbac_role =
  ro_Name :: string
  ro_Permissions :: "string list"
  ro_Inherits :: "string list"
  ro_Description :: string

text \<open>The event types of Kayan's audit package that the code uses, and the ones it names itself.\<close>

datatype audit_type = EventLoginSuccess | EventLoginFailure | EventLoginBlocked | EventUserCreated | EventUserSuspended
  | EventUserActivated | EventUserDeleted | EventSessionRevoked | EventRoleAssigned | EventRoleRevoked
  | EventDataExported | OtherEvent string

record audit_event =
  av_Type :: audit_type
  av_TenantID :: string
  av_ActorID :: string
  av_SubjectID :: string
  av_Success :: bool
  av_Message :: string

definition ErrInvalidIdentityType :: gerr where "ErrInvalidIdentityType = ErrNew ''auth: unexpected identity type''"
definition ErrOIDCNotConfigured :: gerr where "ErrOIDCNotConfigured = ErrNew ''auth: OIDC is not configured''"
definition ErrNoTenant :: gerr where "ErrNoTenant = ErrNew ''auth: tenant is required''"
definition ErrAccountExists :: gerr where "ErrAccountExists = ErrNew ''auth: account already exists in this tenant''"
definition ErrInvalidCredentials :: gerr where "ErrInvalidCredentials = ErrNew ''auth: invalid credentials''"
definition ErrAccountLocked :: gerr where "ErrAccountLocked = ErrNew ''auth: account is locked''"
definition auth_ErrNotFound :: gerr where "auth_ErrNotFound = ErrNew ''auth: not found''"
definition ErrPermissionDenied :: gerr where "ErrPermissionDenied = ErrNew ''auth: permission denied''"

definition dummyHash :: string where
  "dummyHash = ''$2a$12$N9qo8uLOickgx2ZMRZoMyeIjZAgcfl7p92ldGxad68LJZdL17lhWy''"

text \<open>
  The service and its surroundings. \<open>au_submit\<close> is \<open>RegistrationManager.Submit\<close> for the password
  strategy, \<open>au_oidc\<close> the \<open>Authenticate\<close> of each configured provider, \<open>au_api_login\<close> Kayan's API-key
  login, which calls the repository's lookup it is given; where Kayan returns an identity, \<open>None\<close> is
  one of another type. \<open>au_authorize\<close> is \<open>rbac.Manager\<close> over the repository's two reads.
\<close>

record 'd auth_service =
  au_jwt :: jwt
  au_strategy :: strategy
  au_accounts :: "(Account, 'd) dbtable"
  au_services :: "(ServiceAccount, 'd) dbtable"
  au_assignments :: "(RoleAssignment, 'd) dbtable"
  au_roles :: "(RoleDefinition, 'd) dbtable"
  au_oidc_links :: "(oidcIdentity, 'd) dbtable"
  au_saml_links :: "(samlIdentity, 'd) dbtable"
  au_revoked :: "(RevokedSession, 'd) dbtable"
  au_transaction :: "('d \<Rightarrow> gerr option \<times> 'd) \<Rightarrow> 'd \<Rightarrow> gerr option \<times> 'd"
  au_log :: "go_ctx \<Rightarrow> audit_event \<Rightarrow> 'd \<Rightarrow> gerr option \<times> 'd"
  au_compare :: "string \<Rightarrow> string \<Rightarrow> bool"
  au_uuid :: "'d \<Rightarrow> string \<times> 'd"
  au_submit :: "string \<Rightarrow> string \<Rightarrow> 'd \<Rightarrow> (gerr + Account option) \<times> 'd"
  au_oidc :: "(string \<Rightarrow> string \<Rightarrow> 'd \<Rightarrow> (gerr + Account option) \<times> 'd) gomap"
  au_generate_key :: "'d \<Rightarrow> (gerr + string \<times> string) \<times> 'd"
  au_api_login :: "(string \<Rightarrow> 'd \<Rightarrow> (gerr + ServiceAccount) \<times> 'd) \<Rightarrow> string \<Rightarrow> 'd \<Rightarrow> (gerr + ServiceAccount option) \<times> 'd"
  au_ErrRoleNotFound :: gerr
  au_authorize :: "(string \<Rightarrow> 'd \<Rightarrow> (gerr + string list) \<times> 'd) \<Rightarrow> (string \<Rightarrow> 'd \<Rightarrow> (gerr + rbac_role) \<times> 'd)
     \<Rightarrow> string \<Rightarrow> string \<Rightarrow> 'd \<Rightarrow> (gerr + bool) \<times> 'd"

record LoginResult =
  lr_AccessToken :: string
  lr_RefreshToken :: string
  lr_Subject :: string
  lr_TenantID :: string

section \<open>The audit call (audit\_log.go)\<close>

text \<open>A failure to write the event is logged and otherwise ignored.\<close>

definition logAudit ::
  "'d auth_service \<Rightarrow> go_ctx \<Rightarrow> audit_type \<Rightarrow> string \<Rightarrow> string \<Rightarrow> string \<Rightarrow> bool \<Rightarrow> string \<Rightarrow> 'd \<Rightarrow> 'd" where
  "logAudit A ctx eventType tenantID actorID subjectID success message d =
     snd (au_log A ctx \<lparr>av_Type = eventType, av_TenantID = tenantID, av_ActorID = actorID, av_SubjectID = subjectID,
       av_Success = success, av_Message = message\<rparr> d)"

section \<open>Roles (rbac.go)\<close>

definition ctx_subject :: "go_ctx \<Rightarrow> string" where
  "ctx_subject ctx = caller_subject (fst (CallerFrom ctx))"

definition ListIdentityRoles :: "'d auth_service \<Rightarrow> go_ctx \<Rightarrow> string \<Rightarrow> 'd \<Rightarrow> (gerr + string list) \<times> 'd" where
  "ListIdentityRoles A ctx identityID d =
     (let tenantID = ctx_tenant ctx in
      if tenantID = [] then (Inl ErrNoTenant, d)
      else case db_find (au_assignments A) (\<lambda>r. ra_TenantID r = tenantID \<and> ra_IdentityID r = identityID) d of
        (Inl err, d') \<Rightarrow> (Inl (prefixf [''auth: list roles for '', identityID] err), d')
      | (Inr assignments, d') \<Rightarrow> (Inr (map ra_Role assignments), d'))"

definition GetIdentityRoles :: "'d auth_service \<Rightarrow> go_ctx \<Rightarrow> string \<Rightarrow> 'd \<Rightarrow> (gerr + string list) \<times> 'd" where
  "GetIdentityRoles A ctx identityID d =
     (let tenantID = ctx_tenant ctx in
      if tenantID = [] then (Inl ErrNoTenant, d)
      else case db_find (au_assignments A) (\<lambda>r. ra_TenantID r = tenantID \<and> ra_IdentityID r = identityID) d of
        (Inl err, d') \<Rightarrow> (Inl (prefixf [''auth: get identity roles''] err), d')
      | (Inr assignments, d') \<Rightarrow> (Inr (map ra_Role assignments), d'))"

fun create_assignments :: "'d auth_service \<Rightarrow> string \<Rightarrow> string \<Rightarrow> int \<Rightarrow> string list \<Rightarrow> 'd \<Rightarrow> gerr option \<times> 'd" where
  "create_assignments A tenantID i now [] d = (None, d)"
| "create_assignments A tenantID i now (role # roles) d =
     (case db_create (au_assignments A)
             \<lparr>ra_ID = 0, ra_TenantID = tenantID, ra_IdentityID = i, ra_Role = role, ra_CreatedAt = now\<rparr> d of
        (Some err, d') \<Rightarrow> (Some (prefixf [''auth: assign role '', go_quote role] err), d')
      | (None, d') \<Rightarrow> create_assignments A tenantID i now roles d')"

definition SetIdentityRoles :: "'d auth_service \<Rightarrow> go_ctx \<Rightarrow> int \<Rightarrow> string \<Rightarrow> string list \<Rightarrow> 'd \<Rightarrow> gerr option \<times> 'd" where
  "SetIdentityRoles A ctx now i roles d =
     (let tenantID = ctx_tenant ctx in
      if tenantID = [] then (Some ErrNoTenant, d)
      else au_transaction A (\<lambda>d.
        case db_delete (au_assignments A) (\<lambda>r. ra_TenantID r = tenantID \<and> ra_IdentityID r = i) d of
          (Inl err, d1) \<Rightarrow> (Some (prefixf [''auth: delete old roles''] err), d1)
        | (Inr _, d1) \<Rightarrow> create_assignments A tenantID i now roles d1) d)"

definition role_of :: "RoleDefinition \<Rightarrow> rbac_role" where
  "role_of m = \<lparr>ro_Name = rd_Name m, ro_Permissions = rd_Permissions m, ro_Inherits = rd_Inherits m,
     ro_Description = rd_Description m\<rparr>"

definition definition_of :: "string \<Rightarrow> rbac_role \<Rightarrow> RoleDefinition" where
  "definition_of tenantID role = \<lparr>rd_Name = ro_Name role, rd_TenantID = tenantID, rd_Permissions = ro_Permissions role,
     rd_Inherits = ro_Inherits role, rd_Description = ro_Description role\<rparr>"

definition GetRole :: "'d auth_service \<Rightarrow> go_ctx \<Rightarrow> string \<Rightarrow> 'd \<Rightarrow> (gerr + rbac_role) \<times> 'd" where
  "GetRole A ctx name d =
     (let tenantID = ctx_tenant ctx in
      if tenantID = [] then (Inl ErrNoTenant, d)
      else case db_first (au_roles A) (\<lambda>r. rd_TenantID r = tenantID \<and> rd_Name r = name) d of
        (Inl err, d') \<Rightarrow>
          (Inl (if errors_is err gorm_ErrRecordNotFound then wrapf (au_ErrRoleNotFound A) [go_quote name]
                else prefixf [''auth: get role '', go_quote name] err), d')
      | (Inr model, d') \<Rightarrow> (Inr (role_of model), d'))"

text \<open>\<open>Save\<close> updates every column of the row with the model's key, or inserts it.\<close>

definition SaveRole :: "'d auth_service \<Rightarrow> go_ctx \<Rightarrow> rbac_role option \<Rightarrow> 'd \<Rightarrow> gerr option \<times> 'd" where
  "SaveRole A ctx role d =
     (let tenantID = ctx_tenant ctx in
      if tenantID = [] then (Some ErrNoTenant, d)
      else case role of
        None \<Rightarrow> (Some (ErrNew ''auth: role must have a name''), d)
      | Some role \<Rightarrow>
          if ro_Name role = [] then (Some (ErrNew ''auth: role must have a name''), d)
          else (case db_first_or_create (au_roles A) (\<lambda>r. rd_TenantID r = tenantID \<and> rd_Name r = ro_Name role)
                       (definition_of tenantID role) (\<lambda>_. definition_of tenantID role) d of
                  (Some err, d') \<Rightarrow> (Some (prefixf [''auth: save role '', go_quote (ro_Name role)] err), d')
                | (None, d') \<Rightarrow> (None, d')))"

definition DeleteRole :: "'d auth_service \<Rightarrow> go_ctx \<Rightarrow> string \<Rightarrow> 'd \<Rightarrow> gerr option \<times> 'd" where
  "DeleteRole A ctx name d =
     (let tenantID = ctx_tenant ctx in
      if tenantID = [] then (Some ErrNoTenant, d)
      else case db_delete (au_roles A) (\<lambda>r. rd_TenantID r = tenantID \<and> rd_Name r = name) d of
        (Inl err, d') \<Rightarrow> (Some err, d')
      | (Inr _, d') \<Rightarrow> (None, d'))"

definition ListRoles :: "'d auth_service \<Rightarrow> go_ctx \<Rightarrow> 'd \<Rightarrow> (gerr + rbac_role list) \<times> 'd" where
  "ListRoles A ctx d =
     (let tenantID = ctx_tenant ctx in
      if tenantID = [] then (Inl ErrNoTenant, d)
      else case db_find (au_roles A) (\<lambda>r. rd_TenantID r = tenantID) d of
        (Inl err, d') \<Rightarrow> (Inl (prefixf [''auth: list roles''] err), d')
      | (Inr models, d') \<Rightarrow> (Inr (map role_of models), d'))"

definition DefaultRoleCatalog :: "rbac_role list" where
  "DefaultRoleCatalog =
     [\<lparr>ro_Name = ''owner'', ro_Permissions = [''**''], ro_Inherits = [],
       ro_Description = ''Full access to every kernel-managed resource in this tenant.''\<rparr>,
      \<lparr>ro_Name = ''admin'', ro_Permissions = [''webhooks:*'', ''service_accounts:*'', ''roles:*''], ro_Inherits = [],
       ro_Description = ''Manages webhooks, service accounts, and role assignments.''\<rparr>,
      \<lparr>ro_Name = ''member'', ro_Permissions = [''webhooks:read'', ''service_accounts:read''], ro_Inherits = [],
       ro_Description = ''Ordinary authenticated member: read access to kernel-managed resources.''\<rparr>,
      \<lparr>ro_Name = ''viewer'', ro_Permissions = [], ro_Inherits = [],
       ro_Description = ''Authenticated, no kernel-management permissions.''\<rparr>]"

fun seed_roles :: "'d auth_service \<Rightarrow> string \<Rightarrow> rbac_role list \<Rightarrow> 'd \<Rightarrow> gerr option \<times> 'd" where
  "seed_roles A tenantID [] d = (None, d)"
| "seed_roles A tenantID (role # roles) d =
     (case db_first (au_roles A) (\<lambda>r. rd_TenantID r = tenantID \<and> rd_Name r = ro_Name role) d of
        (Inr _, d1) \<Rightarrow> seed_roles A tenantID roles d1
      | (Inl err, d1) \<Rightarrow>
          if \<not> errors_is err gorm_ErrRecordNotFound then (Some (prefixf [''auth: seed default roles''] err), d1)
          else (case db_create (au_roles A) (definition_of tenantID role) d1 of
                  (Some err, d2) \<Rightarrow> (Some (prefixf [''auth: seed role '', go_quote (ro_Name role)] err), d2)
                | (None, d2) \<Rightarrow> seed_roles A tenantID roles d2))"

definition SeedDefaultRoles :: "'d auth_service \<Rightarrow> string \<Rightarrow> 'd \<Rightarrow> gerr option \<times> 'd" where
  "SeedDefaultRoles A tenantID d =
     (if tenantID = [] then (Some ErrNoTenant, d) else seed_roles A tenantID DefaultRoleCatalog d)"

definition AssignRole :: "'d auth_service \<Rightarrow> go_ctx \<Rightarrow> int \<Rightarrow> string \<Rightarrow> string \<Rightarrow> 'd \<Rightarrow> gerr option \<times> 'd" where
  "AssignRole A ctx now identityID role d =
     (let tenantID = ctx_tenant ctx in
      if tenantID = [] then (Some ErrNoTenant, d)
      else case db_first (au_assignments A)
                  (\<lambda>r. ra_TenantID r = tenantID \<and> ra_IdentityID r = identityID \<and> ra_Role r = role) d of
        (Inr _, d1) \<Rightarrow> (None, d1)
      | (Inl err, d1) \<Rightarrow>
          if \<not> errors_is err gorm_ErrRecordNotFound
          then (Some (prefixf [''auth: assign role '', go_quote role, '' to '', identityID] err), d1)
          else (case db_create (au_assignments A)
                       \<lparr>ra_ID = 0, ra_TenantID = tenantID, ra_IdentityID = identityID, ra_Role = role, ra_CreatedAt = now\<rparr> d1 of
                  (Some err, d2) \<Rightarrow> (Some (prefixf [''auth: assign role '', go_quote role, '' to '', identityID] err), d2)
                | (None, d2) \<Rightarrow>
                    (None, logAudit A ctx EventRoleAssigned tenantID (ctx_subject ctx) identityID True
                             (''role '' @ go_quote role @ '' assigned'') d2)))"

definition RevokeRole :: "'d auth_service \<Rightarrow> go_ctx \<Rightarrow> string \<Rightarrow> string \<Rightarrow> 'd \<Rightarrow> gerr option \<times> 'd" where
  "RevokeRole A ctx identityID role d =
     (let tenantID = ctx_tenant ctx in
      if tenantID = [] then (Some ErrNoTenant, d)
      else case db_delete (au_assignments A)
                  (\<lambda>r. ra_TenantID r = tenantID \<and> ra_IdentityID r = identityID \<and> ra_Role r = role) d of
        (Inl err, d') \<Rightarrow> (Some (prefixf [''auth: revoke role '', go_quote role, '' from '', identityID] err), d')
      | (Inr _, d') \<Rightarrow>
          (None, logAudit A ctx EventRoleRevoked tenantID (ctx_subject ctx) identityID True
                   (''role '' @ go_quote role @ '' revoked'') d'))"

definition HasPermission :: "'d auth_service \<Rightarrow> go_ctx \<Rightarrow> string \<Rightarrow> string \<Rightarrow> 'd \<Rightarrow> (gerr + bool) \<times> 'd" where
  "HasPermission A ctx identityID permission d =
     au_authorize A (GetIdentityRoles A ctx) (GetRole A ctx) identityID permission d"

definition RequirePermission :: "'d auth_service \<Rightarrow> go_ctx \<Rightarrow> string \<Rightarrow> string \<Rightarrow> 'd \<Rightarrow> gerr option \<times> 'd" where
  "RequirePermission A ctx identityID permission d =
     (case HasPermission A ctx identityID permission d of
        (Inl err, d') \<Rightarrow> (Some err, d')
      | (Inr ok, d') \<Rightarrow>
          (if ok then None else Some (wrapf ErrPermissionDenied [identityID, '' needs '', go_quote permission]), d'))"

section \<open>Accounts (service.go)\<close>

text \<open>\<open>clk\<close> holds the clock readings of a call, as in \<open>Sessions\<close>; \<open>now\<close> is the one for a new session.\<close>

definition issue_login :: "'d auth_service \<Rightarrow> int \<Rightarrow> string \<Rightarrow> string \<Rightarrow> int \<Rightarrow> 'd \<Rightarrow> (gerr + LoginResult) \<times> 'd" where
  "issue_login A now subject tenantID ver d =
     (case au_uuid A d of (i, d1) \<Rightarrow>
        (case CreateForTenant (au_jwt A) (au_strategy A) now i subject tenantID ver of
           Inl err \<Rightarrow> (Inl err, d1)
         | Inr s \<Rightarrow> (Inr \<lparr>lr_AccessToken = se_ID s, lr_RefreshToken = se_RefreshToken s, lr_Subject = subject,
                          lr_TenantID = tenantID\<rparr>, d1)))"

definition HandleOAuthCallback ::
  "'d auth_service \<Rightarrow> go_ctx \<Rightarrow> int \<Rightarrow> string \<Rightarrow> string \<Rightarrow> string \<Rightarrow> string \<Rightarrow> 'd \<Rightarrow> (gerr + LoginResult) \<times> 'd" where
  "HandleOAuthCallback A ctx now tenantID providerID state code d =
     (case mget (au_oidc A) providerID of
        None \<Rightarrow> (Inl ErrOIDCNotConfigured, d)
      | Some authenticate \<Rightarrow>
          if tenantID = [] then (Inl ErrNoTenant, d)
          else (case authenticate state code d of
            (Inl err, d1) \<Rightarrow> (Inl (prefixf [''auth: OIDC callback''] err), d1)
          | (Inr None, d1) \<Rightarrow> (Inl ErrInvalidIdentityType, d1)
          | (Inr (Some account), d1) \<Rightarrow>
              (case (if ac_TenantID account = tenantID then (None, account, d1)
                     else if ac_TenantID account = [] then
                       (case db_update (au_accounts A) (\<lambda>r. ac_ID r = ac_ID account) (\<lambda>r. r\<lparr>ac_TenantID := tenantID\<rparr>) d1 of
                          (Inl err, d2) \<Rightarrow> (Some (prefixf [''auth: assign tenant''] err), account, d2)
                        | (Inr _, d2) \<Rightarrow> (None, account\<lparr>ac_TenantID := tenantID\<rparr>, d2))
                     else (Some ErrInvalidCredentials, account, d1)) of
                 (Some err, account, d2) \<Rightarrow> (Inl err, d2)
               | (None, account, d2) \<Rightarrow>
                   if \<not> ac_Active account
                   then (Inl ErrAccountLocked, logAudit A ctx EventLoginBlocked tenantID (ac_ID account) (ac_ID account)
                           False ''account is locked'' d2)
                   else issue_login A now (ac_ID account) (ac_TenantID account) (ac_TokenVersion account) d2)))"

definition email_traits :: "string \<Rightarrow> string" where
  "email_traits email = CHR ''{'' # CHR 0x22 # ''Email'' @ CHR 0x22 # CHR '':'' # go_quote email @ ''}''"

text \<open>The part of \<open>Register\<close> after the account exists in its tenant: roles and the audit record, all best effort.\<close>

definition register_finish :: "'d auth_service \<Rightarrow> go_ctx \<Rightarrow> int \<Rightarrow> string \<Rightarrow> string \<Rightarrow> bool \<Rightarrow> 'd \<Rightarrow> 'd" where
  "register_finish A ctx now tenantID accountID is_first d =
     (let scoped = WithTenantID ctx tenantID;
          role = (if is_first then ''owner'' else ''member'');
          d1 = (if is_first then snd (SeedDefaultRoles A tenantID d) else d);
          d2 = snd (AssignRole A scoped now accountID role d1)
      in logAudit A scoped EventUserCreated tenantID accountID accountID True
           (''account registered, assigned role '' @ go_quote role) d2)"

definition Register :: "'d auth_service \<Rightarrow> go_ctx \<Rightarrow> int \<Rightarrow> string \<Rightarrow> string \<Rightarrow> string \<Rightarrow> 'd \<Rightarrow> gerr option \<times> 'd" where
  "Register A ctx now tenantID email password d =
     (if tenantID = [] then (Some ErrNoTenant, d)
      else case db_count (au_accounts A) (\<lambda>r. ac_TenantID r = tenantID \<and> ac_Email r = email) d of
        (Inl err, d1) \<Rightarrow> (Some (prefixf [''auth: check existing account''] err), d1)
      | (Inr existing, d1) \<Rightarrow>
          if existing > 0 then (Some ErrAccountExists, d1)
          else (case db_count (au_accounts A) (\<lambda>r. ac_TenantID r = tenantID) d1 of
            (Inl err, d2) \<Rightarrow> (Some (prefixf [''auth: count tenant accounts''] err), d2)
          | (Inr accountsInTenant, d2) \<Rightarrow>
              (case au_submit A (email_traits email) password d2 of
                 (Inl err, d3) \<Rightarrow> (Some err, d3)
               | (Inr None, d3) \<Rightarrow> (Some ErrInvalidIdentityType, d3)
               | (Inr (Some account), d3) \<Rightarrow>
                   (case db_update (au_accounts A) (\<lambda>r. ac_ID r = ac_ID account) (\<lambda>r. r\<lparr>ac_TenantID := tenantID\<rparr>) d3 of
                      (Inl err, d4) \<Rightarrow>
                        (case db_delete (au_accounts A) (\<lambda>r. ac_ID r = ac_ID account) d4 of
                           (Inl delErr, d5) \<Rightarrow>
                             (Some (ErrWrap (''auth: assign tenant: '' @ err_text err @ '' (and rollback failed: '' @
                                err_text delErr @ '')'') [err]), d5)
                         | (Inr _, d5) \<Rightarrow> (Some (prefixf [''auth: assign tenant''] err), d5))
                    | (Inr _, d4) \<Rightarrow>
                        (None, register_finish A ctx now tenantID (ac_ID account) (accountsInTenant = 0) d4)))))"

definition Login :: "'d auth_service \<Rightarrow> go_ctx \<Rightarrow> int \<Rightarrow> string \<Rightarrow> string \<Rightarrow> string \<Rightarrow> 'd \<Rightarrow> (gerr + LoginResult) \<times> 'd" where
  "Login A ctx now tenantID email password d =
     (if tenantID = [] then (Inl ErrNoTenant, d)
      else case db_first (au_accounts A) (\<lambda>r. ac_TenantID r = tenantID \<and> ac_Email r = email) d of
        (Inl err, d1) \<Rightarrow>
          if errors_is err gorm_ErrRecordNotFound
          then (Inl ErrInvalidCredentials, logAudit A ctx EventLoginFailure tenantID [] [] False ''no such account'' d1)
          else (Inl (prefixf [''auth: look up account''] err), d1)
      | (Inr account, d1) \<Rightarrow>
          if \<not> au_compare A password (ac_PasswordHash account)
          then (Inl ErrInvalidCredentials,
                logAudit A ctx EventLoginFailure tenantID (ac_ID account) (ac_ID account) False ''wrong password'' d1)
          else if \<not> ac_Active account
          then (Inl ErrAccountLocked,
                logAudit A ctx EventLoginBlocked tenantID (ac_ID account) (ac_ID account) False ''account is locked'' d1)
          else (case issue_login A now (ac_ID account) (ac_TenantID account) (ac_TokenVersion account) d1 of
                  (Inl err, d2) \<Rightarrow> (Inl err, d2)
                | (Inr res, d2) \<Rightarrow>
                    (Inr res, logAudit A ctx EventLoginSuccess tenantID (ac_ID account) (ac_ID account) True
                                ''password login'' d2)))"

definition ValidateForCaller ::
  "'d auth_service \<Rightarrow> clock \<Rightarrow> string \<Rightarrow> rev_cache \<Rightarrow> 'd \<Rightarrow> (gerr + string \<times> string) \<times> rev_cache \<times> 'd" where
  "ValidateForCaller A clk token cache d =
     (case ValidateClaims (au_jwt A) (au_strategy A) (au_revoked A) clk token cache d of
        (Inl err, st) \<Rightarrow> (Inl err, st)
      | (Inr claims, c1, d1) \<Rightarrow>
          (case db_first (au_accounts A) (\<lambda>r. ac_ID r = cl_Subject claims) d1 of
             (Inl err, d2) \<Rightarrow>
               if errors_is err gorm_ErrRecordNotFound then (Inr (cl_Subject claims, cl_TenantID claims), c1, d2)
               else (Inl (prefixf [''auth: look up account for validation''] err), c1, d2)
           | (Inr account, d2) \<Rightarrow>
               if \<not> ac_Active account then (Inl ErrAccountLocked, c1, d2)
               else if ac_TokenVersion account \<noteq> cl_TokenVersion claims then (Inl ErrSessionRevoked, c1, d2)
               else (Inr (cl_Subject claims, cl_TenantID claims), c1, d2)))"

section \<open>Administration (admin.go)\<close>

definition tenantOfAccount :: "'d auth_service \<Rightarrow> go_ctx \<Rightarrow> string \<Rightarrow> 'd \<Rightarrow> (gerr + string) \<times> 'd" where
  "tenantOfAccount A ctx accountID d =
     (let tenantID = ctx_tenant ctx in
      if tenantID = [] then (Inl ErrNoTenant, d)
      else case db_first (au_accounts A) (\<lambda>r. ac_ID r = accountID \<and> ac_TenantID r = tenantID) d of
        (Inl err, d') \<Rightarrow>
          (Inl (if errors_is err gorm_ErrRecordNotFound then prefixf [''auth: account '', accountID] auth_ErrNotFound
                else prefixf [''auth: look up account '', accountID] err), d')
      | (Inr _, d') \<Rightarrow> (Inr tenantID, d'))"

definition setAccountLock ::
  "'d auth_service \<Rightarrow> go_ctx \<Rightarrow> string \<Rightarrow> bool \<Rightarrow> string \<Rightarrow> audit_type \<Rightarrow> 'd \<Rightarrow> gerr option \<times> 'd" where
  "setAccountLock A ctx accountID active message eventType d =
     (case tenantOfAccount A ctx accountID d of
        (Inl err, d1) \<Rightarrow> (Some err, d1)
      | (Inr tenantID, d1) \<Rightarrow>
          (case db_update (au_accounts A) (\<lambda>r. ac_ID r = accountID \<and> ac_TenantID r = tenantID)
                  (\<lambda>r. r\<lparr>ac_Active := active,
                          ac_TokenVersion := (if active then ac_TokenVersion r else ac_TokenVersion r + 1)\<rparr>) d1 of
             (Inl err, d2) \<Rightarrow>
               (Some (prefixf [''auth: set account '', accountID, '' active='', if active then ''true'' else ''false''] err), d2)
           | (Inr affected, d2) \<Rightarrow>
               if affected = 0 then (Some (prefixf [''auth: account '', accountID] auth_ErrNotFound), d2)
               else (None, logAudit A ctx eventType tenantID (ctx_subject ctx) accountID True message d2)))"

definition LockAccount :: "'d auth_service \<Rightarrow> go_ctx \<Rightarrow> string \<Rightarrow> 'd \<Rightarrow> gerr option \<times> 'd" where
  "LockAccount A ctx accountID d = setAccountLock A ctx accountID False ''account.locked'' EventUserSuspended d"

definition UnlockAccount :: "'d auth_service \<Rightarrow> go_ctx \<Rightarrow> string \<Rightarrow> 'd \<Rightarrow> gerr option \<times> 'd" where
  "UnlockAccount A ctx accountID d = setAccountLock A ctx accountID True ''account.unlocked'' EventUserActivated d"

definition RevokeAllSessions :: "'d auth_service \<Rightarrow> go_ctx \<Rightarrow> string \<Rightarrow> 'd \<Rightarrow> gerr option \<times> 'd" where
  "RevokeAllSessions A ctx accountID d =
     (case tenantOfAccount A ctx accountID d of
        (Inl err, d1) \<Rightarrow> (Some err, d1)
      | (Inr tenantID, d1) \<Rightarrow>
          (case db_update (au_accounts A) (\<lambda>r. ac_ID r = accountID \<and> ac_TenantID r = tenantID)
                  (\<lambda>r. r\<lparr>ac_TokenVersion := ac_TokenVersion r + 1\<rparr>) d1 of
             (Inl err, d2) \<Rightarrow> (Some (prefixf [''auth: revoke sessions for '', accountID] err), d2)
           | (Inr affected, d2) \<Rightarrow>
               if affected = 0 then (Some (prefixf [''auth: account '', accountID] auth_ErrNotFound), d2)
               else (None, logAudit A ctx EventSessionRevoked tenantID (ctx_subject ctx) accountID True
                             ''all sessions revoked'' d2)))"

section \<open>Erasure and export (gdpr.go)\<close>

definition erase_account :: "string \<Rightarrow> Account \<Rightarrow> Account" where
  "erase_account tombstone r =
     r\<lparr>ac_Email := tombstone, ac_PasswordHash := dummyHash, ac_Traits := ''{}'', ac_Active := False,
       ac_TokenVersion := ac_TokenVersion r + 1\<rparr>"

definition delete_tx :: "'d auth_service \<Rightarrow> string \<Rightarrow> string \<Rightarrow> 'd \<Rightarrow> gerr option \<times> 'd" where
  "delete_tx A accountID tenantID d =
     (case au_uuid A d of (i, d0) \<Rightarrow>
      (case db_update (au_accounts A) (\<lambda>r. ac_ID r = accountID \<and> ac_TenantID r = tenantID)
              (erase_account (''deleted-'' @ i @ ''@deleted.invalid'')) d0 of
         (Inl err, d1) \<Rightarrow> (Some (prefixf [''anonymize account''] err), d1)
       | (Inr affected, d1) \<Rightarrow>
           if affected = 0 then (Some auth_ErrNotFound, d1)
           else (case db_delete (au_assignments A) (\<lambda>r. ra_TenantID r = tenantID \<and> ra_IdentityID r = accountID) d1 of
             (Inl err, d2) \<Rightarrow> (Some (prefixf [''clear role assignments''] err), d2)
           | (Inr _, d2) \<Rightarrow>
               (case db_delete (au_oidc_links A) (\<lambda>r. oi_AccountID r = accountID) d2 of
                  (Inl err, d3) \<Rightarrow> (Some (prefixf [''clear oidc identity links''] err), d3)
                | (Inr _, d3) \<Rightarrow>
                    (case db_delete (au_saml_links A) (\<lambda>r. si_AccountID r = accountID) d3 of
                       (Inl err, d4) \<Rightarrow> (Some (prefixf [''clear saml identity links''] err), d4)
                     | (Inr _, d4) \<Rightarrow> (None, d4))))))"

definition DeleteAccount :: "'d auth_service \<Rightarrow> go_ctx \<Rightarrow> string \<Rightarrow> 'd \<Rightarrow> gerr option \<times> 'd" where
  "DeleteAccount A ctx accountID d =
     (case tenantOfAccount A ctx accountID d of
        (Inl err, d1) \<Rightarrow> (Some err, d1)
      | (Inr tenantID, d1) \<Rightarrow>
          (case au_transaction A (delete_tx A accountID tenantID) d1 of
             (Some err, d2) \<Rightarrow>
               (Some (if errors_is err auth_ErrNotFound then prefixf [''auth: account '', accountID] auth_ErrNotFound
                      else prefixf [''auth: delete account '', accountID] err), d2)
           | (None, d2) \<Rightarrow>
               (None, logAudit A ctx EventUserDeleted tenantID (ctx_subject ctx) accountID True ''account data erased'' d2)))"

record AccountExport =
  ex_AccountID :: string
  ex_TenantID :: string
  ex_Email :: string
  ex_Active :: bool
  ex_Roles :: "string list"
  ex_ExportedAt :: int

definition ExportAccountData :: "'d auth_service \<Rightarrow> go_ctx \<Rightarrow> int \<Rightarrow> string \<Rightarrow> 'd \<Rightarrow> (gerr + AccountExport) \<times> 'd" where
  "ExportAccountData A ctx now accountID d =
     (case tenantOfAccount A ctx accountID d of
        (Inl err, d1) \<Rightarrow> (Inl err, d1)
      | (Inr tenantID, d1) \<Rightarrow>
          (case db_first (au_accounts A) (\<lambda>r. ac_ID r = accountID \<and> ac_TenantID r = tenantID) d1 of
             (Inl err, d2) \<Rightarrow> (Inl (prefixf [''auth: export account '', accountID] err), d2)
           | (Inr account, d2) \<Rightarrow>
               (case ListIdentityRoles A ctx accountID d2 of
                  (Inl err, d3) \<Rightarrow> (Inl (prefixf [''auth: export account '', accountID, '' roles''] err), d3)
                | (Inr roles, d3) \<Rightarrow>
                    (Inr \<lparr>ex_AccountID = ac_ID account, ex_TenantID = ac_TenantID account, ex_Email = ac_Email account,
                          ex_Active = ac_Active account, ex_Roles = roles, ex_ExportedAt = now\<rparr>,
                     logAudit A ctx EventDataExported tenantID (ctx_subject ctx) accountID True ''account data exported'' d3))))"

section \<open>Service accounts (service\_account.go)\<close>

definition FindIdentityByAPIKeyHash :: "'d auth_service \<Rightarrow> string \<Rightarrow> 'd \<Rightarrow> (gerr + ServiceAccount) \<times> 'd" where
  "FindIdentityByAPIKeyHash A keyHash d = db_first (au_services A) (\<lambda>r. sa_APIKeyHash r = keyHash \<and> sa_Active r) d"

definition CreateServiceAccount ::
  "'d auth_service \<Rightarrow> go_ctx \<Rightarrow> int \<Rightarrow> string \<Rightarrow> 'd \<Rightarrow> (gerr + ServiceAccount \<times> string) \<times> 'd" where
  "CreateServiceAccount A ctx now name d =
     (let tenantID = ctx_tenant ctx in
      if tenantID = [] then (Inl ErrNoTenant, d)
      else if name = [] then (Inl (ErrNew ''auth: service account name is required''), d)
      else case au_generate_key A d of
        (Inl err, d1) \<Rightarrow> (Inl (prefixf [''auth: generate api key''] err), d1)
      | (Inr (rawKey, keyHash), d1) \<Rightarrow>
          (case au_uuid A d1 of (i, d2) \<Rightarrow>
            (let account = \<lparr>sa_ID = i, sa_TenantID = tenantID, sa_Name = name, sa_APIKeyHash = keyHash, sa_Active = True,
                            sa_CreatedAt = now, sa_UpdatedAt = now\<rparr>
             in case db_create (au_services A) account d2 of
                  (Some err, d3) \<Rightarrow> (Inl (prefixf [''auth: create service account''] err), d3)
                | (None, d3) \<Rightarrow>
                    (Inr (account, rawKey),
                     logAudit A ctx (OtherEvent ''service_account.created'') tenantID (ctx_subject ctx) i True
                       (''service account '' @ go_quote name @ '' created'') d3))))"

definition ListServiceAccounts :: "'d auth_service \<Rightarrow> go_ctx \<Rightarrow> 'd \<Rightarrow> (gerr + ServiceAccount list) \<times> 'd" where
  "ListServiceAccounts A ctx d =
     (let tenantID = ctx_tenant ctx in
      if tenantID = [] then (Inl ErrNoTenant, d)
      else case db_find (au_services A) (\<lambda>r. sa_TenantID r = tenantID) d of
        (Inl err, d') \<Rightarrow> (Inl (prefixf [''auth: list service accounts''] err), d')
      | (Inr accounts, d') \<Rightarrow> (Inr accounts, d'))"

definition RevokeServiceAccount :: "'d auth_service \<Rightarrow> go_ctx \<Rightarrow> int \<Rightarrow> string \<Rightarrow> 'd \<Rightarrow> gerr option \<times> 'd" where
  "RevokeServiceAccount A ctx now i d =
     (let tenantID = ctx_tenant ctx in
      if tenantID = [] then (Some ErrNoTenant, d)
      else case db_update (au_services A) (\<lambda>r. sa_ID r = i \<and> sa_TenantID r = tenantID)
                  (\<lambda>r. r\<lparr>sa_Active := False, sa_UpdatedAt := now\<rparr>) d of
        (Inl err, d') \<Rightarrow> (Some (prefixf [''auth: revoke service account '', i] err), d')
      | (Inr affected, d') \<Rightarrow>
          if affected = 0 then (Some (prefixf [''auth: service account '', i] auth_ErrNotFound), d')
          else (None, logAudit A ctx (OtherEvent ''service_account.revoked'') tenantID (ctx_subject ctx) i True
                        ''service account revoked'' d'))"

definition LoginWithAPIKey :: "'d auth_service \<Rightarrow> go_ctx \<Rightarrow> int \<Rightarrow> string \<Rightarrow> 'd \<Rightarrow> (gerr + LoginResult) \<times> 'd" where
  "LoginWithAPIKey A ctx now rawKey d =
     (case au_api_login A (FindIdentityByAPIKeyHash A) rawKey d of
        (Inl err, d1) \<Rightarrow>
          (Inl (ErrWrap (err_text ErrInvalidCredentials) [ErrInvalidCredentials]),
           logAudit A ctx EventLoginFailure [] [] [] False ''service account: invalid or revoked key'' d1)
      | (Inr None, d1) \<Rightarrow> (Inl ErrInvalidIdentityType, d1)
      | (Inr (Some account), d1) \<Rightarrow>
          (case issue_login A now (sa_ID account) (sa_TenantID account) 0 d1 of
             (Inl err, d2) \<Rightarrow> (Inl err, d2)
           | (Inr res, d2) \<Rightarrow>
               (Inr res, logAudit A ctx EventLoginSuccess (sa_TenantID account) (sa_ID account) (sa_ID account) True
                           ''service account login'' d2)))"

section \<open>What is relied on\<close>

text \<open>A table none of whose operations changes what \<open>f\<close> reads of the database.\<close>

definition leaves :: "('d \<Rightarrow> 'x) \<Rightarrow> ('r, 'd) dbtable \<Rightarrow> bool" where
  "leaves f T \<longleftrightarrow>
     (\<forall>P d res d'. db_find T P d = (res, d') \<longrightarrow> f d' = f d) \<and>
     (\<forall>P d res d'. db_first T P d = (res, d') \<longrightarrow> f d' = f d) \<and>
     (\<forall>P d res d'. db_count T P d = (res, d') \<longrightarrow> f d' = f d) \<and>
     (\<forall>r d res d'. db_create T r d = (res, d') \<longrightarrow> f d' = f d) \<and>
     (\<forall>P r g d res d'. db_first_or_create T P r g d = (res, d') \<longrightarrow> f d' = f d) \<and>
     (\<forall>P g d res d'. db_update T P g d = (res, d') \<longrightarrow> f d' = f d) \<and>
     (\<forall>P d res d'. db_delete T P d = (res, d') \<longrightarrow> f d' = f d)"

lemma leavesD:
  assumes "leaves f T"
  shows "db_find T P d = (r1, d') \<Longrightarrow> f d' = f d" "db_first T P d = (r2, d') \<Longrightarrow> f d' = f d"
    "db_count T P d = (r3, d') \<Longrightarrow> f d' = f d" "db_create T r d = (r4, d') \<Longrightarrow> f d' = f d"
    "db_first_or_create T P r g d = (r5, d') \<Longrightarrow> f d' = f d" "db_update T P g d = (r6, d') \<Longrightarrow> f d' = f d"
    "db_delete T P d = (r7, d') \<Longrightarrow> f d' = f d"
  using assms unfolding leaves_def by metis+

text \<open>
  The database of the service: \<open>arows\<close> is the table of accounts. The other tables, the audit log and the
  generators leave it alone; a transaction commits what its body did or nothing; Kayan's
  registration and federated login keep the accounts there are, and a registered account has a new
  identifier.
\<close>

locale auth_db = acc: sql_table "au_accounts A" arows arest ac_ID
  for A :: "'d auth_service" and arows :: "'d \<Rightarrow> Account list" and arest :: "'d \<Rightarrow> 'e" +
  assumes other_tables: "leaves arows (au_services A)" "leaves arows (au_assignments A)" "leaves arows (au_roles A)"
      "leaves arows (au_oidc_links A)" "leaves arows (au_saml_links A)" "leaves arows (au_revoked A)"
    and log_keeps: "au_log A ctx ev d = (res, d') \<Longrightarrow> arows d' = arows d"
    and uuid_keeps: "au_uuid A d = (i, d') \<Longrightarrow> arows d' = arows d"
    and key_keeps: "au_generate_key A d = (res3, d') \<Longrightarrow> arows d' = arows d"
    and transaction: "au_transaction A body d = (res, d') \<Longrightarrow>
      res \<noteq> None \<and> arows d' = arows d \<or>
      res = None \<and> (\<exists>d0 d1. arows d0 = arows d \<and> body d0 = (None, d1) \<and> arows d' = arows d1)"
    and submit: "au_submit A traits password d = (res4, d') \<Longrightarrow> set (arows d) \<subseteq> set (arows d') \<and>
      (\<forall>a. res4 = Inr (Some a) \<longrightarrow> ac_ID a \<notin> ac_ID ` set (arows d))"
    and oidc: "mget (au_oidc A) p = Some authenticate \<Longrightarrow> authenticate state code d = (res4, d') \<Longrightarrow>
      set (arows d) \<subseteq> set (arows d')"
    and api_login: "(\<forall>h d res d'. look h d = (res, d') \<longrightarrow> arows d' = arows d) \<Longrightarrow>
      au_api_login A look raw d = (res5, d') \<Longrightarrow> arows d' = arows d"
begin

lemma first_keeps: "db_first (au_accounts A) P d = (res, d') \<Longrightarrow> arows d' = arows d"
  using acc.first_rows by blast

lemma count_keeps: "db_count (au_accounts A) P d = (res, d') \<Longrightarrow> arows d' = arows d"
  using acc.count_rows by blast

lemmas keeps = leavesD[OF other_tables(1)] leavesD[OF other_tables(2)] leavesD[OF other_tables(3)]
  leavesD[OF other_tables(4)] leavesD[OF other_tables(5)] leavesD[OF other_tables(6)]
  uuid_keeps key_keeps first_keeps count_keeps

lemma logAudit_keeps [simp]: "arows (logAudit A ctx ty t a s ok m d) = arows d"
  unfolding logAudit_def by (rule log_keeps[OF prod.collapse[symmetric]])

lemma issue_login_keeps: "issue_login A now s t v d = (res, d') \<Longrightarrow> arows d' = arows d"
  by (auto simp: issue_login_def split: prod.splits sum.splits dest: keeps)

lemma seed_roles_keeps: "seed_roles A t roles d = (res, d') \<Longrightarrow> arows d' = arows d"
  by (induction roles arbitrary: d) (auto split: prod.splits sum.splits option.splits if_splits dest!: keeps)

lemma AssignRole_keeps: "AssignRole A ctx now i role d = (res, d') \<Longrightarrow> arows d' = arows d"
  by (auto simp: AssignRole_def Let_def split: prod.splits sum.splits option.splits if_splits dest!: keeps)

lemma RevokeRole_keeps: "RevokeRole A ctx i role d = (res, d') \<Longrightarrow> arows d' = arows d"
  by (auto simp: RevokeRole_def Let_def split: prod.splits sum.splits if_splits dest!: keeps)

lemma create_assignments_keeps: "create_assignments A t i now roles d = (res, d') \<Longrightarrow> arows d' = arows d"
  by (induction roles arbitrary: d) (auto split: prod.splits option.splits dest!: keeps)

lemma SetIdentityRoles_keeps:
  assumes "SetIdentityRoles A ctx now i roles d = (res, d')"
  shows "arows d' = arows d"
proof (cases "ctx_tenant ctx = []")
  case True
  then show ?thesis using assms by (simp add: SetIdentityRoles_def)
next
  case False
  let ?body = "\<lambda>d. case db_delete (au_assignments A) (\<lambda>r. ra_TenantID r = ctx_tenant ctx \<and> ra_IdentityID r = i) d of
      (Inl err, d1) \<Rightarrow> (Some (prefixf [''auth: delete old roles''] err), d1)
    | (Inr _, d1) \<Rightarrow> create_assignments A (ctx_tenant ctx) i now roles d1"
  have t: "au_transaction A ?body d = (res, d')" using assms False by (simp add: SetIdentityRoles_def Let_def)
  have body: "arows d1 = arows d0" if "?body d0 = (r, d1)" for d0 r d1
    using that by (auto split: prod.splits sum.splits dest!: keeps create_assignments_keeps)
  from transaction[OF t] show ?thesis
  proof (elim disjE exE conjE)
    fix d0 d1 assume "arows d0 = arows d" "?body d0 = (None, d1)" "arows d' = arows d1"
    with body[of d0 None d1] show ?thesis by simp
  qed
qed

lemma tenantOfAccount_keeps: "tenantOfAccount A ctx i d = (res, d') \<Longrightarrow> arows d' = arows d"
  by (auto simp: tenantOfAccount_def Let_def split: prod.splits sum.splits if_splits dest!: keeps)

lemma Login_keeps: "Login A ctx now t e p d = (res, d') \<Longrightarrow> arows d' = arows d"
  by (auto simp: Login_def split: prod.splits sum.splits if_splits dest!: keeps issue_login_keeps)

end

section \<open>Token versions only grow\<close>

definition versions_grow :: "Account list \<Rightarrow> Account list \<Rightarrow> bool" where
  "versions_grow rs rs' \<longleftrightarrow>
     (\<forall>r\<in>set rs. \<exists>r'\<in>set rs'. ac_ID r' = ac_ID r \<and> ac_TokenVersion r \<le> ac_TokenVersion r')"

lemma versions_grow_refl [simp]: "versions_grow rs rs"
  by (auto simp: versions_grow_def)

lemma versions_grow_trans: "versions_grow a b \<Longrightarrow> versions_grow b c \<Longrightarrow> versions_grow a c"
  unfolding versions_grow_def by (metis order_trans)

lemma versions_grow_subset: "set a \<subseteq> set b \<Longrightarrow> versions_grow a b"
  by (auto simp: versions_grow_def)

lemma versions_grow_upd:
  assumes "\<And>r. ac_ID (f r) = ac_ID r \<and> ac_TokenVersion r \<le> ac_TokenVersion (f r)"
  shows "versions_grow rs (upd_where P f rs)"
  unfolding versions_grow_def
proof
  fix r assume "r \<in> set rs"
  then have "(if P r then f r else r) \<in> set (upd_where P f rs)" by (auto simp: upd_where_def)
  then show "\<exists>r'\<in>set (upd_where P f rs). ac_ID r' = ac_ID r \<and> ac_TokenVersion r \<le> ac_TokenVersion r'"
    by (rule rev_bexI) (use assms[of r] in simp)
qed

text \<open>Everything the service, its administration and its tokens can do to the database.\<close>

inductive auth_step :: "'d auth_service \<Rightarrow> 'd \<Rightarrow> 'd \<Rightarrow> bool" for A where
  login: "Login A ctx now t e p d = (r1, d') \<Longrightarrow> auth_step A d d'"
| oauth: "HandleOAuthCallback A ctx now t prov st code d = (r1, d') \<Longrightarrow> auth_step A d d'"
| api_key: "LoginWithAPIKey A ctx now raw d = (r1, d') \<Longrightarrow> auth_step A d d'"
| register: "Register A ctx now t e p d = (r2, d') \<Longrightarrow> auth_step A d d'"
| lock: "LockAccount A ctx i d = (r2, d') \<Longrightarrow> auth_step A d d'"
| unlock: "UnlockAccount A ctx i d = (r2, d') \<Longrightarrow> auth_step A d d'"
| revoke_all: "RevokeAllSessions A ctx i d = (r2, d') \<Longrightarrow> auth_step A d d'"
| erase: "DeleteAccount A ctx i d = (r2, d') \<Longrightarrow> auth_step A d d'"
| export: "ExportAccountData A ctx now i d = (r3, d') \<Longrightarrow> auth_step A d d'"
| create_service: "CreateServiceAccount A ctx now name d = (r4, d') \<Longrightarrow> auth_step A d d'"
| revoke_service: "RevokeServiceAccount A ctx now i d = (r2, d') \<Longrightarrow> auth_step A d d'"
| assign: "AssignRole A ctx now i role d = (r2, d') \<Longrightarrow> auth_step A d d'"
| unassign: "RevokeRole A ctx i role d = (r2, d') \<Longrightarrow> auth_step A d d'"
| set_roles: "SetIdentityRoles A ctx now i roles d = (r2, d') \<Longrightarrow> auth_step A d d'"
| save_role: "SaveRole A ctx ro d = (r2, d') \<Longrightarrow> auth_step A d d'"
| delete_role: "DeleteRole A ctx name d = (r2, d') \<Longrightarrow> auth_step A d d'"
| logout: "Session_Delete (au_jwt A) (au_strategy A) (au_revoked A) clk tok c d = (r2, c', d') \<Longrightarrow> auth_step A d d'"
| refresh: "Refresh (au_jwt A) (au_strategy A) (au_revoked A) clk tok c d = (r5, c', d') \<Longrightarrow> auth_step A d d'"
| validate: "ValidateForCaller A clk tok c d = (r6, c', d') \<Longrightarrow> auth_step A d d'"
| purge: "PurgeExpired (au_revoked A) cutoff c d = (r7, c', d') \<Longrightarrow> auth_step A d d'"

context auth_db
begin

lemma seed_keeps: "arows (snd (SeedDefaultRoles A t d)) = arows d"
  using seed_roles_keeps[OF prod.collapse[symmetric]] by (simp add: SeedDefaultRoles_def)

lemma register_finish_keeps [simp]: "arows (register_finish A ctx now t i f d) = arows d"
  using AssignRole_keeps[OF prod.collapse[symmetric]] seed_keeps by (simp add: register_finish_def Let_def)

lemma lookup_keeps: "FindIdentityByAPIKeyHash A h d = (res, d') \<Longrightarrow> arows d' = arows d"
  by (auto simp: FindIdentityByAPIKeyHash_def dest!: keeps)

lemma LoginWithAPIKey_keeps: "LoginWithAPIKey A ctx now raw d = (res, d') \<Longrightarrow> arows d' = arows d"
  using api_login[of "FindIdentityByAPIKeyHash A"] lookup_keeps
  by (auto simp: LoginWithAPIKey_def split: prod.splits sum.splits option.splits dest!: issue_login_keeps)

lemma refuse_revoked_keeps:
  "refuse_revoked s (au_revoked A) clk i c d = (res, c', d') \<Longrightarrow> arows d' = arows d"
  by (auto simp: refuse_revoked_def IsRevoked_def rev_lookup_def split: prod.splits sum.splits option.splits if_splits dest!: keeps)

lemma ValidateClaims_keeps:
  "ValidateClaims J s (au_revoked A) clk tok c d = (res, c', d') \<Longrightarrow> arows d' = arows d"
  by (auto simp: ValidateClaims_def split: prod.splits sum.splits option.splits if_splits dest!: refuse_revoked_keeps)

lemma session_keeps:
  "Session_Delete J s (au_revoked A) clk tok c d = (res, c', d') \<Longrightarrow> arows d' = arows d"
  "Refresh J s (au_revoked A) clk tok c d = (res', c', d') \<Longrightarrow> arows d' = arows d"
  "PurgeExpired (au_revoked A) cutoff c d = (res'', c', d') \<Longrightarrow> arows d' = arows d"
  "ValidateForCaller A clk tok c d = (res3, c', d') \<Longrightarrow> arows d' = arows d"
  by (auto simp: Session_Delete_def Revoke_def Refresh_def PurgeExpired_def ValidateForCaller_def Let_def
      split: prod.splits sum.splits option.splits if_splits dest!: keeps refuse_revoked_keeps ValidateClaims_keeps)

lemma other_keeps:
  "ExportAccountData A ctx now i d = (res, d') \<Longrightarrow> arows d' = arows d"
  "CreateServiceAccount A ctx now name d = (res1, d') \<Longrightarrow> arows d' = arows d"
  "RevokeServiceAccount A ctx now i d = (res2, d') \<Longrightarrow> arows d' = arows d"
  "SaveRole A ctx ro d = (res2, d') \<Longrightarrow> arows d' = arows d"
  "DeleteRole A ctx name d = (res2, d') \<Longrightarrow> arows d' = arows d"
  by (auto simp: ExportAccountData_def ListIdentityRoles_def CreateServiceAccount_def RevokeServiceAccount_def SaveRole_def
      DeleteRole_def Let_def split: prod.splits sum.splits option.splits if_splits dest!: keeps tenantOfAccount_keeps)

end

context auth_db
begin

lemma OAuth_grows: "HandleOAuthCallback A ctx now t prov st code d = (res, d') \<Longrightarrow> versions_grow (arows d) (arows d')"
proof -
  assume run: "HandleOAuthCallback A ctx now t prov st code d = (res, d')"
  show ?thesis
  proof (cases "mget (au_oidc A) prov")
    case None
    then show ?thesis using run by (simp add: HandleOAuthCallback_def)
  next
    case (Some auth)
    obtain r d1 where a: "auth st code d = (r, d1)" by fastforce
    have s: "versions_grow (arows d) (arows d1)" using oidc[OF Some a] by (rule versions_grow_subset)
    have u: "versions_grow (arows d1) (arows d2)"
      if "db_update (au_accounts A) P (\<lambda>r. r\<lparr>ac_TenantID := t\<rparr>) d1 = (n, d2)" for P n d2
      using that acc.update_fail[of P _ d1] acc.update_ok[of P _ d1]
      by (cases n) (auto intro!: versions_grow_upd)
    show ?thesis
      using run Some a s by (auto simp: HandleOAuthCallback_def split: sum.splits option.splits prod.splits if_splits
          dest!: issue_login_keeps u intro: versions_grow_trans)
  qed
qed

lemma setAccountLock_grows: "setAccountLock A ctx i b m ty d = (res, d') \<Longrightarrow> versions_grow (arows d) (arows d')"
  by (auto simp: setAccountLock_def split: sum.splits prod.splits if_splits
      dest!: tenantOfAccount_keeps acc.update_fail acc.update_ok intro!: versions_grow_upd)

lemma RevokeAllSessions_grows: "RevokeAllSessions A ctx i d = (res, d') \<Longrightarrow> versions_grow (arows d) (arows d')"
  by (auto simp: RevokeAllSessions_def split: sum.splits prod.splits if_splits
      dest!: tenantOfAccount_keeps acc.update_fail acc.update_ok intro!: versions_grow_upd)

lemma delete_tx_rows:
  "delete_tx A i t d = (None, d') \<Longrightarrow> \<exists>tomb. arows d' = upd_where (\<lambda>r. ac_ID r = i \<and> ac_TenantID r = t) (erase_account tomb) (arows d) \<and>
     (\<exists>r\<in>set (arows d). ac_ID r = i \<and> ac_TenantID r = t)"
  by (auto simp: delete_tx_def filter_empty_conv split: sum.splits prod.splits if_splits dest!: keeps acc.update_ok)

lemma DeleteAccount_rows:
  assumes "DeleteAccount A ctx i d = (res, d')"
  obtains "res \<noteq> None" "arows d' = arows d"
  | tomb where "res = None" "arows d' = upd_where (\<lambda>r. ac_ID r = i \<and> ac_TenantID r = ctx_tenant ctx) (erase_account tomb) (arows d)"
      "\<exists>r\<in>set (arows d). ac_ID r = i \<and> ac_TenantID r = ctx_tenant ctx"
proof -
  obtain r1 d1 where t: "tenantOfAccount A ctx i d = (r1, d1)" by fastforce
  have k: "arows d1 = arows d" using tenantOfAccount_keeps[OF t] .
  show thesis
  proof (cases r1)
    case (Inl e)
    then show thesis using assms t k that(1) by (auto simp: DeleteAccount_def)
  next
    case (Inr tid)
    have tid: "tid = ctx_tenant ctx"
      using t Inr by (auto simp: tenantOfAccount_def Let_def split: if_splits prod.splits sum.splits)
    obtain r2 d2 where x: "au_transaction A (delete_tx A i tid) d1 = (r2, d2)" by fastforce
    from transaction[OF x] show thesis
    proof (elim disjE conjE exE)
      assume "r2 \<noteq> None" "arows d2 = arows d1"
      then show thesis using assms t x Inr k that(1) by (auto simp: DeleteAccount_def)
    next
      fix d3 d4 assume d: "r2 = None" "arows d3 = arows d1" "delete_tx A i tid d3 = (None, d4)" "arows d2 = arows d4"
      from delete_tx_rows[OF d(3)] obtain tomb where
        "arows d4 = upd_where (\<lambda>r. ac_ID r = i \<and> ac_TenantID r = tid) (erase_account tomb) (arows d3)"
        "\<exists>r\<in>set (arows d3). ac_ID r = i \<and> ac_TenantID r = tid" by blast
      then show thesis using assms t x Inr k d tid that(2)[of tomb] by (auto simp: DeleteAccount_def)
    qed
  qed
qed

lemma erase_bumps: "ac_ID (erase_account tomb r) = ac_ID r \<and> ac_TokenVersion (erase_account tomb r) = ac_TokenVersion r + 1"
  by (simp add: erase_account_def)

lemma DeleteAccount_grows: "DeleteAccount A ctx i d = (res, d') \<Longrightarrow> versions_grow (arows d) (arows d')"
  using erase_bumps by (elim DeleteAccount_rows) (auto intro!: versions_grow_upd)

lemma Register_grows: "Register A ctx now t e p d = (res, d') \<Longrightarrow> versions_grow (arows d) (arows d')"
proof -
  have fresh: "versions_grow rs (arows d5)"
    if "arows d0 = rs" "au_submit A tr pw d0 = (Inr (Some a), d3)" "arows d4 = arows d3"
      "db_delete (au_accounts A) (\<lambda>r. ac_ID r = ac_ID a) d4 = (n, d5)" for rs d0 tr pw a d3 d4 n d5
  proof -
    have "set rs \<subseteq> set (arows d3)" "ac_ID a \<notin> ac_ID ` set rs" using submit[OF that(2)] that(1) by auto
    then have "set rs \<subseteq> set (arows d5)"
      using that(3) acc.delete_keeps[OF that(4)] by (metis (mono_tags, lifting) image_eqI subset_iff)
    then show ?thesis by (rule versions_grow_subset)
  qed
  have sub: "versions_grow rs (arows d3)" if "arows d0 = rs" "au_submit A tr pw d0 = (x, d3)" for rs d0 tr pw x d3
    using submit[OF that(2)] that(1) by (intro versions_grow_subset) simp
  have upd: "versions_grow rs (arows d4)"
    if "arows d0 = rs" "au_submit A tr pw d0 = (x, d3)" "db_update (au_accounts A) P (\<lambda>r. r\<lparr>ac_TenantID := t\<rparr>) d3 = (Inr n, d4)"
    for rs d0 tr pw x d3 P n d4
    using versions_grow_trans[OF sub[OF that(1,2)] versions_grow_upd[of "\<lambda>r. r\<lparr>ac_TenantID := t\<rparr>"]]
      acc.update_ok[OF that(3)] by simp
  assume "Register A ctx now t e p d = (res, d')"
  then show ?thesis
    by (auto simp: Register_def split: sum.splits prod.splits if_splits option.splits
        dest!: count_keeps acc.update_fail intro: sub upd fresh)
qed

end

text \<open>The three operations that invalidate the sessions of an account.\<close>

definition invalidates :: "'d auth_service \<Rightarrow> go_ctx \<Rightarrow> string \<Rightarrow> 'd \<Rightarrow> 'd \<Rightarrow> bool" where
  "invalidates A ctx i d d' \<longleftrightarrow> LockAccount A ctx i d = (None, d') \<or> RevokeAllSessions A ctx i d = (None, d') \<or>
     DeleteAccount A ctx i d = (None, d')"

context auth_db
begin

lemma auth_step_grows: "auth_step A d d' \<Longrightarrow> versions_grow (arows d) (arows d')"
  by (induction rule: auth_step.induct)
    (auto simp: LockAccount_def UnlockAccount_def dest: Login_keeps LoginWithAPIKey_keeps session_keeps other_keeps AssignRole_keeps
      SetIdentityRoles_keeps RevokeRole_keeps OAuth_grows Register_grows setAccountLock_grows RevokeAllSessions_grows DeleteAccount_grows)

lemma auth_steps_grow: "(auth_step A)\<^sup>*\<^sup>* d d' \<Longrightarrow> versions_grow (arows d) (arows d')"
  by (induction rule: rtranclp_induct) (auto intro: versions_grow_trans auth_step_grows)

lemma same_account: "\<lbrakk>r \<in> set (arows d); r' \<in> set (arows d); ac_ID r = ac_ID r'\<rbrakk> \<Longrightarrow> r = r'"
  using acc.keys_distinct[of d] by (auto simp: distinct_map inj_on_def)

lemma tenantOfAccount_rows:
  "tenantOfAccount A ctx i d = (Inr t, d') \<Longrightarrow> t = ctx_tenant ctx \<and> arows d' = arows d"
  using tenantOfAccount_keeps[of ctx i d _ d']
  by (auto simp: tenantOfAccount_def Let_def split: if_splits prod.splits sum.splits)

lemma invalidates_rows:
  assumes "invalidates A ctx i d d'"
  obtains f where "arows d' = upd_where (\<lambda>r. ac_ID r = i \<and> ac_TenantID r = ctx_tenant ctx) f (arows d)"
    "\<exists>r\<in>set (arows d). ac_ID r = i \<and> ac_TenantID r = ctx_tenant ctx"
    "\<And>r. ac_ID (f r) = ac_ID r \<and> ac_TokenVersion (f r) = ac_TokenVersion r + 1"
proof -
  from assms consider "LockAccount A ctx i d = (None, d')" | "RevokeAllSessions A ctx i d = (None, d')" | "DeleteAccount A ctx i d = (None, d')"
    by (auto simp: invalidates_def)
  then show thesis
  proof cases
    case 1
    then show thesis
      by (intro that[of "\<lambda>r. r\<lparr>ac_Active := False, ac_TokenVersion := ac_TokenVersion r + 1\<rparr>"])
        (auto simp: LockAccount_def setAccountLock_def filter_empty_conv split: sum.splits prod.splits if_splits
          dest!: tenantOfAccount_rows acc.update_ok)
  next
    case 2
    then show thesis
      by (intro that[of "\<lambda>r. r\<lparr>ac_TokenVersion := ac_TokenVersion r + 1\<rparr>"])
        (auto simp: RevokeAllSessions_def filter_empty_conv split: sum.splits prod.splits if_splits
          dest!: tenantOfAccount_rows acc.update_ok)
  next
    case 3
    then show thesis by (rule DeleteAccount_rows) (use erase_bumps that in auto)
  qed
qed

lemma invalidates_bumps:
  assumes "invalidates A ctx i d d'" and "r \<in> set (arows d)" and "ac_ID r = i"
  shows "\<exists>r'\<in>set (arows d'). ac_ID r' = i \<and> ac_TokenVersion r < ac_TokenVersion r'"
proof -
  from assms(1) obtain f where f: "arows d' = upd_where (\<lambda>r. ac_ID r = i \<and> ac_TenantID r = ctx_tenant ctx) f (arows d)"
    "\<exists>r\<in>set (arows d). ac_ID r = i \<and> ac_TenantID r = ctx_tenant ctx"
    "\<And>r. ac_ID (f r) = ac_ID r \<and> ac_TokenVersion (f r) = ac_TokenVersion r + 1"
    by (rule invalidates_rows) blast
  then have "ac_TenantID r = ctx_tenant ctx" using same_account assms(2,3) by metis
  then have "f r \<in> set (arows d')" using f(1) assms(2,3) by (auto simp: upd_where_def)
  then show ?thesis using f(3)[of r] assms(3) by (intro bexI[of _ "f r"]) auto
qed

lemma validated_account:
  assumes "ValidateForCaller A clk tok c d = (Inr (sub, t), st)" and "r \<in> set (arows d)" and "ac_ID r = sub"
  shows "\<exists>claims. strategy_parse (au_jwt A) (au_strategy A) (fst clk) tok = Inr claims \<and> cl_Subject claims = sub \<and>
    cl_TenantID claims = t \<and> ac_Active r \<and> ac_TokenVersion r = cl_TokenVersion claims"
proof -
  obtain v c1 d1 where v: "ValidateClaims (au_jwt A) (au_strategy A) (au_revoked A) clk tok c d = (v, c1, d1)" by (metis prod_cases3)
  from assms(1) v obtain claims where v': "v = Inr claims" by (cases v) (auto simp: ValidateForCaller_def)
  have p: "strategy_parse (au_jwt A) (au_strategy A) (fst clk) tok = Inr claims"
    using v v' by (auto simp: ValidateClaims_def split: sum.splits if_splits prod.splits option.splits)
  have k: "arows d1 = arows d" using ValidateClaims_keeps[OF v] .
  obtain a d2 where f: "db_first (au_accounts A) (\<lambda>r. ac_ID r = cl_Subject claims) d1 = (a, d2)" by fastforce
  show ?thesis
  proof (cases a)
    case (Inl e)
    then have "sub = cl_Subject claims" "errors_is e gorm_ErrRecordNotFound"
      using assms(1) v v' f by (auto simp: ValidateForCaller_def split: if_splits)
    moreover have "\<forall>r\<in>set (arows d1). ac_ID r \<noteq> cl_Subject claims"
      by (rule acc.first_none[OF f[unfolded Inl] calculation(2)])
    ultimately show ?thesis using k assms(2,3) by simp
  next
    case (Inr x)
    then have x: "sub = cl_Subject claims" "t = cl_TenantID claims" "ac_Active x" "ac_TokenVersion x = cl_TokenVersion claims"
      using assms(1) v v' f by (auto simp: ValidateForCaller_def split: if_splits)
    moreover have "x = r"
      using acc.first_ok[OF f[unfolded Inr]] k assms(2,3) x(1) by (intro same_account[of x d r]) simp_all
    ultimately show ?thesis using p by auto
  qed
qed

lemma invalidated_for_good:
  assumes "ValidateForCaller A clk tok c d = (Inr (sub, t), st)"
    and "strategy_parse (au_jwt A) (au_strategy A) (fst clk) tok = Inr claims"
    and "(auth_step A)\<^sup>*\<^sup>* d d1" and "invalidates A ctx sub d1 d2" and "(auth_step A)\<^sup>*\<^sup>* d2 d3"
    and "strategy_parse (au_jwt A) (au_strategy A) (fst clk') tok' = Inr claims'"
    and "cl_Subject claims' = cl_Subject claims" and "cl_TokenVersion claims' = cl_TokenVersion claims"
    and "r \<in> set (arows d)" and "ac_ID r = sub"
  shows "\<nexists>res st'. ValidateForCaller A clk' tok' c' d3 = (Inr res, st')"
proof
  assume "\<exists>res st'. ValidateForCaller A clk' tok' c' d3 = (Inr res, st')"
  then obtain sub' t' st' where v: "ValidateForCaller A clk' tok' c' d3 = (Inr (sub', t'), st')" by auto
  have r: "cl_Subject claims = sub" "ac_TokenVersion r = cl_TokenVersion claims"
    using validated_account[OF assms(1,9,10)] assms(2) by auto
  obtain r1 where r1: "r1 \<in> set (arows d1)" "ac_ID r1 = sub" "ac_TokenVersion r \<le> ac_TokenVersion r1"
    using auth_steps_grow[OF assms(3)] assms(9,10) unfolding versions_grow_def by metis
  obtain r2 where r2: "r2 \<in> set (arows d2)" "ac_ID r2 = sub" "ac_TokenVersion r1 < ac_TokenVersion r2"
    using invalidates_bumps[OF assms(4) r1(1,2)] by metis
  obtain r3 where r3: "r3 \<in> set (arows d3)" "ac_ID r3 = sub" "ac_TokenVersion r2 \<le> ac_TokenVersion r3"
    using auth_steps_grow[OF assms(5)] r2 unfolding versions_grow_def by metis
  have "sub' = sub"
    using v assms(6,7) r(1) by (auto simp: ValidateForCaller_def ValidateClaims_def split: sum.splits if_splits prod.splits option.splits)
  then have "ac_TokenVersion r3 = cl_TokenVersion claims'" using validated_account[OF v r3(1)] r3(2) assms(6) by auto
  then show False using r(2) r1(3) r2(3) r3(3) assms(8) by simp
qed

end

context auth_db
begin

lemma issue_login_ok:
  assumes "issue_login A now sub t v d = (Inr res, d')"
  shows "\<exists>i s. CreateForTenant (au_jwt A) (au_strategy A) now i sub t v = Inr s \<and>
    res = \<lparr>lr_AccessToken = se_ID s, lr_RefreshToken = se_RefreshToken s, lr_Subject = sub, lr_TenantID = t\<rparr>"
  using assms by (auto simp: issue_login_def split: prod.splits sum.splits)

lemma Login_ok:
  assumes "Login A ctx now t e p d = (Inr res, d')"
  shows "t \<noteq> [] \<and> (\<exists>a\<in>set (arows d). ac_TenantID a = t \<and> ac_Email a = e \<and> au_compare A p (ac_PasswordHash a) \<and> ac_Active a \<and>
    (\<exists>i s. CreateForTenant (au_jwt A) (au_strategy A) now i (ac_ID a) t (ac_TokenVersion a) = Inr s \<and>
      res = \<lparr>lr_AccessToken = se_ID s, lr_RefreshToken = se_RefreshToken s, lr_Subject = ac_ID a, lr_TenantID = t\<rparr>))"
proof -
  obtain x d1 where f: "db_first (au_accounts A) (\<lambda>r. ac_TenantID r = t \<and> ac_Email r = e) d = (x, d1)" by fastforce
  from assms f obtain a where a: "x = Inr a" by (cases x) (auto simp: Login_def split: if_splits)
  have m: "a \<in> set (arows d)" "ac_TenantID a = t" "ac_Email a = e" using acc.first_ok[OF f[unfolded a]] by auto
  have "t \<noteq> []" "au_compare A p (ac_PasswordHash a)" "ac_Active a" and
    "\<exists>d2. issue_login A now (ac_ID a) (ac_TenantID a) (ac_TokenVersion a) d1 = (Inr res, d2)"
    using assms f a by (auto simp: Login_def split: if_splits prod.splits sum.splits)
  with m show ?thesis using issue_login_ok by blast
qed

lemma Login_refused:
  assumes "t \<noteq> []" and "\<forall>a\<in>set (arows d). ac_TenantID a = t \<and> ac_Email a = e \<longrightarrow> \<not> au_compare A p (ac_PasswordHash a)"
  shows "fst (Login A ctx now t e p d) = Inl ErrInvalidCredentials \<or>
    (\<exists>err. fst (Login A ctx now t e p d) = Inl (prefixf [''auth: look up account''] err) \<and> \<not> errors_is err gorm_ErrRecordNotFound)"
proof -
  obtain x d1 where f: "db_first (au_accounts A) (\<lambda>r. ac_TenantID r = t \<and> ac_Email r = e) d = (x, d1)" by fastforce
  show ?thesis
  proof (cases x)
    case (Inl err)
    then show ?thesis using assms(1) f by (auto simp: Login_def)
  next
    case (Inr a)
    then have "\<not> au_compare A p (ac_PasswordHash a)" using acc.first_ok[OF f[unfolded Inr]] assms(2) by auto
    then show ?thesis using assms(1) f Inr by (simp add: Login_def)
  qed
qed

end

section \<open>Properties\<close>

text \<open>
  C10: Invalidating an account's sessions is immediate and for good. A token that was accepted for
  an account is refused once the account has been locked, its sessions revoked or its data
  erased, at every later moment and whatever logins, registrations, refreshes, unlocks and other
  operations of the service happen before and after (the SAML callback, which \<open>Federation\<close> adds, is
  not among them); the same holds for every other token with that subject and token version, so
  also for what refreshing the session returns.
\<close>

theorem invalidated_sessions_stay_dead:
  assumes "auth_db A arows arest"
    and "ValidateForCaller A clk tok c d = (Inr (sub, t), st)"
    and "strategy_parse (au_jwt A) (au_strategy A) (fst clk) tok = Inr claims"
    and "r \<in> set (arows d)" and "ac_ID r = sub"
    and "(auth_step A)\<^sup>*\<^sup>* d d1" and "invalidates A ctx sub d1 d2" and "(auth_step A)\<^sup>*\<^sup>* d2 d3"
    and "strategy_parse (au_jwt A) (au_strategy A) (fst clk') tok' = Inr claims'"
    and "cl_Subject claims' = cl_Subject claims" and "cl_TokenVersion claims' = cl_TokenVersion claims"
  shows "\<nexists>res st'. ValidateForCaller A clk' tok' c' d3 = (Inr res, st')"
  by (rule auth_db.invalidated_for_good[OF assms(1-3,6-11,4,5)])

text \<open>
  A password login succeeds only for an active account of the named tenant with that address and
  a matching password, and the session it issues is for that account, that tenant and the
  account's current token version. Whether the tenant has no such account or the password is
  wrong, the answer is the same, unless the database itself fails.
\<close>

theorem login_binds_tenant:
  assumes "auth_db A arows arest"
  shows "(\<forall>res d'. Login A ctx now t e p d = (Inr res, d') \<longrightarrow> t \<noteq> [] \<and>
      (\<exists>a\<in>set (arows d). ac_TenantID a = t \<and> ac_Email a = e \<and> au_compare A p (ac_PasswordHash a) \<and> ac_Active a \<and>
        (\<exists>i s. CreateForTenant (au_jwt A) (au_strategy A) now i (ac_ID a) t (ac_TokenVersion a) = Inr s \<and>
          res = \<lparr>lr_AccessToken = se_ID s, lr_RefreshToken = se_RefreshToken s, lr_Subject = ac_ID a, lr_TenantID = t\<rparr>))) \<and>
    (t \<noteq> [] \<and> (\<forall>a\<in>set (arows d). ac_TenantID a = t \<and> ac_Email a = e \<longrightarrow> \<not> au_compare A p (ac_PasswordHash a)) \<longrightarrow>
      fst (Login A ctx now t e p d) = Inl ErrInvalidCredentials \<or>
      (\<exists>err. fst (Login A ctx now t e p d) = Inl (prefixf [''auth: look up account''] err) \<and>
         \<not> errors_is err gorm_ErrRecordNotFound))"
  using auth_db.Login_ok[OF assms] auth_db.Login_refused[OF assms] by blast

text \<open>A service over a database in memory, with one account.\<close>

record auth_world =
  aw_accounts :: "Account list"
  aw_services :: "ServiceAccount list"
  aw_assignments :: "RoleAssignment list"
  aw_roles :: "RoleDefinition list"
  aw_oidc :: "oidcIdentity list"
  aw_saml :: "samlIdentity list"
  aw_revoked :: "RevokedSession list"
  aw_log :: "audit_event list"

definition demo_service :: "'a auth_world_scheme auth_service" where
  "demo_service = \<lparr>au_jwt = table_jwt demo_tokens, au_strategy = demo_strategy,
     au_accounts = slot_table ac_ID aw_accounts (\<lambda>rs d. d\<lparr>aw_accounts := rs\<rparr>),
     au_services = slot_table sa_ID aw_services (\<lambda>rs d. d\<lparr>aw_services := rs\<rparr>),
     au_assignments = slot_table (\<lambda>r. (ra_TenantID r, ra_IdentityID r, ra_Role r)) aw_assignments (\<lambda>rs d. d\<lparr>aw_assignments := rs\<rparr>),
     au_roles = slot_table (\<lambda>r. (rd_Name r, rd_TenantID r)) aw_roles (\<lambda>rs d. d\<lparr>aw_roles := rs\<rparr>),
     au_oidc_links = slot_table oi_ID aw_oidc (\<lambda>rs d. d\<lparr>aw_oidc := rs\<rparr>),
     au_saml_links = slot_table si_ID aw_saml (\<lambda>rs d. d\<lparr>aw_saml := rs\<rparr>),
     au_revoked = slot_table rs_SessionID aw_revoked (\<lambda>rs d. d\<lparr>aw_revoked := rs\<rparr>),
     au_transaction = (\<lambda>body d. case body d of (None, d') \<Rightarrow> (None, d') | (Some e, _) \<Rightarrow> (Some e, d)),
     au_log = (\<lambda>_ ev d. (None, d\<lparr>aw_log := ev # aw_log d\<rparr>)),
     au_compare = (\<lambda>p h. h = ''hash-'' @ p),
     au_uuid = (\<lambda>d. (''s1'', d)),
     au_submit = (\<lambda>_ _ d. (Inl (ErrNew ''registration is closed''), d)),
     au_oidc = [],
     au_generate_key = (\<lambda>d. (Inr (''raw'', ''hash''), d)),
     au_api_login = (\<lambda>look raw d. case look (''hash-'' @ raw) d of (Inl e, d') \<Rightarrow> (Inl e, d') | (Inr s, d') \<Rightarrow> (Inr (Some s), d')),
     au_ErrRoleNotFound = ErrNew ''role not found'',
     au_authorize = (\<lambda>_ _ _ _ d. (Inr False, d))\<rparr>"

definition demo_world :: auth_world where
  "demo_world = \<lparr>aw_accounts = [\<lparr>ac_ID = ''u1'', ac_TenantID = ''acme'', ac_Email = ''a@b'', ac_PasswordHash = ''hash-pw'',
       ac_Traits = ''{}'', ac_Active = True, ac_TokenVersion = 3\<rparr>],
     aw_services = [], aw_assignments = [], aw_roles = [], aw_oidc = [], aw_saml = [], aw_revoked = [], aw_log = []\<rparr>"

abbreviation demo_accounts :: "'a auth_world_scheme \<Rightarrow> Account list" where
  "demo_accounts d \<equiv> dedup ac_ID (aw_accounts d)"

lemma slot_leaves: "(\<And>rs d. f (put rs d) = f d) \<Longrightarrow> leaves f (slot_table key get put)"
  unfolding leaves_def slot_table_def by (simp, intro conjI allI impI; erule slot_frame[rotated]; simp)

interpretation demo_auth: auth_db demo_service demo_accounts "\<lambda>d. d\<lparr>aw_accounts := []\<rparr>"
proof (intro auth_db.intro auth_db_axioms.intro, goal_cases)
  case 1
  show ?case unfolding demo_service_def auth_service.simps by (rule slot_sql_table) simp_all
next
  case (11 body d res d')
  then show ?case by (auto simp: demo_service_def split: prod.splits option.splits)
next
  case (14 look raw d res5 d')
  then show ?case by (auto simp: demo_service_def split: prod.splits sum.splits)
qed (auto simp: demo_service_def intro!: slot_leaves)

lemma demo_validates:
  "ValidateForCaller demo_service (5, 6) ''access'' [] demo_world = (Inr (''u1'', ''acme''), [(''s1'', (False, 6))], demo_world)"
  by code_simp

theorem invalidated_sessions_stay_dead_witness:
  "\<nexists>res st'. ValidateForCaller demo_service (7, 8) ''refresh'' []
     (snd (UnlockAccount demo_service (WithTenantID Background ''acme'') ''u1''
       (snd (LockAccount demo_service (WithTenantID Background ''acme'') ''u1'' demo_world)))) = (Inr res, st')"
proof -
  let ?ctx = "WithTenantID Background ''acme''" and ?A = demo_service
  let ?d2 = "snd (LockAccount ?A ?ctx ''u1'' demo_world)"
  let ?d3 = "snd (UnlockAccount ?A ?ctx ''u1'' ?d2)"
  have "fst (LockAccount ?A ?ctx ''u1'' demo_world) = None" by code_simp
  then have inv: "invalidates ?A ?ctx ''u1'' demo_world ?d2" unfolding invalidates_def by (metis prod.collapse)
  have "UnlockAccount ?A ?ctx ''u1'' ?d2 = (fst (UnlockAccount ?A ?ctx ''u1'' ?d2), ?d3)" by simp
  then have "auth_step ?A ?d2 ?d3" by (rule auth_step.unlock)
  then have steps: "(auth_step ?A)\<^sup>*\<^sup>* ?d2 ?d3" by simp
  have p: "strategy_parse (au_jwt ?A) (au_strategy ?A) (fst (5, 6)) ''access'' = Inr (issued_claims ''s1'' ''u1'' ''acme'' 3 0 (10 * 1000000000))"
    "strategy_parse (au_jwt ?A) (au_strategy ?A) (fst (7, 8)) ''refresh'' = Inr (issued_claims ''s1'' ''u1'' ''acme'' 3 0 (20 * 1000000000))"
    by code_simp+
  have r: "hd (aw_accounts demo_world) \<in> set (demo_accounts demo_world)" "ac_ID (hd (aw_accounts demo_world)) = ''u1''"
    by (simp_all add: demo_world_def)
  show ?thesis
    by (rule invalidated_sessions_stay_dead[OF demo_auth.auth_db_axioms demo_validates p(1) r rtranclp.rtrancl_refl inv steps p(2)])
      (simp_all add: issued_claims_def)
qed

theorem login_binds_tenant_witness:
  "fst (Login demo_service Background 0 ''acme'' ''a@b'' ''wrong'' demo_world) = Inl ErrInvalidCredentials \<and>
   fst (Login demo_service Background 0 ''globex'' ''a@b'' ''pw'' demo_world) = Inl ErrInvalidCredentials \<and>
   (\<exists>a\<in>set (demo_accounts demo_world). ac_ID a = lr_Subject \<lparr>lr_AccessToken = ''access'', lr_RefreshToken = ''refresh'', lr_Subject = ''u1'', lr_TenantID = ''acme''\<rparr>)"
proof -
  note ok = login_binds_tenant[OF demo_auth.auth_db_axioms, THEN conjunct1, rule_format]
  have "Login demo_service Background 0 ''acme'' ''a@b'' ''pw'' demo_world =
    (Inr \<lparr>lr_AccessToken = ''access'', lr_RefreshToken = ''refresh'', lr_Subject = ''u1'', lr_TenantID = ''acme''\<rparr>,
     snd (Login demo_service Background 0 ''acme'' ''a@b'' ''pw'' demo_world))"
    by (intro prod_eqI) (simp, code_simp, simp)
  from ok[OF this] have "\<exists>a\<in>set (demo_accounts demo_world). ac_ID a = ''u1''" by auto
  moreover have "fst (Login demo_service Background 0 ''acme'' ''a@b'' ''wrong'' demo_world) = Inl ErrInvalidCredentials"
    "fst (Login demo_service Background 0 ''globex'' ''a@b'' ''pw'' demo_world) = Inl ErrInvalidCredentials"
    by code_simp+
  ultimately show ?thesis by simp
qed

end
