(* ===== verification/Federation.thy ===== *)
theory Federation
  imports Accounts
begin

text \<open>
  Federated login: what \<^verbatim>\<open>internal/platform/auth/oidc.go\<close> and \<^verbatim>\<open>saml.go\<close> add to Kayan and the
  protocol libraries. Those generate and check states, nonces, signatures and assertions and are
  parameters; the repository's part is the store of pending attempts, the mapping from what a
  provider vouches for to a local account, and the session issued for it.
\<close>

section \<open>Pending OIDC attempts (oidc.go)\<close>

record oidcState =
  os_State :: string
  os_CodeVerifier :: string
  os_Nonce :: string
  os_ExpiresAt :: int

text \<open>
  The tables and generators beside those of the auth service. \<open>fd_consume\<close> is the transaction of
  \<open>ConsumeOIDCState\<close>, \<open>fd_email\<close> the \<open>email\<close> member of a JSON object (empty if there is none),
  \<open>fd_traits\<close> the encoding of the traits of a SAML user, \<open>fd_process\<close> Kayan's \<open>ProcessResponse\<close>
  with the two hooks it is given.
\<close>

record saml_user =
  su_IdPID :: string
  su_NameID :: string
  su_Email :: string
  su_FirstName :: string
  su_LastName :: string

record 'd federation =
  fd_states :: "(oidcState, 'd) dbtable"
  fd_consume :: "('d \<Rightarrow> (gerr + string \<times> string) \<times> 'd) \<Rightarrow> 'd \<Rightarrow> (gerr + string \<times> string) \<times> 'd"
  fd_email :: "string \<Rightarrow> string"
  fd_traits :: "(string \<times> string) list \<Rightarrow> gerr + string"
  fd_idp_tenants :: "string gomap"
  fd_process :: "(string \<Rightarrow> string \<Rightarrow> 'd \<Rightarrow> (gerr + Account) \<times> 'd) \<Rightarrow> (saml_user \<Rightarrow> 'd \<Rightarrow> (gerr + Account) \<times> 'd)
     \<Rightarrow> string \<Rightarrow> string \<Rightarrow> 'd \<Rightarrow> (gerr + Account option) \<times> 'd"

definition StoreOIDCState ::
  "'d federation \<Rightarrow> int \<Rightarrow> string \<Rightarrow> string \<Rightarrow> string \<Rightarrow> int \<Rightarrow> 'd \<Rightarrow> gerr option \<times> 'd" where
  "StoreOIDCState F now state codeVerifier nonce expiry d =
     (case db_create (fd_states F) \<lparr>os_State = state, os_CodeVerifier = codeVerifier, os_Nonce = nonce,
                                    os_ExpiresAt = now + expiry\<rparr> d of
        (Some err, d') \<Rightarrow> (Some (prefixf [''auth: store oidc state''] err), d')
      | (None, d') \<Rightarrow> (None, d'))"

text \<open>The two statements of the transaction: the read with its expiry check, and the delete.\<close>

definition consume_read :: "(oidcState, 'd) dbtable \<Rightarrow> int \<Rightarrow> string \<Rightarrow> 'd \<Rightarrow> (gerr + oidcState) \<times> 'd" where
  "consume_read T now state d =
     (case db_first T (\<lambda>r. os_State r = state) d of
        (Inl err, d') \<Rightarrow> (Inl err, d')
      | (Inr row, d') \<Rightarrow>
          (if now > os_ExpiresAt row then Inl (ErrNew ''auth: oidc state expired'') else Inr row, d'))"

definition consume_delete :: "(oidcState, 'd) dbtable \<Rightarrow> string \<Rightarrow> oidcState \<Rightarrow> 'd \<Rightarrow> (gerr + string \<times> string) \<times> 'd" where
  "consume_delete T state row d =
     (case db_delete T (\<lambda>r. os_State r = state) d of
        (Inl err, d') \<Rightarrow> (Inl err, d')
      | (Inr affected, d') \<Rightarrow>
          (if affected = 0 then Inl (ErrNew ''auth: oidc state already consumed'')
           else Inr (os_CodeVerifier row, os_Nonce row), d'))"

definition consume_tx :: "'d federation \<Rightarrow> int \<Rightarrow> string \<Rightarrow> 'd \<Rightarrow> (gerr + string \<times> string) \<times> 'd" where
  "consume_tx F now state d =
     (case consume_read (fd_states F) now state d of
        (Inl err, d') \<Rightarrow> (Inl err, d')
      | (Inr row, d') \<Rightarrow> consume_delete (fd_states F) state row d')"

definition ConsumeOIDCState :: "'d federation \<Rightarrow> int \<Rightarrow> string \<Rightarrow> 'd \<Rightarrow> (gerr + string \<times> string) \<times> 'd" where
  "ConsumeOIDCState F now state d = fd_consume F (consume_tx F now state) d"

section \<open>Accounts of federated users\<close>

text \<open>
  A new account takes the column defaults: active, token version zero and no password.
\<close>

definition new_account :: "string \<Rightarrow> string \<Rightarrow> string \<Rightarrow> string \<Rightarrow> Account" where
  "new_account i tenantID email traits =
     \<lparr>ac_ID = i, ac_TenantID = tenantID, ac_Email = email, ac_PasswordHash = [], ac_Traits = traits,
      ac_Active = True, ac_TokenVersion = 0\<rparr>"

definition oidc_create_tx ::
  "'d auth_service \<Rightarrow> string \<Rightarrow> int \<Rightarrow> string \<Rightarrow> Account \<Rightarrow> 'd \<Rightarrow> gerr option \<times> 'd" where
  "oidc_create_tx A provider now sub account d =
     (case db_create (au_accounts A) account d of
        (Some err, d1) \<Rightarrow> (Some (prefixf [''auth: create account for oidc login''] err), d1)
      | (None, d1) \<Rightarrow>
          (case au_uuid A d1 of (i, d2) \<Rightarrow>
            (case db_create (au_oidc_links A) \<lparr>oi_ID = i, oi_Provider = provider, oi_Sub = sub,
                    oi_AccountID = ac_ID account, oi_CreatedAt = now\<rparr> d2 of
               (Some err, d3) \<Rightarrow> (Some (prefixf [''auth: link oidc identity''] err), d3)
             | (None, d3) \<Rightarrow> (None, d3))))"

text \<open>The factory of \<open>InitOIDC\<close> always makes an \<open>Account\<close>, so its type assertion holds.\<close>

definition FindOrCreateByProviderSub ::
  "'d auth_service \<Rightarrow> 'd federation \<Rightarrow> string \<Rightarrow> int \<Rightarrow> string \<Rightarrow> string \<Rightarrow> 'd \<Rightarrow> (gerr + Account) \<times> 'd" where
  "FindOrCreateByProviderSub A F provider now sub traits d =
     (case db_first (au_oidc_links A) (\<lambda>r. oi_Provider r = provider \<and> oi_Sub r = sub) d of
        (Inr link, d1) \<Rightarrow>
          (case db_first (au_accounts A) (\<lambda>r. ac_ID r = oi_AccountID link) d1 of
             (Inl err, d2) \<Rightarrow> (Inl (prefixf [''auth: load account for oidc identity''] err), d2)
           | (Inr account, d2) \<Rightarrow> (Inr account, d2))
      | (Inl err, d1) \<Rightarrow>
          if \<not> errors_is err gorm_ErrRecordNotFound
          then (Inl (prefixf [''auth: look up oidc identity''] err), d1)
          else (case au_uuid A d1 of (i, d2) \<Rightarrow>
            (let account = new_account i [] (fd_email F traits) traits in
             case au_transaction A (oidc_create_tx A provider now sub account) d2 of
               (Some txErr, d3) \<Rightarrow> (Inl txErr, d3)
             | (None, d3) \<Rightarrow> (Inr account, d3))))"

section \<open>SAML (saml.go)\<close>

definition ErrSAMLNotConfigured :: gerr where "ErrSAMLNotConfigured = ErrNew ''auth: SAML is not configured''"

definition saml_UserLoader :: "'d auth_service \<Rightarrow> string \<Rightarrow> string \<Rightarrow> 'd \<Rightarrow> (gerr + Account) \<times> 'd" where
  "saml_UserLoader A nameID idpID d =
     (case db_first (au_saml_links A) (\<lambda>r. si_IdPID r = idpID \<and> si_NameID r = nameID) d of
        (Inl err, d1) \<Rightarrow> (Inl err, d1)
      | (Inr link, d1) \<Rightarrow>
          (case db_first (au_accounts A) (\<lambda>r. ac_ID r = si_AccountID link) d1 of
             (Inl err, d2) \<Rightarrow> (Inl (prefixf [''auth: load account for saml identity''] err), d2)
           | (Inr account, d2) \<Rightarrow> (Inr account, d2)))"

definition saml_create_tx :: "'d auth_service \<Rightarrow> int \<Rightarrow> saml_user \<Rightarrow> Account \<Rightarrow> 'd \<Rightarrow> gerr option \<times> 'd" where
  "saml_create_tx A now user account d =
     (case db_create (au_accounts A) account d of
        (Some err, d1) \<Rightarrow> (Some (prefixf [''auth: create account for saml login''] err), d1)
      | (None, d1) \<Rightarrow>
          (case au_uuid A d1 of (i, d2) \<Rightarrow>
            (case db_create (au_saml_links A) \<lparr>si_ID = i, si_IdPID = su_IdPID user, si_NameID = su_NameID user,
                    si_AccountID = ac_ID account, si_CreatedAt = now\<rparr> d2 of
               (Some err, d3) \<Rightarrow> (Some (prefixf [''auth: link saml identity''] err), d3)
             | (None, d3) \<Rightarrow> (None, d3))))"

text \<open>The roles of a provisioned account: \<open>owner\<close> for the first of its tenant, else \<open>member\<close>.\<close>

definition saml_roles ::
  "'d auth_service \<Rightarrow> go_ctx \<Rightarrow> int \<Rightarrow> string \<Rightarrow> saml_user \<Rightarrow> Account \<Rightarrow> 'd \<Rightarrow> 'd" where
  "saml_roles A ctx now tenantID user account d =
     (let scoped = WithTenantID ctx tenantID;
          (n, d1) = db_count (au_accounts A) (\<lambda>r. ac_TenantID r = tenantID \<and> ac_ID r \<noteq> ac_ID account) d;
          first = (case n of Inr k \<Rightarrow> k = 0 | Inl _ \<Rightarrow> False);
          role = (if first then ''owner'' else ''member'');
          d2 = (if first then snd (SeedDefaultRoles A tenantID d1) else d1);
          d3 = snd (AssignRole A scoped now (ac_ID account) role d2)
      in logAudit A scoped EventUserCreated tenantID (ac_ID account) (ac_ID account) True
           (''account provisioned via SAML idp '' @ go_quote (su_IdPID user) @ '', assigned role '' @ go_quote role) d3)"

definition saml_UserFactory ::
  "'d auth_service \<Rightarrow> 'd federation \<Rightarrow> go_ctx \<Rightarrow> int \<Rightarrow> saml_user \<Rightarrow> 'd \<Rightarrow> (gerr + Account) \<times> 'd" where
  "saml_UserFactory A F ctx now user d =
     (let tenantID = (case mget (fd_idp_tenants F) (su_IdPID user) of Some t \<Rightarrow> t | None \<Rightarrow> []) in
      case au_uuid A d of (i, d0) \<Rightarrow>
        (let account = new_account i tenantID (su_Email user)
               (case fd_traits F [(''email'', su_Email user), (''first_name'', su_FirstName user),
                                  (''last_name'', su_LastName user)] of
                  Inr traits \<Rightarrow> traits | Inl _ \<Rightarrow> [])
         in case au_transaction A (saml_create_tx A now user account) d0 of
              (Some txErr, d1) \<Rightarrow> (Inl txErr, d1)
            | (None, d1) \<Rightarrow> (Inr account, saml_roles A ctx now tenantID user account d1)))"

definition HandleSAMLResponse ::
  "'d auth_service \<Rightarrow> 'd federation option \<Rightarrow> go_ctx \<Rightarrow> int \<Rightarrow> string \<Rightarrow> string \<Rightarrow> 'd \<Rightarrow> (gerr + LoginResult) \<times> 'd" where
  "HandleSAMLResponse A saml ctx now samlResponse relayState d =
     (case saml of
        None \<Rightarrow> (Inl ErrSAMLNotConfigured, d)
      | Some F \<Rightarrow>
          (case fd_process F (saml_UserLoader A) (saml_UserFactory A F ctx now) samlResponse relayState d of
             (Inl err, d1) \<Rightarrow> (Inl (prefixf [''auth: saml response''] err), d1)
           | (Inr None, d1) \<Rightarrow> (Inl ErrInvalidIdentityType, d1)
           | (Inr (Some account), d1) \<Rightarrow>
               if \<not> ac_Active account
               then (Inl ErrAccountLocked, logAudit A ctx EventLoginBlocked (ac_TenantID account) (ac_ID account)
                       (ac_ID account) False ''account is locked'' d1)
               else (case issue_login A now (ac_ID account) (ac_TenantID account) (ac_TokenVersion account) d1 of
                       (Inl err, d2) \<Rightarrow> (Inl err, d2)
                     | (Inr res, d2) \<Rightarrow>
                         (Inr res, logAudit A ctx EventLoginSuccess (ac_TenantID account) (ac_ID account)
                                     (ac_ID account) True ''saml login'' d2))))"

section \<open>Provider configuration\<close>

record samlProviderConfig =
  sp_TenantID :: string
  sp_EntityID :: string
  sp_SSOUrl :: string
  sp_Certificate :: string
  sp_MetadataURL :: string

text \<open>
  The registration loop of \<open>InitSAML\<close>: the tenants of the identity providers, or the first error.
  Fetching metadata (with whether the provider is then found) and parsing a certificate are
  parameters.
\<close>

fun register_idps ::
  "(string \<Rightarrow> string \<Rightarrow> gerr + bool) \<Rightarrow> (string \<Rightarrow> gerr option) \<Rightarrow> (string \<times> samlProviderConfig) list \<Rightarrow> string gomap
     \<Rightarrow> gerr + string gomap" where
  "register_idps from_metadata parse_cert [] tenants = Inr tenants"
| "register_idps from_metadata parse_cert ((i, cfg) # rest) tenants =
     (if sp_TenantID cfg = []
      then Inl (ErrNew (''auth: SAML provider '' @ go_quote i @ '': tenant_id is required''))
      else if sp_MetadataURL cfg \<noteq> []
      then (case from_metadata i (sp_MetadataURL cfg) of
              Inl err \<Rightarrow> Inl (prefixf [''auth: register SAML provider '', go_quote i] err)
            | Inr False \<Rightarrow> Inl (ErrNew (''auth: SAML provider '' @ go_quote i @ '' vanished after registration''))
            | Inr True \<Rightarrow> register_idps from_metadata parse_cert rest (mput i (sp_TenantID cfg) tenants))
      else if sp_SSOUrl cfg = [] \<or> sp_Certificate cfg = []
      then Inl (ErrNew (''auth: SAML provider '' @ go_quote i
                  @ '': sso_url and certificate are required without metadata_url''))
      else (case parse_cert (sp_Certificate cfg) of
              Some err \<Rightarrow> Inl (prefixf [''auth: SAML provider '', go_quote i] err)
            | None \<Rightarrow> register_idps from_metadata parse_cert rest (mput i (sp_TenantID cfg) tenants)))"

definition InitSAML ::
  "(string \<Rightarrow> string \<Rightarrow> gerr + bool) \<Rightarrow> (string \<Rightarrow> gerr option) \<Rightarrow> string \<Rightarrow> string \<Rightarrow> (string \<times> samlProviderConfig) list
     \<Rightarrow> (string gomap \<Rightarrow> 'd federation) \<Rightarrow> 'd federation option \<Rightarrow> gerr option \<times> 'd federation option" where
  "InitSAML from_metadata parse_cert entityID acsUrl providers build saml =
     (if providers = [] then (None, saml)
      else if entityID = [] \<or> acsUrl = [] then (Some (ErrNew ''auth: SAML requires EntityID and ACSUrl''), saml)
      else (case register_idps from_metadata parse_cert providers [] of
              Inl err \<Rightarrow> (Some err, saml)
            | Inr tenants \<Rightarrow> (None, Some ((build tenants)\<lparr>fd_idp_tenants := tenants\<rparr>))))"

lemma register_idps_tenants:
  "register_idps fm pc ps ts = Inr out \<Longrightarrow> (\<forall>i t. mget ts i = Some t \<longrightarrow> t \<noteq> [])
     \<Longrightarrow> mget out i = Some t \<Longrightarrow> t \<noteq> []"
  by (induction fm pc ps ts rule: register_idps.induct) (auto split: if_splits option.splits sum.splits bool.splits)

section \<open>Concurrent callbacks\<close>

text \<open>
  Any number of callbacks for one state at once, each reading and then deleting, with the
  statements interleaved as the database likes, while other attempts are stored.
\<close>

datatype callback = Waiting | HasRead oidcState | Consumed "string \<times> string" | Refused

definition after_read :: "gerr + oidcState \<Rightarrow> callback" where
  "after_read res = (case res of Inl _ \<Rightarrow> Refused | Inr row \<Rightarrow> HasRead row)"

definition after_delete :: "gerr + string \<times> string \<Rightarrow> callback" where
  "after_delete res = (case res of Inl _ \<Rightarrow> Refused | Inr v \<Rightarrow> Consumed v)"

inductive callback_step ::
  "'d federation \<Rightarrow> string \<Rightarrow> 'd \<times> (nat \<Rightarrow> callback) \<Rightarrow> 'd \<times> (nat \<Rightarrow> callback) \<Rightarrow> bool" for F state where
  read: "ph i = Waiting \<Longrightarrow> consume_read (fd_states F) now state d = (res, d')
    \<Longrightarrow> callback_step F state (d, ph) (d', ph(i := after_read res))"
| delete: "ph i = HasRead row \<Longrightarrow> consume_delete (fd_states F) state row d = (res, d')
    \<Longrightarrow> callback_step F state (d, ph) (d', ph(i := after_delete res))"
| store: "other \<noteq> state \<Longrightarrow> StoreOIDCState F now other v n e d = (res, d')
    \<Longrightarrow> callback_step F state (d, ph) (d', ph)"

inductive_cases callback_stepE: "callback_step F state s s'"

definition used_once :: "('d \<Rightarrow> oidcState list) \<Rightarrow> string \<Rightarrow> 'd \<times> (nat \<Rightarrow> callback) \<Rightarrow> bool" where
  "used_once rows state s \<longleftrightarrow>
     (\<forall>i v. snd s i = Consumed v \<longrightarrow>
        (\<forall>r \<in> set (rows (fst s)). os_State r \<noteq> state) \<and> (\<forall>j u. snd s j = Consumed u \<longrightarrow> j = i))"

locale oidc_states = sql_table "fd_states F" rows rest os_State
  for F :: "'d federation" and rows :: "'d \<Rightarrow> oidcState list" and rest :: "'d \<Rightarrow> 'e"
begin

lemma consume_read_rows: "consume_read (fd_states F) now state d = (res, d') \<Longrightarrow> rows d' = rows d"
  by (auto simp: consume_read_def split: prod.splits sum.splits dest: first_rows)

lemma consume_delete_rows:
  assumes "consume_delete (fd_states F) state row d = (res, d')"
  shows "set (rows d') \<subseteq> set (rows d)"
    and "res = Inr v \<Longrightarrow> (\<exists>r \<in> set (rows d). os_State r = state) \<and> (\<forall>r \<in> set (rows d'). os_State r \<noteq> state)"
  using assms
  by (auto simp: consume_delete_def filter_empty_conv split: prod.splits sum.splits if_splits dest!: delete_fail delete_ok)

lemma store_rows:
  "StoreOIDCState F now other v n e d = (res, d') \<Longrightarrow> other \<noteq> state \<Longrightarrow>
     (\<forall>r \<in> set (rows d). os_State r \<noteq> state) \<Longrightarrow> r \<in> set (rows d') \<Longrightarrow> os_State r \<noteq> state"
  by (auto simp: StoreOIDCState_def split: prod.splits option.splits dest!: create_fail create_ok)

lemma used_once_step: "callback_step F state s s' \<Longrightarrow> used_once rows state s \<Longrightarrow> used_once rows state s'"
proof (induction rule: callback_step.induct)
  case (read ph i now d res d')
  then show ?case
    using consume_read_rows [OF read(2)] by (auto simp: used_once_def after_read_def split: sum.splits if_splits)
next
  case (delete ph i row d res d')
  show ?case
  proof (cases res)
    case (Inl e)
    then show ?thesis
      using delete(3) consume_delete_rows(1) [OF delete(2)]
      unfolding used_once_def after_delete_def by (simp, blast)
  next
    case (Inr v)
    from consume_delete_rows(2) [OF delete(2) Inr] delete(3)
    have none: "ph j \<noteq> Consumed u" for j u unfolding used_once_def fst_conv snd_conv by blast
    then show ?thesis
      using consume_delete_rows(2) [OF delete(2) Inr] Inr
      by (auto simp: used_once_def after_delete_def split: if_splits)
  qed
next
  case (store other now v n e d res d' ph)
  then show ?case using store_rows [OF store(2,1)] by (auto simp: used_once_def)
qed

lemma used_once_reachable:
  "(callback_step F state)\<^sup>*\<^sup>* s s' \<Longrightarrow> used_once rows state s \<Longrightarrow> used_once rows state s'"
  by (induction rule: rtranclp_induct) (auto intro: used_once_step)

end

text \<open>
  C35: A login attempt is used once. However many callbacks present the same state at the same
  time, and however the database interleaves their reads and deletes, at most one of them is
  given the verifier and nonce, and once one has been, no record of the attempt is left for
  another to find.
\<close>

theorem oidc_state_single_use:
  assumes "sql_table (fd_states F) rows rest os_State"
    and "(callback_step F state)\<^sup>*\<^sup>* (d, \<lambda>_. Waiting) (d', ph)"
    and "ph i = Consumed v"
  shows "(\<forall>j u. ph j = Consumed u \<longrightarrow> j = i) \<and> (\<forall>r \<in> set (rows d'). os_State r \<noteq> state)"
proof -
  have "used_once rows state (d', ph)"
    using oidc_states.used_once_reachable [OF oidc_states.intro [OF assms(1)] assms(2)]
    by (simp add: used_once_def)
  with assms(3) show ?thesis unfolding used_once_def fst_conv snd_conv by blast
qed

definition demo_federation :: "(oidcState list \<times> unit) federation" where
  "demo_federation =
     \<lparr>fd_states = mem_table os_State, fd_consume = (\<lambda>body d. body d), fd_email = (\<lambda>_. []),
      fd_traits = (\<lambda>_. Inr ''{}''), fd_idp_tenants = [],
      fd_process = (\<lambda>_ _ _ _ d. (Inr None, d))\<rparr>"

interpretation demo_states: oidc_states demo_federation "mem_rows os_State" snd
  using mem.sql_table_axioms by (simp add: oidc_states_def demo_federation_def)

definition pending_login :: oidcState where
  "pending_login = \<lparr>os_State = ''st'', os_CodeVerifier = ''ver'', os_Nonce = ''non'', os_ExpiresAt = 100\<rparr>"

theorem oidc_state_single_use_witness:
  "\<exists>d' ph. (callback_step demo_federation ''st'')\<^sup>*\<^sup>* (([pending_login], ()), \<lambda>_. Waiting) (d', ph)
     \<and> ph 0 = Consumed (''ver'', ''non'') \<and> (\<forall>j u. ph j = Consumed u \<longrightarrow> j = 0)"
proof -
  let ?F = demo_federation and ?d = "([pending_login], ())"
  let ?ph1 = "(\<lambda>_. Waiting)(0 := HasRead pending_login)"
  let ?ph2 = "?ph1(1 := HasRead pending_login)"
  let ?ph3 = "?ph2(0 := Consumed (''ver'', ''non''))"
  have rd: "consume_read (fd_states ?F) 5 ''st'' ?d = (Inr pending_login, ?d)"
    and del: "consume_delete (fd_states ?F) ''st'' pending_login ?d = (Inr (''ver'', ''non''), ([], ()))"
    by code_simp+
  have steps: "callback_step ?F ''st'' (?d, \<lambda>_. Waiting) (?d, ?ph1)" "callback_step ?F ''st'' (?d, ?ph1) (?d, ?ph2)"
    "callback_step ?F ''st'' (?d, ?ph2) (([], ()), ?ph3)"
    using callback_step.read [where ph = "\<lambda>_. Waiting" and i = 0, OF _ rd]
      callback_step.read [where ph = ?ph1 and i = 1, OF _ rd]
      callback_step.delete [where ph = ?ph2 and i = 0, OF _ del]
    by (simp_all add: after_read_def after_delete_def)
  have run: "(callback_step ?F ''st'')\<^sup>*\<^sup>* (?d, \<lambda>_. Waiting) (([], ()), ?ph3)"
    using steps by (meson converse_rtranclp_into_rtranclp rtranclp.rtrancl_refl)
  have "?ph3 0 = Consumed (''ver'', ''non'')" by simp
  from oidc_state_single_use [OF demo_states.sql_table_axioms run this] run this show ?thesis by blast
qed

section \<open>Which account a federated login gets\<close>

text \<open>
  A provider's subject decides the account, never an address. The account a federated login
  is given is the one linked to that provider and subject, or, when there is no such link, one
  created for it just now: no account that existed before is handed out because of its e-mail
  address or anything else the provider asserts.
\<close>

theorem federated_account_by_link:
  assumes db: "auth_db A arows arest" and links: "sql_table (au_oidc_links A) lrows lrest oi_ID"
    and run: "FindOrCreateByProviderSub A F provider now sub traits d = (Inr a, d')"
  shows "(\<exists>l \<in> set (lrows d). oi_Provider l = provider \<and> oi_Sub l = sub \<and> oi_AccountID l = ac_ID a \<and> a \<in> set (arows d))
    \<or> (\<forall>l \<in> set (lrows d). \<not> (oi_Provider l = provider \<and> oi_Sub l = sub))
      \<and> ac_ID a \<notin> ac_ID ` set (arows d) \<and> a \<in> set (arows d') \<and> ac_TenantID a = []"
proof (cases "db_first (au_oidc_links A) (\<lambda>r. oi_Provider r = provider \<and> oi_Sub r = sub) d")
  case (Pair res d1)
  have keep1: "arows d1 = arows d"
    using Pair auth_db.other_tables(4) [OF db] by (metis leavesD(2))
  show ?thesis
  proof (cases res)
    case (Inr link)
    then have l: "link \<in> set (lrows d)" "oi_Provider link = provider" "oi_Sub link = sub"
      using sql_table.first_ok [OF links] Pair by blast+
    from run Pair Inr obtain d2 where "db_first (au_accounts A) (\<lambda>r. ac_ID r = oi_AccountID link) d1 = (Inr a, d2)"
      by (auto simp: FindOrCreateByProviderSub_def split: prod.splits sum.splits)
    from sql_table.first_ok [OF auth_db.axioms(1) [OF db] this] l keep1 show ?thesis by auto
  next
    case (Inl err)
    with run Pair have nf: "errors_is err gorm_ErrRecordNotFound"
      by (auto simp: FindOrCreateByProviderSub_def split: if_splits)
    obtain i d2 where u: "au_uuid A d1 = (i, d2)" by fastforce
    with run Pair Inl nf have a: "a = new_account i [] (fd_email F traits) traits"
      and tx: "au_transaction A (oidc_create_tx A provider now sub a) d2 = (None, d')"
      by (auto simp: FindOrCreateByProviderSub_def Let_def split: prod.splits option.splits)
    have keep2: "arows d2 = arows d" using auth_db.uuid_keeps [OF db u] keep1 by simp
    from auth_db.transaction [OF db tx] keep2 obtain e0 e1 where
      e: "arows e0 = arows d" "oidc_create_tx A provider now sub a e0 = (None, e1)" "arows d' = arows e1" by auto
    from e(2) obtain f1 f2 j r where f: "db_create (au_accounts A) a e0 = (None, f1)" "au_uuid A f1 = (j, f2)"
      "db_create (au_oidc_links A) r f2 = (None, e1)"
      by (auto simp: oidc_create_tx_def split: prod.splits option.splits)
    from sql_table.create_ok [OF auth_db.axioms(1) [OF db] f(1)] e(1)
    have new: "ac_ID a \<notin> ac_ID ` set (arows d)" "arows f1 = arows d @ [a]" by (auto simp: insertable_def)
    have "arows e1 = arows f1"
      using auth_db.uuid_keeps [OF db f(2)] leavesD(4) [OF auth_db.other_tables(4) [OF db] f(3)] by simp
    then have "a \<in> set (arows d')" using new(2) e(3) by simp
    moreover have "\<forall>l \<in> set (lrows d). \<not> (oi_Provider l = provider \<and> oi_Sub l = sub)"
      using sql_table.first_none [OF links, OF _ nf] Pair Inl by blast
    moreover have "ac_TenantID a = []" by (simp add: a new_account_def)
    ultimately show ?thesis using new(1) by blast
  qed
qed

definition demo_auth_federation :: "auth_world federation" where
  "demo_auth_federation =
     \<lparr>fd_states = slot_table os_State (\<lambda>_. []) (\<lambda>_ d. d), fd_consume = (\<lambda>body d. body d), fd_email = (\<lambda>_. ''a@b''),
      fd_traits = (\<lambda>_. Inr ''{}''), fd_idp_tenants = [], fd_process = (\<lambda>_ _ _ _ d. (Inr None, d))\<rparr>"

theorem federated_account_by_link_witness:
  "\<exists>a. fst (FindOrCreateByProviderSub demo_service demo_auth_federation ''google'' 7 ''sub-1'' ''{}'' demo_world) = Inr a
     \<and> ac_Email a = ''a@b'' \<and> ac_ID a \<notin> ac_ID ` set (demo_accounts demo_world)"
proof -
  let ?run = "FindOrCreateByProviderSub demo_service demo_auth_federation ''google'' 7 ''sub-1'' ''{}'' demo_world"
  let ?a = "new_account ''s1'' [] ''a@b'' ''{}''"
  have "fst ?run = Inr ?a" by code_simp
  then have run: "?run = (Inr ?a, snd ?run)" by (metis prod.collapse)
  have links: "sql_table (au_oidc_links demo_service) (\<lambda>d. dedup oi_ID (aw_oidc d)) (\<lambda>d. d\<lparr>aw_oidc := []\<rparr>) oi_ID"
    unfolding demo_service_def auth_service.simps by (rule slot_sql_table) simp_all
  have "dedup oi_ID (aw_oidc demo_world) = []" by (simp add: demo_world_def)
  with federated_account_by_link [OF demo_auth.auth_db_axioms links run] \<open>fst ?run = Inr ?a\<close>
  show ?thesis by (auto simp: new_account_def)
qed

end
