(* ===== verification/Directory.thy ===== *)
theory Directory
  imports Tables Ttl_Cache
begin

text \<open>
  The tenant directory, \<^verbatim>\<open>internal/platform/tenancy/directory.go\<close>: which tenants exist and may be
  used. Its table is global; the process keeps what it read for \<open>DirectoryTTL\<close>. Every call of
  \<open>d.now()\<close> is an argument: \<open>now\<close> is the first reading of an operation and \<open>later\<close> the second.
\<close>

definition StatusActive :: string where "StatusActive = ''active''"
definition StatusSuspended :: string where "StatusSuspended = ''suspended''"
definition StatusArchived :: string where "StatusArchived = ''archived''"

record tenant =
  tn_ID :: string
  tn_Name :: string
  tn_Status :: string
  tn_CreatedAt :: int
  tn_UpdatedAt :: int

definition ErrUnknownTenant :: gerr where "ErrUnknownTenant = ErrNew ''tenancy: unknown tenant''"
definition ErrTenantNotActive :: gerr where "ErrTenantNotActive = ErrNew ''tenancy: tenant is not active''"

definition DirectoryTTL :: int where "DirectoryTTL = 60 * 1000000000"

text \<open>A cached answer: the status, and whether the tenant was found at all.\<close>

type_synonym dir_cache = "(string \<times> bool) ttl_cache"

definition remember :: "string \<Rightarrow> (string \<times> bool) \<times> int \<Rightarrow> dir_cache \<Rightarrow> dir_cache" where
  "remember tenantID entry cache = mput tenantID entry cache"

definition dir_invalidate :: "string \<Rightarrow> dir_cache \<Rightarrow> dir_cache" where
  "dir_invalidate tenantID cache = mdel tenantID cache"

definition statusError :: "string \<Rightarrow> string \<Rightarrow> bool \<Rightarrow> gerr option" where
  "statusError tenantID status found =
     (if \<not> found then Some (wrapf ErrUnknownTenant [tenantID])
      else if status \<noteq> StatusActive then Some (wrapf ErrTenantNotActive [tenantID, '' is '', status])
      else None)"

text \<open>
  The cached part of \<open>Check\<close>: what is known about a tenant, or the error of a database that did
  not answer. A tenant that does not exist has the zero status.
\<close>

definition dir_lookup ::
  "(tenant, 'd) dbtable \<Rightarrow> int \<times> int \<Rightarrow> string \<Rightarrow> dir_cache \<Rightarrow> 'd \<Rightarrow> (gerr + string \<times> bool) \<times> dir_cache \<times> 'd" where
  "dir_lookup T clk tenantID cache d =
     (let (now, later) = clk in
      case fresh_entry DirectoryTTL now cache tenantID of
        Some entry \<Rightarrow> (Inr entry, cache, d)
      | None \<Rightarrow>
          (case db_first T (\<lambda>r. tn_ID r = tenantID) d of
             (Inl err, d') \<Rightarrow>
               if errors_is err gorm_ErrRecordNotFound
               then (Inr ([], False), remember tenantID (([], False), later) cache, d')
               else (Inl (prefixf [''tenancy: look up tenant '', tenantID] err), cache, d')
           | (Inr record, d') \<Rightarrow>
               (Inr (tn_Status record, True), remember tenantID ((tn_Status record, True), later) cache, d')))"

definition Directory_Check ::
  "(tenant, 'd) dbtable \<Rightarrow> int \<times> int \<Rightarrow> string \<Rightarrow> dir_cache \<Rightarrow> 'd \<Rightarrow> gerr option \<times> dir_cache \<times> 'd" where
  "Directory_Check T clk tenantID cache d =
     (if tenantID = [] then (Some (wrapf ErrUnknownTenant [''no tenant named'']), cache, d)
      else case dir_lookup T clk tenantID cache d of
        (Inl err, s) \<Rightarrow> (Some err, s)
      | (Inr (status, found), s) \<Rightarrow> (statusError tenantID status found, s))"

definition Provision ::
  "(tenant, 'd) dbtable \<Rightarrow> int \<times> int \<Rightarrow> string \<Rightarrow> string \<Rightarrow> dir_cache \<Rightarrow> 'd \<Rightarrow> gerr option \<times> dir_cache \<times> 'd" where
  "Provision T clk tenantID name cache d =
     (if tenantID = [] then (Some (wrapf ErrUnknownTenant [''cannot provision a tenant with no ID'']), cache, d)
      else case db_first_or_create T (\<lambda>r. tn_ID r = tenantID)
          \<lparr>tn_ID = tenantID, tn_Name = name, tn_Status = StatusActive, tn_CreatedAt = fst clk, tn_UpdatedAt = snd clk\<rparr>
          (\<lambda>r. r) d of
        (Some err, d') \<Rightarrow> (Some (prefixf [''tenancy: provision tenant '', tenantID] err), cache, d')
      | (None, d') \<Rightarrow> (None, dir_invalidate tenantID cache, d'))"

definition SetStatus ::
  "(tenant, 'd) dbtable \<Rightarrow> int \<Rightarrow> string \<Rightarrow> string \<Rightarrow> dir_cache \<Rightarrow> 'd \<Rightarrow> gerr option \<times> dir_cache \<times> 'd" where
  "SetStatus T now tenantID status cache d =
     (case db_update T (\<lambda>r. tn_ID r = tenantID) (\<lambda>r. r\<lparr>tn_Status := status, tn_UpdatedAt := now\<rparr>) d of
        (Inl err, d') \<Rightarrow> (Some (prefixf [''tenancy: set status of '', tenantID] err), cache, d')
      | (Inr affected, d') \<Rightarrow>
          if affected = 0 then (Some (wrapf ErrUnknownTenant [tenantID]), cache, d')
          else (None, dir_invalidate tenantID cache, d'))"

text \<open>The inner resolver is the deployment's; it may read the request and nothing else.\<close>

definition ValidatingResolver_Resolve ::
  "('i \<Rightarrow> gerr + string) \<Rightarrow> (tenant, 'd) dbtable \<Rightarrow> int \<times> int \<Rightarrow> 'i \<Rightarrow> dir_cache \<Rightarrow> 'd
     \<Rightarrow> (gerr + string) \<times> dir_cache \<times> 'd" where
  "ValidatingResolver_Resolve inner T clk info cache d =
     (case inner info of
        Inl err \<Rightarrow> (Inl err, cache, d)
      | Inr tenantID \<Rightarrow>
          if tenantID = [] then (Inr [], cache, d)
          else case Directory_Check T clk tenantID cache d of
            (Some err, s) \<Rightarrow> (Inl err, s)
          | (None, s) \<Rightarrow> (Inr tenantID, s))"

section \<open>What the table says\<close>

definition tenant_entry :: "tenant list \<Rightarrow> string \<Rightarrow> string \<times> bool" where
  "tenant_entry rs tenantID =
     (case find (\<lambda>r. tn_ID r = tenantID) rs of Some r \<Rightarrow> (tn_Status r, True) | None \<Rightarrow> ([], False))"

lemma tenant_entry_member:
  "distinct (map tn_ID rs) \<Longrightarrow> r \<in> set rs \<Longrightarrow> tn_ID r = tenantID \<Longrightarrow> tenant_entry rs tenantID = (tn_Status r, True)"
  by (simp add: tenant_entry_def find_by_key)

lemma tenant_entry_absent: "\<forall>r\<in>set rs. tn_ID r \<noteq> tenantID \<Longrightarrow> tenant_entry rs tenantID = ([], False)"
  by (simp add: tenant_entry_def find_no_key)

text \<open>The tenant table, keyed as migration 00007 keys it.\<close>

locale tenant_table = sql_table T rows rest tn_ID for T :: "(tenant, 'd) dbtable" and rows and rest :: "'d \<Rightarrow> 'e"
begin

lemma dir_lookup_read:
  assumes "fresh_entry DirectoryTTL now c k = None" "dir_lookup T (now, later) k c d = (Inr v, c', d')"
  shows "v = tenant_entry (rows d) k \<and> c' = mput k (v, later) c"
proof (cases "db_first T (\<lambda>r. tn_ID r = k) d")
  case (Pair res d1)
  show ?thesis
  proof (cases res)
    case (Inl e)
    then have "\<forall>r\<in>set (rows d). tn_ID r \<noteq> k"
      using assms Pair first_none[of "\<lambda>r. tn_ID r = k" d e d1] by (auto simp: dir_lookup_def split: if_splits)
    then show ?thesis
      using assms Pair Inl by (auto simp: dir_lookup_def remember_def tenant_entry_absent split: if_splits)
  next
    case (Inr r)
    have "r \<in> set (rows d) \<and> tn_ID r = k" using first_ok Pair Inr by blast
    then show ?thesis
      using assms Pair Inr tenant_entry_member[OF keys_distinct] by (auto simp: dir_lookup_def remember_def)
  qed
qed

lemma dir_lookup_rows:
  "dir_lookup T clk k c d = (res, c', d') \<Longrightarrow> rows d' = rows d"
  using first_rows[of "\<lambda>r. tn_ID r = k" d]
  by (auto simp: dir_lookup_def split: option.splits prod.splits sum.splits if_splits)

lemma lookup_ttl: "ttl_lookup DirectoryTTL (dir_lookup T) (\<lambda>d. tenant_entry (rows d))"
proof (unfold_locales, goal_cases)
  case (2 now c k later d v c' d')
  then show ?case by (rule dir_lookup_read)
next
  case (4 now later k c d res c' d')
  then show ?case using dir_lookup_rows by metis
qed (auto simp: dir_lookup_def split: prod.splits sum.splits if_splits)

end

sublocale tenant_table \<subseteq> dir: ttl_lookup DirectoryTTL "dir_lookup T" "\<lambda>d. tenant_entry (rows d)"
  by (rule lookup_ttl)

interpretation mem_tenants: tenant_table "mem_table tn_ID :: (tenant, tenant list \<times> 'e) dbtable" "mem_rows tn_ID" snd ..

section \<open>Properties\<close>

lemma statusError_None: "statusError k status found = None \<longleftrightarrow> found \<and> status = StatusActive"
  by (simp add: statusError_def)

lemma tenant_entry_active:
  "tenant_entry rs k = (StatusActive, True) \<Longrightarrow> \<exists>r\<in>set rs. tn_ID r = k \<and> tn_Status r = StatusActive"
  by (auto simp: tenant_entry_def split: option.splits dest: find_SomeD)

lemma Directory_Check_None:
  assumes "Directory_Check T clk k c d = (None, c', d')"
  shows "k \<noteq> []" "dir_lookup T clk k c d = (Inr (StatusActive, True), c', d')"
  using assms by (auto simp: Directory_Check_def statusError_None split: if_splits sum.splits prod.splits)

context tenant_table
begin

lemma SetStatus_then_Check:
  assumes "SetStatus T now k status c d = (None, c', d')" "Directory_Check T clk k c' d' = (None, c'', d'')"
  shows "status = StatusActive"
proof -
  let ?f = "\<lambda>r :: tenant. r\<lparr>tn_Status := status, tn_UpdatedAt := now\<rparr>"
  obtain n where u: "db_update T (\<lambda>r. tn_ID r = k) ?f d = (Inr n, d')" "n \<noteq> 0" "c' = mdel k c"
    using assms(1) by (auto simp: SetStatus_def dir_invalidate_def split: sum.splits prod.splits if_splits)
  then have rows': "rows d' = upd_where (\<lambda>r. tn_ID r = k) ?f (rows d)" and "\<exists>r\<in>set (rows d). tn_ID r = k"
    using update_ok[OF u(1)] by (auto simp: filter_empty_conv)
  then obtain r where "r \<in> set (rows d)" "tn_ID r = k" by blast
  then have "?f r \<in> set (rows d')" "tn_ID (?f r) = k" unfolding rows' by (force simp: upd_where_def)+
  from tenant_entry_member[OF keys_distinct this] have "tenant_entry (rows d') k = (status, True)" by simp
  moreover have "fresh_entry DirectoryTTL (fst clk) c' k = None" by (simp add: u(3) fresh_entry_def)
  ultimately show ?thesis
    using dir_lookup_read Directory_Check_None(2)[OF assms(2)] by (metis prod.collapse prod.inject)
qed

lemma Provision_existing:
  assumes "Provision T clk k name c d = (None, c', d')" "r \<in> set (rows d)" "tn_ID r = k"
  shows "rows d' = rows d"
proof -
  obtain rec where "db_first_or_create T (\<lambda>r. tn_ID r = k) rec (\<lambda>r. r) d = (None, d')"
    using assms(1) by (auto simp: Provision_def split: option.splits prod.splits if_splits)
  from foc_ok[OF this] assms(2,3) show ?thesis by (auto simp: upd_where_def split: if_splits)
qed

end

text \<open>
  A tenant is only admitted if it was active a moment ago. However this process and
  others have used and changed the directory before, when \<open>Check\<close> lets a tenant in, then at
  some moment less than \<open>DirectoryTTL\<close> earlier the table held an active row for it. So a
  suspension reaches every process within that time, an unknown tenant is never let in, and a
  database that fails lets nobody in whose admission has run out.
\<close>

theorem Check_admits_recently_active:
  assumes "tenant_table T rows rest"
    and "ttl_run (dir_lookup T) (\<lambda>d. tenant_entry (rows d)) ((t, d) # H) c" and "t \<le> now" and "now \<le> later"
    and "Directory_Check T (now, later) tenantID c d = (None, c', d')"
  shows "\<exists>t0 d0. (t0, d0) \<in> set ((later, d') # (t, d) # H) \<and> now - t0 < DirectoryTTL \<and>
    (\<exists>r\<in>set (rows d0). tn_ID r = tenantID \<and> tn_Status r = StatusActive)"
proof -
  have "0 < DirectoryTTL" by (simp add: DirectoryTTL_def)
  from ttl_lookup.answer_recent[OF tenant_table.lookup_ttl[OF assms(1)] assms(2-4) Directory_Check_None(2)[OF assms(5)] this]
  show ?thesis using tenant_entry_active by metis
qed

definition acme_tenant :: "string \<Rightarrow> tenant" where
  "acme_tenant st = \<lparr>tn_ID = ''acme'', tn_Name = ''Acme'', tn_Status = st, tn_CreatedAt = 0, tn_UpdatedAt = 0\<rparr>"

theorem Check_admits_recently_active_witness:
  "\<exists>t0 d0. (t0, d0) \<in> set [(7, ([acme_tenant StatusActive], ())), (5, ([acme_tenant StatusActive], ()))] \<and>
     6 - t0 < DirectoryTTL \<and> (\<exists>r\<in>set (mem_rows tn_ID d0). tn_ID r = ''acme'' \<and> tn_Status r = StatusActive)"
proof -
  let ?d = "([acme_tenant StatusActive], ())"
  have "Directory_Check (mem_table tn_ID) (6, 7) ''acme'' [] ?d = (None, [(''acme'', (StatusActive, True), 7)], ?d)"
    by (simp add: Directory_Check_def dir_lookup_def fresh_entry_def mem_table_def mem_rows_def acme_tenant_def
        remember_def statusError_def)
  from Check_admits_recently_active[OF mem_tenants.tenant_table_axioms ttl_run.start _ _ this] show ?thesis by auto
qed

text \<open>
  Operator decisions hold. Once \<open>SetStatus\<close> has succeeded, the next check in the same
  process admits the tenant only if the new status is active, whatever was cached; and
  \<open>Provision\<close> of a tenant that exists changes no row, so that a retried provisioning does not
  undo a suspension.
\<close>

theorem operator_decision_holds:
  assumes "tenant_table T rows rest"
  shows "(\<forall>now status clk c c' c'' d d' d''. SetStatus T now tenantID status c d = (None, c', d') \<and>
            Directory_Check T clk tenantID c' d' = (None, c'', d'') \<longrightarrow> status = StatusActive) \<and>
    (\<forall>clk name c c' d d' r. Provision T clk tenantID name c d = (None, c', d') \<and> r \<in> set (rows d) \<and>
            tn_ID r = tenantID \<longrightarrow> rows d' = rows d)"
  using tenant_table.SetStatus_then_Check[OF assms] tenant_table.Provision_existing[OF assms] by blast

theorem operator_decision_holds_witness:
  "mem_rows tn_ID (snd (snd (Provision (mem_table tn_ID) (1, 2) ''acme'' ''Acme'' [] ([acme_tenant StatusSuspended], ())))) =
     [acme_tenant StatusSuspended]"
proof -
  let ?d = "([acme_tenant StatusSuspended], ())"
  let ?run = "Provision (mem_table tn_ID) (1, 2) ''acme'' ''Acme'' [] ?d"
  have "fst ?run = None"
    by (simp add: Provision_def mem_table_def mem_rows_def mem_commit_def acme_tenant_def upd_where_def)
  then obtain c' d' where r: "?run = (None, c', d')" by (cases ?run) auto
  have "rows d' = rows ?d" if "rows = mem_rows tn_ID" for rows :: "tenant list \<times> unit \<Rightarrow> tenant list"
    using operator_decision_holds[OF mem_tenants.tenant_table_axioms, THEN conjunct2, rule_format,
        OF conjI, OF r conjI, of "acme_tenant StatusSuspended"] that
    by (simp add: mem_rows_def acme_tenant_def)
  then show ?thesis using r by (simp add: mem_rows_def)
qed

end
