(* ===== verification/Webhooks.thy ===== *)
theory Webhooks
  imports Sha256
begin

text \<open>
  Webhook deliveries: the model, signing and verification of \<^verbatim>\<open>internal/platform/webhooks/webhook.go\<close> and
  the retry policy and state transition of \<^verbatim>\<open>dispatcher.go\<close>. A \<open>time.Time\<close> is nanoseconds since the Unix
  epoch and a \<open>time.Duration\<close> a 64-bit count of nanoseconds, with the saturation of \<open>Time.Sub\<close>
  and the wrap-around of negation written out. One HTTP exchange is what the receiver and the
  network make of a request: a status code or a transport error.
\<close>

section \<open>Model and signatures (webhook.go)\<close>

record Endpoint =
  ep_ID :: string
  ep_TenantID :: string
  ep_URL :: string
  ep_Events :: string
  ep_Secret :: string
  ep_Active :: bool
  ep_CreatedAt :: int
  ep_UpdatedAt :: int

definition Wants :: "Endpoint \<Rightarrow> string \<Rightarrow> bool" where
  "Wants e event =
     (if \<not> ep_Active e then False
      else if trim_space (ep_Events e) = [] then True
      else list_ex (\<lambda>want. trim_space want = event) (split_on (CHR '','') (ep_Events e)))"

definition StatusPending :: string where "StatusPending = ''pending''"
definition StatusDelivered :: string where "StatusDelivered = ''delivered''"
definition StatusDead :: string where "StatusDead = ''dead''"

record Delivery =
  dv_ID :: string
  dv_TenantID :: string
  dv_EndpointID :: string
  dv_EventID :: string
  dv_Event :: string
  dv_Payload :: string
  dv_Status :: string
  dv_Attempts :: int
  dv_NextAttemptAt :: int
  dv_LastError :: string
  dv_LastStatusCode :: int
  dv_CreatedAt :: int
  dv_UpdatedAt :: int
  dv_DeliveredAt :: "int option"

definition HeaderSignature :: string where "HeaderSignature = ''X-Sannad-Signature''"
definition HeaderTimestamp :: string where "HeaderTimestamp = ''X-Sannad-Timestamp''"
definition HeaderIdempotencyKey :: string where "HeaderIdempotencyKey = ''X-Sannad-Idempotency-Key''"
definition HeaderEvent :: string where "HeaderEvent = ''X-Sannad-Event''"
definition HeaderDelivery :: string where "HeaderDelivery = ''X-Sannad-Delivery''"

definition ErrInvalidSignature :: gerr where "ErrInvalidSignature = ErrNew ''webhooks: signature does not match''"
definition ErrStaleSignature :: gerr where
  "ErrStaleSignature = ErrNew ''webhooks: signature timestamp is outside the tolerance''"

definition time_Unix :: "int \<Rightarrow> int" where "time_Unix t = t div 1000000000"

definition signed_material :: "int \<Rightarrow> string \<Rightarrow> string" where
  "signed_material timestamp payload = itoa (time_Unix timestamp) @ ''.'' @ payload"

definition Sign :: "string \<Rightarrow> int \<Rightarrow> string \<Rightarrow> string" where
  "Sign secret timestamp payload = hex_encode (hmac_sha256 secret (signed_material timestamp payload))"

definition min_duration :: int where "min_duration = - (2 ^ 63)"
definition max_duration :: int where "max_duration = 2 ^ 63 - 1"

text \<open>\<open>Time.Sub\<close> saturates; negating the smallest duration wraps to itself.\<close>

definition time_Sub :: "int \<Rightarrow> int \<Rightarrow> int" where
  "time_Sub t u = max min_duration (min max_duration (t - u))"

definition neg_duration :: "int \<Rightarrow> int" where
  "neg_duration d = (if d = min_duration then min_duration else - d)"

definition Verify :: "string \<Rightarrow> string \<Rightarrow> int \<Rightarrow> string \<Rightarrow> int \<Rightarrow> int \<Rightarrow> gerr option" where
  "Verify secret signature timestamp payload tolerance now =
     (if Sign secret timestamp payload \<noteq> signature then Some ErrInvalidSignature
      else let age = time_Sub now timestamp;
               age = (if age < 0 then neg_duration age else age)
           in if age > tolerance then Some (wrapf ErrStaleSignature [itoa age, ''ns old'']) else None)"

definition DefaultTolerance :: int where "DefaultTolerance = 5 * 60 * 1000000000"

text \<open>\<open>strconv.ParseInt\<close> with base 10 and 64 bits.\<close>

definition is_digit :: "char \<Rightarrow> bool" where
  "is_digit c = (CHR ''0'' \<le> c \<and> c \<le> CHR ''9'')"

definition digits_value :: "string \<Rightarrow> nat" where
  "digits_value ds = foldl (\<lambda>a c. a * 10 + (of_char c - 48)) 0 ds"

definition ParseInt :: "string \<Rightarrow> int option" where
  "ParseInt s =
     (let (neg, ds) = (case s of [] \<Rightarrow> (False, [])
            | c # cs \<Rightarrow> if c = CHR ''-'' then (True, cs) else if c = CHR ''+'' then (False, cs) else (False, s));
          v = (if neg then - int (digits_value ds) else int (digits_value ds))
      in if ds = [] \<or> \<not> list_all is_digit ds \<or> v < - (2 ^ 63) \<or> v \<ge> 2 ^ 63 then None else Some v)"

definition ParseTimestamp :: "string \<Rightarrow> gerr + int" where
  "ParseTimestamp header =
     (case ParseInt (trim_space header) of
        None \<Rightarrow> Inl (ErrNew (''webhooks: invalid timestamp header '' @ go_quote header))
      | Some seconds \<Rightarrow> Inr (seconds * 1000000000))"

section \<open>Retry policy (dispatcher.go)\<close>

definition MaxAttempts :: int where "MaxAttempts = 8"
definition BaseDelay :: int where "BaseDelay = 10 * 1000000000"
definition MaxDelay :: int where "MaxDelay = 6 * 60 * 60 * 1000000000"
definition RequestTimeout :: int where "RequestTimeout = 15 * 1000000000"

text \<open>
  The product of \<open>BaseDelay\<close> and a power of two is exact in \<open>float64\<close>; when it leaves the range of
  a duration its conversion is above \<open>MaxDelay\<close> or negative, depending on the machine, and
  either way the cap is returned.
\<close>

definition BackoffFor :: "int \<Rightarrow> int" where
  "BackoffFor attempt =
     (let attempt = (if attempt < 1 then 1 else attempt);
          delay = BaseDelay * 2 ^ nat (attempt - 1)
      in if delay > MaxDelay then MaxDelay else delay)"

record Outcome =
  oc_StatusCode :: int
  oc_Err :: "gerr option"
  oc_Retryable :: bool

definition retryableStatus :: "int \<Rightarrow> bool" where
  "retryableStatus code = (if code = 408 \<or> code = 429 then True else code \<ge> 500)"

text \<open>
  A request as the receiver gets it, and the exchange: \<open>http.NewRequest\<close> refuses some URLs, and
  \<open>client.Do\<close> returns a status code or an error; \<open>'n\<close> is the network's state.
\<close>

record http_post =
  po_url :: string
  po_headers :: "(string \<times> string) list"
  po_body :: string

definition webhook_post :: "Endpoint \<Rightarrow> Delivery \<Rightarrow> int \<Rightarrow> http_post" where
  "webhook_post endpoint delivery timestamp =
     \<lparr>po_url = ep_URL endpoint,
      po_headers = [(''Content-Type'', ''application/json''),
        (HeaderTimestamp, itoa (time_Unix timestamp)),
        (HeaderSignature, Sign (ep_Secret endpoint) timestamp (dv_Payload delivery)),
        (HeaderEvent, dv_Event delivery), (HeaderDelivery, dv_ID delivery),
        (HeaderIdempotencyKey, dv_EventID delivery)],
      po_body = dv_Payload delivery\<rparr>"

record 'n http_client =
  hc_bad_url :: "string \<Rightarrow> gerr option"
  hc_Do :: "http_post \<Rightarrow> 'n \<Rightarrow> (gerr + int) \<times> 'n"

definition Attempt :: "'n http_client \<Rightarrow> Endpoint \<Rightarrow> Delivery \<Rightarrow> int \<Rightarrow> 'n \<Rightarrow> Outcome \<times> 'n" where
  "Attempt client endpoint delivery timestamp n =
     (case hc_bad_url client (ep_URL endpoint) of
        Some err \<Rightarrow>
          (\<lparr>oc_StatusCode = 0, oc_Err = Some (prefixf [''webhooks: build request''] err), oc_Retryable = False\<rparr>, n)
      | None \<Rightarrow>
          (case hc_Do client (webhook_post endpoint delivery timestamp) n of
             (Inl err, n') \<Rightarrow>
               (\<lparr>oc_StatusCode = 0, oc_Err = Some (prefixf [''webhooks: post to '', ep_URL endpoint] err),
                 oc_Retryable = True\<rparr>, n')
           | (Inr code, n') \<Rightarrow>
               (if 200 \<le> code \<and> code < 300
                then \<lparr>oc_StatusCode = code, oc_Err = None, oc_Retryable = False\<rparr>
                else \<lparr>oc_StatusCode = code,
                      oc_Err = Some (ErrNew (''webhooks: '' @ ep_URL endpoint @ '' returned '' @ itoa code)),
                      oc_Retryable = retryableStatus code\<rparr>, n')))"

definition Advance :: "Delivery \<Rightarrow> Outcome \<Rightarrow> int \<Rightarrow> (int \<Rightarrow> int) \<Rightarrow> bool \<times> Delivery" where
  "Advance delivery outcome now jitter =
     (let d = delivery\<lparr>dv_Attempts := dv_Attempts delivery + 1, dv_UpdatedAt := now,
                       dv_LastStatusCode := oc_StatusCode outcome\<rparr> in
      case oc_Err outcome of
        None \<Rightarrow> (False, d\<lparr>dv_Status := StatusDelivered, dv_LastError := [], dv_DeliveredAt := Some now\<rparr>)
      | Some err \<Rightarrow>
          (let d = d\<lparr>dv_LastError := err_text err\<rparr> in
           if \<not> oc_Retryable outcome \<or> dv_Attempts d \<ge> MaxAttempts
           then (False, d\<lparr>dv_Status := StatusDead\<rparr>)
           else (True, d\<lparr>dv_Status := StatusPending,
                         dv_NextAttemptAt := now + jitter (BackoffFor (dv_Attempts d))\<rparr>)))"

section \<open>Decimal text\<close>

lemma digits10_digits: "c \<in> set (digits10 n) \<Longrightarrow> \<exists>k<10. c = char_of (48 + k :: nat)"
proof (induction n rule: digits10.induct)
  case (1 n)
  then show ?case by (subst (asm) digits10.simps) (force split: if_splits)
qed

lemma digit_char: "k < 10 \<Longrightarrow> is_digit (char_of (48 + k :: nat)) \<and> of_char (char_of (48 + k :: nat)) = 48 + k"
  by (auto simp: is_digit_def less_eq_char_def)

lemma digits10_not_Nil: "digits10 n \<noteq> []"
  by (subst digits10.simps) simp

lemma digits10_all: "list_all is_digit (digits10 n)"
  using digits10_digits digit_char by (fastforce simp: list_all_iff)

lemma digits_value_snoc: "digits_value (ds @ [c]) = digits_value ds * 10 + (of_char c - 48)"
  by (simp add: digits_value_def)

lemma digits_value_digits10: "digits_value (digits10 n) = n"
proof (induction n rule: digits10.induct)
  case (1 n)
  show ?case
  proof (cases "n < 10")
    case True
    then show ?thesis by (subst digits10.simps) (simp add: digits_value_def digit_char)
  next
    case False
    then show ?thesis using 1 by (subst digits10.simps) (simp add: digits_value_snoc digit_char)
  qed
qed

lemma digits10_no: "c \<notin> {CHR ''0''..CHR ''9''} \<Longrightarrow> c \<notin> set (digits10 n)"
  using digits10_all[of n] by (auto simp: list_all_iff is_digit_def)

lemma itoa_chars: "c \<in> set (itoa i) \<Longrightarrow> c = CHR ''-'' \<or> is_digit c"
  using digits10_all by (auto simp: itoa_def list_all_iff split: if_splits)

lemma itoa_no_dot: "CHR ''.'' \<notin> set (itoa i)"
  using itoa_chars[of "CHR ''.''" i] by (auto simp: is_digit_def less_eq_char_def)

lemma digits10_head: "digits10 n = c # cs \<Longrightarrow> is_digit c"
  using digits10_all[of n] by simp

lemma ParseInt_itoa: "- (2 ^ 63) \<le> i \<Longrightarrow> i < 2 ^ 63 \<Longrightarrow> ParseInt (itoa i) = Some i"
proof (cases "i < 0")
  case True
  then show "- (2 ^ 63) \<le> i \<Longrightarrow> ParseInt (itoa i) = Some i"
    by (simp add: ParseInt_def itoa_def digits_value_digits10 digits10_all digits10_not_Nil)
next
  case False
  obtain c cs where c: "digits10 (nat i) = c # cs" using digits10_not_Nil by (meson list.exhaust)
  have d: "c \<noteq> CHR ''-''" "c \<noteq> CHR ''+''" using digits10_head[OF c] by (auto simp: is_digit_def less_eq_char_def)
  have v: "int (digits_value (c # cs)) = i" "list_all is_digit (c # cs)"
    using False c digits_value_digits10[of "nat i"] digits10_all[of "nat i"] by simp_all
  show "i < 2 ^ 63 \<Longrightarrow> ParseInt (itoa i) = Some i"
    using False c d v by (simp add: ParseInt_def itoa_def)
qed

lemma digits10_inj: "digits10 a = digits10 b \<Longrightarrow> a = b"
  by (metis digits_value_digits10)

lemma itoa_inj: "itoa a = itoa b \<Longrightarrow> a = b"
proof -
  have m: "CHR ''-'' # cs \<noteq> digits10 n" for cs n
    using digits10_head[of n "CHR ''-''" cs] by (auto simp: is_digit_def less_eq_char_def)
  assume "itoa a = itoa b"
  then show ?thesis using m m[symmetric] by (auto simp: itoa_def split: if_splits dest!: digits10_inj)
qed

lemma trim_space_id: "\<forall>c\<in>set s. \<not> is_space c \<Longrightarrow> trim_space s = s"
proof -
  assume a: "\<forall>c\<in>set s. \<not> is_space c"
  have "dropWhile is_space t = t" if "\<forall>c\<in>set t. \<not> is_space c" for t using that by (cases t) auto
  from this[of s] this[of "rev s"] show ?thesis using a by (simp add: trim_space_def)
qed

lemma trim_space_itoa: "trim_space (itoa i) = itoa i"
  by (rule trim_space_id) (auto dest!: itoa_chars simp: is_space_def is_digit_def less_eq_char_def)

text \<open>The first dot of the signed material ends the timestamp, so the two parts cannot be shifted.\<close>

lemma signed_material_inj:
  assumes "signed_material t p = signed_material t' p'"
  shows "time_Unix t = time_Unix t'" "p = p'"
proof -
  have "cut (CHR ''.'') (signed_material t p) = cut (CHR ''.'') (signed_material t' p')" using assms by simp
  then have "itoa (time_Unix t) = itoa (time_Unix t') \<and> p = p'"
    by (simp add: signed_material_def cut_append itoa_no_dot)
  then show "time_Unix t = time_Unix t'" "p = p'" using itoa_inj by blast+
qed

lemma hex_digit_inj: "a < 16 \<Longrightarrow> b < 16 \<Longrightarrow> hex_digit a = hex_digit b \<Longrightarrow> a = b"
proof -
  assume "a < 16" "b < 16" "hex_digit a = hex_digit b"
  moreover have "distinct ''0123456789abcdef''" by code_simp
  ultimately show ?thesis by (simp add: hex_digit_def nth_eq_iff_index_eq)
qed

lemma hex_encode_inj: "hex_encode xs = hex_encode ys \<Longrightarrow> xs = ys"
proof (induction xs arbitrary: ys)
  case Nil
  then show ?case by (cases ys) (auto simp: hex_encode_def)
next
  case (Cons x xs)
  then obtain y ys' where y: "ys = y # ys'" by (cases ys) (auto simp: hex_encode_def)
  have "hex_digit (of_char x div 16) = hex_digit (of_char y div 16)" "hex_digit (of_char x mod 16) = hex_digit (of_char y mod 16)"
    "hex_encode xs = hex_encode ys'" using Cons.prems y by (simp_all add: hex_encode_def)
  moreover have "of_char x div 16 < (16 :: nat)" "of_char y div 16 < (16 :: nat)"
    using nat_of_char_less_256[of x] nat_of_char_less_256[of y] by (simp_all add: less_mult_imp_div_less)
  ultimately have "of_char x div 16 = (of_char y div 16 :: nat)" "of_char x mod 16 = (of_char y mod 16 :: nat)"
    by (auto intro: hex_digit_inj)
  then have "of_char x = (of_char y :: nat)" by (metis div_mult_mod_eq)
  then show ?case using y Cons.IH[of ys'] \<open>hex_encode xs = hex_encode ys'\<close> by simp
qed

lemma Sign_eq_iff:
  "Sign secret t p = Sign secret t' p' \<longleftrightarrow>
     hmac_sha256 secret (signed_material t p) = hmac_sha256 secret (signed_material t' p')"
  by (auto simp: Sign_def dest: hex_encode_inj)

section \<open>What a receiver may rely on\<close>

text \<open>A header the sender writes is read back as the second it names.\<close>

lemma ParseTimestamp_header:
  assumes "- (2 ^ 63) \<le> time_Unix t" and "time_Unix t < 2 ^ 63"
  shows "ParseTimestamp (itoa (time_Unix t)) = Inr (time_Unix t * 1000000000)"
  using assms by (simp add: ParseTimestamp_def trim_space_itoa ParseInt_itoa)

lemma time_Unix_seconds [simp]: "time_Unix (s * 1000000000) = s"
  by (simp add: time_Unix_def)

lemma Verify_Sign:
  assumes "hmac_sha256 secret (signed_material ts payload) = hmac_sha256 secret (signed_material ts' payload')
             \<longrightarrow> signed_material ts payload = signed_material ts' payload'"
  shows "Sign secret ts' payload' = Sign secret ts payload \<longleftrightarrow> time_Unix ts' = time_Unix ts \<and> payload' = payload"
proof
  assume "Sign secret ts' payload' = Sign secret ts payload"
  then have "signed_material ts payload = signed_material ts' payload'" using assms unfolding Sign_eq_iff by metis
  from signed_material_inj[OF this] show "time_Unix ts' = time_Unix ts \<and> payload' = payload" by simp
next
  assume "time_Unix ts' = time_Unix ts \<and> payload' = payload"
  then have "signed_material ts payload = signed_material ts' payload'" unfolding signed_material_def by simp
  then show "Sign secret ts' payload' = Sign secret ts payload" unfolding Sign_eq_iff by metis
qed

text \<open>
  The exact decision of \<open>Verify\<close>. A timestamp 2^63 nanoseconds (292 years) or more ahead of the
  receiver's clock is accepted: the age saturates, and negating it leaves it negative.
\<close>

lemma Verify_exact:
  assumes "0 \<le> tolerance" and "tolerance < max_duration"
  shows "Verify secret signature timestamp payload tolerance now = None \<longleftrightarrow>
           Sign secret timestamp payload = signature \<and>
           (\<bar>now - timestamp\<bar> \<le> tolerance \<or> timestamp - now \<ge> 2 ^ 63)"
  using assms
  by (auto simp: Verify_def Let_def time_Sub_def neg_duration_def min_duration_def max_duration_def)

text \<open>One delivery carried through the outcomes of its attempts, until it is no longer pending.\<close>

fun retry_run :: "(int \<Rightarrow> int) \<Rightarrow> Delivery \<Rightarrow> (Outcome \<times> int) list \<Rightarrow> Delivery" where
  "retry_run jitter d [] = d"
| "retry_run jitter d ((o1, now) # xs) =
     (if dv_Status d = StatusPending then retry_run jitter (snd (Advance d o1 now jitter)) xs else d)"

definition accepted :: "Outcome \<Rightarrow> bool" where "accepted o1 = (oc_Err o1 = None)"
definition transient :: "Outcome \<Rightarrow> bool" where "transient o1 = (oc_Err o1 \<noteq> None \<and> oc_Retryable o1)"

lemma status_distinct [simp]:
  "StatusPending \<noteq> StatusDelivered" "StatusPending \<noteq> StatusDead" "StatusDelivered \<noteq> StatusDead"
  "StatusDelivered \<noteq> StatusPending" "StatusDead \<noteq> StatusPending" "StatusDead \<noteq> StatusDelivered"
  by (simp_all add: StatusPending_def StatusDelivered_def StatusDead_def)

lemma retry_run_settled: "dv_Status d \<noteq> StatusPending \<Longrightarrow> retry_run jitter d xs = d"
  by (cases xs) auto

lemma Advance_status:
  "dv_Status (snd (Advance d o1 now jitter)) =
     (if accepted o1 then StatusDelivered
      else if transient o1 \<and> dv_Attempts d + 1 < MaxAttempts then StatusPending else StatusDead)"
  by (auto simp: Advance_def Let_def accepted_def transient_def split: option.splits)

lemma Advance_attempts: "dv_Attempts (snd (Advance d o1 now jitter)) = dv_Attempts d + 1"
  by (auto simp: Advance_def Let_def split: option.splits)

text \<open>Which outcome, if any, delivers within a budget of attempts.\<close>

fun delivered_within :: "nat \<Rightarrow> Outcome list \<Rightarrow> bool" where
  "delivered_within 0 os = False"
| "delivered_within (Suc n) [] = False"
| "delivered_within (Suc n) (o1 # os) = (accepted o1 \<or> transient o1 \<and> delivered_within n os)"

lemma delivered_within_iff:
  "delivered_within n os \<longleftrightarrow> (\<exists>i. i < n \<and> i < length os \<and> accepted (os ! i) \<and> (\<forall>j<i. transient (os ! j)))"
proof (induction n os rule: delivered_within.induct)
  case (3 n o1 os)
  have "(\<exists>i. i < Suc n \<and> i < length (o1 # os) \<and> accepted ((o1 # os) ! i) \<and> (\<forall>j<i. transient ((o1 # os) ! j))) \<longleftrightarrow>
      accepted o1 \<or> transient o1 \<and> (\<exists>i. i < n \<and> i < length os \<and> accepted (os ! i) \<and> (\<forall>j<i. transient (os ! j)))"
    unfolding Ex_less_Suc2 by (auto simp: All_less_Suc2)
  then show ?case using 3 by simp
qed auto

lemma retry_run_outcome:
  assumes "dv_Status d = StatusPending" and "dv_Attempts d = MaxAttempts - int n" and "0 < n"
    and "n \<le> length xs"
  shows "dv_Status (retry_run jitter d xs) =
           (if delivered_within n (map fst xs) then StatusDelivered else StatusDead) \<and>
         dv_Attempts d < dv_Attempts (retry_run jitter d xs) \<and> dv_Attempts (retry_run jitter d xs) \<le> MaxAttempts"
  using assms
proof (induction n arbitrary: d xs)
  case (Suc n)
  then obtain o1 now ys where xs: "xs = (o1, now) # ys" by (cases xs) auto
  let ?d = "snd (Advance d o1 now jitter)"
  have run: "retry_run jitter d xs = retry_run jitter ?d ys" using xs Suc.prems by simp
  show ?case
  proof (cases "dv_Status ?d = StatusPending")
    case True
    then have "transient o1" "\<not> accepted o1" "0 < n" "dv_Attempts ?d = MaxAttempts - int n"
      using Suc.prems by (auto simp: Advance_status Advance_attempts split: if_splits)
    then show ?thesis using Suc.IH[of ?d ys] True run xs Suc.prems by (auto simp: Advance_attempts)
  next
    case False
    then show ?thesis using Suc.prems xs run retry_run_settled[of ?d]
      by (cases n) (auto simp: Advance_status Advance_attempts transient_def accepted_def split: if_splits)
  qed
qed simp

lemma BackoffFor_bounds: "BaseDelay \<le> BackoffFor n \<and> BackoffFor n \<le> MaxDelay"
proof -
  have "BaseDelay * 1 \<le> BaseDelay * 2 ^ k" for k
    by (rule mult_left_mono) (auto simp: BaseDelay_def)
  then show ?thesis by (simp add: BackoffFor_def Let_def BaseDelay_def MaxDelay_def)
qed

lemma Advance_next_attempt:
  assumes "fst (Advance d o1 now id)"
  shows "dv_NextAttemptAt (snd (Advance d o1 now id)) \<in> {now + BaseDelay..now + MaxDelay}"
  using assms BackoffFor_bounds[of "dv_Attempts d + 1"]
  by (auto simp: Advance_def Let_def split: option.splits if_splits)

text \<open>The intervals of the seven retries add up to 1270 seconds, not a day.\<close>

lemma retry_schedule: "sum_list (map BackoffFor [1, 2, 3, 4, 5, 6, 7]) = 1270 * 1000000000"
  by (simp add: BackoffFor_def BaseDelay_def MaxDelay_def)

section \<open>Properties\<close>

text \<open>
  C37: A delivery that is pending with no attempts is settled by at most eight of them: it becomes
  delivered exactly when one of the first eight outcomes is accepted and every earlier one was a
  failure worth retrying, and it becomes dead otherwise.
\<close>

theorem delivery_settles:
  assumes "dv_Status d = StatusPending" and "dv_Attempts d = 0" and "8 \<le> length xs"
  shows "dv_Status (retry_run jitter d xs) =
           (if \<exists>i<8. accepted (fst (xs ! i)) \<and> (\<forall>j<i. transient (fst (xs ! j))) then StatusDelivered else StatusDead) \<and>
         dv_Attempts (retry_run jitter d xs) \<in> {1..8}"
proof -
  have "(\<exists>i<8. accepted (fst (xs ! i)) \<and> (\<forall>j<i. transient (fst (xs ! j)))) \<longleftrightarrow> delivered_within 8 (map fst xs)"
    unfolding delivered_within_iff using assms(3) by (auto cong: conj_cong)
  moreover have "dv_Attempts d = MaxAttempts - int 8" using assms by (simp add: MaxAttempts_def)
  ultimately show ?thesis
    using retry_run_outcome[of d 8 xs jitter] assms by (auto simp: MaxAttempts_def)
qed

definition sample_delivery :: Delivery where
  "sample_delivery = \<lparr>dv_ID = ''d1'', dv_TenantID = ''acme'', dv_EndpointID = ''e1'', dv_EventID = ''acme-7'',
     dv_Event = ''order.placed'', dv_Payload = ''{}'', dv_Status = StatusPending, dv_Attempts = 0,
     dv_NextAttemptAt = 0, dv_LastError = [], dv_LastStatusCode = 0, dv_CreatedAt = 0, dv_UpdatedAt = 0,
     dv_DeliveredAt = None\<rparr>"

definition sample_503 :: Outcome where
  "sample_503 = \<lparr>oc_StatusCode = 503, oc_Err = Some (ErrNew ''503''), oc_Retryable = True\<rparr>"

definition sample_200 :: Outcome where
  "sample_200 = \<lparr>oc_StatusCode = 200, oc_Err = None, oc_Retryable = False\<rparr>"

theorem delivery_settles_witness:
  "dv_Status (retry_run (\<lambda>x. x) sample_delivery (replicate 7 (sample_503, 0) @ [(sample_200, 0)])) = StatusDelivered"
proof -
  let ?xs = "replicate 7 (sample_503, 0) @ [(sample_200, 0)] :: (Outcome \<times> int) list"
  have "accepted (fst (?xs ! 7)) \<and> (\<forall>j<7. transient (fst (?xs ! j)))"
    by (simp add: nth_append accepted_def transient_def sample_503_def sample_200_def)
  then have "\<exists>i<8. accepted (fst (?xs ! i)) \<and> (\<forall>j<i. transient (fst (?xs ! j)))" by (intro exI[of _ 7]) simp
  then show ?thesis
    using delivery_settles[of sample_delivery ?xs "\<lambda>x. x"] by (simp add: sample_delivery_def)
qed

definition no_collision :: "string \<Rightarrow> string \<Rightarrow> string \<Rightarrow> bool" where
  "no_collision secret m m' = (hmac_sha256 secret m = hmac_sha256 secret m' \<longrightarrow> m = m')"

definition header_of :: "string \<Rightarrow> http_post \<Rightarrow> string" where
  "header_of h post = (case map_of (po_headers post) h of Some v \<Rightarrow> v | None \<Rightarrow> [])"

text \<open>
  What a receiver of a delivery can conclude from its headers. The timestamp header is read back
  as the second of the attempt; and when the two messages at hand do not collide under HMAC-SHA-256,
  the signature header verifies a second and a body only if they are the ones that were sent, and
  only while the second is within the tolerance of the receiver's clock, or 292 years ahead of it.
\<close>

theorem webhook_headers_bind:
  assumes "- (2 ^ 63) \<le> time_Unix ts" and "time_Unix ts < 2 ^ 63" and "0 \<le> tol" and "tol < max_duration"
    and "no_collision (ep_Secret e) (signed_material ts (dv_Payload d)) (signed_material ts' payload')"
  shows "ParseTimestamp (header_of HeaderTimestamp (webhook_post e d ts)) = Inr (time_Unix ts * 1000000000) \<and>
    (Verify (ep_Secret e) (header_of HeaderSignature (webhook_post e d ts)) ts' payload' tol now = None \<longleftrightarrow>
       time_Unix ts' = time_Unix ts \<and> payload' = dv_Payload d \<and>
       (\<bar>now - ts'\<bar> \<le> tol \<or> ts' - now \<ge> 2 ^ 63))"
proof -
  have h: "header_of HeaderTimestamp (webhook_post e d ts) = itoa (time_Unix ts)"
    "header_of HeaderSignature (webhook_post e d ts) = Sign (ep_Secret e) ts (dv_Payload d)"
    by (simp_all add: header_of_def webhook_post_def HeaderTimestamp_def HeaderSignature_def)
  show ?thesis unfolding h Verify_exact[OF assms(3,4)]
    using ParseTimestamp_header[OF assms(1,2)]
      Verify_Sign[OF assms(5)[unfolded no_collision_def]] by metis
qed

definition sample_endpoint :: Endpoint where
  "sample_endpoint = \<lparr>ep_ID = ''e1'', ep_TenantID = ''acme'', ep_URL = ''https://example.test/hook'', ep_Events = [],
     ep_Secret = ''whsec_00'', ep_Active = True, ep_CreatedAt = 0, ep_UpdatedAt = 0\<rparr>"

theorem webhook_headers_bind_witness:
  "Verify (ep_Secret sample_endpoint) (header_of HeaderSignature (webhook_post sample_endpoint sample_delivery 1700000000000000001))
     1700000000000000000 (dv_Payload sample_delivery) DefaultTolerance 1700000100000000000 = None"
  using webhook_headers_bind[of 1700000000000000001 DefaultTolerance sample_endpoint sample_delivery
      1700000000000000000 "dv_Payload sample_delivery" 1700000100000000000]
  by (simp add: time_Unix_def DefaultTolerance_def max_duration_def no_collision_def signed_material_def)

end
