(* ===== verification/Webhook_Runner.thy ===== *)
theory Webhook_Runner
  imports Webhooks Idempotency Events
begin

text \<open>
  The webhook queue: \<^verbatim>\<open>internal/platform/webhooks/runner.go\<close> (events become delivery rows, a worker
  drains them, an operator replays them), \<^verbatim>\<open>endpoints.go\<close> (registration of receivers) and
  \<^verbatim>\<open>consumer.go\<close> (the subscription and the drain loop), over the storage contract.

  The clock reads the world; a fresh UUID, random bytes and an HTTP exchange take it to a new one.
\<close>

section \<open>Rows\<close>

definition WebhookEndpoint :: rtype where "WebhookEndpoint = TStruct ''webhook_endpoints'' True"
definition WebhookDelivery :: rtype where "WebhookDelivery = TStruct ''webhook_deliveries'' True"

text \<open>The keys the migration declares: the identifiers, and one delivery per endpoint and event.\<close>

definition webhook_pk :: "string \<Rightarrow> string list list" where
  "webhook_pk table =
     (if table = ''webhook_endpoints'' then [[''id'']]
      else if table = ''webhook_deliveries'' then [[''id''], [''endpoint_id'', ''event_id'']]
      else [])"

definition endpoint_row :: "Endpoint \<Rightarrow> row" where
  "endpoint_row e =
     [(''id'', CStr (ep_ID e)), (''tenant_id'', CStr (ep_TenantID e)), (''url'', CStr (ep_URL e)),
      (''events'', CStr (ep_Events e)), (''secret'', CStr (ep_Secret e)),
      (''active'', CInt (if ep_Active e then 1 else 0)), (''created_at'', CTime (ep_CreatedAt e)),
      (''updated_at'', CTime (ep_UpdatedAt e))]"

definition row_endpoint :: "row \<Rightarrow> Endpoint" where
  "row_endpoint r =
     \<lparr>ep_ID = col_str r ''id'', ep_TenantID = col_str r ''tenant_id'', ep_URL = col_str r ''url'',
      ep_Events = col_str r ''events'', ep_Secret = col_str r ''secret'', ep_Active = (col_int r ''active'' \<noteq> 0),
      ep_CreatedAt = col_time r ''created_at'', ep_UpdatedAt = col_time r ''updated_at''\<rparr>"

definition delivery_row :: "Delivery \<Rightarrow> row" where
  "delivery_row d =
     [(''id'', CStr (dv_ID d)), (''tenant_id'', CStr (dv_TenantID d)), (''endpoint_id'', CStr (dv_EndpointID d)),
      (''event_id'', CStr (dv_EventID d)), (''event'', CStr (dv_Event d)), (''payload'', CStr (dv_Payload d)),
      (''status'', CStr (dv_Status d)), (''attempts'', CInt (dv_Attempts d)),
      (''next_attempt_at'', CTime (dv_NextAttemptAt d)), (''last_error'', CStr (dv_LastError d)),
      (''last_status_code'', CInt (dv_LastStatusCode d)), (''created_at'', CTime (dv_CreatedAt d)),
      (''updated_at'', CTime (dv_UpdatedAt d)),
      (''delivered_at'', case dv_DeliveredAt d of None \<Rightarrow> CNull | Some t \<Rightarrow> CTime t)]"

definition row_delivery :: "row \<Rightarrow> Delivery" where
  "row_delivery r =
     \<lparr>dv_ID = col_str r ''id'', dv_TenantID = col_str r ''tenant_id'', dv_EndpointID = col_str r ''endpoint_id'',
      dv_EventID = col_str r ''event_id'', dv_Event = col_str r ''event'', dv_Payload = col_str r ''payload'',
      dv_Status = col_str r ''status'', dv_Attempts = col_int r ''attempts'',
      dv_NextAttemptAt = col_time r ''next_attempt_at'', dv_LastError = col_str r ''last_error'',
      dv_LastStatusCode = col_int r ''last_status_code'', dv_CreatedAt = col_time r ''created_at'',
      dv_UpdatedAt = col_time r ''updated_at'',
      dv_DeliveredAt = (case mget r ''delivered_at'' of Some (CTime t) \<Rightarrow> Some t | _ \<Rightarrow> None)\<rparr>"

section \<open>The runner (runner.go)\<close>

text \<open>\<open>rn_uuid\<close> is \<open>uuid.NewString\<close> and \<open>rn_rand n\<close> is \<open>rand.Read\<close> into a buffer of n bytes.\<close>

record 'd runner =
  rn_store :: "'d store"
  rn_client :: "'d http_client"
  rn_now :: "'d \<Rightarrow> int"
  rn_jitter :: "'d \<Rightarrow> int \<Rightarrow> int"
  rn_uuid :: "'d \<Rightarrow> string \<times> 'd"
  rn_rand :: "nat \<Rightarrow> 'd \<Rightarrow> (gerr + string) \<times> 'd"

definition isDuplicate :: "gerr \<Rightarrow> bool" where
  "isDuplicate err = errors_is err ErrDuplicate"

definition eventIdentity :: "'d runner \<Rightarrow> delivery \<Rightarrow> 'd \<Rightarrow> string \<times> 'd" where
  "eventIdentity r dl d =
     (if dl_sequence dl > 0 then (dl_tenant dl @ ''-'' @ itoa (int (dl_sequence dl)), d) else rn_uuid r d)"

definition queued_delivery :: "string \<Rightarrow> Endpoint \<Rightarrow> string \<Rightarrow> delivery \<Rightarrow> int \<Rightarrow> Delivery" where
  "queued_delivery i endpoint eventID dl now =
     \<lparr>dv_ID = i, dv_TenantID = [], dv_EndpointID = ep_ID endpoint, dv_EventID = eventID, dv_Event = dl_event dl,
      dv_Payload = dl_data dl, dv_Status = StatusPending, dv_Attempts = 0, dv_NextAttemptAt = now,
      dv_LastError = [], dv_LastStatusCode = 0, dv_CreatedAt = now, dv_UpdatedAt = now, dv_DeliveredAt = None\<rparr>"

fun enqueue_rows ::
  "'d runner \<Rightarrow> go_ctx \<Rightarrow> delivery \<Rightarrow> string \<Rightarrow> Endpoint list \<Rightarrow> 'd \<Rightarrow> gerr option \<times> 'd" where
  "enqueue_rows r ctx dl eventID [] d = (None, d)"
| "enqueue_rows r ctx dl eventID (endpoint # rest) d =
     (if \<not> Wants endpoint (dl_event dl) then enqueue_rows r ctx dl eventID rest d
      else (case rn_uuid r d of
        (i, d1) \<Rightarrow> (case Create (rn_store r) ctx (zero_model (TPtr WebhookDelivery))
             (RPtr (Some (RStruct True (delivery_row (queued_delivery i endpoint eventID dl (rn_now r d1)))))) d1 of
           (Some err, d2) \<Rightarrow>
             if isDuplicate err then enqueue_rows r ctx dl eventID rest d2
             else (Some (prefixf [''webhooks: queue delivery for '', ep_ID endpoint] err), d2)
         | (None, d2) \<Rightarrow> enqueue_rows r ctx dl eventID rest d2)))"

definition Enqueue :: "'d runner \<Rightarrow> go_ctx \<Rightarrow> delivery \<Rightarrow> 'd \<Rightarrow> gerr option \<times> 'd" where
  "Enqueue r ctx dl d =
     (case Find (rn_store r) ctx (zero_model (TPtr (TSlice WebhookEndpoint))) [Where ''active'' (CInt 1)] d of
        (Inl err, d1) \<Rightarrow> (Some (prefixf [''webhooks: list endpoints''] err), d1)
      | (Inr rows, d1) \<Rightarrow>
          (case eventIdentity r dl d1 of
             (eventID, d2) \<Rightarrow> enqueue_rows r ctx dl eventID (map row_endpoint rows) d2))"

definition save_changes :: "Delivery \<Rightarrow> row" where
  "save_changes dv =
     [(''status'', CStr (dv_Status dv)), (''attempts'', CInt (dv_Attempts dv)),
      (''next_attempt_at'', CTime (dv_NextAttemptAt dv)), (''last_error'', CStr (dv_LastError dv)),
      (''last_status_code'', CInt (dv_LastStatusCode dv)), (''updated_at'', CTime (dv_UpdatedAt dv))] @
     (case dv_DeliveredAt dv of None \<Rightarrow> [] | Some t \<Rightarrow> [(''delivered_at'', CTime t)])"

definition save_delivery :: "'d runner \<Rightarrow> go_ctx \<Rightarrow> Delivery \<Rightarrow> 'd \<Rightarrow> gerr option \<times> 'd" where
  "save_delivery r ctx dv d =
     (case Update (rn_store r) ctx (zero_model (TPtr WebhookDelivery)) (save_changes dv)
             [Where ''id'' (CStr (dv_ID dv))] d of
        (Some err, d') \<Rightarrow> (Some (prefixf [''webhooks: save delivery '', dv_ID dv] err), d')
      | (None, d') \<Rightarrow> (None, d'))"

text \<open>What one pass makes of one due delivery: the row it will save.\<close>

definition drain_one :: "'d runner \<Rightarrow> go_ctx \<Rightarrow> int \<Rightarrow> Delivery \<Rightarrow> 'd \<Rightarrow> Delivery \<times> 'd" where
  "drain_one r ctx now dv d =
     (case First (rn_store r) ctx (zero_model (TPtr WebhookEndpoint)) [Where ''id'' (CStr (dv_EndpointID dv))] d of
        (Inl err, d1) \<Rightarrow>
          (dv\<lparr>dv_Status := StatusDead, dv_LastError := ''endpoint no longer exists'', dv_UpdatedAt := now\<rparr>, d1)
      | (Inr row, d1) \<Rightarrow>
          (case Attempt (rn_client r) (row_endpoint row) dv (rn_now r d1) d1 of
             (outcome, d2) \<Rightarrow> (snd (Advance dv outcome (rn_now r d2) (rn_jitter r d2)), d2)))"

fun drain_rows ::
  "'d runner \<Rightarrow> go_ctx \<Rightarrow> int \<Rightarrow> Delivery list \<Rightarrow> int \<Rightarrow> 'd \<Rightarrow> (int \<times> gerr option) \<times> 'd" where
  "drain_rows r ctx now [] handled d = ((handled, None), d)"
| "drain_rows r ctx now (dv # rest) handled d =
     (case drain_one r ctx now dv d of
        (dv', d1) \<Rightarrow> (case save_delivery r ctx dv' d1 of
           (Some err, d2) \<Rightarrow> ((handled, Some err), d2)
         | (None, d2) \<Rightarrow> drain_rows r ctx now rest (handled + 1) d2))"

definition DrainOnce :: "'d runner \<Rightarrow> go_ctx \<Rightarrow> int \<Rightarrow> 'd \<Rightarrow> (int \<times> gerr option) \<times> 'd" where
  "DrainOnce r ctx limit d =
     (let now = rn_now r d in
      case Find (rn_store r) ctx (zero_model (TPtr (TSlice WebhookDelivery)))
             [Where ''status'' (CStr StatusPending), Compare ''next_attempt_at'' OpLessEqual (CTime now)] d of
        (Inl err, d1) \<Rightarrow> ((0, Some (prefixf [''webhooks: list due deliveries''] err)), d1)
      | (Inr rows, d1) \<Rightarrow>
          (let due = map row_delivery rows;
               due = (if limit > 0 \<and> int (length due) > limit then take (nat limit) due else due)
           in drain_rows r ctx now due 0 d1))"

definition Replay :: "'d runner \<Rightarrow> go_ctx \<Rightarrow> string \<Rightarrow> 'd \<Rightarrow> gerr option \<times> 'd" where
  "Replay r ctx deliveryID d =
     (case First (rn_store r) ctx (zero_model (TPtr WebhookDelivery)) [Where ''id'' (CStr deliveryID)] d of
        (Inl err, d1) \<Rightarrow> (Some (prefixf [''webhooks: read delivery '', deliveryID] err), d1)
      | (Inr row, d1) \<Rightarrow>
          if dv_Status (row_delivery row) = StatusDelivered
          then (Some (ErrNew (''webhooks: delivery '' @ deliveryID @ '' was already delivered'')), d1)
          else (let now = rn_now r d1 in
                Update (rn_store r) ctx (zero_model (TPtr WebhookDelivery))
                  [(''status'', CStr StatusPending), (''attempts'', CInt 0), (''next_attempt_at'', CTime now),
                   (''last_error'', CStr []), (''updated_at'', CTime now)]
                  [Where ''id'' (CStr deliveryID)] d1))"

fun replay_rows :: "'d runner \<Rightarrow> go_ctx \<Rightarrow> Delivery list \<Rightarrow> int \<Rightarrow> 'd \<Rightarrow> (int \<times> gerr option) \<times> 'd" where
  "replay_rows r ctx [] i d = ((i, None), d)"
| "replay_rows r ctx (dv # rest) i d =
     (case Replay r ctx (dv_ID dv) d of
        (Some err, d1) \<Rightarrow> ((i, Some err), d1)
      | (None, d1) \<Rightarrow> replay_rows r ctx rest (i + 1) d1)"

definition ReplayEndpoint :: "'d runner \<Rightarrow> go_ctx \<Rightarrow> string \<Rightarrow> 'd \<Rightarrow> (int \<times> gerr option) \<times> 'd" where
  "ReplayEndpoint r ctx endpointID d =
     (case Find (rn_store r) ctx (zero_model (TPtr (TSlice WebhookDelivery)))
             [Where ''endpoint_id'' (CStr endpointID), Where ''status'' (CStr StatusDead)] d of
        (Inl err, d1) \<Rightarrow> ((0, Some (prefixf [''webhooks: list dead deliveries''] err)), d1)
      | (Inr rows, d1) \<Rightarrow> replay_rows r ctx (map row_delivery rows) 0 d1)"

section \<open>Endpoints (endpoints.go)\<close>

definition generateSecret :: "'d runner \<Rightarrow> 'd \<Rightarrow> (gerr + string) \<times> 'd" where
  "generateSecret r d =
     (case rn_rand r 32 d of
        (Inl err, d') \<Rightarrow> (Inl err, d')
      | (Inr buf, d') \<Rightarrow> (Inr (''whsec_'' @ hex_encode buf), d'))"

record CreateEndpointRequest =
  cr_URL :: string
  cr_Events :: string

definition CreateEndpoint :: "'d runner \<Rightarrow> go_ctx \<Rightarrow> CreateEndpointRequest \<Rightarrow> 'd \<Rightarrow> (gerr + Endpoint) \<times> 'd" where
  "CreateEndpoint r ctx req d =
     (if trim_space (cr_URL req) = [] then (Inl (ErrNew ''webhooks: endpoint URL is required''), d)
      else if \<not> has_prefix (cr_URL req) ''https://'' \<and> \<not> has_prefix (cr_URL req) ''http://''
      then (Inl (ErrNew ''webhooks: endpoint URL must be http(s)''), d)
      else (case generateSecret r d of
        (Inl err, d1) \<Rightarrow> (Inl (prefixf [''webhooks: generate secret''] err), d1)
      | (Inr secret, d1) \<Rightarrow>
          (let now = rn_now r d1; (i, d2) = rn_uuid r d1;
               endpoint = \<lparr>ep_ID = i, ep_TenantID = [], ep_URL = cr_URL req, ep_Events = cr_Events req,
                 ep_Secret = secret, ep_Active = True, ep_CreatedAt = now, ep_UpdatedAt = now\<rparr>
           in case Create (rn_store r) ctx (zero_model (TPtr WebhookEndpoint))
                     (RPtr (Some (RStruct True (endpoint_row endpoint)))) d2 of
                (Some err, d3) \<Rightarrow> (Inl (prefixf [''webhooks: create endpoint''] err), d3)
              | (None, d3) \<Rightarrow> (Inr (endpoint\<lparr>ep_TenantID := row_tenant (stamped ctx True (endpoint_row endpoint))\<rparr>), d3))))"

definition ListEndpoints :: "'d runner \<Rightarrow> go_ctx \<Rightarrow> 'd \<Rightarrow> (gerr + Endpoint list) \<times> 'd" where
  "ListEndpoints r ctx d =
     (case Find (rn_store r) ctx (zero_model (TPtr (TSlice WebhookEndpoint))) [] d of
        (Inl err, d') \<Rightarrow> (Inl (prefixf [''webhooks: list endpoints''] err), d')
      | (Inr rows, d') \<Rightarrow> (Inr (map row_endpoint rows), d'))"

definition GetEndpoint :: "'d runner \<Rightarrow> go_ctx \<Rightarrow> string \<Rightarrow> 'd \<Rightarrow> (gerr + Endpoint) \<times> 'd" where
  "GetEndpoint r ctx i d =
     (case First (rn_store r) ctx (zero_model (TPtr WebhookEndpoint)) [Where ''id'' (CStr i)] d of
        (Inl err, d') \<Rightarrow> (Inl (prefixf [''webhooks: get endpoint '', i] err), d')
      | (Inr row, d') \<Rightarrow> (Inr (row_endpoint row), d'))"

record UpdateEndpointRequest =
  up_URL :: "string option"
  up_Events :: "string option"
  up_Active :: "bool option"

definition UpdateEndpoint :: "'d runner \<Rightarrow> go_ctx \<Rightarrow> string \<Rightarrow> UpdateEndpointRequest \<Rightarrow> 'd \<Rightarrow> gerr option \<times> 'd" where
  "UpdateEndpoint r ctx i req d =
     (if (case up_URL req of Some u \<Rightarrow> trim_space u = [] | None \<Rightarrow> False)
      then (Some (ErrNew ''webhooks: endpoint URL cannot be empty''), d)
      else let changes = [(''updated_at'', CTime (rn_now r d))] @
                 (case up_URL req of Some u \<Rightarrow> [(''url'', CStr u)] | None \<Rightarrow> []) @
                 (case up_Events req of Some e \<Rightarrow> [(''events'', CStr e)] | None \<Rightarrow> []) @
                 (case up_Active req of Some b \<Rightarrow> [(''active'', CInt (if b then 1 else 0))] | None \<Rightarrow> [])
           in case Update (rn_store r) ctx (zero_model (TPtr WebhookEndpoint)) changes [Where ''id'' (CStr i)] d of
                (Some err, d') \<Rightarrow> (Some (prefixf [''webhooks: update endpoint '', i] err), d')
              | (None, d') \<Rightarrow> (None, d'))"

definition RotateSecret :: "'d runner \<Rightarrow> go_ctx \<Rightarrow> string \<Rightarrow> 'd \<Rightarrow> (gerr + string) \<times> 'd" where
  "RotateSecret r ctx i d =
     (case generateSecret r d of
        (Inl err, d1) \<Rightarrow> (Inl (prefixf [''webhooks: generate secret''] err), d1)
      | (Inr secret, d1) \<Rightarrow>
          (case Update (rn_store r) ctx (zero_model (TPtr WebhookEndpoint))
                  [(''secret'', CStr secret), (''updated_at'', CTime (rn_now r d1))] [Where ''id'' (CStr i)] d1 of
             (Some err, d2) \<Rightarrow> (Inl (prefixf [''webhooks: rotate secret for '', i] err), d2)
           | (None, d2) \<Rightarrow> (Inr secret, d2)))"

definition DeleteEndpoint :: "'d runner \<Rightarrow> go_ctx \<Rightarrow> string \<Rightarrow> 'd \<Rightarrow> gerr option \<times> 'd" where
  "DeleteEndpoint r ctx i d =
     (case Delete (rn_store r) ctx (zero_model (TPtr WebhookEndpoint)) [Where ''id'' (CStr i)] d of
        (Some err, d') \<Rightarrow> (Some (prefixf [''webhooks: delete endpoint '', i] err), d')
      | (None, d') \<Rightarrow> (None, d'))"

text \<open>\<open>sort.Slice\<close> leaves the order of equal creation times open; here they keep the order of the table.\<close>

definition ListDeliveries :: "'d runner \<Rightarrow> go_ctx \<Rightarrow> string \<Rightarrow> int \<Rightarrow> 'd \<Rightarrow> (gerr + Delivery list) \<times> 'd" where
  "ListDeliveries r ctx endpointID limit d =
     (let limit = (if limit \<le> 0 \<or> limit > 200 then 50 else limit) in
      case Find (rn_store r) ctx (zero_model (TPtr (TSlice WebhookDelivery)))
             [Where ''endpoint_id'' (CStr endpointID)] d of
        (Inl err, d') \<Rightarrow> (Inl (prefixf [''webhooks: list deliveries for '', endpointID] err), d')
      | (Inr rows, d') \<Rightarrow>
          (Inr (take (nat limit) (sort_key (\<lambda>dv. - dv_CreatedAt dv) (map row_delivery rows))), d'))"

section \<open>The subscription and the drain loop (consumer.go)\<close>

definition ConsumerDurableName :: string where "ConsumerDurableName = ''sannad-webhooks''"

definition handleDelivery :: "'d runner \<Rightarrow> go_ctx \<Rightarrow> delivery \<Rightarrow> 'd \<Rightarrow> gerr option \<times> 'd" where
  "handleDelivery r ctx dl d = Enqueue r (WithTenantID ctx (dl_tenant dl)) dl d"

definition StartConsuming ::
  "'d runner \<Rightarrow> (go_ctx \<Rightarrow> string \<Rightarrow> string \<Rightarrow> 'd event_handler \<Rightarrow> gerr + 's) \<Rightarrow> go_ctx \<Rightarrow> gerr + 's" where
  "StartConsuming r subscribe ctx =
     (case subscribe ctx ConsumerDurableName StreamSubjects (handleDelivery r) of
        Inl err \<Rightarrow> Inl (prefixf [''webhooks: subscribe to event stream''] err)
      | Inr sub \<Rightarrow> Inr sub)"

text \<open>
  The loop, by the cases its \<open>select\<close> picks one after the other; \<open>CtxDone\<close> can be picked once the
  context is cancelled. The answer says whether the loop has returned; with no further case it
  is waiting in \<open>select\<close>.
\<close>

datatype drain_event = CtxDone | Tick

fun RunDrainLoop :: "'d runner \<Rightarrow> go_ctx \<Rightarrow> int \<Rightarrow> drain_event list \<Rightarrow> 'd \<Rightarrow> bool \<times> 'd" where
  "RunDrainLoop r ctx batchSize [] d = (False, d)"
| "RunDrainLoop r ctx batchSize (CtxDone # evs) d = (True, d)"
| "RunDrainLoop r ctx batchSize (Tick # evs) d =
     RunDrainLoop r ctx batchSize evs (snd (DrainOnce r (WithSystemContext ctx) batchSize d))"

lemma RunDrainLoop_returns: "fst (RunDrainLoop r ctx batchSize evs d) \<longleftrightarrow> CtxDone \<in> set evs"
  by (induction r ctx batchSize evs d rule: RunDrainLoop.induct) simp_all

definition DefaultDrainInterval :: int where "DefaultDrainInterval = 5 * time_Second"
definition DefaultDrainBatchSize :: int where "DefaultDrainBatchSize = 100"

section \<open>What queueing does to the tables\<close>

text \<open>
  What the runner relies on: a UUID is not one that is in use, and neither it nor an HTTP exchange
  touches the database.
\<close>

definition runner_ok :: "('d \<Rightarrow> string \<Rightarrow> row list) \<Rightarrow> 'd runner \<Rightarrow> bool" where
  "runner_ok tbl r \<longleftrightarrow>
     (\<forall>d. tbl (snd (rn_uuid r d)) = tbl d) \<and>
     (\<forall>d. \<forall>row\<in>set (tbl d ''webhook_deliveries''). mget row ''id'' \<noteq> Some (CStr (fst (rn_uuid r d)))) \<and>
     (\<forall>p d. tbl (snd (hc_Do (rn_client r) p d)) = tbl d)"

definition delivery_keys :: "row list \<Rightarrow> (cell option \<times> cell option) list" where
  "delivery_keys rows = map (\<lambda>row. (mget row ''endpoint_id'', mget row ''event_id'')) rows"

definition is_queued :: "string \<Rightarrow> string \<Rightarrow> row \<Rightarrow> bool" where
  "is_queued endpointID eventID row \<longleftrightarrow>
     mget row ''endpoint_id'' = Some (CStr endpointID) \<and> mget row ''event_id'' = Some (CStr eventID)"

text \<open>The receivers of an event: the active endpoints of its tenant that want it.\<close>

definition receivers :: "go_ctx \<Rightarrow> delivery \<Rightarrow> row list \<Rightarrow> Endpoint list" where
  "receivers ctx dl rows = map row_endpoint (filter (\<lambda>row.
     row_tenant row = ctx_tenant ctx \<and> mget row ''active'' = Some (CInt 1) \<and> Wants (row_endpoint row) (dl_event dl)) rows)"

definition queued_row :: "go_ctx \<Rightarrow> string \<Rightarrow> delivery \<Rightarrow> Endpoint list \<Rightarrow> row \<Rightarrow> bool" where
  "queued_row ctx eventID dl es row \<longleftrightarrow>
     (\<exists>e\<in>set es. \<exists>i now. row = stamped ctx True (delivery_row (queued_delivery i e eventID dl now)))"

lemma queued_row_key:
  "usable ctx \<Longrightarrow> is_queued ep ev (stamped ctx True (delivery_row (queued_delivery i e ev' dl now))) \<longleftrightarrow>
     ep = ep_ID e \<and> ev = ev'"
  by (auto simp: is_queued_def stamped_def needs_tenant_def usable_def mget_stamp delivery_row_def queued_delivery_def
      tenant_column_def)

lemma queued_row_clash:
  assumes "usable ctx"
  shows "clashes (webhook_pk ''webhook_deliveries'') row (stamped ctx True (delivery_row (queued_delivery i e ev dl now))) \<longleftrightarrow>
    mget row ''id'' = Some (CStr i) \<or> is_queued (ep_ID e) ev row"
  using assms
  by (auto simp: webhook_pk_def clashes_def same_key_def is_queued_def stamped_def needs_tenant_def usable_def mget_stamp
      delivery_row_def queued_delivery_def tenant_column_def)

lemma is_queued_key: "is_queued ep ev row \<longleftrightarrow> (mget row ''endpoint_id'', mget row ''event_id'') = (Some (CStr ep), Some (CStr ev))"
  by (auto simp: is_queued_def)

lemma one_queued:
  assumes "distinct (delivery_keys rows)" and "row \<in> set rows" and "is_queued ep ev row"
  shows "length (filter (is_queued ep ev) rows) = 1"
  using assms
proof (induction rows)
  case (Cons a rows)
  have "filter (is_queued ep ev) rows = []" if "is_queued ep ev a"
    using Cons.prems(1) that by (auto simp: filter_empty_conv delivery_keys_def is_queued_key image_iff)
  then show ?case using Cons by (auto simp: delivery_keys_def)
qed simp

locale webhook_tables = store_contract +
  fixes rn :: "'a runner"
  assumes delivery_key: "pk ''webhook_deliveries'' = webhook_pk ''webhook_deliveries''"
    and own_store: "rn_store rn = S"
    and runner: "runner_ok tbl rn"
begin

lemma webhook_type [simp]:
  "table_of (TPtr (TStruct n True)) = n" "scoped (TPtr (TStruct n True))"
  "table_of (TPtr (TSlice (TStruct n True))) = n" "scoped (TPtr (TSlice (TStruct n True)))"
  using table_of_struct scoped_struct by simp_all

lemma queue_one:
  assumes "usable ctx" and "rn_uuid rn d = (i, d1)"
    and "Create S ctx (zero_model (TPtr WebhookDelivery))
      (RPtr (Some (RStruct True (delivery_row (queued_delivery i e ev dl now))))) d1 = (res, d2)"
  obtains (created) row where "res = None" "row = stamped ctx True (delivery_row (queued_delivery i e ev dl now))"
      "tbl d2 = (tbl d)(''webhook_deliveries'' := tbl d ''webhook_deliveries'' @ [row])"
      "\<forall>row'\<in>set (tbl d ''webhook_deliveries''). \<not> is_queued (ep_ID e) ev row'"
  | (present) err where "res = Some err" "isDuplicate err" "tbl d2 = tbl d"
      "\<exists>row'\<in>set (tbl d ''webhook_deliveries''). is_queued (ep_ID e) ev row'"
  | (failed) err where "res = Some err" "\<not> isDuplicate err" "tbl d2 = tbl d"
proof -
  have d1: "tbl d1 = tbl d" and f: "\<forall>row\<in>set (tbl d ''webhook_deliveries''). mget row ''id'' \<noteq> Some (CStr i)"
    using runner assms(2) unfolding runner_ok_def by (metis snd_conv, metis fst_conv)
  note spec = Create_spec[OF refl _ assms(3), simplified, unfolded zero_model_def WebhookDelivery_def, simplified,
      unfolded delivery_key queued_row_clash[OF assms(1)] d1]
  show thesis
  proof (cases res)
    case None
    then show thesis using spec created by auto
  next
    case (Some err)
    then show thesis using spec f present failed by (cases "isDuplicate err") (auto simp: isDuplicate_def)
  qed
qed

end

text \<open>The effect of queueing an event for a list of endpoints, from tables \<open>T\<close> to tables \<open>T'\<close>.\<close>

definition queue_effect ::
  "go_ctx \<Rightarrow> string \<Rightarrow> delivery \<Rightarrow> Endpoint list \<Rightarrow> bool \<Rightarrow> (string \<Rightarrow> row list) \<Rightarrow> (string \<Rightarrow> row list) \<Rightarrow> bool" where
  "queue_effect ctx ev dl es ok T T' \<longleftrightarrow>
     (\<exists>new. T' = T(''webhook_deliveries'' := T ''webhook_deliveries'' @ new) \<and> (\<forall>row\<in>set new. queued_row ctx ev dl es row)) \<and>
     (distinct (delivery_keys (T ''webhook_deliveries'')) \<longrightarrow> distinct (delivery_keys (T' ''webhook_deliveries''))) \<and>
     (ok \<longrightarrow> (\<forall>e\<in>set es. \<exists>row\<in>set (T' ''webhook_deliveries''). is_queued (ep_ID e) ev row))"

lemma queue_effect_none: "queue_effect ctx ev dl es False T T"
  unfolding queue_effect_def by (simp; intro exI[of _ "[]"]) simp

lemma queue_effect_nil: "queue_effect ctx ev dl [] ok T T"
  unfolding queue_effect_def by (simp; intro exI[of _ "[]"]) simp

lemma queue_effect_grows:
  "queue_effect ctx ev dl es ok T T' \<Longrightarrow> set (T ''webhook_deliveries'') \<subseteq> set (T' ''webhook_deliveries'')"
  unfolding queue_effect_def by auto

lemma queue_effect_trans:
  assumes "queue_effect ctx ev dl es a T T1" and "queue_effect ctx ev dl es' b T1 T2" and "set es \<union> set es' \<subseteq> set es2"
    and "c \<Longrightarrow> set es2 \<subseteq> (if a then set es else {}) \<union> (if b then set es' else {})"
  shows "queue_effect ctx ev dl es2 c T T2"
proof -
  obtain new new' where n: "T1 = T(''webhook_deliveries'' := T ''webhook_deliveries'' @ new)"
    "T2 = T1(''webhook_deliveries'' := T1 ''webhook_deliveries'' @ new')"
    "\<forall>row\<in>set new. queued_row ctx ev dl es row" "\<forall>row\<in>set new'. queued_row ctx ev dl es' row"
    using assms(1,2) unfolding queue_effect_def by blast
  have q: "\<forall>row\<in>set (new @ new'). queued_row ctx ev dl es2 row"
    using n(3,4) assms(3) unfolding queued_row_def by fastforce
  have t: "T2 = T(''webhook_deliveries'' := T ''webhook_deliveries'' @ new @ new')" using n(1,2) by simp
  have d: "distinct (delivery_keys (T ''webhook_deliveries'')) \<longrightarrow> distinct (delivery_keys (T2 ''webhook_deliveries''))"
    using assms(1,2) unfolding queue_effect_def by blast
  have "\<exists>row\<in>set (T2 ''webhook_deliveries''). is_queued (ep_ID e) ev row" if "c" "e \<in> set es2" for e
  proof -
    from that assms(4) have "a \<and> e \<in> set es \<or> b \<and> e \<in> set es'" by (auto split: if_splits)
    then show ?thesis using assms(1,2) queue_effect_grows[OF assms(2)] unfolding queue_effect_def by blast
  qed
  with q t d show ?thesis unfolding queue_effect_def by blast
qed

lemma queue_effect_new:
  assumes "usable ctx" and "row = stamped ctx True (delivery_row (queued_delivery i e ev dl now))"
    and "\<forall>row'\<in>set (T ''webhook_deliveries''). \<not> is_queued (ep_ID e) ev row'"
  shows "queue_effect ctx ev dl [e] True T (T(''webhook_deliveries'' := T ''webhook_deliveries'' @ [row]))"
proof -
  have q: "is_queued (ep_ID e) ev row" using assms(1,2) queued_row_key by simp
  have "queued_row ctx ev dl [e] row" using assms(2) by (auto simp: queued_row_def)
  moreover have "distinct (delivery_keys (T ''webhook_deliveries'' @ [row]))" if "distinct (delivery_keys (T ''webhook_deliveries''))"
    using that assms(3) q by (auto simp: delivery_keys_def is_queued_key)
  ultimately show ?thesis unfolding queue_effect_def using q by auto
qed

lemma queue_effect_present:
  "\<exists>row\<in>set (T ''webhook_deliveries''). is_queued (ep_ID e) ev row \<Longrightarrow> queue_effect ctx ev dl [e] True T T"
  unfolding queue_effect_def by (intro conjI exI[of _ "[]"]) auto

context webhook_tables
begin

lemma enqueue_rows_effect:
  assumes "usable ctx" and "enqueue_rows rn ctx dl ev es d = (res, d')"
  shows "queue_effect ctx ev dl (filter (\<lambda>e. Wants e (dl_event dl)) es) (res = None) (tbl d) (tbl d')"
  using assms(2)
proof (induction es arbitrary: d)
  case Nil
  then show ?case using queue_effect_nil by simp
next
  case (Cons e es)
  show ?case
  proof (cases "Wants e (dl_event dl)")
    case False
    then show ?thesis using Cons by simp
  next
    case True
    obtain i d1 where u: "rn_uuid rn d = (i, d1)" by fastforce
    obtain e1 d2 where c: "Create S ctx (zero_model (TPtr WebhookDelivery))
      (RPtr (Some (RStruct True (delivery_row (queued_delivery i e ev dl (rn_now rn d1)))))) d1 = (e1, d2)" by fastforce
    have go: ?thesis if "queue_effect ctx ev dl [e] True (tbl d) (tbl d2)" "enqueue_rows rn ctx dl ev es d2 = (res, d')"
      using True by (intro queue_effect_trans[OF that(1) Cons.IH[OF that(2)]]) auto
    from assms(1) u c show ?thesis
    proof (cases rule: queue_one)
      case (created row)
      then show ?thesis
        using go queue_effect_new[OF assms(1), of row i e] Cons.prems True u c own_store by simp
    next
      case (present err)
      then show ?thesis using go queue_effect_present Cons.prems True u c own_store by simp
    next
      case (failed err)
      then show ?thesis using Cons.prems True u c own_store queue_effect_none by auto
    qed
  qed
qed

end

text \<open>The identity of an event that came from the stream.\<close>

definition stream_identity :: "delivery \<Rightarrow> string" where
  "stream_identity dl = dl_tenant dl @ ''-'' @ itoa (int (dl_sequence dl))"

lemma queue_effect_set:
  "set es = set es' \<Longrightarrow> queue_effect ctx ev dl es ok T T' = queue_effect ctx ev dl es' ok T T'"
  by (simp add: queue_effect_def queued_row_def)

lemma filter_receivers:
  assumes "usable ctx"
    and "mset rows = mset (filter (selects ctx True m [Where ''active'' (CInt 1)]) table)" and "md_keys m = []"
  shows "set (filter (\<lambda>e. Wants e (dl_event dl)) (map row_endpoint rows)) = set (receivers ctx dl table)"
proof -
  have s: "set rows = set (filter (selects ctx True m [Where ''active'' (CInt 1)]) table)"
    using assms(2) by (rule mset_eq_setD)
  have "selects ctx True m [Where ''active'' (CInt 1)] row \<longleftrightarrow> row_tenant row = ctx_tenant ctx \<and> mget row ''active'' = Some (CInt 1)"
    for row using assms(1,3) by (auto simp: selects_def in_scope_def needs_tenant_def usable_def)
  then show ?thesis by (simp only: set_filter set_map s receivers_def) blast
qed

context webhook_tables
begin

lemma Enqueue_effect:
  assumes "usable ctx" and "0 < dl_sequence dl" and "Enqueue rn ctx dl d = (res, d')"
  shows "queue_effect ctx (stream_identity dl) dl (receivers ctx dl (tbl d ''webhook_endpoints'')) (res = None) (tbl d) (tbl d')"
proof -
  let ?m = "zero_model (TPtr (TSlice WebhookEndpoint))"
  obtain a d1 where f: "Find S ctx ?m [Where ''active'' (CInt 1)] d = (a, d1)" by fastforce
  have p: "list_all plain_cond [Where ''active'' (CInt 1)]" by (simp add: bare_name_def bare_char_def)
  note spec = Find_spec[OF p f, simplified, unfolded zero_model_def WebhookEndpoint_def, simplified, folded zero_model_def]
  show ?thesis
  proof (cases a)
    case (Inl err)
    then show ?thesis using assms(3) f own_store spec queue_effect_none by (auto simp: Enqueue_def)
  next
    case (Inr rows)
    then have r: "enqueue_rows rn ctx dl (stream_identity dl) (map row_endpoint rows) d1 = (res, d')"
      using assms(2,3) f own_store by (simp add: Enqueue_def eventIdentity_def stream_identity_def)
    have m: "mset rows = mset (filter (selects ctx True ?m [Where ''active'' (CInt 1)]) (tbl d ''webhook_endpoints''))"
      using spec Inr by (simp add: zero_model_def WebhookEndpoint_def)
    have "tbl d1 = tbl d" using spec by simp
    then show ?thesis
      using enqueue_rows_effect[OF assms(1) r] queue_effect_set[OF filter_receivers[OF assms(1) m]]
      by (simp add: zero_model_def)
  qed
qed

lemma redelivered_effect:
  assumes "usable (WithTenantID ctx (dl_tenant dl))" and "0 < dl_sequence dl"
    and "deliveries (handleDelivery rn ctx dl) n d = (es, d')"
  shows "queue_effect (WithTenantID ctx (dl_tenant dl)) (stream_identity dl) dl
    (receivers (WithTenantID ctx (dl_tenant dl)) dl (tbl d ''webhook_endpoints'')) (None \<in> set es) (tbl d) (tbl d')"
  using assms(3)
proof (induction n arbitrary: d es)
  case 0
  then show ?case using queue_effect_none by simp
next
  case (Suc n)
  obtain e d1 where s: "handleDelivery rn ctx dl d = (e, d1)" by fastforce
  obtain es' d2 where r: "deliveries (handleDelivery rn ctx dl) n d1 = (es', d2)" by fastforce
  have eq: "es = e # es'" "d' = d2" using Suc.prems s r by simp_all
  note one = Enqueue_effect[OF assms(1,2) s[unfolded handleDelivery_def]]
  then have "tbl d1 ''webhook_endpoints'' = tbl d ''webhook_endpoints''" by (auto simp: queue_effect_def)
  then show ?case using Suc.IH[OF r[folded eq(2)]] eq by (intro queue_effect_trans[OF one]) auto
qed

end

lemma gorm_webhook_tables:
  assumes "engine_ok E tbl ext pk sat" and "pk ''webhook_deliveries'' = webhook_pk ''webhook_deliveries''"
    and "rn_store r = NewGormStore tn E" and "runner_ok tbl r"
  shows "webhook_tables (NewGormStore tn E) tbl ext (\<lambda>t. fst (eng_parse E t)) pk (scoped_type tn E) (gorm_error E) r"
  using NewGormStore_contract[OF assms(1)] assms(2-4)
  by (simp add: webhook_tables_def webhook_tables_axioms_def)

section \<open>What a drain pass does to the tables\<close>

definition due :: "go_ctx \<Rightarrow> int \<Rightarrow> row \<Rightarrow> bool" where
  "due ctx now row \<longleftrightarrow> in_scope ctx True row \<and> mget row ''status'' = Some (CStr StatusPending) \<and>
     (\<exists>a. mget row ''next_attempt_at'' = Some (CTime a) \<and> a \<le> now)"

text \<open>The columns a pass writes.\<close>

definition state_columns :: "string list" where
  "state_columns = [''status'', ''attempts'', ''next_attempt_at'', ''last_error'', ''last_status_code'', ''updated_at'', ''delivered_at'']"

definition keeps_content :: "row \<Rightarrow> row \<Rightarrow> bool" where
  "keeps_content row row' \<longleftrightarrow> (\<forall>c. c \<notin> set state_columns \<longrightarrow> mget row' c = mget row c)"

definition touched :: "string set \<Rightarrow> row \<Rightarrow> row \<Rightarrow> bool" where
  "touched ids row row' \<longleftrightarrow> row' = row \<or> (\<exists>i\<in>ids. mget row ''id'' = Some (CStr i)) \<and> keeps_content row row'"

text \<open>The identifiers of a table of deliveries: every row has one, and no two share it.\<close>

definition ids_ok :: "row list \<Rightarrow> bool" where
  "ids_ok rows \<longleftrightarrow> distinct (map (\<lambda>row. mget row ''id'') rows) \<and> (\<forall>row\<in>set rows. mget row ''id'' = Some (CStr (col_str row ''id'')))"

lemma keeps_content_save: "keeps_content row (apply_changes (save_changes dv) row)"
proof -
  have "mget (rev (save_changes dv)) c = None" if "c \<notin> set state_columns" for c
    using that by (auto simp: save_changes_def state_columns_def split: option.splits)
  then show ?thesis by (simp add: keeps_content_def mget_apply_changes)
qed

lemma touched_refl [simp]: "touched ids row row"
  by (simp add: touched_def)

lemma touched_trans: "touched a r1 r2 \<Longrightarrow> touched b r2 r3 \<Longrightarrow> touched (a \<union> b) r1 r3"
proof -
  have "''id'' \<notin> set state_columns" by (simp add: state_columns_def)
  moreover assume "touched a r1 r2" "touched b r2 r3"
  ultimately show ?thesis unfolding touched_def keeps_content_def by (metis UnCI)
qed

definition drained :: "string set \<Rightarrow> (string \<Rightarrow> row list) \<Rightarrow> (string \<Rightarrow> row list) \<Rightarrow> bool" where
  "drained ids T T' \<longleftrightarrow> (\<forall>t. t \<noteq> ''webhook_deliveries'' \<longrightarrow> T' t = T t) \<and>
     list_all2 (touched ids) (T ''webhook_deliveries'') (T' ''webhook_deliveries'')"

lemma drained_refl [simp]: "drained ids T T"
  by (simp add: drained_def list_all2_refl)

lemma drained_trans:
  assumes "drained a T1 T2" and "drained b T2 T3"
  shows "drained (a \<union> b) T1 T3"
  using assms list_all2_trans[of "touched a" "touched b" "touched (a \<union> b)", OF touched_trans]
  by (auto simp: drained_def)

lemma Advance_ID: "dv_ID (snd (Advance dv o1 now jitter)) = dv_ID dv"
  by (auto simp: Advance_def Let_def split: option.splits)

context webhook_tables
begin

lemma drain_one_effect:
  assumes "drain_one rn ctx now dv d = (dv', d')"
  shows "tbl d' = tbl d" "dv_ID dv' = dv_ID dv"
proof -
  let ?m = "zero_model (TPtr WebhookEndpoint)" and ?cs = "[Where ''id'' (CStr (dv_EndpointID dv))]"
  obtain a d1 where f: "First S ctx ?m ?cs d = (a, d1)" by fastforce
  have p: "list_all plain_cond ?cs" by (simp add: bare_name_def bare_char_def)
  have t: "tbl d1 = tbl d" using First_spec[OF p f] by simp
  have n: "tbl (snd (Attempt (rn_client rn) e dv ts d1)) = tbl d1" for e ts
  proof -
    have "tbl d2 = tbl d1" if "hc_Do (rn_client rn) q d1 = (x, d2)" for q x d2
      using runner that unfolding runner_ok_def by (metis snd_conv)
    then show ?thesis by (auto simp: Attempt_def split: option.splits prod.splits sum.splits)
  qed
  show "tbl d' = tbl d"
  proof (cases a)
    case (Inl err)
    then show ?thesis using assms f own_store t by (auto simp: drain_one_def)
  next
    case (Inr row)
    then show ?thesis
      using assms f own_store t n[of "row_endpoint row" "rn_now rn d1"]
      by (auto simp: drain_one_def split: prod.splits)
  qed
  show "dv_ID dv' = dv_ID dv"
    using assms f own_store by (auto simp: drain_one_def Advance_ID split: sum.splits prod.splits)
qed

lemma save_effect:
  assumes "save_delivery rn ctx dv d = (res, d')"
  shows "drained {dv_ID dv} (tbl d) (tbl d')"
proof -
  let ?m = "zero_model (TPtr WebhookDelivery)" and ?cs = "[Where ''id'' (CStr (dv_ID dv))]"
  obtain a d1 where u: "Update S ctx ?m (save_changes dv) ?cs d = (a, d1)" by fastforce
  have p: "list_all plain_cond ?cs" by (simp add: bare_name_def bare_char_def)
  have d1: "d' = d1" using assms u own_store by (auto simp: save_delivery_def split: option.splits)
  note spec = Update_spec[OF p u, simplified, unfolded zero_model_def WebhookDelivery_def, simplified]
  show ?thesis
  proof (cases a)
    case None
    have "touched {dv_ID dv} row (if selects ctx True m ?cs row then apply_changes (save_changes dv) row else row)" for m row
      by (auto simp: touched_def selects_def keeps_content_save)
    then show ?thesis using None spec d1 by (simp add: drained_def list_all2_conv_all_nth)
  next
    case (Some err)
    then show ?thesis using spec d1 by simp
  qed
qed

lemma drain_rows_effect:
  assumes "drain_rows rn ctx now dvs h d = ((n, e), d')"
  shows "drained (dv_ID ` set dvs) (tbl d) (tbl d') \<and> h \<le> n \<and> n \<le> h + int (length dvs) \<and>
    (e = None \<longrightarrow> n = h + int (length dvs))"
  using assms
proof (induction dvs arbitrary: d h)
  case (Cons dv dvs)
  obtain dv' d1 where o1: "drain_one rn ctx now dv d = (dv', d1)" by fastforce
  obtain a d2 where s: "save_delivery rn ctx dv' d1 = (a, d2)" by fastforce
  note one = drain_one_effect[OF o1] save_effect[OF s]
  have first: "drained {dv_ID dv} (tbl d) (tbl d2)" using one by simp
  show ?case
  proof (cases a)
    case None
    then have "drain_rows rn ctx now dvs (h + 1) d2 = ((n, e), d')" using Cons.prems o1 s by simp
    from Cons.IH[OF this] drained_trans[OF first] show ?thesis by auto
  next
    case (Some err)
    then have "n = h" "e \<noteq> None" "d' = d2" using Cons.prems o1 s by auto
    then show ?thesis using drained_trans[OF first drained_refl[of "dv_ID ` set dvs"]] by simp
  qed
qed simp

end

lemma touched_due:
  assumes "ids_ok rows" and "set duerows \<subseteq> {row \<in> set rows. due ctx now row}"
    and "row \<in> set rows" and "touched (dv_ID ` set (map row_delivery duerows)) row row'"
  shows "row' = row \<or> due ctx now row \<and> keeps_content row row'"
proof (cases "row' = row")
  case False
  with assms(4) obtain r where r: "r \<in> set duerows" "mget row ''id'' = Some (CStr (col_str r ''id''))" "keeps_content row row'"
    by (auto simp: touched_def row_delivery_def)
  then have "r \<in> set rows" "due ctx now r" using assms(2) by auto
  moreover have "mget row ''id'' = mget r ''id''" using r(2) assms(1) \<open>r \<in> set rows\<close> by (auto simp: ids_ok_def)
  ultimately have "row = r" using assms(1,3) by (auto simp: ids_ok_def distinct_map inj_on_def)
  then show ?thesis using r \<open>due ctx now r\<close> by simp
qed simp

context webhook_tables
begin

lemma DrainOnce_effect:
  assumes ids: "ids_ok (tbl d ''webhook_deliveries'')" and run: "DrainOnce rn ctx limit d = ((n, e), d')"
  shows "(\<forall>t. t \<noteq> ''webhook_deliveries'' \<longrightarrow> tbl d' t = tbl d t) \<and>
    list_all2 (\<lambda>row row'. row' = row \<or> due ctx (rn_now rn d) row \<and> keeps_content row row')
      (tbl d ''webhook_deliveries'') (tbl d' ''webhook_deliveries'') \<and>
    0 \<le> n \<and> (0 < limit \<longrightarrow> n \<le> limit) \<and>
    (e = None \<and> limit \<le> 0 \<longrightarrow> n = int (length (filter (due ctx (rn_now rn d)) (tbl d ''webhook_deliveries''))))"
proof -
  let ?now = "rn_now rn d" and ?T = "tbl d ''webhook_deliveries''"
  let ?m = "zero_model (TPtr (TSlice WebhookDelivery))"
  let ?cs = "[Where ''status'' (CStr StatusPending), Compare ''next_attempt_at'' OpLessEqual (CTime ?now)]"
  obtain a d1 where f: "Find S ctx ?m ?cs d = (a, d1)" by fastforce
  have p: "list_all plain_cond ?cs" by (simp add: bare_name_def bare_char_def)
  have sel: "selects ctx True ?m ?cs = due ctx ?now"
    by (rule ext) (auto simp: selects_def due_def zero_model_def)
  have m: "table_of (md_type ?m) = ''webhook_deliveries''" "scoped (md_type ?m)"
    by (simp_all add: zero_model_def WebhookDelivery_def)
  note spec = Find_spec[OF p f, unfolded m(1) eqTrueI[OF m(2)] sel]
  show ?thesis
  proof (cases a)
    case (Inl err)
    then have "d' = d1" "n = 0" "e \<noteq> None" using run f own_store by (auto simp: DrainOnce_def)
    then show ?thesis using spec by (auto simp: list_all2_refl)
  next
    case (Inr rows)
    define ds where "ds = (if limit > 0 \<and> int (length rows) > limit then take (nat limit) rows else rows)"
    have rows: "mset rows = mset (filter (due ctx ?now) ?T)" and t: "tbl d1 = tbl d" using spec Inr by auto
    have dr: "drain_rows rn ctx ?now (map row_delivery ds) 0 d1 = ((n, e), d')"
      using run f own_store Inr m sel unfolding ds_def by (auto simp: DrainOnce_def Let_def take_map split: if_splits)
    note eff = drain_rows_effect[OF dr, unfolded t]
    have sub: "set ds \<subseteq> {row \<in> set ?T. due ctx ?now row}"
      using mset_eq_setD[OF rows] set_take_subset[of "nat limit" rows] unfolding ds_def by auto
    have "list_all2 (touched (dv_ID ` set (map row_delivery ds))) ?T (tbl d' ''webhook_deliveries'')"
      using eff by (simp add: drained_def)
    then have "list_all2 (\<lambda>row row'. row' = row \<or> due ctx ?now row \<and> keeps_content row row') ?T (tbl d' ''webhook_deliveries'')"
      by (rule list.rel_mono_strong) (rule touched_due[OF ids sub])
    moreover have "length rows = length (filter (due ctx ?now) ?T)" using mset_eq_length[OF rows] .
    ultimately show ?thesis using eff unfolding ds_def drained_def by (auto split: if_splits)
  qed
qed

end

section \<open>Properties\<close>

text \<open>
  C36: One webhook per endpoint and event under redelivery. However often the bus delivers the same
  message, and whatever fails in between, the only table that changes is the queue, and it only
  grows: by pending rows, stamped with the event's tenant, for active endpoints of that tenant that want
  the event, never two for one endpoint. Once one delivery of the message has been handled without an
  error, every such endpoint has exactly one row for it.
\<close>

theorem webhook_queued_once:
  assumes "engine_ok E tbl ext pk sat" and "pk ''webhook_deliveries'' = webhook_pk ''webhook_deliveries''"
    and "rn_store r = NewGormStore tn E" and "runner_ok tbl r"
    and "usable (WithTenantID ctx (dl_tenant dl))" and "0 < dl_sequence dl"
    and "distinct (delivery_keys (tbl d ''webhook_deliveries''))"
    and "deliveries (handleDelivery r ctx dl) n d = (es, d')"
  defines "tctx \<equiv> WithTenantID ctx (dl_tenant dl)"
  defines "to \<equiv> receivers tctx dl (tbl d ''webhook_endpoints'')"
  shows "(\<exists>new. tbl d' = (tbl d)(''webhook_deliveries'' := tbl d ''webhook_deliveries'' @ new) \<and>
            (\<forall>row\<in>set new. queued_row tctx (stream_identity dl) dl to row)) \<and>
    distinct (delivery_keys (tbl d' ''webhook_deliveries'')) \<and>
    (None \<in> set es \<longrightarrow> (\<forall>e\<in>set to.
       length (filter (is_queued (ep_ID e) (stream_identity dl)) (tbl d' ''webhook_deliveries'')) = 1))"
  using webhook_tables.redelivered_effect[OF gorm_webhook_tables[OF assms(1-4)] assms(5,6,8)] assms(7) one_queued
  unfolding queue_effect_def tctx_def to_def by blast

text \<open>
  A drain pass changes nothing but deliveries that are pending and due in its scope, and of those
  only the columns that carry the state of delivery: what was delivered, is dead or is waiting for
  a later moment stays as it is, and no delivery changes its tenant, endpoint, event or payload. It
  handles no more than its limit, and without one it handles everything that is due.
\<close>

theorem drain_touches_only_due:
  assumes "engine_ok E tbl ext pk sat" and "pk ''webhook_deliveries'' = webhook_pk ''webhook_deliveries''"
    and "rn_store r = NewGormStore tn E" and "runner_ok tbl r"
    and "ids_ok (tbl d ''webhook_deliveries'')" and "DrainOnce r ctx limit d = ((n, e), d')"
  shows "(\<forall>t. t \<noteq> ''webhook_deliveries'' \<longrightarrow> tbl d' t = tbl d t) \<and>
    list_all2 (\<lambda>row row'. row' = row \<or> due ctx (rn_now r d) row \<and> keeps_content row row')
      (tbl d ''webhook_deliveries'') (tbl d' ''webhook_deliveries'') \<and>
    0 \<le> n \<and> (0 < limit \<longrightarrow> n \<le> limit) \<and>
    (e = None \<and> limit \<le> 0 \<longrightarrow> n = int (length (filter (due ctx (rn_now r d)) (tbl d ''webhook_deliveries''))))"
  by (rule webhook_tables.DrainOnce_effect[OF gorm_webhook_tables[OF assms(1-4)] assms(5,6)])

text \<open>A runner over the adapter, with a UUID longer than every one in use and a receiver that answers 200.\<close>

definition sample_uuid :: "'e mem \<Rightarrow> string \<times> 'e mem" where
  "sample_uuid d = (CHR ''u'' # concat (map (\<lambda>row. col_str row ''id'') (fst d ''webhook_deliveries'')), d)"

definition sample_runner :: "nat mem runner" where
  "sample_runner =
     \<lparr>rn_store = NewGormStore sample_iso (mem_engine webhook_pk),
      rn_client = \<lparr>hc_bad_url = (\<lambda>_. None), hc_Do = (\<lambda>_ d. (Inr 200, (fst d, Suc (snd d))))\<rparr>,
      rn_now = (\<lambda>_. 1000), rn_jitter = (\<lambda>_ x. x), rn_uuid = sample_uuid,
      rn_rand = (\<lambda>n d. (Inr (replicate n CHR ''k''), d))\<rparr>"

lemma sample_runner_ok: "runner_ok fst sample_runner"
proof -
  have "mget row ''id'' \<noteq> Some (CStr (CHR ''u'' # concat (map (\<lambda>row. col_str row ''id'') rows)))" if "row \<in> set rows" for row rows
  proof
    assume a: "mget row ''id'' = Some (CStr (CHR ''u'' # concat (map (\<lambda>row. col_str row ''id'') rows)))"
    have "length (col_str row ''id'') \<le> length (concat (map (\<lambda>row. col_str row ''id'') rows))"
      using that by (induction rows) auto
    then show False using a by (simp add: col_str_def)
  qed
  then show ?thesis by (simp add: runner_ok_def sample_runner_def sample_uuid_def)
qed

interpretation gorm_webhooks: webhook_tables "NewGormStore sample_iso (mem_engine webhook_pk :: nat mem engine)" fst snd
  "\<lambda>t. fst (eng_parse (mem_engine webhook_pk :: nat mem engine) t)" webhook_pk
  "scoped_type sample_iso (mem_engine webhook_pk :: nat mem engine)"
  "gorm_error (mem_engine webhook_pk :: nat mem engine)" sample_runner
  by (rule gorm_webhook_tables[OF mem_engine_ok _ _ sample_runner_ok]) (simp_all add: sample_runner_def)

definition sample_event :: delivery where
  "sample_event = \<lparr>dl_subject = ''sannad.acme.order.placed'', dl_tenant = ''acme'', dl_event = ''order.placed'',
     dl_data = ''{}'', dl_sequence = 7, dl_deliveries = 1\<rparr>"

definition sample_tables :: "nat mem" where
  "sample_tables = ((\<lambda>_. [])(''webhook_endpoints'' := [endpoint_row sample_endpoint,
     endpoint_row (sample_endpoint\<lparr>ep_ID := ''e2'', ep_Events := ''order.placed, order.paid''\<rparr>),
     endpoint_row (sample_endpoint\<lparr>ep_ID := ''e3'', ep_Active := False\<rparr>),
     endpoint_row (sample_endpoint\<lparr>ep_ID := ''e4'', ep_TenantID := ''globex''\<rparr>)]), 0)"

theorem webhook_queued_once_witness:
  "map (\<lambda>row. (col_str row ''endpoint_id'', row_tenant row)) (fst (snd (deliveries (handleDelivery sample_runner Background sample_event) 3 sample_tables))
     ''webhook_deliveries'') = [(''e1'', ''acme''), (''e2'', ''acme'')]"
proof -
  let ?run = "deliveries (handleDelivery sample_runner Background sample_event) 3 sample_tables"
  have r: "None \<in> set (fst ?run)" "map (\<lambda>row. (col_str row ''endpoint_id'', row_tenant row)) (fst (snd ?run) ''webhook_deliveries'') = [(''e1'', ''acme''), (''e2'', ''acme'')]"
    by code_simp+
  have h: "usable (WithTenantID Background (dl_tenant sample_event))" "0 < dl_sequence sample_event"
    "distinct (delivery_keys (fst sample_tables ''webhook_deliveries''))"
    "rn_store sample_runner = NewGormStore sample_iso (mem_engine webhook_pk)"
    by (simp_all add: usable_def WithTenantID_def Background_def IsSystemContext_def sample_event_def sample_tables_def
        delivery_keys_def sample_runner_def)
  have "?run = (fst ?run, snd ?run)" by simp
  note once = webhook_queued_once[where tbl = fst and ext = snd and E = "mem_engine webhook_pk" and pk = webhook_pk
      and sat = mem_sat and tn = sample_iso, OF mem_engine_ok _ h(4) sample_runner_ok h(1-3) this]
  have "distinct (delivery_keys (fst (snd ?run) ''webhook_deliveries''))" by (rule conjunct1[OF conjunct2[OF once]]) simp
  then show ?thesis using r by simp
qed

theorem drain_touches_only_due_witness:
  "map (\<lambda>row. (col_str row ''id'', col_str row ''status'')) (fst (snd (DrainOnce sample_runner (WithSystemContext Background) 1
     ((\<lambda>_. [])(''webhook_deliveries'' := [delivery_row sample_delivery,
        delivery_row (sample_delivery\<lparr>dv_ID := ''d2'', dv_NextAttemptAt := 2000\<rparr>)]), 0))) ''webhook_deliveries'')
   = [(''d1'', StatusDead), (''d2'', StatusPending)]"
proof -
  let ?d = "((\<lambda>_. [])(''webhook_deliveries'' := [delivery_row sample_delivery,
        delivery_row (sample_delivery\<lparr>dv_ID := ''d2'', dv_NextAttemptAt := 2000\<rparr>)]), 0 :: nat)"
  let ?run = "DrainOnce sample_runner (WithSystemContext Background) 1 ?d"
  have r: "map (\<lambda>row. (col_str row ''id'', col_str row ''status'')) (fst (snd ?run) ''webhook_deliveries'')
      = [(''d1'', StatusDead), (''d2'', StatusPending)]"
    by code_simp
  have h: "ids_ok (fst ?d ''webhook_deliveries'')" "rn_store sample_runner = NewGormStore sample_iso (mem_engine webhook_pk)"
    by (simp_all add: ids_ok_def delivery_row_def col_str_def sample_delivery_def sample_runner_def)
  have "?run = ((fst (fst ?run), snd (fst ?run)), snd ?run)" by simp
  note pass = drain_touches_only_due[where tbl = fst and ext = snd and E = "mem_engine webhook_pk" and pk = webhook_pk
      and sat = mem_sat and tn = sample_iso, OF mem_engine_ok _ h(2) sample_runner_ok h(1) this]
  have "fst (snd ?run) ''webhook_endpoints'' = fst ?d ''webhook_endpoints''"
    by (rule conjunct1[OF pass[OF refl], rule_format]) simp
  then show ?thesis using r by simp
qed

end
