(* ===== verification/Config.thy ===== *)
theory Config
  imports Migrations
begin

text \<open>
  The runtime configuration (\<^verbatim>\<open>pkg/config/config.go\<close>) and the choice of the database engine
  (\<open>openDatabase\<close> of \<^verbatim>\<open>internal/app/bootstrap/app.go\<close>). The environment is a function from names to
  values, as \<open>os.Getenv\<close> is: the empty string for a variable that is not set.
\<close>

record config_values =
  cf_Env :: string
  cf_KernelAddr :: string
  cf_GatewayAddr :: string
  cf_DatabaseDSN :: string
  cf_SessionSecret :: string
  cf_SessionPreviousSecrets :: "string list"
  cf_KayanIssuer :: string
  cf_CORSOrigins :: string
  cf_TenantBaseDomain :: string
  cf_TenantSelfProvision :: bool
  cf_NATSUrl :: string
  cf_GRPCAddr :: string
  cf_OIDCProvidersJSON :: string
  cf_SAMLEntityID :: string
  cf_SAMLACSUrl :: string
  cf_SAMLProvidersJSON :: string
  cf_OTELEndpoint :: string
  cf_RateLimit :: int
  cf_RateLimitPerTenant :: int
  cf_ReadTimeout :: int
  cf_WriteTimeout :: int
  cf_IdleTimeout :: int
  cf_BodyLimit :: int
  cf_LogLevel :: string
  cf_DBMaxOpenConns :: int
  cf_DBMaxIdleConns :: int
  cf_DBConnMaxLifetimeSecs :: int

text \<open>\<open>strconv.Atoi\<close>: an optional sign and decimal digits, within the range of a 64-bit \<open>int\<close>.\<close>

definition is_digit :: "char \<Rightarrow> bool" where
  "is_digit c = (CHR ''0'' \<le> c \<and> c \<le> CHR ''9'')"

definition digits_value :: "string \<Rightarrow> int" where
  "digits_value ds = foldl (\<lambda>n c. 10 * n + (of_char c - 48)) 0 ds"

definition strconv_Atoi :: "string \<Rightarrow> int option" where
  "strconv_Atoi s =
     (let (neg, ds) = (case s of
            [] \<Rightarrow> (False, [])
          | c # cs \<Rightarrow> if c = CHR ''-'' then (True, cs) else if c = CHR ''+'' then (False, cs) else (False, s))
      in if ds = [] \<or> \<not> list_all is_digit ds then None
         else (let n = (if neg then - digits_value ds else digits_value ds) in
               if - (2 ^ 63) \<le> n \<and> n < 2 ^ 63 then Some n else None))"

definition envOr :: "(string \<Rightarrow> string) \<Rightarrow> string \<Rightarrow> string \<Rightarrow> string" where
  "envOr getenv key fallback = (let v = getenv key in if v \<noteq> [] then v else fallback)"

definition envInt :: "(string \<Rightarrow> string) \<Rightarrow> string \<Rightarrow> int \<Rightarrow> int" where
  "envInt getenv key fallback =
     (let v = getenv key in
      if v \<noteq> [] then (case strconv_Atoi v of Some n \<Rightarrow> n | None \<Rightarrow> fallback) else fallback)"

definition envList :: "(string \<Rightarrow> string) \<Rightarrow> string \<Rightarrow> string list" where
  "envList getenv key =
     (let raw = getenv key in
      if raw = [] then [] else filter (\<lambda>part. part \<noteq> []) (map trim_space (split_on (CHR '','') raw)))"

definition envBool :: "(string \<Rightarrow> string) \<Rightarrow> string \<Rightarrow> bool \<Rightarrow> bool" where
  "envBool getenv key fallback =
     (let v = to_lower (trim_space (getenv key)) in
      if v = [] then fallback
      else if v \<in> set [''1'', ''true'', ''yes'', ''on''] then True
      else if v \<in> set [''0'', ''false'', ''no'', ''off''] then False
      else fallback)"

definition FromEnv :: "(string \<Rightarrow> string) \<Rightarrow> config_values" where
  "FromEnv getenv =
     \<lparr>cf_Env = envOr getenv ''SANNAD_ENV'' ''development'',
      cf_KernelAddr = envOr getenv ''SANNAD_KERNEL_ADDR'' '':8081'',
      cf_GatewayAddr = envOr getenv ''SANNAD_GATEWAY_ADDR'' '':8080'',
      cf_DatabaseDSN = envOr getenv ''SANNAD_DATABASE_DSN'' ''./sannad.db'',
      cf_SessionSecret = envOr getenv ''SANNAD_SESSION_SECRET'' ''change-me-in-dev'',
      cf_SessionPreviousSecrets = envList getenv ''SANNAD_SESSION_SECRET_PREVIOUS'',
      cf_KayanIssuer = envOr getenv ''SANNAD_KAYAN_ISSUER'' ''http://localhost:8080'',
      cf_CORSOrigins = envOr getenv ''SANNAD_CORS_ORIGINS'' ''*'',
      cf_TenantBaseDomain = envOr getenv ''SANNAD_TENANT_BASE_DOMAIN'' [],
      cf_TenantSelfProvision = envBool getenv ''SANNAD_TENANT_SELF_PROVISION'' False,
      cf_NATSUrl = envOr getenv ''SANNAD_NATS_URL'' [],
      cf_GRPCAddr = envOr getenv ''SANNAD_GRPC_ADDR'' '':9090'',
      cf_OIDCProvidersJSON = envOr getenv ''SANNAD_OIDC_PROVIDERS_JSON'' [],
      cf_SAMLEntityID = envOr getenv ''SANNAD_SAML_ENTITY_ID'' [],
      cf_SAMLACSUrl = envOr getenv ''SANNAD_SAML_ACS_URL'' [],
      cf_SAMLProvidersJSON = envOr getenv ''SANNAD_SAML_PROVIDERS_JSON'' [],
      cf_OTELEndpoint = envOr getenv ''SANNAD_OTEL_ENDPOINT'' [],
      cf_RateLimit = envInt getenv ''SANNAD_RATE_LIMIT'' 60,
      cf_RateLimitPerTenant = envInt getenv ''SANNAD_RATE_LIMIT_PER_TENANT'' 300,
      cf_ReadTimeout = envInt getenv ''SANNAD_READ_TIMEOUT'' 15,
      cf_WriteTimeout = envInt getenv ''SANNAD_WRITE_TIMEOUT'' 30,
      cf_IdleTimeout = envInt getenv ''SANNAD_IDLE_TIMEOUT'' 65,
      cf_BodyLimit = envInt getenv ''SANNAD_BODY_LIMIT'' 4194304,
      cf_LogLevel = envOr getenv ''SANNAD_LOG_LEVEL'' ''info'',
      cf_DBMaxOpenConns = envInt getenv ''SANNAD_DB_MAX_OPEN_CONNS'' 25,
      cf_DBMaxIdleConns = envInt getenv ''SANNAD_DB_MAX_IDLE_CONNS'' 5,
      cf_DBConnMaxLifetimeSecs = envInt getenv ''SANNAD_DB_CONN_MAX_LIFETIME'' 300\<rparr>"

definition isPostgresDSN :: "string \<Rightarrow> bool" where
  "isPostgresDSN dsn \<longleftrightarrow>
     has_prefix dsn ''postgres://'' \<or> has_prefix dsn ''postgresql://'' \<or> has_prefix dsn ''host=''"

definition Config_Validate :: "config_values \<Rightarrow> gerr option" where
  "Config_Validate cfg =
     (if length (cf_SessionSecret cfg) < 32
      then Some (ErrNew ''config: SANNAD_SESSION_SECRET must be at least 32 characters'')
      else if cf_SessionSecret cfg = ''change-me-in-dev''
      then Some (ErrNew ''config: SANNAD_SESSION_SECRET must not be the default placeholder value'')
      else if list_ex (\<lambda>secret. length secret < 32) (cf_SessionPreviousSecrets cfg)
      then Some (ErrNew ''config: every entry in SANNAD_SESSION_SECRET_PREVIOUS must be at least 32 characters'')
      else if cf_Env cfg = ''production'' \<and> \<not> isPostgresDSN (cf_DatabaseDSN cfg)
      then Some (ErrNew ''config: SQLite is not supported in production; set SANNAD_DATABASE_DSN to a PostgreSQL DSN'')
      else if cf_Env cfg = ''production'' \<and> cf_CORSOrigins cfg = ''*''
      then Some (ErrNew ''config: SANNAD_CORS_ORIGINS must not be wildcard (*) in production; set explicit allowed origins'')
      else None)"

text \<open>The driver \<open>openDatabase\<close> opens a DSN with.\<close>

datatype db_driver = PostgresDriver | SQLiteDriver

definition openDatabase_driver :: "string \<Rightarrow> db_driver" where
  "openDatabase_driver dsn =
     (if has_prefix dsn ''postgres://'' \<or> has_prefix dsn ''postgresql://'' \<or> has_prefix dsn ''host=''
      then PostgresDriver else SQLiteDriver)"

section \<open>What an accepted configuration guarantees\<close>

lemma envList_parts: "s \<in> set (envList getenv key) \<Longrightarrow> s \<noteq> []"
  by (auto simp: envList_def Let_def split: if_splits)

lemma Config_Validate_iff:
  "Config_Validate cfg = None \<longleftrightarrow>
     32 \<le> length (cf_SessionSecret cfg)
     \<and> (\<forall>s \<in> set (cf_SessionPreviousSecrets cfg). 32 \<le> length s)
     \<and> (cf_Env cfg = ''production'' \<longrightarrow> isPostgresDSN (cf_DatabaseDSN cfg) \<and> cf_CORSOrigins cfg \<noteq> ''*'')"
proof -
  have "length ''change-me-in-dev'' < 32" by simp
  then have "32 \<le> length (cf_SessionSecret cfg) \<Longrightarrow> cf_SessionSecret cfg \<noteq> ''change-me-in-dev''" by auto
  then show ?thesis
    unfolding Config_Validate_def by (auto simp: list_ex_iff not_less not_le)
qed

text \<open>
  The two places that read a DSN disagree. The driver is chosen by the DSN's prefix, the
  migration dialect by its suffix, so they name the same engine exactly when the DSN has a
  Postgres prefix or a SQLite shape and not both; a Postgres DSN whose database name ends in
  \<open>.db\<close> or \<open>.sqlite\<close> is opened with Postgres and migrated as SQLite, and a SQLite file under any
  other name is migrated as Postgres.
\<close>

lemma dialect_matches_driver_iff:
  "(detectDialect dsn = ''postgres'' \<longleftrightarrow> openDatabase_driver dsn = PostgresDriver) \<longleftrightarrow>
     (isPostgresDSN dsn \<longleftrightarrow>
        \<not> (to_lower dsn = '':memory:'' \<or> has_prefix (to_lower dsn) ''file:''
           \<or> has_suffix (to_lower dsn) ''.db'' \<or> has_suffix (to_lower dsn) ''.sqlite''))"
  by (simp add: detectDialect_def openDatabase_driver_def isPostgresDSN_def Let_def)

lemma dialect_mismatches:
  "openDatabase_driver ''postgres://db.internal/app.db'' = PostgresDriver"
  "detectDialect ''postgres://db.internal/app.db'' = ''sqlite3''"
  "openDatabase_driver ''./data/sannad'' = SQLiteDriver"
  "detectDialect ''./data/sannad'' = ''postgres''"
  by code_simp+

end
