(* ===== verification/Gateway.thy ===== *)
theory Gateway
  imports Audit_Trail Federation Directory Webhook_Runner Config Bridge
begin

text \<open>
  The HTTP gateway and the gRPC interceptor of \<^verbatim>\<open>internal/app/bootstrap/\<close> (\<^verbatim>\<open>app.go\<close>,
  \<^verbatim>\<open>rbac_http.go\<close>, \<^verbatim>\<open>service_accounts_http.go\<close>, \<^verbatim>\<open>webhooks_http.go\<close>): authentication and
  permission middleware, tenant resolution, every handler, and the route table that composes
  them. Fiber, its body parser and its rate limiter, and the subdomain resolver are parameters.
\<close>

section \<open>Requests, responses and the application\<close>

record gw_request =
  rq_path :: string
  rq_authorization :: string
  rq_params :: "string gomap"
  rq_query :: "string gomap"
  rq_form :: "string gomap"
  rq_body :: string
  rq_converted :: "gerr + string"
  rq_ip :: string
  rq_clk :: "int \<times> int"

text \<open>
  An operation of the OpenAPI document, without its texts: the schema of its body, its security
  schemes and its path parameters.
\<close>

record openapi_op =
  op_request :: "string option"
  op_security :: "string list"
  op_parameters :: "string list"

datatype gw_body =
    JError string
  | JStatus string
  | JLogin LoginResult
  | JSubject string
  | JExport AccountExport
  | JRoles "string list"
  | JAudit "gormAuditEvent list"
  | JServiceAccount ServiceAccount string
  | JServiceAccounts "ServiceAccount list"
  | JEndpoint Endpoint
  | JEndpoints "Endpoint list"
  | JSecret string
  | JRequeued int
  | JDeliveries "Delivery list"
  | JBridge http_response
  | JRedirect string
  | JDocument string
  | JOpenAPI "((string \<times> string) \<times> openapi_op) list"
  | JCapabilities "capability_ref list"
  | JHealth string "capability_ref list"
  | JNone

record gw_response =
  gr_status :: nat
  gr_body :: gw_body

record 'd gw_state =
  gs_db :: 'd
  gs_dir :: dir_cache
  gs_rev :: rev_cache

type_synonym 'd gw_handler = "gw_request \<Rightarrow> go_ctx \<Rightarrow> 'd gw_state \<Rightarrow> gw_response \<times> 'd gw_state"
type_synonym 'd gw_middleware = "'d gw_handler \<Rightarrow> 'd gw_handler"
type_synonym 'd gw_route = "(string \<times> string) \<times> 'd gw_handler"

record credentialsPayload =
  cp_Email :: string
  cp_Password :: string
  cp_Tenant :: string

text \<open>
  The application. The \<open>ap_parse_\<close> functions are \<open>BodyParser\<close> for the payload types, \<open>ap_hit\<close> and
  \<open>ap_hit_ip\<close> are the two limiters counting a request under a key and admitting it or not,
  \<open>ap_inner_resolver\<close> the subdomain resolver, \<open>ap_order\<close> the database's \<open>ORDER BY\<close>, \<open>ap_ping\<close> the
  database's ping, \<open>ap_initiate\<close> the strategies' \<open>Initiate\<close>, \<open>ap_idps\<close>, \<open>ap_saml_login\<close> and
  \<open>ap_saml_metadata\<close> the SAML service provider, and \<open>ap_router\<close> the choice of a route for a request.
\<close>

record ('v, 'd) app =
  ap_Config :: config_values
  ap_Registry :: "('v, 'd) registry"
  ap_Auth :: "'d auth_service"
  ap_saml :: "'d federation option"
  ap_Webhooks :: "'d runner"
  ap_tenants :: "(tenant, 'd) dbtable option"
  ap_ready :: bool
  ap_httpRoutes :: "('d gw_middleware \<Rightarrow> 'd gw_route list) list"
  ap_inner_resolver :: "string \<Rightarrow> gerr + string"
  ap_hit :: "string \<Rightarrow> 'd \<Rightarrow> bool \<times> 'd"
  ap_hit_ip :: "string \<Rightarrow> 'd \<Rightarrow> bool \<times> 'd"
  ap_ping :: "'d \<Rightarrow> bool \<times> 'd"
  ap_marshal :: "'v goany \<Rightarrow> gerr + string"
  ap_parse_credentials :: "string \<Rightarrow> gerr + credentialsPayload"
  ap_parse_role :: "string \<Rightarrow> gerr + string"
  ap_parse_api_key :: "string \<Rightarrow> gerr + string"
  ap_parse_name :: "string \<Rightarrow> gerr + string"
  ap_parse_endpoint :: "string \<Rightarrow> gerr + CreateEndpointRequest"
  ap_parse_changes :: "string \<Rightarrow> gerr + UpdateEndpointRequest"
  ap_audit :: "(gormAuditEvent, 'd) dbtable"
  ap_order :: "string \<Rightarrow> gormAuditEvent list \<Rightarrow> gormAuditEvent list"
  ap_initiate :: "string \<Rightarrow> 'd \<Rightarrow> (gerr + string gomap option) \<times> 'd"
  ap_idps :: "string list"
  ap_saml_login :: "string \<Rightarrow> string \<Rightarrow> 'd \<Rightarrow> (gerr + string) \<times> 'd"
  ap_saml_metadata :: "gerr + string"
  ap_router :: "(string \<times> string) list \<Rightarrow> gw_request \<Rightarrow> nat option"

definition param :: "gw_request \<Rightarrow> string \<Rightarrow> string" where
  "param rq k = (case mget (rq_params rq) k of Some v \<Rightarrow> v | None \<Rightarrow> [])"

definition query :: "gw_request \<Rightarrow> string \<Rightarrow> string" where
  "query rq k = (case mget (rq_query rq) k of Some v \<Rightarrow> v | None \<Rightarrow> [])"

definition form :: "gw_request \<Rightarrow> string \<Rightarrow> string" where
  "form rq k = (case mget (rq_form rq) k of Some v \<Rightarrow> v | None \<Rightarrow> [])"

text \<open>\<open>ctx.QueryInt\<close>.\<close>

definition query_int :: "gw_request \<Rightarrow> string \<Rightarrow> int \<Rightarrow> int" where
  "query_int rq k def = (case strconv_Atoi (query rq k) of Some n \<Rightarrow> n | None \<Rightarrow> def)"

definition respond :: "nat \<Rightarrow> gw_body \<Rightarrow> gw_response" where
  "respond status body = \<lparr>gr_status = status, gr_body = body\<rparr>"

definition gw_writeError :: "nat \<Rightarrow> gerr \<Rightarrow> gw_response" where
  "gw_writeError statusCode err =
     (if statusCode \<ge> 500 then respond statusCode (JError ''internal server error'')
      else respond statusCode (JError (err_text err)))"

definition writeAdminError :: "gerr \<Rightarrow> gw_response" where
  "writeAdminError err = gw_writeError (if errors_is err auth_ErrNotFound then 404 else 400) err"

definition writeWebhookError :: "gerr \<Rightarrow> gw_response" where
  "writeWebhookError err = gw_writeError (if errors_is err ErrNotFound then 404 else 400) err"

text \<open>A handler's database call, and the shape most handlers end in.\<close>

definition with_db :: "('d \<Rightarrow> 'a \<times> 'd) \<Rightarrow> ('a \<Rightarrow> gw_response) \<Rightarrow> 'd gw_state \<Rightarrow> gw_response \<times> 'd gw_state" where
  "with_db f k s = (case f (gs_db s) of (r, d) \<Rightarrow> (k r, s\<lparr>gs_db := d\<rparr>))"

definition or_error :: "(gerr \<Rightarrow> gw_response) \<Rightarrow> gw_response \<Rightarrow> gerr option \<Rightarrow> gw_response" where
  "or_error bad ok r = (case r of Some e \<Rightarrow> bad e | None \<Rightarrow> ok)"

definition or_error_val :: "(gerr \<Rightarrow> gw_response) \<Rightarrow> ('a \<Rightarrow> gw_response) \<Rightarrow> gerr + 'a \<Rightarrow> gw_response" where
  "or_error_val bad ok r = (case r of Inl e \<Rightarrow> bad e | Inr v \<Rightarrow> ok v)"

section \<open>Middleware (app.go)\<close>

definition bearerToken :: "string \<Rightarrow> string" where
  "bearerToken header =
     (case cut (CHR '' '') header of
        Some (scheme, rest) \<Rightarrow> if scheme = ''Bearer'' then rest else []
      | None \<Rightarrow> [])"

definition limiter_key :: "gw_request \<Rightarrow> go_ctx \<Rightarrow> string" where
  "limiter_key rq ctx =
     (case CallerFrom ctx of
        (_, False) \<Rightarrow> ''ip:'' @ rq_ip rq
      | (caller, True) \<Rightarrow> ''tenant:'' @ caller_tenant caller @ '':'' @ caller_subject caller)"

definition tenantLimiter :: "('v, 'd) app \<Rightarrow> 'd gw_handler \<Rightarrow> 'd gw_handler" where
  "tenantLimiter G next rq ctx s =
     (if cf_RateLimitPerTenant (ap_Config G) > 0
      then (case ap_hit G (limiter_key rq ctx) (gs_db s) of
              (True, d) \<Rightarrow> next rq ctx (s\<lparr>gs_db := d\<rparr>)
            | (False, d) \<Rightarrow>
                (gw_writeError 429 (ErrNew ''rate limit exceeded for this account''), s\<lparr>gs_db := d\<rparr>))
      else next rq ctx s)"

definition authenticated_ctx :: "go_ctx \<Rightarrow> string \<Rightarrow> string \<Rightarrow> go_ctx" where
  "authenticated_ctx ctx subject tenantID = WithTenantID (WithCaller ctx (CallerInfo subject tenantID)) tenantID"

definition requireAuth :: "('v, 'd) app \<Rightarrow> 'd gw_handler \<Rightarrow> 'd gw_handler" where
  "requireAuth G next rq ctx s =
     (let token = bearerToken (rq_authorization rq) in
      if token = [] then (gw_writeError 401 (ErrNew ''missing bearer token''), s)
      else (case ValidateForCaller (ap_Auth G) (rq_clk rq) token (gs_rev s) (gs_db s) of
              (Inl _, c, d) \<Rightarrow>
                (gw_writeError 401 (ErrNew ''invalid or expired token''), s\<lparr>gs_rev := c, gs_db := d\<rparr>)
            | (Inr (subject, tenantID), c, d) \<Rightarrow>
                tenantLimiter G next rq (authenticated_ctx ctx subject tenantID) (s\<lparr>gs_rev := c, gs_db := d\<rparr>)))"

definition requirePermission :: "('v, 'd) app \<Rightarrow> string \<Rightarrow> 'd gw_handler \<Rightarrow> 'd gw_handler" where
  "requirePermission G permission next rq ctx s =
     (case CallerFrom ctx of
        (_, False) \<Rightarrow> (gw_writeError 401 (ErrNew ''missing bearer token''), s)
      | (caller, True) \<Rightarrow>
          (case RequirePermission (ap_Auth G) ctx (caller_subject caller) permission (gs_db s) of
             (Some err, d) \<Rightarrow> (gw_writeError 403 err, s\<lparr>gs_db := d\<rparr>)
           | (None, d) \<Rightarrow> next rq ctx (s\<lparr>gs_db := d\<rparr>)))"

text \<open>
  \<open>tenantResolver\<close> exists when a base domain is configured; it wraps the subdomain resolver in the
  directory's validation.
\<close>

definition resolveTenant :: "('v, 'd) app \<Rightarrow> gw_request \<Rightarrow> string \<Rightarrow> 'd gw_state \<Rightarrow> string \<times> 'd gw_state" where
  "resolveTenant G rq fallback s =
     (case ap_tenants G of
        Some T \<Rightarrow>
          if cf_TenantBaseDomain (ap_Config G) = [] then (fallback, s)
          else (case rq_converted rq of
            Inl _ \<Rightarrow> (fallback, s)
          | Inr info \<Rightarrow>
              (case ValidatingResolver_Resolve (ap_inner_resolver G) T (rq_clk rq) info (gs_dir s) (gs_db s) of
                 (Inl _, c, d) \<Rightarrow> (fallback, s\<lparr>gs_dir := c, gs_db := d\<rparr>)
               | (Inr resolved, c, d) \<Rightarrow>
                   (if resolved \<noteq> [] then resolved else fallback, s\<lparr>gs_dir := c, gs_db := d\<rparr>)))
      | None \<Rightarrow> (fallback, s))"

definition checkTenant :: "('v, 'd) app \<Rightarrow> gw_request \<Rightarrow> string \<Rightarrow> 'd gw_state \<Rightarrow> gerr option \<times> 'd gw_state" where
  "checkTenant G rq tenantID s =
     (case ap_tenants G of
        None \<Rightarrow> (None, s)
      | Some T \<Rightarrow>
          (case Directory_Check T (rq_clk rq) tenantID (gs_dir s) (gs_db s) of
             (e, c, d) \<Rightarrow> (e, s\<lparr>gs_dir := c, gs_db := d\<rparr>)))"

definition tenantRejection :: gw_response where
  "tenantRejection = gw_writeError 404 (ErrNew ''unknown tenant'')"

definition decodeCredentials :: "('v, 'd) app \<Rightarrow> gw_request \<Rightarrow> gerr + credentialsPayload" where
  "decodeCredentials G rq =
     (case ap_parse_credentials G (rq_body rq) of
        Inl e \<Rightarrow> Inl e
      | Inr p \<Rightarrow>
          if cp_Email p = [] \<or> cp_Password p = [] then Inl (ErrNew ''email and password are required'') else Inr p)"

section \<open>Handlers: accounts and sessions (app.go)\<close>

definition no_content :: gw_response where "no_content = respond 204 JNone"

definition handleRegister :: "('v, 'd) app \<Rightarrow> 'd gw_handler" where
  "handleRegister G rq ctx s =
     (case decodeCredentials G rq of
        Inl err \<Rightarrow> (gw_writeError 400 err, s)
      | Inr payload \<Rightarrow>
          (case resolveTenant G rq (cp_Tenant payload) s of (tenantID, s1) \<Rightarrow>
            if tenantID = [] then (gw_writeError 400 (ErrNew ''tenant is required''), s1)
            else (case checkTenant G rq tenantID s1 of (checked, s2) \<Rightarrow>
              (case (case checked of
                       None \<Rightarrow> (None, s2)
                     | Some err \<Rightarrow>
                         if \<not> cf_TenantSelfProvision (ap_Config G) \<or> \<not> errors_is err ErrUnknownTenant
                         then (Some tenantRejection, s2)
                         else (case ap_tenants G of
                                 None \<Rightarrow> (None, s2)
                               | Some T \<Rightarrow>
                                   (case Provision T (rq_clk rq) tenantID tenantID (gs_dir s2) (gs_db s2) of
                                      (Some perr, c, d) \<Rightarrow> (Some (gw_writeError 500 perr), s2\<lparr>gs_dir := c, gs_db := d\<rparr>)
                                    | (None, c, d) \<Rightarrow> (None, s2\<lparr>gs_dir := c, gs_db := d\<rparr>)))) of
                 (Some answer, s3) \<Rightarrow> (answer, s3)
               | (None, s3) \<Rightarrow>
                   with_db (Register (ap_Auth G) ctx (fst (rq_clk rq)) tenantID (cp_Email payload) (cp_Password payload))
                     (or_error (\<lambda>_. respond 409 (JError ''email already in use'')) (respond 201 (JStatus ''registered''))) s3))))"

definition handleLogin :: "('v, 'd) app \<Rightarrow> 'd gw_handler" where
  "handleLogin G rq ctx s =
     (case decodeCredentials G rq of
        Inl err \<Rightarrow> (gw_writeError 400 err, s)
      | Inr payload \<Rightarrow>
          (case resolveTenant G rq (cp_Tenant payload) s of (tenantID, s1) \<Rightarrow>
            if tenantID = [] then (gw_writeError 400 (ErrNew ''tenant is required''), s1)
            else (case checkTenant G rq tenantID s1 of
              (Some _, s2) \<Rightarrow> (tenantRejection, s2)
            | (None, s2) \<Rightarrow>
                with_db (Login (ap_Auth G) ctx (fst (rq_clk rq)) tenantID (cp_Email payload) (cp_Password payload))
                  (or_error_val (\<lambda>_. respond 401 (JError ''invalid credentials'')) (\<lambda>r. respond 200 (JLogin r))) s2)))"

definition handleMe :: "'d gw_handler" where
  "handleMe rq ctx s = (respond 200 (JSubject (caller_subject (fst (CallerFrom ctx)))), s)"

definition handleExportMe :: "('v, 'd) app \<Rightarrow> 'd gw_handler" where
  "handleExportMe G rq ctx s =
     with_db (ExportAccountData (ap_Auth G) ctx (fst (rq_clk rq)) (caller_subject (fst (CallerFrom ctx))))
       (or_error_val writeAdminError (\<lambda>e. respond 200 (JExport e))) s"

definition handleDeleteMe :: "('v, 'd) app \<Rightarrow> 'd gw_handler" where
  "handleDeleteMe G rq ctx s =
     with_db (DeleteAccount (ap_Auth G) ctx (caller_subject (fst (CallerFrom ctx)))) (or_error writeAdminError no_content) s"

section \<open>Handlers: service accounts (service\_accounts\_http.go)\<close>

definition handleServiceLogin :: "('v, 'd) app \<Rightarrow> 'd gw_handler" where
  "handleServiceLogin G rq ctx s =
     (case ap_parse_api_key G (rq_body rq) of
        Inl err \<Rightarrow> (gw_writeError 400 err, s)
      | Inr key \<Rightarrow>
          if key = [] then (gw_writeError 400 (ErrNew ''api_key is required''), s)
          else with_db (LoginWithAPIKey (ap_Auth G) ctx (fst (rq_clk rq)) key)
                 (or_error_val (\<lambda>_. gw_writeError 401 (ErrNew ''invalid or revoked api key'')) (\<lambda>r. respond 200 (JLogin r))) s)"

definition handleCreateServiceAccount :: "('v, 'd) app \<Rightarrow> 'd gw_handler" where
  "handleCreateServiceAccount G rq ctx s =
     (case ap_parse_name G (rq_body rq) of
        Inl err \<Rightarrow> (gw_writeError 400 err, s)
      | Inr name \<Rightarrow>
          with_db (CreateServiceAccount (ap_Auth G) ctx (fst (rq_clk rq)) name)
            (or_error_val (gw_writeError 400) (\<lambda>(account, rawKey). respond 201 (JServiceAccount account rawKey))) s)"

definition handleListServiceAccounts :: "('v, 'd) app \<Rightarrow> 'd gw_handler" where
  "handleListServiceAccounts G rq ctx s =
     with_db (ListServiceAccounts (ap_Auth G) ctx)
       (or_error_val (gw_writeError 500) (\<lambda>accounts. respond 200 (JServiceAccounts accounts))) s"

definition handleRevokeServiceAccount :: "('v, 'd) app \<Rightarrow> 'd gw_handler" where
  "handleRevokeServiceAccount G rq ctx s =
     with_db (RevokeServiceAccount (ap_Auth G) ctx (fst (rq_clk rq)) (param rq ''id''))
       (or_error (\<lambda>err. if errors_is err auth_ErrNotFound then gw_writeError 404 err else gw_writeError 400 err) no_content) s"

section \<open>Handlers: roles, audit trail and administration (rbac\_http.go)\<close>

definition handleAssignRole :: "('v, 'd) app \<Rightarrow> 'd gw_handler" where
  "handleAssignRole G rq ctx s =
     (case ap_parse_role G (rq_body rq) of
        Inl err \<Rightarrow> (gw_writeError 400 err, s)
      | Inr role \<Rightarrow>
          if role = [] then (gw_writeError 400 (ErrNew ''role is required''), s)
          else with_db (AssignRole (ap_Auth G) ctx (fst (rq_clk rq)) (param rq ''id'') role)
                 (or_error (gw_writeError 400) no_content) s)"

definition handleRevokeRole :: "('v, 'd) app \<Rightarrow> 'd gw_handler" where
  "handleRevokeRole G rq ctx s =
     with_db (RevokeRole (ap_Auth G) ctx (param rq ''id'') (param rq ''role'')) (or_error (gw_writeError 400) no_content) s"

definition handleListIdentityRoles :: "('v, 'd) app \<Rightarrow> 'd gw_handler" where
  "handleListIdentityRoles G rq ctx s =
     with_db (ListIdentityRoles (ap_Auth G) ctx (param rq ''id''))
       (or_error_val (gw_writeError 500) (\<lambda>roles. respond 200 (JRoles roles))) s"

definition queryIntDefault :: "gw_request \<Rightarrow> string \<Rightarrow> int \<Rightarrow> int" where
  "queryIntDefault rq key def = (let v = query_int rq key def in if v \<le> 0 \<or> v > 500 then def else v)"

definition audit_filter_of :: "gw_request \<Rightarrow> go_ctx \<Rightarrow> audit_filter" where
  "audit_filter_of rq ctx =
     \<lparr>af_TenantID = caller_tenant (fst (CallerFrom ctx)), af_ActorID = query rq ''actor_id'', af_SubjectID = [],
      af_Types = (if query rq ''type'' \<noteq> [] then [query rq ''type''] else []), af_Statuses = [],
      af_StartTime = None, af_EndTime = None, af_Limit = queryIntDefault rq ''limit'' 50, af_Offset = 0,
      af_OrderBy = ''-created_at''\<rparr>"

definition handleListAuditEvents :: "('v, 'd) app \<Rightarrow> 'd gw_handler" where
  "handleListAuditEvents G rq ctx s =
     with_db (QueryAuditEvents (ap_audit G) (ap_order G) (audit_filter_of rq ctx))
       (or_error_val (gw_writeError 500) (\<lambda>evs. respond 200 (JAudit evs))) s"

definition handleLockAccount :: "('v, 'd) app \<Rightarrow> 'd gw_handler" where
  "handleLockAccount G rq ctx s =
     with_db (LockAccount (ap_Auth G) ctx (param rq ''id'')) (or_error writeAdminError no_content) s"

definition handleUnlockAccount :: "('v, 'd) app \<Rightarrow> 'd gw_handler" where
  "handleUnlockAccount G rq ctx s =
     with_db (UnlockAccount (ap_Auth G) ctx (param rq ''id'')) (or_error writeAdminError no_content) s"

definition handleRevokeAllSessions :: "('v, 'd) app \<Rightarrow> 'd gw_handler" where
  "handleRevokeAllSessions G rq ctx s =
     with_db (RevokeAllSessions (ap_Auth G) ctx (param rq ''id'')) (or_error writeAdminError no_content) s"

definition handleDeleteAccount :: "('v, 'd) app \<Rightarrow> 'd gw_handler" where
  "handleDeleteAccount G rq ctx s =
     with_db (DeleteAccount (ap_Auth G) ctx (param rq ''id'')) (or_error writeAdminError no_content) s"

section \<open>Handlers: webhooks (webhooks\_http.go)\<close>

definition handleCreateWebhookEndpoint :: "('v, 'd) app \<Rightarrow> 'd gw_handler" where
  "handleCreateWebhookEndpoint G rq ctx s =
     (case ap_parse_endpoint G (rq_body rq) of
        Inl err \<Rightarrow> (gw_writeError 400 err, s)
      | Inr payload \<Rightarrow>
          with_db (CreateEndpoint (ap_Webhooks G) ctx payload)
            (or_error_val (gw_writeError 400) (\<lambda>e. respond 201 (JEndpoint e))) s)"

definition redactSecrets :: "Endpoint list \<Rightarrow> Endpoint list" where
  "redactSecrets endpoints = map (\<lambda>e. e\<lparr>ep_Secret := []\<rparr>) endpoints"

definition handleListWebhookEndpoints :: "('v, 'd) app \<Rightarrow> 'd gw_handler" where
  "handleListWebhookEndpoints G rq ctx s =
     with_db (ListEndpoints (ap_Webhooks G) ctx)
       (or_error_val (gw_writeError 500) (\<lambda>es. respond 200 (JEndpoints (redactSecrets es)))) s"

definition handleGetWebhookEndpoint :: "('v, 'd) app \<Rightarrow> 'd gw_handler" where
  "handleGetWebhookEndpoint G rq ctx s =
     with_db (GetEndpoint (ap_Webhooks G) ctx (param rq ''id''))
       (or_error_val writeWebhookError (\<lambda>e. respond 200 (JEndpoint (e\<lparr>ep_Secret := []\<rparr>)))) s"

definition handleUpdateWebhookEndpoint :: "('v, 'd) app \<Rightarrow> 'd gw_handler" where
  "handleUpdateWebhookEndpoint G rq ctx s =
     (case ap_parse_changes G (rq_body rq) of
        Inl err \<Rightarrow> (gw_writeError 400 err, s)
      | Inr payload \<Rightarrow>
          with_db (UpdateEndpoint (ap_Webhooks G) ctx (param rq ''id'') payload) (or_error writeWebhookError no_content) s)"

definition handleDeleteWebhookEndpoint :: "('v, 'd) app \<Rightarrow> 'd gw_handler" where
  "handleDeleteWebhookEndpoint G rq ctx s =
     with_db (DeleteEndpoint (ap_Webhooks G) ctx (param rq ''id'')) (or_error writeWebhookError no_content) s"

definition handleRotateWebhookSecret :: "('v, 'd) app \<Rightarrow> 'd gw_handler" where
  "handleRotateWebhookSecret G rq ctx s =
     with_db (RotateSecret (ap_Webhooks G) ctx (param rq ''id''))
       (or_error_val writeWebhookError (\<lambda>secret. respond 200 (JSecret secret))) s"

definition handleReplayWebhookEndpoint :: "('v, 'd) app \<Rightarrow> 'd gw_handler" where
  "handleReplayWebhookEndpoint G rq ctx s =
     with_db (ReplayEndpoint (ap_Webhooks G) ctx (param rq ''id''))
       (\<lambda>(n, err). or_error writeWebhookError (respond 200 (JRequeued n)) err) s"

definition handleReplayWebhookDelivery :: "('v, 'd) app \<Rightarrow> 'd gw_handler" where
  "handleReplayWebhookDelivery G rq ctx s =
     with_db (Replay (ap_Webhooks G) ctx (param rq ''id'')) (or_error writeWebhookError no_content) s"

definition handleListWebhookDeliveries :: "('v, 'd) app \<Rightarrow> 'd gw_handler" where
  "handleListWebhookDeliveries G rq ctx s =
     with_db (ListDeliveries (ap_Webhooks G) ctx (param rq ''id'') (query_int rq ''limit'' 0))
       (or_error_val writeWebhookError (\<lambda>ds. respond 200 (JDeliveries ds))) s"

section \<open>Handlers: federated login (app.go)\<close>

definition HasOIDC :: "'d auth_service \<Rightarrow> bool" where
  "HasOIDC A = (au_oidc A \<noteq> [])"

definition HasSAML :: "('v, 'd) app \<Rightarrow> bool" where
  "HasSAML G = (ap_saml G \<noteq> None)"

definition GetOAuthURL :: "('v, 'd) app \<Rightarrow> string \<Rightarrow> 'd \<Rightarrow> (gerr + string) \<times> 'd" where
  "GetOAuthURL G providerID d =
     (case mget (au_oidc (ap_Auth G)) providerID of
        None \<Rightarrow> (Inl ErrOIDCNotConfigured, d)
      | Some _ \<Rightarrow>
          (case ap_initiate G providerID d of
             (Inl err, d') \<Rightarrow> (Inl (prefixf [''auth: initiate OIDC login''] err), d')
           | (Inr None, d') \<Rightarrow> (Inl (ErrNew ''auth: unexpected OIDC initiate result''), d')
           | (Inr (Some reply), d') \<Rightarrow>
               (Inr (case mget reply ''redirect_url'' of Some u \<Rightarrow> u | None \<Rightarrow> []), d')))"

definition InitiateSAMLLogin :: "('v, 'd) app \<Rightarrow> string \<Rightarrow> string \<Rightarrow> 'd \<Rightarrow> (gerr + string) \<times> 'd" where
  "InitiateSAMLLogin G idpID returnURL d =
     (case ap_saml G of
        None \<Rightarrow> (Inl ErrSAMLNotConfigured, d)
      | Some _ \<Rightarrow>
          if idpID \<notin> set (ap_idps G)
          then (Inl (ErrNew (''auth: SAML provider '' @ go_quote idpID @ '' is not configured'')), d)
          else ap_saml_login G idpID returnURL d)"

definition handleOAuthAuthorize :: "('v, 'd) app \<Rightarrow> 'd gw_handler" where
  "handleOAuthAuthorize G rq ctx s =
     with_db (GetOAuthURL G (param rq ''provider'')) (or_error_val (gw_writeError 400) (\<lambda>u. respond 302 (JRedirect u))) s"

definition handleOAuthCallback :: "('v, 'd) app \<Rightarrow> 'd gw_handler" where
  "handleOAuthCallback G rq ctx s =
     (if query rq ''state'' = [] then (gw_writeError 400 (ErrNew ''missing OAuth2 state''), s)
      else if query rq ''code'' = [] then (gw_writeError 400 (ErrNew ''missing authorization code''), s)
      else (case resolveTenant G rq [] s of (tenantID, s1) \<Rightarrow>
        if tenantID = [] then (gw_writeError 400 (ErrNew ''tenant is required''), s1)
        else (case checkTenant G rq tenantID s1 of
          (Some _, s2) \<Rightarrow> (tenantRejection, s2)
        | (None, s2) \<Rightarrow>
            with_db (HandleOAuthCallback (ap_Auth G) ctx (fst (rq_clk rq)) tenantID (param rq ''provider'')
                       (query rq ''state'') (query rq ''code''))
              (or_error_val (\<lambda>_. gw_writeError 401 (ErrNew ''OAuth2 authentication failed'')) (\<lambda>r. respond 200 (JLogin r))) s2)))"

definition handleSAMLMetadata :: "('v, 'd) app \<Rightarrow> 'd gw_handler" where
  "handleSAMLMetadata G rq ctx s =
     (or_error_val (gw_writeError 500) (\<lambda>doc. respond 200 (JDocument doc)) (ap_saml_metadata G), s)"

definition handleSAMLLogin :: "('v, 'd) app \<Rightarrow> 'd gw_handler" where
  "handleSAMLLogin G rq ctx s =
     with_db (InitiateSAMLLogin G (param rq ''idp'') (query rq ''return_url''))
       (or_error_val (gw_writeError 400) (\<lambda>u. respond 302 (JRedirect u))) s"

definition handleSAMLACS :: "('v, 'd) app \<Rightarrow> 'd gw_handler" where
  "handleSAMLACS G rq ctx s =
     (if form rq ''SAMLResponse'' = [] then (gw_writeError 400 (ErrNew ''missing SAMLResponse''), s)
      else with_db (HandleSAMLResponse (ap_Auth G) (ap_saml G) ctx (fst (rq_clk rq)) (form rq ''SAMLResponse'')
                      (form rq ''RelayState''))
             (or_error_val (\<lambda>_. gw_writeError 401 (ErrNew ''SAML authentication failed'')) (\<lambda>r. respond 200 (JLogin r))) s)"

section \<open>Servers (app.go)\<close>

text \<open>
  An error that reaches Fiber: a \<open>fiber.Error\<close> keeps its code and message, any other is hidden.
\<close>

definition jsonErrorHandler :: "(nat \<times> string) option \<Rightarrow> gw_response" where
  "jsonErrorHandler fe =
     (case fe of
        Some (code, msg) \<Rightarrow> respond code (JError msg)
      | None \<Rightarrow> respond 500 (JError ''internal server error''))"

definition adaptHTTPWithUserContext ::
  "(http_request \<Rightarrow> 'd \<Rightarrow> http_response \<times> 'd) \<Rightarrow> 'd gw_handler" where
  "adaptHTTPWithUserContext handler rq ctx s =
     (case rq_converted rq of
        Inl err \<Rightarrow> (jsonErrorHandler None, s)
      | Inr _ \<Rightarrow>
          with_db (handler \<lparr>req_path = rq_path rq, req_body = rq_body rq, req_body_err = None, req_ctx = ctx\<rparr>)
            (\<lambda>r. respond (rsp_status r) (JBridge r)) s)"

definition bridge_dispatch :: "('v, 'd) app \<Rightarrow> http_request \<Rightarrow> 'd \<Rightarrow> http_response \<times> 'd" where
  "bridge_dispatch G = Dispatch (\<lambda>ref. IsExposed ref (ap_Registry G)) (dispatchCapabilityCtx (ap_Registry G)) (ap_marshal G)"

definition handleHealthz :: "('v, 'd) app \<Rightarrow> string \<Rightarrow> capability_ref list \<Rightarrow> 'd gw_handler" where
  "handleHealthz G service capabilities rq ctx s =
     (if \<not> ap_ready G then (respond 503 (JStatus ''starting''), s)
      else with_db (ap_ping G)
             (\<lambda>alive. if alive then respond 200 (JHealth service capabilities) else respond 503 (JStatus ''db_unavailable'')) s)"

definition handleLivez :: "'d gw_handler" where
  "handleLivez rq ctx s = (respond 200 (JStatus ''ok''), s)"

text \<open>The document (openapi.go).\<close>

definition operation :: "string option \<Rightarrow> string list \<Rightarrow> openapi_op" where
  "operation requestSchema security = \<lparr>op_request = requestSchema, op_security = security, op_parameters = []\<rparr>"

definition pathHasIDParam :: "string \<Rightarrow> bool" where
  "pathHasIDParam path = contains_sub path ''{id}''"

definition injectIDParam :: "(string \<times> string) \<times> openapi_op \<Rightarrow> (string \<times> string) \<times> openapi_op" where
  "injectIDParam entry =
     (case entry of ((m, path), op) \<Rightarrow>
        if \<not> pathHasIDParam path then entry
        else ((m, path), op\<lparr>op_parameters := ''id'' # op_parameters op\<rparr>))"

definition bearerAuth :: "string list" where "bearerAuth = [''bearerAuth'']"

definition openapi_paths :: "((string \<times> string) \<times> openapi_op) list" where
  "openapi_paths =
     [((''GET'', ''/healthz''), operation None []),
      ((''GET'', ''/livez''), operation None []),
      ((''POST'', ''/api/v1/auth/register''), operation (Some ''Credentials'') []),
      ((''POST'', ''/api/v1/auth/login''), operation (Some ''Credentials'') []),
      ((''GET'', ''/api/v1/me''), operation None bearerAuth),
      ((''DELETE'', ''/api/v1/me''), operation None bearerAuth),
      ((''GET'', ''/api/v1/me/export''), operation None bearerAuth),
      ((''POST'', ''/api/v1/auth/service-login''), operation (Some ''ServiceLogin'') []),
      ((''POST'', ''/api/v1/service-accounts''), operation (Some ''CreateServiceAccount'') bearerAuth),
      ((''GET'', ''/api/v1/service-accounts''), operation None bearerAuth),
      ((''DELETE'', ''/api/v1/service-accounts/{id}''), operation None bearerAuth),
      ((''GET'', ''/api/v1/capabilities''), operation None bearerAuth),
      ((''POST'', ''/api/v1/capabilities/{ref}''),
         \<lparr>op_request = None, op_security = bearerAuth, op_parameters = [''ref'']\<rparr>),
      ((''POST'', ''/api/v1/webhooks/endpoints''), operation (Some ''CreateWebhookEndpoint'') bearerAuth),
      ((''GET'', ''/api/v1/webhooks/endpoints''), operation None bearerAuth),
      ((''GET'', ''/api/v1/webhooks/endpoints/{id}''), operation None bearerAuth),
      ((''PATCH'', ''/api/v1/webhooks/endpoints/{id}''), operation (Some ''UpdateWebhookEndpoint'') bearerAuth),
      ((''DELETE'', ''/api/v1/webhooks/endpoints/{id}''), operation None bearerAuth),
      ((''POST'', ''/api/v1/webhooks/endpoints/{id}/rotate-secret''), operation None bearerAuth),
      ((''POST'', ''/api/v1/webhooks/endpoints/{id}/replay''), operation None bearerAuth),
      ((''GET'', ''/api/v1/webhooks/endpoints/{id}/deliveries''), operation None bearerAuth),
      ((''POST'', ''/api/v1/webhooks/deliveries/{id}/replay''), operation None bearerAuth),
      ((''POST'', ''/api/v1/identities/{id}/roles''), operation (Some ''AssignRole'') bearerAuth),
      ((''GET'', ''/api/v1/identities/{id}/roles''), operation None bearerAuth),
      ((''DELETE'', ''/api/v1/identities/{id}/roles/{role}''), (operation None bearerAuth)\<lparr>op_parameters := [''role'']\<rparr>),
      ((''GET'', ''/api/v1/audit-events''), operation None bearerAuth),
      ((''POST'', ''/api/v1/identities/{id}/lock''), operation None bearerAuth),
      ((''POST'', ''/api/v1/identities/{id}/unlock''), operation None bearerAuth),
      ((''POST'', ''/api/v1/identities/{id}/revoke-sessions''), operation None bearerAuth),
      ((''DELETE'', ''/api/v1/identities/{id}''), operation None bearerAuth)]"

definition openAPIDocument :: "('v, 'd) app \<Rightarrow> ((string \<times> string) \<times> openapi_op) list" where
  "openAPIDocument G =
     map injectIDParam openapi_paths @
     (if HasOIDC (ap_Auth G)
      then [((''GET'', ''/api/v1/oauth2/{provider}/authorize''), (operation None [])\<lparr>op_parameters := [''provider'']\<rparr>),
            ((''GET'', ''/api/v1/oauth2/{provider}/callback''), (operation None [])\<lparr>op_parameters := [''provider'']\<rparr>)]
      else []) @
     (if HasSAML G
      then [((''GET'', ''/api/v1/auth/saml/metadata''), operation None []),
            ((''GET'', ''/api/v1/auth/saml/{idp}/login''), (operation None [])\<lparr>op_parameters := [''idp'']\<rparr>),
            ((''POST'', ''/api/v1/auth/saml/acs''), operation None [])]
      else [])"

definition handleOpenAPI :: "('v, 'd) app \<Rightarrow> 'd gw_handler" where
  "handleOpenAPI G rq ctx s = (respond 200 (JOpenAPI (openAPIDocument G)), s)"

text \<open>The routes of the gateway, in the order they are registered.\<close>

definition permitted :: "('v, 'd) app \<Rightarrow> string \<Rightarrow> 'd gw_handler \<Rightarrow> 'd gw_handler" where
  "permitted G permission h = requireAuth G (requirePermission G permission h)"

definition core_routes :: "('v, 'd) app \<Rightarrow> 'd gw_route list" where
  "core_routes G =
     [((''GET'', ''/healthz''), handleHealthz G ''sannad-gateway'' []),
      ((''GET'', ''/livez''), handleLivez),
      ((''GET'', ''/api/v1/openapi.json''), handleOpenAPI G),
      ((''POST'', ''/api/v1/auth/register''), handleRegister G),
      ((''POST'', ''/api/v1/auth/login''), handleLogin G),
      ((''POST'', ''/api/v1/auth/service-login''), handleServiceLogin G),
      ((''GET'', ''/api/v1/me''), requireAuth G handleMe),
      ((''GET'', ''/api/v1/me/export''), requireAuth G (handleExportMe G)),
      ((''DELETE'', ''/api/v1/me''), requireAuth G (handleDeleteMe G)),
      ((''POST'', ''/api/v1/service-accounts''), permitted G ''service_accounts:write'' (handleCreateServiceAccount G)),
      ((''GET'', ''/api/v1/service-accounts''), permitted G ''service_accounts:read'' (handleListServiceAccounts G)),
      ((''DELETE'', ''/api/v1/service-accounts/:id''), permitted G ''service_accounts:write'' (handleRevokeServiceAccount G)),
      ((''POST'', ''/api/v1/identities/:id/roles''), permitted G ''roles:write'' (handleAssignRole G)),
      ((''DELETE'', ''/api/v1/identities/:id/roles/:role''), permitted G ''roles:write'' (handleRevokeRole G)),
      ((''GET'', ''/api/v1/identities/:id/roles''), permitted G ''roles:read'' (handleListIdentityRoles G)),
      ((''GET'', ''/api/v1/audit-events''), permitted G ''audit:read'' (handleListAuditEvents G)),
      ((''POST'', ''/api/v1/identities/:id/lock''), permitted G ''identities:write'' (handleLockAccount G)),
      ((''POST'', ''/api/v1/identities/:id/unlock''), permitted G ''identities:write'' (handleUnlockAccount G)),
      ((''POST'', ''/api/v1/identities/:id/revoke-sessions''), permitted G ''identities:write'' (handleRevokeAllSessions G)),
      ((''DELETE'', ''/api/v1/identities/:id''), permitted G ''identities:write'' (handleDeleteAccount G)),
      ((''POST'', ''/api/v1/capabilities/:ref''), requireAuth G (adaptHTTPWithUserContext (bridge_dispatch G))),
      ((''GET'', ''/api/v1/capabilities''),
         requireAuth G (adaptHTTPWithUserContext (\<lambda>_ d. (ListHandler (ListExposed (ap_Registry G)), d)))),
      ((''POST'', ''/api/v1/webhooks/endpoints''), permitted G ''webhooks:write'' (handleCreateWebhookEndpoint G)),
      ((''GET'', ''/api/v1/webhooks/endpoints''), permitted G ''webhooks:read'' (handleListWebhookEndpoints G)),
      ((''GET'', ''/api/v1/webhooks/endpoints/:id''), permitted G ''webhooks:read'' (handleGetWebhookEndpoint G)),
      ((''PATCH'', ''/api/v1/webhooks/endpoints/:id''), permitted G ''webhooks:write'' (handleUpdateWebhookEndpoint G)),
      ((''DELETE'', ''/api/v1/webhooks/endpoints/:id''), permitted G ''webhooks:write'' (handleDeleteWebhookEndpoint G)),
      ((''POST'', ''/api/v1/webhooks/endpoints/:id/rotate-secret''), permitted G ''webhooks:write'' (handleRotateWebhookSecret G)),
      ((''POST'', ''/api/v1/webhooks/endpoints/:id/replay''), permitted G ''webhooks:write'' (handleReplayWebhookEndpoint G)),
      ((''GET'', ''/api/v1/webhooks/endpoints/:id/deliveries''), permitted G ''webhooks:read'' (handleListWebhookDeliveries G)),
      ((''POST'', ''/api/v1/webhooks/deliveries/:id/replay''), permitted G ''webhooks:write'' (handleReplayWebhookDelivery G))]"

definition federated_routes :: "('v, 'd) app \<Rightarrow> 'd gw_route list" where
  "federated_routes G =
     (if HasOIDC (ap_Auth G)
      then [((''GET'', ''/api/v1/oauth2/:provider/authorize''), handleOAuthAuthorize G),
            ((''GET'', ''/api/v1/oauth2/:provider/callback''), handleOAuthCallback G)]
      else []) @
     (if HasSAML G
      then [((''GET'', ''/api/v1/auth/saml/metadata''), handleSAMLMetadata G),
            ((''GET'', ''/api/v1/auth/saml/:idp/login''), handleSAMLLogin G),
            ((''POST'', ''/api/v1/auth/saml/acs''), handleSAMLACS G)]
      else [])"

text \<open>
  Mounted routes are grouped under \<^verbatim>\<open>/api/v1\<close>. A request goes through the global limiter, keyed
  by address, and then to the route Fiber chooses, or to none.
\<close>

definition mounted_routes :: "('v, 'd) app \<Rightarrow> 'd gw_route list" where
  "mounted_routes G =
     concat (map (\<lambda>mount. map (\<lambda>((m, p), h). ((m, ''/api/v1'' @ p), h)) (mount (requireAuth G))) (ap_httpRoutes G))"

definition gateway_routes :: "('v, 'd) app \<Rightarrow> 'd gw_route list" where
  "gateway_routes G = core_routes G @ mounted_routes G @ federated_routes G"

definition serve :: "('v, 'd) app \<Rightarrow> 'd gw_route list \<Rightarrow> 'd gw_handler" where
  "serve G routes rq ctx s =
     (case ap_router G (map fst routes) rq of
        Some i \<Rightarrow>
          if i < length routes then snd (routes ! i) rq ctx s
          else (jsonErrorHandler (Some (404, ''Not Found'')), s)
      | None \<Rightarrow> (jsonErrorHandler (Some (404, ''Not Found'')), s))"

definition gatewayHandler :: "('v, 'd) app \<Rightarrow> 'd gw_handler" where
  "gatewayHandler G rq ctx s =
     (if cf_RateLimit (ap_Config G) > 0
      then (case ap_hit_ip G (rq_ip rq) (gs_db s) of
              (True, d) \<Rightarrow> serve G (gateway_routes G) rq ctx (s\<lparr>gs_db := d\<rparr>)
            | (False, d) \<Rightarrow> (respond 429 (JStatus ''Too Many Requests''), s\<lparr>gs_db := d\<rparr>))
      else serve G (gateway_routes G) rq ctx s)"

definition kernelHandler :: "('v, 'd) app \<Rightarrow> 'd gw_handler" where
  "kernelHandler G =
     serve G [((''GET'', ''/healthz''), handleHealthz G ''sannad-kernel'' (ListCapabilities (ap_Registry G))),
              ((''GET'', ''/livez''), handleLivez),
              ((''GET'', ''/capabilities''), (\<lambda>rq ctx s. (respond 200 (JCapabilities (ListCapabilities (ap_Registry G))), s)))]"

section \<open>gRPC (app.go)\<close>

text \<open>Incoming metadata, if any; \<open>md.Get\<close> reads the values under a lower-case key.\<close>

type_synonym grpc_metadata = "string list gomap option"

definition grpcAuthInterceptor ::
  "('v, 'd) app \<Rightarrow> clock \<Rightarrow> grpc_metadata \<Rightarrow> (go_ctx \<Rightarrow> 'd \<Rightarrow> 'a grpc_result \<times> 'd) \<Rightarrow> go_ctx \<Rightarrow> 'd gw_state
     \<Rightarrow> 'a grpc_result \<times> 'd gw_state" where
  "grpcAuthInterceptor G clk md handler ctx s =
     (case md of
        None \<Rightarrow> (Inl (Unauthenticated, ''missing metadata''), s)
      | Some m \<Rightarrow>
          (case mget m ''authorization'' of
             Some (value # _) \<Rightarrow>
               (let token = bearerToken value in
                if token = [] then (Inl (Unauthenticated, ''missing bearer token''), s)
                else (case ValidateForCaller (ap_Auth G) clk token (gs_rev s) (gs_db s) of
                        (Inl _, c, d) \<Rightarrow>
                          (Inl (Unauthenticated, ''invalid or expired token''), s\<lparr>gs_rev := c, gs_db := d\<rparr>)
                      | (Inr (subject, tenantID), c, d) \<Rightarrow>
                          (case handler (authenticated_ctx ctx subject tenantID) d of
                             (res, d') \<Rightarrow> (res, s\<lparr>gs_rev := c, gs_db := d'\<rparr>))))
           | _ \<Rightarrow> (Inl (Unauthenticated, ''missing bearer token''), s)))"

definition grpc_capability_call ::
  "('v, 'd) app \<Rightarrow> clock \<Rightarrow> grpc_metadata \<Rightarrow> string \<Rightarrow> string \<Rightarrow> go_ctx \<Rightarrow> 'd gw_state \<Rightarrow> string grpc_result \<times> 'd gw_state" where
  "grpc_capability_call G clk md capability payload =
     grpcAuthInterceptor G clk md
       (\<lambda>ctx. GRPC_Call (\<lambda>ref. IsExposed ref (ap_Registry G)) (dispatchCapabilityCtx (ap_Registry G)) (ap_marshal G)
                ctx capability payload)"

end
