(* ===== verification/Gateway_Policy.thy ===== *)
theory Gateway_Policy
  imports Gateway
begin

text \<open>
  What the gateway promises: the access policy its route table implements, that HTTP and gRPC
  admit the same callers, what the audit trail and the webhook listings give out, which logins
  the tenant directory governs, and the OpenAPI document against the routes.
\<close>

section \<open>The access policy\<close>

text \<open>
  The policy, stated on methods and paths alone: health, the document and the ways to log in
  are public, \<^verbatim>\<open>/me\<close> and the
  capability bridge need a caller, and anything else needs the permission named after its
  resource, to read for \<^verbatim>\<open>GET\<close> and to write otherwise. A path nobody thought of is not public.
\<close>

definition public_path :: "string \<Rightarrow> bool" where
  "public_path path \<longleftrightarrow> path \<in> set [''/healthz'', ''/livez'', ''/api/v1/openapi.json''] \<or>
     has_prefix path ''/api/v1/auth/'' \<or> has_prefix path ''/api/v1/oauth2/''"

definition resource :: "string \<Rightarrow> string" where
  "resource path =
     (if has_prefix path ''/api/v1/service-accounts'' then ''service_accounts''
      else if has_prefix path ''/api/v1/audit-events'' then ''audit''
      else if has_prefix path ''/api/v1/webhooks/'' then ''webhooks''
      else if contains_sub path ''/roles'' then ''roles''
      else ''identities'')"

datatype access = Public | Caller | Permission string

definition route_policy :: "string \<times> string \<Rightarrow> access" where
  "route_policy route =
     (case route of (m, path) \<Rightarrow>
        if public_path path then Public
        else if has_prefix path ''/api/v1/me'' \<or> has_prefix path ''/api/v1/capabilities'' then Caller
        else Permission (resource path @ (if m = ''GET'' then '':read'' else '':write'')))"

fun guarded_by :: "('v, 'd) app \<Rightarrow> access \<Rightarrow> 'd gw_handler \<Rightarrow> bool" where
  "guarded_by G Public h = True"
| "guarded_by G Caller h = (\<exists>k. h = requireAuth G k)"
| "guarded_by G (Permission q) h = (\<exists>k. h = requireAuth G (requirePermission G q k))"

lemma core_routes_guarded: "(route, h) \<in> set (core_routes G) \<Longrightarrow> guarded_by G (route_policy route) h"
  unfolding core_routes_def list.set insert_iff empty_iff
  by (elim disjE; clarsimp simp: route_policy_def public_path_def resource_def permitted_def; blast)

definition limiter_admits :: "('v, 'd) app \<Rightarrow> gw_request \<Rightarrow> go_ctx \<Rightarrow> 'd \<Rightarrow> bool \<times> 'd" where
  "limiter_admits G rq ctx d =
     (if cf_RateLimitPerTenant (ap_Config G) > 0 then ap_hit G (limiter_key rq ctx) d else (True, d))"

lemma tenantLimiter_run:
  "limiter_admits G rq ctx (gs_db s) = (ok, d) \<Longrightarrow>
   tenantLimiter G k rq ctx s = (if ok then k rq ctx (s\<lparr>gs_db := d\<rparr>)
     else (gw_writeError 429 (ErrNew ''rate limit exceeded for this account''), s\<lparr>gs_db := d\<rparr>))"
  by (auto simp: tenantLimiter_def limiter_admits_def split: prod.splits if_splits bool.splits)

lemma requireAuth_no_token:
  "bearerToken (rq_authorization rq) = [] \<Longrightarrow> requireAuth G k rq ctx s = (gw_writeError 401 (ErrNew ''missing bearer token''), s)"
  by (simp add: requireAuth_def)

lemma requireAuth_bad_token:
  "bearerToken (rq_authorization rq) \<noteq> [] \<Longrightarrow>
   ValidateForCaller (ap_Auth G) (rq_clk rq) (bearerToken (rq_authorization rq)) (gs_rev s) (gs_db s) = (Inl e, c, d) \<Longrightarrow>
   requireAuth G k rq ctx s = (gw_writeError 401 (ErrNew ''invalid or expired token''), s\<lparr>gs_rev := c, gs_db := d\<rparr>)"
  by (simp add: requireAuth_def)

lemma requireAuth_token:
  "bearerToken (rq_authorization rq) \<noteq> [] \<Longrightarrow>
   ValidateForCaller (ap_Auth G) (rq_clk rq) (bearerToken (rq_authorization rq)) (gs_rev s) (gs_db s) = (Inr (sub, t), c, d) \<Longrightarrow>
   limiter_admits G rq (authenticated_ctx ctx sub t) d = (ok, d') \<Longrightarrow>
   requireAuth G k rq ctx s = (if ok then k rq (authenticated_ctx ctx sub t) (s\<lparr>gs_rev := c, gs_db := d'\<rparr>)
     else (gw_writeError 429 (ErrNew ''rate limit exceeded for this account''), s\<lparr>gs_rev := c, gs_db := d'\<rparr>))"
  by (simp add: requireAuth_def tenantLimiter_run)

lemma authenticated_ctx_caller [simp]:
  "CallerFrom (authenticated_ctx ctx sub t) = (CallerInfo sub t, True)" "ctx_tenant (authenticated_ctx ctx sub t) = t"
  by (simp_all add: authenticated_ctx_def CallerFrom_def WithCaller_def WithTenantID_def)

lemma authenticated_ctx_forget:
  "authenticated_ctx (ctx\<lparr>ctx_tenant := t', ctx_caller := c\<rparr>) sub t = authenticated_ctx ctx sub t"
  by (simp add: authenticated_ctx_def WithCaller_def WithTenantID_def)

lemma requireAuth_forget: "requireAuth G k rq (ctx\<lparr>ctx_tenant := t, ctx_caller := c\<rparr>) s = requireAuth G k rq ctx s"
  unfolding requireAuth_def authenticated_ctx_forget by (rule refl)

lemma requirePermission_denied:
  "CallerFrom ctx = (CallerInfo sub t, True) \<Longrightarrow> RequirePermission (ap_Auth G) ctx sub q (gs_db s) = (Some e, d) \<Longrightarrow>
   requirePermission G q k rq ctx s = (gw_writeError 403 e, s\<lparr>gs_db := d\<rparr>)"
  by (simp add: requirePermission_def)

lemma requirePermission_granted:
  "CallerFrom ctx = (CallerInfo sub t, True) \<Longrightarrow> RequirePermission (ap_Auth G) ctx sub q (gs_db s) = (None, d) \<Longrightarrow>
   requirePermission G q k rq ctx s = k rq ctx (s\<lparr>gs_db := d\<rparr>)"
  by (simp add: requirePermission_def)

lemmas requireAuth_cases = requireAuth_no_token requireAuth_bad_token requireAuth_token

text \<open>
  C3: the gateway's own routes obey the access policy. On every route that the policy does not
  make public, a request without a bearer token is answered 401 and changes nothing; one whose
  token the auth service refuses is answered 401 with no effect but that of the check; the
  tenant and caller the handler works under are those of the token, whatever the context
  carried before; and on a route that needs a permission, an admitted caller whom the auth
  service does not grant it is answered 403 with no effect but those of the checks.
\<close>

theorem gateway_access_policy:
  fixes G :: "('v, 'd) app" and s :: "'d gw_state" and rq :: gw_request
  assumes "(route, h) \<in> set (core_routes G)" and "route_policy route \<noteq> Public"
  defines "token \<equiv> bearerToken (rq_authorization rq)"
  defines "check \<equiv> ValidateForCaller (ap_Auth G) (rq_clk rq) token (gs_rev s) (gs_db s)"
  shows "(token = [] \<longrightarrow> h rq ctx s = (gw_writeError 401 (ErrNew ''missing bearer token''), s)) \<and>
    (\<forall>e c d. token \<noteq> [] \<and> check = (Inl e, c, d) \<longrightarrow>
       h rq ctx s = (gw_writeError 401 (ErrNew ''invalid or expired token''), s\<lparr>gs_rev := c, gs_db := d\<rparr>)) \<and>
    (\<forall>t c. h rq (ctx\<lparr>ctx_tenant := t, ctx_caller := c\<rparr>) s = h rq ctx s) \<and>
    (\<forall>q sub t c d d1 e d2. token \<noteq> [] \<and> check = (Inr (sub, t), c, d) \<and> route_policy route = Permission q \<and>
       limiter_admits G rq (authenticated_ctx ctx sub t) d = (True, d1) \<and>
       RequirePermission (ap_Auth G) (authenticated_ctx ctx sub t) sub q d1 = (Some e, d2) \<longrightarrow>
       h rq ctx s = (gw_writeError 403 e, s\<lparr>gs_rev := c, gs_db := d2\<rparr>))"
proof -
  obtain k where h: "h = requireAuth G k" and k: "\<forall>q. route_policy route = Permission q \<longrightarrow> (\<exists>k'. k = requirePermission G q k')"
    using core_routes_guarded [OF assms(1)] assms(2) by (cases "route_policy route") auto
  show ?thesis
    unfolding h token_def check_def
    by (auto simp: requireAuth_cases requireAuth_forget requirePermission_denied [OF authenticated_ctx_caller(1)] dest!: k[rule_format])
qed

section \<open>The OpenAPI document\<close>

text \<open>A documented path as Fiber writes it, and the parameters a documented path names.\<close>

definition fiber_path :: "string \<Rightarrow> string" where
  "fiber_path path = map (\<lambda>c. if c = CHR ''{'' then CHR '':'' else c) (filter (\<lambda>c. c \<noteq> CHR ''}'') path)"

fun path_params :: "string \<Rightarrow> string list" where
  "path_params [] = []"
| "path_params (c # cs) =
     (if c = CHR ''{'' then takeWhile (\<lambda>x. x \<noteq> CHR ''}'') cs # path_params cs else path_params cs)"

definition documented :: "(string \<times> string) \<times> openapi_op \<Rightarrow> bool" where
  "documented entry =
     (case entry of ((m, path), op) \<Rightarrow>
        op_parameters op = path_params path \<and>
        (op_security op = bearerAuth) = (route_policy (m, fiber_path path) \<noteq> Public))"

lemma core_paths_documented:
  "mset (map (\<lambda>((m, path), _). (m, fiber_path path)) openapi_paths) + {#(''GET'', ''/api/v1/openapi.json'')#}
     = mset (map fst (core_routes G))"
  by (simp add: openapi_paths_def core_routes_def fiber_path_def)

lemma injected_documented: "list_all documented (map injectIDParam openapi_paths)"
  by code_simp

lemma injectIDParam_fst: "fst (injectIDParam e) = fst e"
  by (simp add: injectIDParam_def split: prod.splits)

text \<open>
  C29: the published document describes the gateway. Whatever login providers are configured and
  whatever an entrypoint has mounted, the routes the gateway serves are, counted with multiplicity,
  the operations of the document, the route that serves the document itself, and the routes
  mounted by the entrypoint, which the document leaves out; the document asks for a bearer token on
  exactly the operations that the access policy does not make public, and it declares exactly
  the parameters that a path names.
\<close>

theorem openapi_describes_gateway:
  "mset (map fst (gateway_routes G)) =
     mset (map (\<lambda>((m, path), _). (m, fiber_path path)) (openAPIDocument G)) +
     {#(''GET'', ''/api/v1/openapi.json'')#} + mset (map fst (mounted_routes G)) \<and>
   list_all documented (openAPIDocument G)"
proof
  have inj: "map (\<lambda>((m, path), _). (m, fiber_path path)) (map injectIDParam openapi_paths)
      = map (\<lambda>((m, path), _). (m, fiber_path path)) openapi_paths"
    by (auto simp: injectIDParam_def split: prod.splits)
  show "mset (map fst (gateway_routes G)) =
     mset (map (\<lambda>((m, path), _). (m, fiber_path path)) (openAPIDocument G)) +
     {#(''GET'', ''/api/v1/openapi.json'')#} + mset (map fst (mounted_routes G))"
    unfolding gateway_routes_def openAPIDocument_def map_append mset_append inj core_paths_documented [of G, symmetric]
    by (simp add: federated_routes_def fiber_path_def)
  show "list_all documented (openAPIDocument G)"
    unfolding openAPIDocument_def list_all_append
    by (simp add: injected_documented documented_def operation_def bearerAuth_def route_policy_def public_path_def fiber_path_def)
qed

section \<open>HTTP and gRPC\<close>

text \<open>What a caller reads of an answer of the gateway: the status and the error or result.\<close>

fun answer_of :: "gw_response \<Rightarrow> nat \<times> http_body option" where
  "answer_of r = (gr_status r,
     case gr_body r of JError m \<Rightarrow> Some (ErrorBody m) | JBridge b \<Rightarrow> Some (rsp_body b) | _ \<Rightarrow> None)"

definition grpc_answer :: "string grpc_result \<Rightarrow> nat \<times> http_body option" where
  "grpc_answer g = (rsp_status (as_http g), Some (rsp_body (as_http g)))"

text \<open>
  C25: authentication is the same over both transports. With the per-account limit off, a call of
  a capability over HTTP and the same call over gRPC with the same credentials are both
  refused or both carried out, for the same caller in the same tenant; they leave the same
  database and caches behind and answer with the same result, or the same message under the
  corresponding status.
\<close>

theorem transports_authenticate_alike:
  fixes G :: "('v, 'd) app" and s :: "'d gw_state"
  assumes "cf_RateLimitPerTenant (ap_Config G) \<le> 0" and "rq_converted rq = Inr host"
    and "rq_path rq = ''/api/v1/capabilities/'' @ cap" and "CHR ''/'' \<notin> set cap"
    and "length (rq_body rq) \<le> MaxRequestBytes" and "mget md ''authorization'' = Some (rq_authorization rq # others)"
    and "((''POST'', ''/api/v1/capabilities/:ref''), h) \<in> set (core_routes G)"
  shows "map_prod answer_of (\<lambda>s. s) (h rq ctx s)
    = map_prod grpc_answer (\<lambda>s. s) (grpc_capability_call G (rq_clk rq) (Some md) cap (rq_body rq) ctx s)"
proof -
  have h: "h = requireAuth G (adaptHTTPWithUserContext (bridge_dispatch G))"
    using assms(7) by (auto simp: core_routes_def)
  have "refText (rq_path rq) = cap"
    using refText_last [of cap "''api/v1/capabilities''"] assms(3,4) by simp
  then have bridged: "bridge_dispatch G \<lparr>req_path = rq_path rq, req_body = rq_body rq, req_body_err = None, req_ctx = c\<rparr> d
    = map_prod as_http (\<lambda>d. d) (GRPC_Call (\<lambda>ref. IsExposed ref (ap_Registry G)) (dispatchCapabilityCtx (ap_Registry G))
        (ap_marshal G) c cap (rq_body rq) d)" for c d
    unfolding bridge_dispatch_def using assms(5) by (subst Dispatch_as_http) simp_all
  show ?thesis
    using assms(1,2,6)
    by (auto simp: h requireAuth_def grpc_capability_call_def grpcAuthInterceptor_def Let_def tenantLimiter_def
        adaptHTTPWithUserContext_def with_db_def bridged gw_writeError_def respond_def grpc_answer_def as_http_def
        writeError_def http_status_defs split: prod.splits sum.splits)
qed

section \<open>What an admitted caller reads\<close>

lemma ValidateForCaller_tenant:
  "ValidateForCaller A clk tok c d = (Inr (sub, t), st) \<Longrightarrow> t \<noteq> []"
  by (auto simp: ValidateForCaller_def ValidateClaims_def split: sum.splits prod.splits if_splits option.splits)

definition admitted_as :: "('v, 'd) app \<Rightarrow> gw_request \<Rightarrow> 'd gw_state \<Rightarrow> string \<Rightarrow> string \<Rightarrow> bool" where
  "admitted_as G rq s sub t \<longleftrightarrow>
     fst (ValidateForCaller (ap_Auth G) (rq_clk rq) (bearerToken (rq_authorization rq)) (gs_rev s) (gs_db s)) = Inr (sub, t)"

lemma writeError_status [simp]: "gr_status (gw_writeError n e) = n"
  by (simp add: gw_writeError_def respond_def)

lemma requireAuth_200:
  assumes "requireAuth G k rq ctx s = (resp, s')" and "gr_status resp = 200"
  obtains sub t s1 where "admitted_as G rq s sub t" "t \<noteq> []" "k rq (authenticated_ctx ctx sub t) s1 = (resp, s')"
proof -
  obtain r c d where v: "ValidateForCaller (ap_Auth G) (rq_clk rq) (bearerToken (rq_authorization rq)) (gs_rev s) (gs_db s) = (r, c, d)"
    by (metis prod.exhaust)
  have tok: "bearerToken (rq_authorization rq) \<noteq> []" using assms by (auto simp: requireAuth_no_token)
  show thesis
  proof (cases r)
    case (Inl e)
    then have "resp = gw_writeError 401 (ErrNew ''invalid or expired token'')"
      using assms(1) requireAuth_bad_token [OF tok v [unfolded Inl], of k ctx] by simp
    then show thesis using assms(2) by simp
  next
    case (Inr p)
    obtain sub t where p: "p = (sub, t)" by fastforce
    obtain ok d1 where l: "limiter_admits G rq (authenticated_ctx ctx sub t) d = (ok, d1)" by fastforce
    note run = requireAuth_token [OF tok v [unfolded Inr p] l, of k]
    have "ok" using run assms by (auto split: if_splits)
    then show thesis
      using that [of sub t] v run assms(1) ValidateForCaller_tenant [OF v [unfolded Inr p]] by (simp add: admitted_as_def Inr p)
  qed
qed

lemma permitted_200:
  assumes "permitted G q k rq ctx s = (resp, s')" and "gr_status resp = 200"
  obtains sub t s1 where "admitted_as G rq s sub t" "t \<noteq> []" "k rq (authenticated_ctx ctx sub t) s1 = (resp, s')"
proof -
  obtain sub t s1 where a: "admitted_as G rq s sub t" "t \<noteq> []"
    and k: "requirePermission G q k rq (authenticated_ctx ctx sub t) s1 = (resp, s')"
    using requireAuth_200 [OF assms(1)[unfolded permitted_def] assms(2)] by metis
  obtain e d where p: "RequirePermission (ap_Auth G) (authenticated_ctx ctx sub t) sub q (gs_db s1) = (e, d)" by fastforce
  have "e = None" using k p assms(2) requirePermission_denied [OF authenticated_ctx_caller(1)] by (cases e) fastforce+
  then show thesis using that [OF a] k p requirePermission_granted [OF authenticated_ctx_caller(1)] by fastforce
qed

lemma queryIntDefault_range: "0 < def \<Longrightarrow> def \<le> 500 \<Longrightarrow> 0 < queryIntDefault rq k def \<and> queryIntDefault rq k def \<le> 500"
  by (simp add: queryIntDefault_def Let_def)

text \<open>
  C27: the audit trail is read within one tenant. Whatever an audit request asks for, an answer
  200 means that the auth service accepted its token, and the answer holds only events of
  that token's tenant, of the actor and type asked for, and at most 500 of them.
\<close>

theorem audit_reads_stay_in_tenant:
  fixes G :: "('v, 'd) app" and s :: "'d gw_state"
  assumes "((''GET'', ''/api/v1/audit-events''), h) \<in> set (core_routes G)"
    and "sql_table (ap_audit G) rows rest key" and "\<forall>clause. rearranges (ap_order G clause)"
    and "h rq ctx s = (resp, s')" and "gr_status resp = 200"
  shows "\<exists>sub t evs. admitted_as G rq s sub t \<and> gr_body resp = JAudit evs \<and> length evs \<le> 500 \<and>
    list_all (\<lambda>e. ga_TenantID e = t \<and> query rq ''actor_id'' \<in> {[], ga_ActorID e} \<and> query rq ''type'' \<in> {[], ga_Type e}) evs"
proof -
  have "h = permitted G ''audit:read'' (handleListAuditEvents G)" using assms(1) by (auto simp: core_routes_def)
  then obtain sub t s1 where a: "admitted_as G rq s sub t" "t \<noteq> []"
    and k: "handleListAuditEvents G rq (authenticated_ctx ctx sub t) s1 = (resp, s')"
    using permitted_200 assms(4,5) by metis
  let ?f = "audit_filter_of rq (authenticated_ctx ctx sub t)"
  obtain r d where q: "QueryAuditEvents (ap_audit G) (ap_order G) ?f (gs_db s1) = (r, d)" by fastforce
  from k assms(5) obtain evs where r: "r = Inr evs" and b: "gr_body resp = JAudit evs"
    by (cases r) (auto simp: handleListAuditEvents_def with_db_def q or_error_val_def respond_def gw_writeError_def split: if_splits)
  note range = queryIntDefault_range [of 50 rq "''limit''", simplified]
  have "list_all (audit_where ?f) evs" "length evs \<le> 500"
    using QueryAuditEvents_rows [OF assms(2) _ q [unfolded r]] assms(3) range
    by (auto simp: list_all_iff audit_filter_of_def)
  then show ?thesis
    using a b by (intro exI [of _ sub] exI [of _ t] exI [of _ evs])
      (auto simp: list_all_iff audit_where_def audit_filter_of_def split: if_splits)
qed

context store_contract
begin

lemma endpoint_tenant: "needs_tenant ctx sc \<Longrightarrow> selects ctx sc m conds row \<Longrightarrow> ep_TenantID (row_endpoint row) = ctx_tenant ctx"
  by (auto simp: selects_def in_scope_def row_endpoint_def col_str_def row_tenant_def tenant_column_def)

lemma ListEndpoints_scoped:
  assumes "rn_store r = S" and "\<not> IsSystemContext ctx" and "ListEndpoints r ctx d = (Inr es, d')"
  shows "list_all (\<lambda>e. ep_TenantID e = ctx_tenant ctx) es"
proof -
  let ?m = "zero_model (TPtr (TSlice WebhookEndpoint))"
  obtain rows where f: "Find S ctx ?m [] d = (Inr rows, d')" and es: "es = map row_endpoint rows"
    using assms(1,3) by (auto simp: ListEndpoints_def split: prod.splits sum.splits)
  have "scoped (md_type ?m)" by (rule scoped_struct) (simp add: zero_model_def WebhookEndpoint_def)
  then have nt: "needs_tenant ctx (scoped (md_type ?m))" using assms(2) by (simp add: needs_tenant_def)
  have "set rows = set (filter (selects ctx (scoped (md_type ?m)) ?m []) (tbl d (table_of (md_type ?m))))"
    using Find_spec [OF _ f] mset_eq_setD by (metis list.pred_inject(1))
  then have "\<forall>row\<in>set rows. ep_TenantID (row_endpoint row) = ctx_tenant ctx"
    using endpoint_tenant [OF nt] by auto
  then show ?thesis by (simp add: es list_all_iff)
qed

lemma GetEndpoint_scoped:
  assumes "rn_store r = S" and "\<not> IsSystemContext ctx" and "GetEndpoint r ctx i d = (Inr e, d')"
  shows "ep_TenantID e = ctx_tenant ctx"
proof -
  let ?m = "zero_model (TPtr WebhookEndpoint)"
  obtain row where f: "First S ctx ?m [Where ''id'' (CStr i)] d = (Inr row, d')" and e: "e = row_endpoint row"
    using assms(1,3) by (auto simp: GetEndpoint_def split: prod.splits sum.splits)
  have "scoped (md_type ?m)" by (rule scoped_struct) (simp add: zero_model_def WebhookEndpoint_def)
  moreover have "list_all plain_cond [Where ''id'' (CStr i)]" by (simp add: bare_name_def bare_char_def)
  ultimately show ?thesis
    using First_spec [OF _ f] assms(2) endpoint_tenant by (auto simp: e needs_tenant_def)
qed

end

fun endpoints_in :: "gw_body \<Rightarrow> Endpoint list" where
  "endpoints_in (JEndpoint e) = [e]"
| "endpoints_in (JEndpoints es) = es"
| "endpoints_in _ = []"

text \<open>What the two reads of webhook endpoints answer, once let in.\<close>

lemma ListWebhookEndpoints_200:
  assumes "engine_ok E tbl ext pk sat" and "rn_store (ap_Webhooks G) = NewGormStore tn E"
    and "\<not> IsSystemContext ctx" and "handleListWebhookEndpoints G rq ctx s = (resp, s')" and "gr_status resp = 200"
  shows "\<exists>es. gr_body resp = JEndpoints (redactSecrets es) \<and> list_all (\<lambda>e. ep_TenantID e = ctx_tenant ctx) es"
proof -
  obtain es d where g: "ListEndpoints (ap_Webhooks G) ctx (gs_db s) = (Inr es, d)"
    and r: "gr_body resp = JEndpoints (redactSecrets es)"
    using assms(4,5)
    by (auto simp: handleListWebhookEndpoints_def with_db_def or_error_val_def respond_def gw_writeError_def
        split: prod.splits sum.splits if_splits)
  from store_contract.ListEndpoints_scoped [OF NewGormStore_contract [OF assms(1), of tn] assms(2,3) g] r
  show ?thesis by (auto simp: list_all_iff)
qed

lemma GetWebhookEndpoint_200:
  assumes "engine_ok E tbl ext pk sat" and "rn_store (ap_Webhooks G) = NewGormStore tn E"
    and "\<not> IsSystemContext ctx" and "handleGetWebhookEndpoint G rq ctx s = (resp, s')" and "gr_status resp = 200"
  shows "\<exists>e. gr_body resp = JEndpoint (e\<lparr>ep_Secret := []\<rparr>) \<and> ep_TenantID e = ctx_tenant ctx"
proof -
  obtain e d where g: "GetEndpoint (ap_Webhooks G) ctx (param rq ''id'') (gs_db s) = (Inr e, d)"
    and r: "gr_body resp = JEndpoint (e\<lparr>ep_Secret := []\<rparr>)"
    using assms(4,5)
    by (auto simp: handleGetWebhookEndpoint_def with_db_def or_error_val_def respond_def writeWebhookError_def
        split: prod.splits sum.splits if_splits)
  from store_contract.GetEndpoint_scoped [OF NewGormStore_contract [OF assms(1), of tn] assms(2,3) g] r
  show ?thesis by blast
qed

text \<open>
  C28: webhook endpoints are read within one tenant, and listed without their secrets. Over the
  GORM store, an answer 200 to a listing of the endpoints or to a read of one of them means that
  the token was accepted, and holds only endpoints of that token's tenant, whatever identifier the
  request names; in the answer to a listing every signing secret is blank. What the read
  of a single endpoint does with the secret is not part of this: the documents of the repository
  disagree about it (\<open>GetWebhookEndpoint_200\<close> shows that the handler blanks it).
\<close>

theorem webhook_reads_stay_in_tenant:
  fixes G :: "('v, 'd) app" and s :: "'d gw_state"
  assumes "engine_ok E tbl ext pk sat" and "rn_store (ap_Webhooks G) = NewGormStore tn E"
    and "path \<in> set [''/api/v1/webhooks/endpoints'', ''/api/v1/webhooks/endpoints/:id'']"
    and "((''GET'', path), h) \<in> set (core_routes G)" and "\<not> IsSystemContext ctx"
    and "h rq ctx s = (resp, s')" and "gr_status resp = 200"
  shows "\<exists>sub t. admitted_as G rq s sub t \<and>
    list_all (\<lambda>e. ep_TenantID e = t) (endpoints_in (gr_body resp)) \<and>
    (path = ''/api/v1/webhooks/endpoints'' \<longrightarrow> list_all (\<lambda>e. ep_Secret e = []) (endpoints_in (gr_body resp))) \<and>
    (path = ''/api/v1/webhooks/endpoints/:id'' \<longrightarrow> length (endpoints_in (gr_body resp)) = 1)"
proof -
  let ?one = "path = ''/api/v1/webhooks/endpoints/:id''"
  have "h = permitted G ''webhooks:read'' (if ?one then handleGetWebhookEndpoint G else handleListWebhookEndpoints G)"
    using assms(3,4) by (auto simp: core_routes_def)
  then obtain sub t s1 where a: "admitted_as G rq s sub t"
    and k: "(if ?one then handleGetWebhookEndpoint G else handleListWebhookEndpoints G) rq (authenticated_ctx ctx sub t) s1 = (resp, s')"
    using permitted_200 assms(6,7) by metis
  have user: "\<not> IsSystemContext (authenticated_ctx ctx sub t)" "ctx_tenant (authenticated_ctx ctx sub t) = t"
    using assms(5) by (simp_all add: IsSystemContext_def authenticated_ctx_def WithCaller_def WithTenantID_def)
  show ?thesis
  proof (cases ?one)
    case True
    then have "handleGetWebhookEndpoint G rq (authenticated_ctx ctx sub t) s1 = (resp, s')" using k by simp
    from GetWebhookEndpoint_200 [OF assms(1,2) user(1) this assms(7)] show ?thesis
      using a True by (intro exI [of _ sub] exI [of _ t]) (auto simp: user(2))
  next
    case False
    then have "handleListWebhookEndpoints G rq (authenticated_ctx ctx sub t) s1 = (resp, s')" using k by simp
    from ListWebhookEndpoints_200 [OF assms(1,2) user(1) this assms(7)] show ?thesis
      using a False by (intro exI [of _ sub] exI [of _ t]) (auto simp: user(2) redactSecrets_def list_all_iff)
  qed
qed

section \<open>Which logins the tenant directory governs\<close>

text \<open>
  A moment the directory may still go by: one of the history, or the current database at the
  second reading of the clock.
\<close>

definition moments :: "gw_request \<Rightarrow> 'd gw_state \<Rightarrow> (int \<times> 'd) list \<Rightarrow> (int \<times> 'd) set" where
  "moments rq s H = insert (snd (rq_clk rq), gs_db s) (set H)"

definition recently_active :: "('d \<Rightarrow> tenant list) \<Rightarrow> gw_request \<Rightarrow> 'd gw_state \<Rightarrow> (int \<times> 'd) list \<Rightarrow> string \<Rightarrow> bool" where
  "recently_active rows rq s H k \<longleftrightarrow> (\<exists>(t0, d0) \<in> moments rq s H. fst (rq_clk rq) - t0 < DirectoryTTL \<and>
     (\<exists>r\<in>set (rows d0). tn_ID r = k \<and> tn_Status r = StatusActive))"

context tenant_table
begin

abbreviation "known \<equiv> ttl_run (dir_lookup T) (\<lambda>d. tenant_entry (rows d))"

lemma Check_run:
  assumes "Directory_Check T (now, later) k c d = (e, c', d')" and "known ((t, d) # H) c" and "t \<le> now" and "now \<le> later"
  shows "\<exists>t' H'. known ((t', d') # H') c' \<and> rows d' = rows d \<and>
    (\<forall>(x, d0) \<in> set ((t', d') # H'). (x, d0) \<in> set ((t, d) # H) \<or> x = later \<and> rows d0 = rows d)"
proof (cases "k = []")
  case True
  then have "d' = d" "c' = c" using assms(1) by (simp_all add: Directory_Check_def)
  then show ?thesis using assms(2) by blast
next
  case False
  then obtain res where l: "dir_lookup T (now, later) k c d = (res, c', d')"
    using assms(1) by (auto simp: Directory_Check_def split: prod.splits sum.splits)
  then show ?thesis using ttl_run.look [OF assms(2-4) l] dir_lookup_rows [OF l] by fastforce
qed

lemma Check_None_active:
  assumes "Directory_Check T (now, later) k c d = (None, c', d')" and "known ((t, d) # H) c" and "now \<le> later"
  shows "\<exists>t0 d0. ((t0, d0) \<in> set ((t, d) # H) \<or> t0 = later \<and> rows d0 = rows d) \<and> now - t0 < DirectoryTTL \<and>
    (\<exists>r\<in>set (rows d0). tn_ID r = k \<and> tn_Status r = StatusActive)"
proof -
  have "0 < DirectoryTTL" by (simp add: DirectoryTTL_def)
  from dir.answer_within [OF assms(2,3) Directory_Check_None(2) [OF assms(1)] this]
  show ?thesis using tenant_entry_active dir_lookup_rows [OF Directory_Check_None(2) [OF assms(1)]] by fastforce
qed

end

lemma resolveTenant_cases:
  assumes "ap_tenants G = Some T" and "resolveTenant G rq fallback s = (k, s1)"
  shows "s1 = s \<or> (\<exists>i e. Directory_Check T (rq_clk rq) i (gs_dir s) (gs_db s) = (e, gs_dir s1, gs_db s1))"
proof (cases "s1 = s")
  case False
  then obtain i where i: "rq_converted rq = Inr i" "cf_TenantBaseDomain (ap_Config G) \<noteq> []"
    using assms by (auto simp: resolveTenant_def split: if_splits sum.splits)
  obtain r c d where v: "ValidatingResolver_Resolve (ap_inner_resolver G) T (rq_clk rq) i (gs_dir s) (gs_db s) = (r, c, d)"
    by (metis prod.exhaust)
  have s1: "s1 = s\<lparr>gs_dir := c, gs_db := d\<rparr>"
    using assms by (cases r) (auto simp: resolveTenant_def i v)
  then have "gs_dir s \<noteq> c \<or> gs_db s \<noteq> d" using False by force
  then show ?thesis
    using v by (auto simp: s1 ValidatingResolver_Resolve_def split: sum.splits if_splits prod.splits option.splits)
qed simp

lemma resolveTenant_run:
  assumes T: "ap_tenants G = Some T" "tenant_table T rows rest"
    and run: "ttl_run (dir_lookup T) (\<lambda>d. tenant_entry (rows d)) ((t, gs_db s) # H) (gs_dir s)"
    and clk: "rq_clk rq = (now, later)" "t \<le> now" "now \<le> later" and res: "resolveTenant G rq fallback s = (k, s1)"
  shows "\<exists>t' H'. ttl_run (dir_lookup T) (\<lambda>d. tenant_entry (rows d)) ((t', gs_db s1) # H') (gs_dir s1) \<and>
    rows (gs_db s1) = rows (gs_db s) \<and>
    (\<forall>(x, d0) \<in> set ((t', gs_db s1) # H'). (x, d0) \<in> set ((t, gs_db s) # H) \<or> x = later \<and> rows d0 = rows (gs_db s))"
  using resolveTenant_cases [OF T(1) res]
proof
  assume "s1 = s"
  then show ?thesis using run by blast
next
  assume "\<exists>i e. Directory_Check T (rq_clk rq) i (gs_dir s) (gs_db s) = (e, gs_dir s1, gs_db s1)"
  then obtain i e where "Directory_Check T (now, later) i (gs_dir s) (gs_db s) = (e, gs_dir s1, gs_db s1)"
    unfolding clk(1) by blast
  from tenant_table.Check_run [OF T(2) this run clk(2,3)] show ?thesis .
qed

lemma checked_tenant_active:
  assumes T: "ap_tenants G = Some T" "tenant_table T rows rest"
    and run: "ttl_run (dir_lookup T) (\<lambda>d. tenant_entry (rows d)) ((t, gs_db s) # H) (gs_dir s)"
    and clk: "rq_clk rq = (now, later)" "t \<le> now" "now \<le> later"
    and res: "resolveTenant G rq fallback s = (k, s1)" and chk: "checkTenant G rq k s1 = (None, s2)"
  shows "recently_active rows rq s ((t, gs_db s) # H) k"
proof -
  obtain t' H' where H: "ttl_run (dir_lookup T) (\<lambda>d. tenant_entry (rows d)) ((t', gs_db s1) # H') (gs_dir s1)"
    "rows (gs_db s1) = rows (gs_db s)"
    "\<forall>(x, d0) \<in> set ((t', gs_db s1) # H'). (x, d0) \<in> set ((t, gs_db s) # H) \<or> x = later \<and> rows d0 = rows (gs_db s)"
    using resolveTenant_run [OF T run clk res] by blast
  obtain c' d' where "Directory_Check T (now, later) k (gs_dir s1) (gs_db s1) = (None, c', d')"
    using chk T(1) by (auto simp: checkTenant_def clk(1) split: prod.splits)
  from tenant_table.Check_None_active [OF T(2) this H(1) clk(3)] obtain t0 d0 where
    m: "(t0, d0) \<in> set ((t', gs_db s1) # H') \<or> t0 = later \<and> rows d0 = rows (gs_db s1)" and a: "now - t0 < DirectoryTTL"
    "\<exists>r\<in>set (rows d0). tn_ID r = k \<and> tn_Status r = StatusActive"
    by blast
  from m have "(t0, d0) \<in> set ((t, gs_db s) # H) \<or> t0 = later \<and> rows d0 = rows (gs_db s)" using H(2,3) by auto
  then show ?thesis
  proof
    assume "(t0, d0) \<in> set ((t, gs_db s) # H)"
    then show ?thesis unfolding recently_active_def moments_def clk(1) fst_conv using a by (intro bexI [of _ "(t0, d0)"]) auto
  next
    assume "t0 = later \<and> rows d0 = rows (gs_db s)"
    then show ?thesis unfolding recently_active_def moments_def clk(1) fst_conv snd_conv
      using a by (intro bexI [of _ "(later, gs_db s)"]) auto
  qed
qed

lemma issue_login_tenant: "issue_login A now sub t ver d = (Inr r, d') \<Longrightarrow> lr_TenantID r = t"
  by (auto simp: issue_login_def split: prod.splits sum.splits)

lemma Login_tenant:
  assumes "sql_table (au_accounts A) arows arest ac_ID" and "Login A ctx now t email pw d = (Inr r, d')"
  shows "lr_TenantID r = t"
proof -
  obtain a d1 where f: "db_first (au_accounts A) (\<lambda>r. ac_TenantID r = t \<and> ac_Email r = email) d = (Inr a, d1)"
    and l: "lr_TenantID r = ac_TenantID a"
    using assms(2) by (auto simp: Login_def split: prod.splits sum.splits if_splits dest!: issue_login_tenant)
  from sql_table.first_ok [OF assms(1) f] l show ?thesis by simp
qed

lemma HandleOAuthCallback_tenant: "HandleOAuthCallback A ctx now t p state code d = (Inr r, d') \<Longrightarrow> lr_TenantID r = t"
  by (auto simp: HandleOAuthCallback_def split: prod.splits sum.splits if_splits option.splits dest!: issue_login_tenant)

lemma handleLogin_200:
  assumes "handleLogin G rq ctx s = (resp, s')" and "gr_status resp = 200"
    and "sql_table (au_accounts (ap_Auth G)) arows arest ac_ID"
  shows "\<exists>fallback k s1 s2 r. resolveTenant G rq fallback s = (k, s1) \<and> checkTenant G rq k s1 = (None, s2) \<and>
    gr_body resp = JLogin r \<and> lr_TenantID r = k"
proof -
  obtain p where p: "decodeCredentials G rq = Inr p"
    using assms(1,2) by (cases "decodeCredentials G rq") (auto simp: handleLogin_def)
  obtain k s1 where k: "resolveTenant G rq (cp_Tenant p) s = (k, s1)" by fastforce
  obtain e s2 where e: "checkTenant G rq k s1 = (e, s2)" by fastforce
  obtain a d where l: "Login (ap_Auth G) ctx (fst (rq_clk rq)) k (cp_Email p) (cp_Password p) (gs_db s2) = (a, d)" by fastforce
  from assms(1,2) have "e = None \<and> (\<exists>r. a = Inr r \<and> gr_body resp = JLogin r)"
    by (cases e; cases a) (auto simp: handleLogin_def p k e l with_db_def or_error_val_def respond_def tenantRejection_def
        gw_writeError_def split: if_splits)
  then obtain r where "e = None" "a = Inr r" "gr_body resp = JLogin r" by blast
  moreover have "lr_TenantID r = k" using Login_tenant [OF assms(3)] l calculation(2) by simp
  ultimately show ?thesis using k e by (intro exI [of _ "cp_Tenant p"] exI [of _ k] exI) auto
qed

lemma handleOAuthCallback_200:
  assumes "handleOAuthCallback G rq ctx s = (resp, s')" and "gr_status resp = 200"
  shows "\<exists>fallback k s1 s2 r. resolveTenant G rq fallback s = (k, s1) \<and> checkTenant G rq k s1 = (None, s2) \<and>
    gr_body resp = JLogin r \<and> lr_TenantID r = k"
proof -
  obtain k s1 where k: "resolveTenant G rq [] s = (k, s1)" by fastforce
  obtain e s2 where e: "checkTenant G rq k s1 = (e, s2)" by fastforce
  obtain a d where l: "HandleOAuthCallback (ap_Auth G) ctx (fst (rq_clk rq)) k (param rq ''provider'') (query rq ''state'')
      (query rq ''code'') (gs_db s2) = (a, d)" by fastforce
  from assms have "e = None \<and> (\<exists>r. a = Inr r \<and> gr_body resp = JLogin r)"
    by (cases e; cases a) (auto simp: handleOAuthCallback_def k e l with_db_def or_error_val_def respond_def tenantRejection_def
        gw_writeError_def split: if_splits)
  then obtain r where "e = None" "a = Inr r" "gr_body resp = JLogin r" by blast
  moreover have "lr_TenantID r = k" using HandleOAuthCallback_tenant l calculation(2) by simp
  ultimately show ?thesis using k e by (intro exI [of _ "[]"] exI [of _ k] exI) auto
qed

text \<open>
  C26: a tenant that is not active cannot be logged into with a password or through OIDC. However
  the directory was used and changed before, an answer 200 of either route is a session in a
  tenant for which the directory's table held an active row at some moment less than
  \<open>DirectoryTTL\<close> earlier, whether the host or the request named the tenant.
\<close>

theorem interactive_login_needs_active_tenant:
  fixes G :: "('v, 'd) app" and s :: "'d gw_state" and H :: "(int \<times> 'd) list"
  assumes "ap_tenants G = Some T" and "tenant_table T rows rest" and "sql_table (au_accounts (ap_Auth G)) arows arest ac_ID"
    and "ttl_run (dir_lookup T) (\<lambda>d. tenant_entry (rows d)) ((t, gs_db s) # H) (gs_dir s)"
    and "rq_clk rq = (now, later)" and "t \<le> now" and "now \<le> later"
    and "route \<in> {(''POST'', ''/api/v1/auth/login''), (''GET'', ''/api/v1/oauth2/:provider/callback'')}"
    and "(route, h) \<in> set (core_routes G @ federated_routes G)" and "h rq ctx s = (resp, s')" and "gr_status resp = 200"
  shows "\<exists>r. gr_body resp = JLogin r \<and> recently_active rows rq s ((t, gs_db s) # H) (lr_TenantID r)"
proof -
  have "h = handleLogin G \<or> h = handleOAuthCallback G"
    using assms(8,9) by (auto simp: core_routes_def federated_routes_def split: if_splits)
  then obtain fallback k s1 s2 r where run: "resolveTenant G rq fallback s = (k, s1)" "checkTenant G rq k s1 = (None, s2)"
    and r: "gr_body resp = JLogin r" "lr_TenantID r = k"
    using handleLogin_200 [OF _ assms(11,3)] handleOAuthCallback_200 [OF _ assms(11)] assms(10) by blast
  from checked_tenant_active [OF assms(1,2,4-7) run] r show ?thesis by blast
qed

section \<open>A deployment in memory\<close>

text \<open>
  The webhook tables are the GORM store's; the auth tables, the tenants and the audit trail are
  beside them. One account, \<^verbatim>\<open>u1\<close> of \<^verbatim>\<open>acme\<close>, holds the role it is given, a service account has the
  key \<^verbatim>\<open>raw\<close>, and the SAML response \<^verbatim>\<open>alice\<close> answers for the account's link.
\<close>

record gw_world = auth_world +
  gw_tenants :: "tenant list"
  gw_audit :: "gormAuditEvent list"

definition side_table :: "('r \<Rightarrow> 'k) \<Rightarrow> (gw_world \<Rightarrow> 'r list) \<Rightarrow> ('r list \<Rightarrow> gw_world \<Rightarrow> gw_world) \<Rightarrow> ('r, gw_world mem) dbtable" where
  "side_table key get put = slot_table key (get \<circ> snd) (\<lambda>rs d. (fst d, put rs (snd d)))"

definition gw_tokens :: "(string \<times> TenantClaims \<times> string) list" where
  "gw_tokens = demo_tokens @
     [(''k'', issued_claims ''s1'' ''svc'' ''acme'' 0 5 (5 + 10 * 1000000000), ''svc-access''),
      (''k'', issued_claims ''s1'' ''svc'' ''acme'' 0 5 (5 + 20 * 1000000000), ''svc-refresh''),
      (''k'', issued_claims ''s1'' ''u1'' ''acme'' 3 5 (5 + 10 * 1000000000), ''new-access''),
      (''k'', issued_claims ''s1'' ''u1'' ''acme'' 3 5 (5 + 20 * 1000000000), ''new-refresh'')]"

definition gw_service :: "gw_world mem auth_service" where
  "gw_service = \<lparr>au_jwt = table_jwt gw_tokens, au_strategy = demo_strategy,
     au_accounts = side_table ac_ID aw_accounts (\<lambda>rs w. w\<lparr>aw_accounts := rs\<rparr>),
     au_services = side_table sa_ID aw_services (\<lambda>rs w. w\<lparr>aw_services := rs\<rparr>),
     au_assignments = side_table (\<lambda>r. (ra_TenantID r, ra_IdentityID r, ra_Role r)) aw_assignments (\<lambda>rs w. w\<lparr>aw_assignments := rs\<rparr>),
     au_roles = side_table (\<lambda>r. (rd_Name r, rd_TenantID r)) aw_roles (\<lambda>rs w. w\<lparr>aw_roles := rs\<rparr>),
     au_oidc_links = side_table oi_ID aw_oidc (\<lambda>rs w. w\<lparr>aw_oidc := rs\<rparr>),
     au_saml_links = side_table si_ID aw_saml (\<lambda>rs w. w\<lparr>aw_saml := rs\<rparr>),
     au_revoked = side_table rs_SessionID aw_revoked (\<lambda>rs w. w\<lparr>aw_revoked := rs\<rparr>),
     au_transaction = (\<lambda>body d. case body d of (None, d') \<Rightarrow> (None, d') | (Some e, _) \<Rightarrow> (Some e, d)),
     au_log = (\<lambda>_ ev d. (None, (fst d, snd d\<lparr>aw_log := ev # aw_log (snd d)\<rparr>))),
     au_compare = (\<lambda>p h. h = ''hash-'' @ p),
     au_uuid = (\<lambda>d. (''s1'', d)),
     au_submit = (\<lambda>_ _ d. (Inl (ErrNew ''registration is closed''), d)),
     au_oidc = [],
     au_generate_key = (\<lambda>d. (Inr (''raw'', ''hash''), d)),
     au_api_login = (\<lambda>look raw d. case look (''hash-'' @ raw) d of (Inl e, d') \<Rightarrow> (Inl e, d') | (Inr a, d') \<Rightarrow> (Inr (Some a), d')),
     au_ErrRoleNotFound = ErrNew ''role not found'',
     au_authorize = (\<lambda>roles _ sub _ d. case roles sub d of (Inl e, d') \<Rightarrow> (Inl e, d') | (Inr rs, d') \<Rightarrow> (Inr (''owner'' \<in> set rs), d'))\<rparr>"

definition gw_runner :: "gw_world mem runner" where
  "gw_runner =
     \<lparr>rn_store = NewGormStore sample_iso (mem_engine webhook_pk),
      rn_client = \<lparr>hc_bad_url = (\<lambda>_. None), hc_Do = (\<lambda>_ d. (Inr 200, d))\<rparr>,
      rn_now = (\<lambda>_. 5), rn_jitter = (\<lambda>_ x. x), rn_uuid = (\<lambda>d. (''w1'', d)),
      rn_rand = (\<lambda>n d. (Inr (replicate n CHR ''k''), d))\<rparr>"

definition gw_federation :: "gw_world mem federation" where
  "gw_federation =
     \<lparr>fd_states = side_table os_State (\<lambda>_. []) (\<lambda>_ w. w), fd_consume = (\<lambda>body d. body d), fd_email = (\<lambda>_. []),
      fd_traits = (\<lambda>_. Inr ''{}''), fd_idp_tenants = [(''okta'', ''acme'')],
      fd_process = (\<lambda>load fac resp relay d. case load resp ''okta'' d of (Inl e, d') \<Rightarrow> (Inl e, d') | (Inr a, d') \<Rightarrow> (Inr (Some a), d'))\<rparr>"

definition demo_app :: "(unit, gw_world mem) app" where
  "demo_app =
     \<lparr>ap_Config = (FromEnv (\<lambda>_. []))\<lparr>cf_RateLimit := 0, cf_RateLimitPerTenant := 0, cf_TenantBaseDomain := ''sannad.example''\<rparr>,
      ap_Registry = registry_New, ap_Auth = gw_service, ap_saml = Some gw_federation, ap_Webhooks = gw_runner,
      ap_tenants = Some (side_table tn_ID gw_tenants (\<lambda>rs w. w\<lparr>gw_tenants := rs\<rparr>)), ap_ready = True, ap_httpRoutes = [],
      ap_inner_resolver = (\<lambda>host. case cut (CHR ''.'') host of Some (sub, _) \<Rightarrow> Inr sub | None \<Rightarrow> Inr []),
      ap_hit = (\<lambda>_ d. (True, d)), ap_hit_ip = (\<lambda>_ d. (True, d)), ap_ping = (\<lambda>d. (True, d)),
      ap_marshal = (\<lambda>_. Inr ''{}''),
      ap_parse_credentials = (\<lambda>b. Inr \<lparr>cp_Email = ''a@b'', cp_Password = ''pw'', cp_Tenant = b\<rparr>),
      ap_parse_role = Inr, ap_parse_api_key = Inr, ap_parse_name = Inr,
      ap_parse_endpoint = (\<lambda>b. Inr \<lparr>cr_URL = b, cr_Events = []\<rparr>),
      ap_parse_changes = (\<lambda>b. Inr \<lparr>up_URL = Some b, up_Events = None, up_Active = None\<rparr>),
      ap_audit = side_table ga_ID gw_audit (\<lambda>rs w. w\<lparr>gw_audit := rs\<rparr>), ap_order = (\<lambda>_ rows. rev rows),
      ap_initiate = (\<lambda>_ d. (Inr None, d)), ap_idps = [''okta''], ap_saml_login = (\<lambda>_ _ d. (Inr [], d)),
      ap_saml_metadata = Inr ''<md/>'', ap_router = (\<lambda>_ _. None)\<rparr>"

definition demo_event :: "string \<Rightarrow> string \<Rightarrow> gormAuditEvent" where
  "demo_event i t = \<lparr>ga_ID = i, ga_Type = ''login'', ga_ActorID = ''u1'', ga_SubjectID = [], ga_Status = ''success'',
     ga_TenantID = t, ga_CreatedAt = 1, ga_payload = []\<rparr>"

definition gw_start :: "string \<Rightarrow> string \<Rightarrow> gw_world mem gw_state" where
  "gw_start role status =
     \<lparr>gs_db = (fst sample_tables,
        \<lparr>aw_accounts = aw_accounts demo_world,
         aw_services = [\<lparr>sa_ID = ''svc'', sa_TenantID = ''acme'', sa_Name = ''ci'', sa_APIKeyHash = ''hash-raw'', sa_Active = True,
           sa_CreatedAt = 0, sa_UpdatedAt = 0\<rparr>],
         aw_assignments = [\<lparr>ra_ID = 1, ra_TenantID = ''acme'', ra_IdentityID = ''u1'', ra_Role = role, ra_CreatedAt = 0\<rparr>],
         aw_roles = [], aw_oidc = [],
         aw_saml = [\<lparr>si_ID = ''l1'', si_IdPID = ''okta'', si_NameID = ''alice'', si_AccountID = ''u1'', si_CreatedAt = 0\<rparr>],
         aw_revoked = [], aw_log = [],
         gw_tenants = [acme_tenant status, (acme_tenant StatusActive)\<lparr>tn_ID := ''globex''\<rparr>],
         gw_audit = [demo_event ''a1'' ''acme'', demo_event ''a2'' ''globex'', demo_event ''a3'' ''acme'']\<rparr>),
      gs_dir = [], gs_rev = []\<rparr>"

definition demo_request :: gw_request where
  "demo_request = \<lparr>rq_path = [], rq_authorization = ''Bearer access'', rq_params = [(''id'', ''e1'')], rq_query = [], rq_form = [],
     rq_body = [], rq_converted = Inr ''acme.sannad.example'', rq_ip = ''127.0.0.1'', rq_clk = (5, 6)\<rparr>"

section \<open>Witnesses and limits\<close>

lemma lock_route: "((''POST'', ''/api/v1/identities/:id/lock''), permitted demo_app ''identities:write'' (handleLockAccount demo_app)) \<in> set (core_routes demo_app)"
  by (simp add: core_routes_def)

lemma demo_check:
  "fst (ValidateForCaller (ap_Auth demo_app) (rq_clk demo_request) (bearerToken (rq_authorization demo_request))
     (gs_rev (gw_start ''member'' StatusActive)) (gs_db (gw_start ''member'' StatusActive))) = Inr (''u1'', ''acme'')"
  by code_simp

theorem gateway_access_policy_witness:
  "gr_status (fst (permitted demo_app ''identities:write'' (handleLockAccount demo_app) demo_request Background
     (gw_start ''member'' StatusActive))) = 403"
proof -
  let ?s = "gw_start ''member'' StatusActive" and ?ctx = "authenticated_ctx Background ''u1'' ''acme''"
  let ?v = "ValidateForCaller (ap_Auth demo_app) (rq_clk demo_request) (bearerToken (rq_authorization demo_request)) (gs_rev ?s) (gs_db ?s)"
  let ?d = "snd (snd ?v)"
  let ?p = "RequirePermission (ap_Auth demo_app) ?ctx ''u1'' ''identities:write'' ?d"
  have pol: "route_policy (''POST'', ''/api/v1/identities/:id/lock'') = Permission ''identities:write''" by code_simp
  have tok: "bearerToken (rq_authorization demo_request) \<noteq> []" by code_simp
  have lim: "limiter_admits demo_app demo_request ?ctx ?d = (True, ?d)"
    by (simp add: limiter_admits_def demo_app_def)
  have v: "?v = (Inr (''u1'', ''acme''), fst (snd ?v), ?d)" using demo_check by (metis prod.collapse)
  have "fst ?p \<noteq> None" by code_simp
  then obtain e where p: "?p = (Some e, snd ?p)" by (metis option.exhaust prod.collapse)
  have "route_policy (''POST'', ''/api/v1/identities/:id/lock'') \<noteq> Public" by (simp add: pol)
  note policy = gateway_access_policy [OF lock_route this, where rq = demo_request and s = ?s and ctx = Background]
  from conjunct2 [OF conjunct2 [OF conjunct2 [OF policy]], rule_format, OF conjI, OF tok conjI, OF v conjI, OF pol conjI, OF lim p]
  show ?thesis by simp
qed

lemma side_sql_table:
  assumes "\<And>rs w. get (put rs w) = rs" and "\<And>rs w. rest (put rs w) = rest w"
  shows "sql_table (side_table key get put) (\<lambda>d. dedup key (get (snd d))) (\<lambda>d. (fst d, rest (snd d))) key"
  unfolding side_table_def using slot_sql_table [of "get \<circ> snd" "\<lambda>rs d. (fst d, put rs (snd d))" "\<lambda>d. (fst d, rest (snd d))" key] assms
  by (simp add: comp_def)

theorem audit_reads_stay_in_tenant_witness:
  "\<exists>evs. gr_body (fst (permitted demo_app ''audit:read'' (handleListAuditEvents demo_app) demo_request Background
       (gw_start ''owner'' StatusActive))) = JAudit evs \<and> map ga_ID evs = [''a3'', ''a1''] \<and> length evs \<le> 500"
proof -
  let ?run = "permitted demo_app ''audit:read'' (handleListAuditEvents demo_app) demo_request Background (gw_start ''owner'' StatusActive)"
  have r: "((''GET'', ''/api/v1/audit-events''), permitted demo_app ''audit:read'' (handleListAuditEvents demo_app)) \<in> set (core_routes demo_app)"
    by (simp add: core_routes_def)
  have t: "sql_table (ap_audit demo_app) (\<lambda>d. dedup ga_ID (gw_audit (snd d))) (\<lambda>d. (fst d, (snd d)\<lparr>gw_audit := []\<rparr>)) ga_ID"
    unfolding demo_app_def app.simps by (rule side_sql_table) simp_all
  have o: "\<forall>clause. rearranges (ap_order demo_app clause)" by (simp add: demo_app_def rearranges_def)
  have e: "gr_status (fst ?run) = 200"
    "(case gr_body (fst ?run) of JAudit evs \<Rightarrow> map ga_ID evs | _ \<Rightarrow> []) = [''a3'', ''a1'']" by code_simp+
  from audit_reads_stay_in_tenant [OF r t o prod.collapse [symmetric] e(1)] e(2) show ?thesis by auto
qed

theorem webhook_reads_stay_in_tenant_witness:
  "endpoints_in (gr_body (fst (permitted demo_app ''webhooks:read'' (handleListWebhookEndpoints demo_app) demo_request Background
      (gw_start ''owner'' StatusActive)))) \<noteq> [] \<and>
   list_all (\<lambda>e. ep_Secret e = []) (endpoints_in (gr_body (fst (permitted demo_app ''webhooks:read'' (handleListWebhookEndpoints demo_app)
      demo_request Background (gw_start ''owner'' StatusActive)))))"
proof -
  let ?run = "permitted demo_app ''webhooks:read'' (handleListWebhookEndpoints demo_app) demo_request Background (gw_start ''owner'' StatusActive)"
  have p: "''/api/v1/webhooks/endpoints'' \<in> set [''/api/v1/webhooks/endpoints'', ''/api/v1/webhooks/endpoints/:id'']" by simp
  have r: "((''GET'', ''/api/v1/webhooks/endpoints''), permitted demo_app ''webhooks:read'' (handleListWebhookEndpoints demo_app))
      \<in> set (core_routes demo_app)" by (simp add: core_routes_def)
  have st: "rn_store (ap_Webhooks demo_app) = NewGormStore sample_iso (mem_engine webhook_pk)"
    by (simp add: demo_app_def gw_runner_def)
  have b: "\<not> IsSystemContext Background" by (simp add: IsSystemContext_def Background_def)
  have e: "gr_status (fst ?run) = 200" "endpoints_in (gr_body (fst ?run)) \<noteq> []" by code_simp+
  from webhook_reads_stay_in_tenant [OF mem_engine_ok st p r b prod.collapse [symmetric] e(1)] e(2) show ?thesis by blast
qed

theorem transports_authenticate_alike_witness:
  "map_prod answer_of (\<lambda>s. s) (requireAuth demo_app (adaptHTTPWithUserContext (bridge_dispatch demo_app))
       (demo_request\<lparr>rq_path := ''/api/v1/capabilities/notes@v1''\<rparr>) Background (gw_start ''member'' StatusActive))
   = map_prod grpc_answer (\<lambda>s. s) (grpc_capability_call demo_app (5, 6) (Some [(''authorization'', [''Bearer access''])]) ''notes@v1'' []
       Background (gw_start ''member'' StatusActive))"
proof -
  let ?rq = "demo_request\<lparr>rq_path := ''/api/v1/capabilities/notes@v1''\<rparr>"
  have r: "((''POST'', ''/api/v1/capabilities/:ref''), requireAuth demo_app (adaptHTTPWithUserContext (bridge_dispatch demo_app)))
      \<in> set (core_routes demo_app)" by (simp add: core_routes_def)
  have h: "cf_RateLimitPerTenant (ap_Config demo_app) \<le> 0" "rq_converted ?rq = Inr ''acme.sannad.example''"
    "rq_path ?rq = ''/api/v1/capabilities/'' @ ''notes@v1''" "CHR ''/'' \<notin> set ''notes@v1''" "length (rq_body ?rq) \<le> MaxRequestBytes"
    "mget [(''authorization'', [''Bearer access''])] ''authorization'' = Some (rq_authorization ?rq # [])"
    by (simp_all add: demo_app_def demo_request_def)
  from transports_authenticate_alike [OF h r] show ?thesis by (simp add: demo_request_def)
qed

theorem interactive_login_needs_active_tenant_witness:
  "\<exists>r. gr_body (fst (handleLogin demo_app demo_request Background (gw_start ''member'' StatusActive))) = JLogin r \<and>
     recently_active (\<lambda>d. dedup tn_ID (gw_tenants (snd d))) demo_request (gw_start ''member'' StatusActive)
       [(5, gs_db (gw_start ''member'' StatusActive))] (lr_TenantID r)"
proof -
  let ?s = "gw_start ''member'' StatusActive" and ?T = "side_table tn_ID gw_tenants (\<lambda>rs w. w\<lparr>gw_tenants := rs\<rparr>)"
  have T: "ap_tenants demo_app = Some ?T" by (simp add: demo_app_def)
  have tt: "tenant_table ?T (\<lambda>d. dedup tn_ID (gw_tenants (snd d))) (\<lambda>d. (fst d, (snd d)\<lparr>gw_tenants := []\<rparr>))"
    unfolding tenant_table_def by (rule side_sql_table) simp_all
  have at: "sql_table (au_accounts (ap_Auth demo_app)) (\<lambda>d. dedup ac_ID (aw_accounts (snd d))) (\<lambda>d. (fst d, (snd d)\<lparr>aw_accounts := []\<rparr>)) ac_ID"
    unfolding demo_app_def app.simps gw_service_def auth_service.simps by (rule side_sql_table) simp_all
  have run: "ttl_run (dir_lookup ?T) (\<lambda>d. tenant_entry (dedup tn_ID (gw_tenants (snd d)))) [(5, gs_db ?s)] (gs_dir ?s)"
    using ttl_run.start by (simp add: gw_start_def)
  have clk: "rq_clk demo_request = (5, 6)" by (simp add: demo_request_def)
  have r: "(''POST'', ''/api/v1/auth/login'') \<in> {(''POST'', ''/api/v1/auth/login''), (''GET'', ''/api/v1/oauth2/:provider/callback'')}"
    "((''POST'', ''/api/v1/auth/login''), handleLogin demo_app) \<in> set (core_routes demo_app @ federated_routes demo_app)"
    by (simp_all add: core_routes_def)
  have e: "gr_status (fst (handleLogin demo_app demo_request Background ?s)) = 200" by code_simp
  from interactive_login_needs_active_tenant [OF T tt at run clk _ _ r prod.collapse [symmetric] e] show ?thesis by simp
qed

text \<open>
  The ways round a suspension: the same tenant, once suspended, refuses the password login and
  still gives a session to a service account and to a SAML response, and serves a session it
  gave out before.
\<close>

theorem suspension_stops_interactive_login_only:
  "gr_status (fst (handleLogin demo_app (demo_request\<lparr>rq_body := ''acme''\<rparr>) Background (gw_start ''member'' StatusSuspended))) = 404 \<and>
   gr_status (fst (handleServiceLogin demo_app (demo_request\<lparr>rq_body := ''raw''\<rparr>) Background (gw_start ''member'' StatusSuspended))) = 200 \<and>
   gr_status (fst (handleSAMLACS demo_app (demo_request\<lparr>rq_form := [(''SAMLResponse'', ''alice'')]\<rparr>) Background
     (gw_start ''member'' StatusSuspended))) = 200 \<and>
   gr_status (fst (requireAuth demo_app handleMe demo_request Background (gw_start ''member'' StatusSuspended))) = 200"
  by (intro conjI; code_simp)

text \<open>
  On a host that names a tenant the directory refuses, the tenant is the one the caller names.
\<close>

theorem refused_subdomain_falls_back:
  assumes "ap_tenants G = Some T" and "rq_converted rq = Inr host" and "ap_inner_resolver G host = Inr named"
    and "Directory_Check T (rq_clk rq) named (gs_dir s) (gs_db s) = (Some e, c, d)"
  shows "fst (resolveTenant G rq body_tenant s) = body_tenant"
  using assms by (simp add: resolveTenant_def ValidatingResolver_Resolve_def)

end
