(* ===== verification/Lifecycle.thy ===== *)
theory Lifecycle
  imports Wasm_Module Gateway
begin

text \<open>
  The life of an application (\<^verbatim>\<open>internal/app/bootstrap/app.go\<close>): construction, registration of
  modules, start and shutdown, with the publisher (\<^verbatim>\<open>internal/kernel/events/nats.go\<close>), the tracer
  (\<^verbatim>\<open>internal/platform/telemetry/tracer.go\<close>) and the two public facades (\<^verbatim>\<open>sannad.go\<close>,
  \<^verbatim>\<open>pkg/kernel/kernel.go\<close>). The world \<open>'w\<close> is what modules, database and broker share.
\<close>

section \<open>What the application is built from\<close>

text \<open>
  The services it opens and closes. \<open>pf_Open\<close> is \<open>gorm.Open\<close> with a driver, \<open>pf_sqlDB\<close> the failure of
  \<open>db.DB()\<close> if it fails, \<open>pf_discover\<close> OIDC discovery, \<open>pf_saml_build\<close> the rest of the SAML service
  provider, \<open>pf_connect\<close> and \<open>pf_JetStream\<close> NATS, \<open>pf_exporter\<close> and \<open>pf_resource\<close> OpenTelemetry,
  \<open>pf_subscribe\<close> the subscription of a consumer; the closing operations carry their names.
  \<open>pf_webhooks\<close> is the webhook runner, and \<open>pf_ticks\<close> how many more ticks the \<open>select\<close> of a drain loop
  picks before it picks a cancelled context; it picks that eventually, since among cases that
  are ready it picks uniformly.
\<close>

record ('w, 'f, 'j) platform =
  pf_Open :: "db_driver \<Rightarrow> string \<Rightarrow> 'w \<Rightarrow> gerr option \<times> 'w"
  pf_sqlDB :: "gerr option"
  pf_goose :: "('w, 'f) goose"
  pf_migrationFiles :: 'f
  pf_isolation :: "gerr option"
  pf_parse :: "rtype \<Rightarrow> gerr + string"
  pf_migrator :: "migrator option"
  pf_unmarshal_oidc :: "string \<Rightarrow> gerr + (string \<times> string) list"
  pf_discover :: "string \<Rightarrow> gerr option"
  pf_unmarshal_saml :: "string \<Rightarrow> gerr + (string \<times> samlProviderConfig) list"
  pf_from_metadata :: "string \<Rightarrow> string \<Rightarrow> gerr + bool"
  pf_parse_cert :: "string \<Rightarrow> gerr option"
  pf_saml_build :: "string gomap \<Rightarrow> 'w federation"
  pf_connect :: "string \<Rightarrow> 'w \<Rightarrow> gerr option \<times> 'w"
  pf_JetStream :: "gerr + 'j jetstream"
  pf_streams :: "('j \<Rightarrow> gerr option \<times> 'j) \<Rightarrow> 'w \<Rightarrow> gerr option \<times> 'w"
  pf_conn_Close :: "'w \<Rightarrow> 'w"
  pf_exporter :: "string \<Rightarrow> gerr option"
  pf_resource :: "gerr option"
  pf_subscribe :: "go_ctx \<Rightarrow> 'w \<Rightarrow> gerr option \<times> 'w"
  pf_webhooks :: "'w runner"
  pf_ticks :: "nat \<Rightarrow> nat"
  pf_GracefulStop :: "'w \<Rightarrow> 'w"
  pf_sub_Close :: "'w \<Rightarrow> gerr option \<times> 'w"
  pf_conn_Drain :: "'w \<Rightarrow> gerr option \<times> 'w"
  pf_tracer_Shutdown :: "'w \<Rightarrow> gerr option \<times> 'w"
  pf_kernel_Shutdown :: "'w \<Rightarrow> gerr option \<times> 'w"
  pf_gateway_Shutdown :: "'w \<Rightarrow> gerr option \<times> 'w"
  pf_db_Close :: "'w \<Rightarrow> gerr option \<times> 'w"

datatype event_publisher = NoopPublisher | NATSPublisher

record pool_settings =
  po_open :: "int option"
  po_idle :: "int option"
  po_lifetime :: "int option"

text \<open>
  The application between calls. \<open>lc_ctxs\<close> are the contexts made by \<open>context.WithCancel\<close>, each with
  whether it is cancelled, and \<open>lc_chans\<close> the channels made, each with whether it is closed, both in
  the order of their creation; \<open>lc_cancel\<close> is the context \<open>webhookCancel\<close> cancels, \<open>lc_done\<close> the channel
  \<open>webhookDone\<close>, and \<open>lc_loops\<close> the drain goroutines that have not returned, each with the context
  it runs under and the channel it closes on return.
\<close>

record ('v, 'w) lifecycle =
  lc_Config :: config_values
  lc_ready :: bool
  lc_registry :: "('v, 'w) registry"
  lc_isolation :: isolation
  lc_saml :: "'w federation option"
  lc_events :: event_publisher
  lc_tracing :: bool
  lc_cancel :: "nat option"
  lc_done :: "nat option"
  lc_sub :: bool
  lc_servers :: bool
  lc_ctxs :: "bool list"
  lc_chans :: "bool list"
  lc_loops :: "(nat \<times> nat) list"

section \<open>Construction\<close>

definition openDatabase :: "('w, 'f, 'j) platform \<Rightarrow> config_values \<Rightarrow> 'w \<Rightarrow> (gerr + pool_settings) \<times> 'w" where
  "openDatabase P cfg w =
     (case pf_Open P (openDatabase_driver (cf_DatabaseDSN cfg)) (cf_DatabaseDSN cfg) w of
        (Some err, w') \<Rightarrow> (Inl err, w')
      | (None, w') \<Rightarrow>
          (case pf_sqlDB P of
             Some err \<Rightarrow> (Inl err, w')
           | None \<Rightarrow>
               (Inr \<lparr>po_open = (if cf_DBMaxOpenConns cfg > 0 then Some (cf_DBMaxOpenConns cfg) else None),
                     po_idle = (if cf_DBMaxIdleConns cfg > 0 then Some (cf_DBMaxIdleConns cfg) else None),
                     po_lifetime = (if cf_DBConnMaxLifetimeSecs cfg > 0
                                    then Some (cf_DBConnMaxLifetimeSecs cfg * time_Second) else None)\<rparr>, w')))"

definition parseOIDCProviders :: "('w, 'f, 'j) platform \<Rightarrow> string \<Rightarrow> gerr + (string \<times> string) list" where
  "parseOIDCProviders P raw =
     (case pf_unmarshal_oidc P raw of Inl err \<Rightarrow> Inl (prefixf [''invalid JSON''] err) | Inr providers \<Rightarrow> Inr providers)"

definition parseSAMLProviders :: "('w, 'f, 'j) platform \<Rightarrow> string \<Rightarrow> gerr + (string \<times> samlProviderConfig) list" where
  "parseSAMLProviders P raw =
     (case pf_unmarshal_saml P raw of Inl err \<Rightarrow> Inl (prefixf [''invalid JSON''] err) | Inr providers \<Rightarrow> Inr providers)"

text \<open>\<open>InitOIDC\<close>: the providers are discovered one after the other, by their issuers.\<close>

fun InitOIDC :: "(string \<Rightarrow> gerr option) \<Rightarrow> (string \<times> string) list \<Rightarrow> gerr option" where
  "InitOIDC discover [] = None"
| "InitOIDC discover ((i, issuer) # rest) =
     (case discover issuer of
        Some err \<Rightarrow> Some (prefixf [''auth: discover OIDC provider '', i] err)
      | None \<Rightarrow> InitOIDC discover rest)"

definition NewNATSPublisher :: "('w, 'f, 'j) platform \<Rightarrow> string \<Rightarrow> 'w \<Rightarrow> (gerr + event_publisher) \<times> 'w" where
  "NewNATSPublisher P url w =
     (case pf_connect P url w of
        (Some err, w1) \<Rightarrow> (Inl (prefixf [''events: nats connect '', url] err), w1)
      | (None, w1) \<Rightarrow>
          (case pf_JetStream P of
             Inl err \<Rightarrow> (Inl (prefixf [''events: nats jetstream''] err), pf_conn_Close P w1)
           | Inr js \<Rightarrow>
               (case pf_streams P (EnsureStream js) w1 of
                  (Some err, w2) \<Rightarrow> (Inl err, pf_conn_Close P w2)
                | (None, w2) \<Rightarrow> (Inr NATSPublisher, w2))))"

definition buildPublisher :: "('w, 'f, 'j) platform \<Rightarrow> string \<Rightarrow> 'w \<Rightarrow> (gerr + event_publisher) \<times> 'w" where
  "buildPublisher P natsURL w =
     (if natsURL = [] then (Inr NoopPublisher, w)
      else case NewNATSPublisher P natsURL w of
        (Inl err, w') \<Rightarrow> (Inl (prefixf [''bootstrap: connect to NATS at '', natsURL] err), w')
      | (Inr p, w') \<Rightarrow> (Inr p, w'))"

text \<open>\<open>telemetry.Setup\<close>: whether spans are exported, or an error.\<close>

definition Setup :: "('w, 'f, 'j) platform \<Rightarrow> string \<Rightarrow> gerr + bool" where
  "Setup P endpoint =
     (if endpoint = [] then Inr False
      else case pf_exporter P endpoint of
        Some err \<Rightarrow> Inl err
      | None \<Rightarrow> (case pf_resource P of Some err \<Rightarrow> Inl err | None \<Rightarrow> Inr True))"

definition sdk_models :: "(string \<times> rtype) list" where
  "sdk_models =
     [(''*modulekit.ProcessedEvent'', TPtr (TStruct ''modulekit_processed_events'' True)),
      (''*modulekit.ProjectionState'', TPtr (TStruct ''modulekit_projection_state'' True)),
      (''*modulekit.SagaRecord'', TPtr (TStruct ''modulekit_sagas'' True)),
      (''*modulekit.SagaStepRecord'', TPtr (TStruct ''modulekit_saga_steps'' True)),
      (''*webhooks.Endpoint'', TPtr WebhookEndpoint),
      (''*webhooks.Delivery'', TPtr WebhookDelivery)]"

definition init_federation :: "('w, 'f, 'j) platform \<Rightarrow> config_values \<Rightarrow> gerr + 'w federation option" where
  "init_federation P cfg =
     (case (if cf_OIDCProvidersJSON cfg = [] then None
            else case parseOIDCProviders P (cf_OIDCProvidersJSON cfg) of
              Inl err \<Rightarrow> Some (prefixf [''bootstrap: parse OIDC providers''] err)
            | Inr providers \<Rightarrow> InitOIDC (pf_discover P) providers) of
        Some err \<Rightarrow> Inl err
      | None \<Rightarrow>
          if cf_SAMLProvidersJSON cfg = [] then Inr None
          else case parseSAMLProviders P (cf_SAMLProvidersJSON cfg) of
            Inl err \<Rightarrow> Inl (prefixf [''bootstrap: parse SAML providers''] err)
          | Inr providers \<Rightarrow>
              (case InitSAML (pf_from_metadata P) (pf_parse_cert P) (cf_SAMLEntityID cfg) (cf_SAMLACSUrl cfg)
                      providers (pf_saml_build P) None of
                 (Some err, _) \<Rightarrow> Inl (prefixf [''bootstrap: init SAML''] err)
               | (None, saml) \<Rightarrow> Inr saml))"

text \<open>
  \<open>bootstrap.New\<close>. The scoped tables are a variable of the package \<open>tenancy\<close>, so what the process has
  registered before (\<open>tn0\<close>) is an argument; the tables a failed construction leaves there are not
  followed. \<open>auth.NewService\<close> only wires its parts and never fails.
\<close>

definition App_New ::
  "('w, 'f, 'j) platform \<Rightarrow> config_values \<Rightarrow> isolation \<Rightarrow> 'w \<Rightarrow> (gerr + ('v, 'w) lifecycle) \<times> 'w" where
  "App_New P cfg tn0 w =
     (case openDatabase P cfg w of
        (Inl err, w1) \<Rightarrow> (Inl err, w1)
      | (Inr _, w1) \<Rightarrow>
          (case RunMigrations (pf_goose P) (pf_migrationFiles P) (cf_DatabaseDSN cfg) w1 of
             (Some err, w2) \<Rightarrow> (Inl (prefixf [''bootstrap: run migrations''] err), w2)
           | (None, w2) \<Rightarrow>
               (case pf_isolation P of
                  Some err \<Rightarrow> (Inl (prefixf [''bootstrap: register tenant isolation''] err), w2)
                | None \<Rightarrow>
                    (case RegisterScopedModels (pf_parse P) sdk_models tn0 of
                       (Some err, _) \<Rightarrow> (Inl (prefixf [''bootstrap: register SDK scoped models''] err), w2)
                     | (None, tn) \<Rightarrow>
                         (case init_federation P cfg of
                            Inl err \<Rightarrow> (Inl err, w2)
                          | Inr saml \<Rightarrow>
                              (case buildPublisher P (cf_NATSUrl cfg) w2 of
                                 (Inl err, w3) \<Rightarrow> (Inl err, w3)
                               | (Inr publisher, w3) \<Rightarrow>
                                   (case Setup P (cf_OTELEndpoint cfg) of
                                      Inl err \<Rightarrow> (Inl (prefixf [''bootstrap: init telemetry''] err), w3)
                                    | Inr tracing \<Rightarrow>
                                        (Inr \<lparr>lc_Config = cfg, lc_ready = False, lc_registry = registry_New, lc_isolation = tn,
                                              lc_saml = saml, lc_events = publisher, lc_tracing = tracing, lc_cancel = None,
                                              lc_done = None, lc_sub = False, lc_servers = False,
                                              lc_ctxs = [], lc_chans = [], lc_loops = []\<rparr>, w3))))))))"

section \<open>Registration\<close>

text \<open>
  A module with the optional interfaces the application looks for: the scoped models it declares
  (a nil model is \<open>None\<close>), and its schema.
\<close>

record ('v, 'w, 'f) app_module =
  am_module :: "('v, 'w) gomodule"
  am_ScopedModels :: "(string \<times> rtype) option list option"
  am_Migrations :: "'f module_schema"

definition am_id :: "('v, 'w, 'f) app_module \<Rightarrow> string" where
  "am_id m = d_id (m_desc (am_module m))"

text \<open>The position of the first nil model.\<close>

definition nil_model :: "(string \<times> rtype) option list \<Rightarrow> nat option" where
  "nil_model models = find (\<lambda>i. models ! i = None) [0..<length models]"

definition register_models ::
  "('w, 'f, 'j) platform \<Rightarrow> ('v, 'w, 'f) app_module \<Rightarrow> isolation \<Rightarrow> gerr option \<times> isolation" where
  "register_models P m tn =
     (case am_ScopedModels m of
        None \<Rightarrow> (None, tn)
      | Some models \<Rightarrow>
          (case nil_model models of
             Some i \<Rightarrow>
               (Some (ErrNew (''bootstrap: module '' @ am_id m @ '' declares nil scoped model at index '' @ itoa (int i))), tn)
           | None \<Rightarrow>
               (case RegisterScopedModels (pf_parse P) (map the models) tn of
                  (Some err, tn') \<Rightarrow> (Some (prefixf [''bootstrap: register scoped models for '', am_id m] err), tn')
                | (None, tn') \<Rightarrow> (None, tn'))))"

definition App_RegisterModule ::
  "('w, 'f, 'j) platform \<Rightarrow> ('v, 'w, 'f) app_module \<Rightarrow> ('v, 'w) lifecycle \<Rightarrow> 'w \<Rightarrow> gerr option \<times> ('v, 'w) lifecycle \<times> 'w" where
  "App_RegisterModule P m a w =
     (if lc_ready a
      then (Some (ErrNew ''bootstrap: cannot register modules after the application has started''), a, w)
      else case register_models P m (lc_isolation a) of
        (Some err, tn) \<Rightarrow> (Some err, a\<lparr>lc_isolation := tn\<rparr>, w)
      | (None, tn) \<Rightarrow>
          (let a1 = a\<lparr>lc_isolation := tn\<rparr> in
           case pf_sqlDB P of
             Some err \<Rightarrow> (Some (prefixf [''bootstrap: get sql.DB for module migrations''] err), a1, w)
           | None \<Rightarrow>
               (case RunModuleMigrations (pf_goose P) (cf_DatabaseDSN (lc_Config a)) (m_desc (am_module m)) (am_Migrations m) w of
                  (Some err, w') \<Rightarrow> (Some err, a1, w')
                | (None, w') \<Rightarrow>
                    (case RegisterModule (am_module m) (lc_registry a1) of
                       (e, r) \<Rightarrow> (e, a1\<lparr>lc_registry := r\<rparr>, w')))))"

text \<open>
  A guest is registered like any module; \<open>bus\<close> and \<open>publisher\<close> are the application's own, and a
  module that cannot be registered is closed again.
\<close>

definition platform_config ::
  "('v, 'u hstate) caller \<Rightarrow> 'u publisher \<Rightarrow> ('v, 'u) moduleConfig \<Rightarrow> ('v, 'u) moduleConfig" where
  "platform_config bus publisher config =
     config\<lparr>mc_Caller := (case mc_Caller config of None \<Rightarrow> Some bus | given \<Rightarrow> given),
            mc_Events := (case mc_Events config of None \<Rightarrow> Some publisher | given \<Rightarrow> given)\<rparr>"

definition RegisterWASM ::
  "('u hstate, 'f, 'j) platform \<Rightarrow> 'm wazero \<Rightarrow> ('m, 'v, 'u) host \<Rightarrow> ('v, 'u hstate) caller \<Rightarrow> 'u publisher \<Rightarrow> go_ctx
     \<Rightarrow> ('v, 'u) moduleConfig \<Rightarrow> ('v, 'u) v2Deps list \<Rightarrow> ('v, 'u hstate) lifecycle \<Rightarrow> 'u hstate
     \<Rightarrow> gerr option \<times> ('v, 'u) v2Deps list \<times> ('v, 'u hstate) lifecycle \<times> 'u hstate" where
  "RegisterWASM P wz H bus publisher ctx config T a w =
     (case NewModule wz (platform_config bus publisher config) T w of
        (Inl err, T1, w1) \<Rightarrow> (Some err, T1, a, w1)
      | (Inr module, T1, w1) \<Rightarrow>
          (case App_RegisterModule P \<lparr>am_module = as_module wz H module, am_ScopedModels = None, am_Migrations = None\<rparr> a w1 of
             (None, a2, w2) \<Rightarrow> (None, T1, a2, w2)
           | (Some err, a2, w2) \<Rightarrow>
               (case Wasm_Stop wz module ctx w2 of
                  (None, w3) \<Rightarrow> (errors_join [err], T1, a2, w3)
                | (Some closeErr, w3) \<Rightarrow> (errors_join [err, closeErr], T1, a2, w3))))"

section \<open>Start\<close>

definition auditExemptTables :: "string list" where
  "auditExemptTables = [''accounts'', ''service_accounts'', ''role_assignments'', ''role_definitions'', ''audit_events'']"

text \<open>What is only reported at start: the tables that look scoped and are not, and who stores elsewhere.\<close>

definition start_report :: "('w, 'f, 'j) platform \<Rightarrow> ('v, 'w) lifecycle \<Rightarrow> (gerr + audit_finding list) \<times> string list" where
  "start_report P a =
     (AuditScopedModels (lc_isolation a) (pf_migrator P) auditExemptTables, SelfManagedStorage (lc_registry a))"

definition cancel_context :: "nat \<Rightarrow> ('v, 'w) lifecycle \<Rightarrow> ('v, 'w) lifecycle" where
  "cancel_context x a = a\<lparr>lc_ctxs := (lc_ctxs a)[x := True]\<rparr>"

definition close_chan :: "nat \<Rightarrow> ('v, 'w) lifecycle \<Rightarrow> ('v, 'w) lifecycle" where
  "close_chan c a = a\<lparr>lc_chans := (lc_chans a)[c := True]\<rparr>"

text \<open>The new context and channel of a start, and the assignments to \<open>webhookCancel\<close> and \<open>webhookDone\<close>.\<close>

definition new_webhook_loop :: "('v, 'w) lifecycle \<Rightarrow> ('v, 'w) lifecycle" where
  "new_webhook_loop a =
     a\<lparr>lc_ctxs := lc_ctxs a @ [False], lc_cancel := Some (length (lc_ctxs a)),
       lc_chans := lc_chans a @ [False], lc_done := Some (length (lc_chans a))\<rparr>"

definition App_Start ::
  "('w, 'f, 'j) platform \<Rightarrow> go_ctx \<Rightarrow> ('v, 'w) lifecycle \<Rightarrow> 'w \<Rightarrow> gerr option \<times> ('v, 'w) lifecycle \<times> 'w" where
  "App_Start P ctx a w =
     (case StartAll ctx (lc_registry a) w of
        (Some err, w1) \<Rightarrow> (Some err, a, w1)
      | (None, w1) \<Rightarrow>
          (let x = length (lc_ctxs a); c = length (lc_chans a); a1 = new_webhook_loop a
           in case lc_events a of
             NATSPublisher \<Rightarrow>
               (case pf_subscribe P Background w1 of
                  (Some err, w2) \<Rightarrow>
                    (Some (prefixf [''bootstrap: start webhook consumer''] err), close_chan c (cancel_context x a1), w2)
                | (None, w2) \<Rightarrow>
                    (None, a1\<lparr>lc_sub := True, lc_loops := lc_loops a1 @ [(x, c)], lc_servers := True, lc_ready := True\<rparr>, w2))
           | NoopPublisher \<Rightarrow>
               (None, (close_chan c a1)\<lparr>lc_servers := True, lc_ready := True\<rparr>, w1)))"

section \<open>Shutdown\<close>

definition Publisher_Close :: "('w, 'f, 'j) platform \<Rightarrow> event_publisher \<Rightarrow> 'w \<Rightarrow> gerr option \<times> 'w" where
  "Publisher_Close P p w =
     (case p of
        NoopPublisher \<Rightarrow> (None, w)
      | NATSPublisher \<Rightarrow>
          (case pf_conn_Drain P w of
             (Some err, w') \<Rightarrow> (Some (prefixf [''events: nats drain''] err), pf_conn_Close P w')
           | (None, w') \<Rightarrow> (None, w')))"

definition Provider_Shutdown :: "('w, 'f, 'j) platform \<Rightarrow> bool \<Rightarrow> 'w \<Rightarrow> gerr option \<times> 'w" where
  "Provider_Shutdown P tracing w = (if \<not> tracing then (None, w) else pf_tracer_Shutdown P w)"

text \<open>
  The drain goroutines while something waits for them: each runs \<open>RunDrainLoop\<close> under its own context
  and, once that has returned, closes its own channel. A receive returns once the channel is
  closed; if no goroutine that can still run closes it, the receive blocks forever (\<open>None\<close>).
\<close>

definition cancel_loop :: "('v, 'w) lifecycle \<Rightarrow> ('v, 'w) lifecycle" where
  "cancel_loop a = (case lc_cancel a of None \<Rightarrow> a | Some x \<Rightarrow> cancel_context x a)"

definition select_trace :: "nat \<Rightarrow> bool \<Rightarrow> drain_event list" where
  "select_trace ticks cancelled = replicate ticks Tick @ (if cancelled then [CtxDone] else [])"

fun run_loops ::
  "('w, 'f, 'j) platform \<Rightarrow> bool list \<Rightarrow> (nat \<times> nat) list \<Rightarrow> bool list \<Rightarrow> 'w \<Rightarrow> (nat \<times> nat) list \<times> bool list \<times> 'w" where
  "run_loops P ctxs [] chans w = ([], chans, w)"
| "run_loops P ctxs ((x, c) # loops) chans w =
     (let (returned, w1) = RunDrainLoop (pf_webhooks P) Background DefaultDrainBatchSize
                             (select_trace (pf_ticks P x) (ctxs ! x)) w;
          (loops', chans', w2) = run_loops P ctxs loops (if returned then chans[c := True] else chans) w1
      in (if returned then loops' else (x, c) # loops', chans', w2))"

definition await_loop :: "('w, 'f, 'j) platform \<Rightarrow> ('v, 'w) lifecycle \<Rightarrow> 'w \<Rightarrow> (('v, 'w) lifecycle \<times> 'w) option" where
  "await_loop P a w =
     (case lc_done a of
        None \<Rightarrow> Some (a, w)
      | Some c \<Rightarrow>
          (let (loops, chans, w') = run_loops P (lc_ctxs a) (lc_loops a) (lc_chans a) w
           in if chans ! c then Some (a\<lparr>lc_loops := loops, lc_chans := chans\<rparr>, w') else None))"

definition when_set :: "bool \<Rightarrow> ('w \<Rightarrow> gerr option \<times> 'w) \<Rightarrow> 'w \<Rightarrow> gerr option \<times> 'w" where
  "when_set b f w = (if b then f w else (None, w))"

definition close_db :: "('w, 'f, 'j) platform \<Rightarrow> 'w \<Rightarrow> gerr option \<times> 'w" where
  "close_db P w = (case pf_sqlDB P of Some err \<Rightarrow> (Some err, w) | None \<Rightarrow> pf_db_Close P w)"

fun join_errors :: "gerr option list \<Rightarrow> gerr option" where
  "join_errors es = errors_join (map the (filter (\<lambda>e. e \<noteq> None) es))"

definition App_Shutdown ::
  "('w, 'f, 'j) platform \<Rightarrow> go_ctx \<Rightarrow> ('v, 'w) lifecycle \<Rightarrow> 'w \<Rightarrow> (gerr option \<times> ('v, 'w) lifecycle \<times> 'w) option" where
  "App_Shutdown P ctx a w =
     (let w0 = (if lc_servers a then pf_GracefulStop P w else w)
      in case await_loop P (cancel_loop (a\<lparr>lc_ready := False\<rparr>)) w0 of
           None \<Rightarrow> None
         | Some (a1, w0') \<Rightarrow>
             (let (subErr, w1) = when_set (lc_sub a) (pf_sub_Close P) w0';
                  (eventsErr, w2) = Publisher_Close P (lc_events a) w1;
                  (telemetryErr, w3) = Provider_Shutdown P (lc_tracing a) w2;
                  (stopErr, w4) = StopAll ctx (lc_registry a) w3;
                  (kernelErr, w5) = when_set (lc_servers a) (pf_kernel_Shutdown P) w4;
                  (gatewayErr, w6) = when_set (lc_servers a) (pf_gateway_Shutdown P) w5;
                  (dbErr, w7) = close_db P w6
              in Some (join_errors [eventsErr, telemetryErr, stopErr, kernelErr, gatewayErr, dbErr, subErr], a1, w7)))"

section \<open>The public facades\<close>

definition Sannad_New ::
  "('w, 'f, 'j) platform \<Rightarrow> config_values \<Rightarrow> isolation \<Rightarrow> 'w \<Rightarrow> (gerr + ('v, 'w) lifecycle) \<times> 'w" where
  "Sannad_New P cfg tn0 w = (case Config_Validate cfg of Some err \<Rightarrow> (Inl err, w) | None \<Rightarrow> App_New P cfg tn0 w)"

definition Kernel_Add :: "('v, 'w) gomodule \<Rightarrow> ('v, 'w) registry \<Rightarrow> gerr option \<times> ('v, 'w) registry" where
  "Kernel_Add m r =
     (case RegisterModule m r of
        (Some err, r') \<Rightarrow> (Some (prefixf [''kernel: install '', d_id (m_desc m)] err), r')
      | (None, r') \<Rightarrow> (None, r'))"

definition Kernel_Stop :: "go_ctx \<Rightarrow> ('v, 'w) registry \<Rightarrow> 'w \<Rightarrow> 'w" where
  "Kernel_Stop ctx r w = snd (StopAll ctx r w)"

section \<open>Runs of an application\<close>

text \<open>
  Any sequence of registrations, starts and shutdowns from a fresh application, with the modules
  whose registration succeeded and the number of times the application was started while it was
  ready. \<open>Start\<close> has no guard against that.
\<close>

inductive app_run ::
  "('w, 'f, 'j) platform \<Rightarrow> ('v, 'w, 'f) app_module list \<Rightarrow> nat \<Rightarrow> ('v, 'w) lifecycle \<Rightarrow> bool" for P where
  app_new: "App_New P cfg tn0 w = (Inr a, w') \<Longrightarrow> app_run P [] 0 a"
| app_registered: "app_run P ms n a \<Longrightarrow> App_RegisterModule P m a w = (None, a', w') \<Longrightarrow> app_run P (m # ms) n a'"
| app_refused: "app_run P ms n a \<Longrightarrow> App_RegisterModule P m a w = (Some e, a', w') \<Longrightarrow> app_run P ms n a'"
| app_started: "app_run P ms n a \<Longrightarrow> App_Start P ctx a w = (res, a', w') \<Longrightarrow>
    app_run P ms (if lc_ready a then Suc n else n) a'"
| app_stopped: "app_run P ms n a \<Longrightarrow> App_Shutdown P ctx a w = Some (res, a', w') \<Longrightarrow> app_run P ms n a'"

text \<open>
  The drain loops: none that is live has been cancelled, each has a context of its own; the channel
  a shutdown waits on is closed or belongs to the live loop it cancels, which is there only while
  the application is ready; and every other live loop was left behind by a start of an
  application that was ready.
\<close>

definition current_loop :: "('v, 'w) lifecycle \<Rightarrow> (nat \<times> nat) option" where
  "current_loop a = (case (lc_cancel a, lc_done a) of (Some x, Some c) \<Rightarrow> Some (x, c) | _ \<Rightarrow> None)"

definition loop_inv :: "nat \<Rightarrow> ('v, 'w) lifecycle \<Rightarrow> bool" where
  "loop_inv n a \<longleftrightarrow>
     (\<forall>(x, c)\<in>set (lc_loops a). x < length (lc_ctxs a) \<and> c < length (lc_chans a) \<and> \<not> lc_ctxs a ! x) \<and>
     distinct (map fst (lc_loops a)) \<and>
     (case (lc_cancel a, lc_done a) of
        (None, None) \<Rightarrow> True
      | (Some x, Some c) \<Rightarrow>
          x < length (lc_ctxs a) \<and> c < length (lc_chans a) \<and>
          (lc_chans a ! c \<or> (x, c) \<in> set (lc_loops a)) \<and> ((x, c) \<in> set (lc_loops a) \<longrightarrow> lc_ready a) \<and>
          (\<forall>c'. (x, c') \<in> set (lc_loops a) \<longrightarrow> c' = c)
      | _ \<Rightarrow> False) \<and>
     length (filter (\<lambda>l. Some l \<noteq> current_loop a) (lc_loops a)) \<le> n"

lemma App_New_fresh:
  assumes "App_New P cfg tn0 w = (Inr a, w')"
  shows "lc_ready a = False" "lc_registry a = registry_New" "lc_cancel a = None" "lc_done a = None" "lc_loops a = []"
    "RegisterScopedModels (pf_parse P) sdk_models tn0 = (None, lc_isolation a)"
  using assms unfolding App_New_def
  by (auto split: prod.splits sum.splits option.splits)

lemma App_RegisterModule_frame:
  assumes "App_RegisterModule P m a w = (res, a', w')"
  shows "lc_ready a' = lc_ready a" "lc_cancel a' = lc_cancel a" "lc_done a' = lc_done a" "lc_loops a' = lc_loops a"
    "lc_ctxs a' = lc_ctxs a" "lc_chans a' = lc_chans a" "lc_servers a' = lc_servers a" "lc_Config a' = lc_Config a"
  using assms unfolding App_RegisterModule_def
  by (auto simp: Let_def split: prod.splits option.splits if_splits)

lemmas start_steps = new_webhook_loop_def close_chan_def cancel_context_def

lemma App_Start_cases:
  assumes "App_Start P ctx a w = (res, a', w')"
  obtains (not_started) "a' = a"
  | (no_consumer) "a' = (close_chan (length (lc_chans a)) (new_webhook_loop a))\<lparr>lc_servers := True, lc_ready := True\<rparr>"
  | (consumer_failed) "a' = close_chan (length (lc_chans a)) (cancel_context (length (lc_ctxs a)) (new_webhook_loop a))"
  | (draining) "a' = (new_webhook_loop a)\<lparr>lc_sub := True,
        lc_loops := lc_loops a @ [(length (lc_ctxs a), length (lc_chans a))], lc_servers := True, lc_ready := True\<rparr>"
  using assms
  by (auto simp: App_Start_def Let_def new_webhook_loop_def split: prod.splits option.splits event_publisher.splits)

lemma App_Start_frame:
  assumes "App_Start P ctx a w = (res, a', w')"
  shows "lc_registry a' = lc_registry a \<and> lc_isolation a' = lc_isolation a"
  using assms by (cases rule: App_Start_cases) (simp_all add: start_steps)

lemma loop_returned: "fst (RunDrainLoop r ctx batchSize (select_trace ticks cancelled) w) = cancelled"
  unfolding RunDrainLoop_returns by (simp add: select_trace_def)

lemma run_loops_left: "fst (run_loops P ctxs loops chans w) = filter (\<lambda>(x, c). \<not> ctxs ! x) loops"
proof (induction P ctxs loops chans w rule: run_loops.induct)
  case (2 P ctxs x c loops chans w)
  then show ?case
    using loop_returned[of "pf_webhooks P" Background DefaultDrainBatchSize "pf_ticks P x" "ctxs ! x" w]
    by (auto simp: Let_def split: prod.splits)
qed simp

lemma nth_set_flag: "k < length bs \<Longrightarrow> bs[c := True] ! k \<longleftrightarrow> bs ! k \<or> k = c"
  by (cases "k = c") simp_all

lemma run_loops_closes:
  "length (fst (snd (run_loops P ctxs loops chans w))) = length chans \<and>
   (\<forall>c < length chans. fst (snd (run_loops P ctxs loops chans w)) ! c \<longleftrightarrow>
      chans ! c \<or> (\<exists>x. (x, c) \<in> set loops \<and> ctxs ! x))"
proof (induction P ctxs loops chans w rule: run_loops.induct)
  case (2 P ctxs x c loops chans w)
  obtain returned w1 where r: "RunDrainLoop (pf_webhooks P) Background DefaultDrainBatchSize
      (select_trace (pf_ticks P x) (ctxs ! x)) w = (returned, w1)" by fastforce
  then have returned: "returned = ctxs ! x"
    using loop_returned[of "pf_webhooks P" Background DefaultDrainBatchSize "pf_ticks P x" "ctxs ! x" w] by simp
  have "fst (snd (run_loops P ctxs ((x, c) # loops) chans w)) =
      fst (snd (run_loops P ctxs loops (if returned then chans[c := True] else chans) w1))"
    using r by (simp add: Let_def split: prod.splits)
  with 2[OF r[symmetric] HOL.refl] show ?case unfolding returned by (cases "ctxs ! x") (auto simp: nth_set_flag simp del: run_loops.simps)
qed simp

lemma await_cancel_frame:
  assumes "await_loop P (cancel_loop a) w = Some (a', w')"
  shows "lc_registry a' = lc_registry a \<and> lc_isolation a' = lc_isolation a \<and> lc_ready a' = lc_ready a"
  using assms by (auto simp: await_loop_def cancel_loop_def cancel_context_def Let_def split: option.splits prod.splits if_splits)

lemma App_Shutdown_Some:
  assumes "App_Shutdown P ctx a w = Some (res, a', w')"
  shows "\<exists>w0 w1. await_loop P (cancel_loop (a\<lparr>lc_ready := False\<rparr>)) w0 = Some (a', w1)"
  using assms by (auto simp: App_Shutdown_def Let_def split: option.splits prod.splits)

lemma App_Shutdown_waits:
  assumes "await_loop P (cancel_loop (a\<lparr>lc_ready := False\<rparr>)) (if lc_servers a then pf_GracefulStop P w else w) = Some (a', w1)"
  shows "\<exists>res w'. App_Shutdown P ctx a w = Some (res, a', w')"
  using assms by (simp add: App_Shutdown_def Let_def case_prod_unfold)

lemma loop_inv_stop:
  assumes "loop_inv n a"
  shows "\<exists>a' w'. await_loop P (cancel_loop (a\<lparr>lc_ready := False\<rparr>)) w = Some (a', w') \<and> loop_inv n a' \<and>
    length (lc_loops a') \<le> n \<and> \<not> lc_ready a'"
proof (cases "lc_done a")
  case None
  then have "lc_cancel a = None" "length (lc_loops a) \<le> n"
    using assms by (auto simp: loop_inv_def current_loop_def split: option.splits)
  with None assms show ?thesis by (simp add: await_loop_def cancel_loop_def loop_inv_def current_loop_def)
next
  case (Some c)
  then obtain x where x: "lc_cancel a = Some x" "x < length (lc_ctxs a)" "c < length (lc_chans a)"
    "lc_chans a ! c \<or> (x, c) \<in> set (lc_loops a)" "\<And>c'. (x, c') \<in> set (lc_loops a) \<Longrightarrow> c' = c"
    using assms by (auto simp: loop_inv_def split: option.splits)
  have live: "y < length (lc_ctxs a)" "k < length (lc_chans a)" "\<not> lc_ctxs a ! y" if "(y, k) \<in> set (lc_loops a)" for y k
    using assms that by (auto simp: loop_inv_def)
  let ?ctxs = "(lc_ctxs a)[x := True]"
  obtain loops chans w' where r: "run_loops P ?ctxs (lc_loops a) (lc_chans a) w = (loops, chans, w')"
    by (metis prod.exhaust)
  have "loops = filter (\<lambda>(y, k). \<not> ?ctxs ! y) (lc_loops a)"
    using run_loops_left[of P ?ctxs "lc_loops a" "lc_chans a" w] r by simp
  also have "\<dots> = filter (\<lambda>l. Some l \<noteq> current_loop a) (lc_loops a)"
  proof (rule filter_cong [OF HOL.refl])
    fix l assume "l \<in> set (lc_loops a)"
    moreover obtain y k where "l = (y, k)" by (cases l)
    ultimately show "(case l of (y, k) \<Rightarrow> \<not> ?ctxs ! y) = (Some l \<noteq> current_loop a)"
      using live(3)[of y k] x(1,2) x(5)[of k] by (cases "y = x") (simp_all add: current_loop_def Some)
  qed
  finally have loops: "loops = filter (\<lambda>l. Some l \<noteq> current_loop a) (lc_loops a)" .
  have chans: "length chans = length (lc_chans a)" "chans ! c"
    using run_loops_closes[of P ?ctxs "lc_loops a" "lc_chans a" w] r x(2-4) by (simp, simp, metis nth_list_update_eq)
  let ?a = "a\<lparr>lc_ready := False, lc_ctxs := ?ctxs, lc_loops := loops, lc_chans := chans\<rparr>"
  have gone: "(x, k) \<notin> set loops" for k
    using x(5) by (auto simp: loops current_loop_def Some x(1))
  have small: "length loops \<le> n" using assms by (simp add: loop_inv_def loops)
  have "loop_inv n ?a" unfolding loop_inv_def
  proof (intro conjI)
    show "\<forall>(y, k)\<in>set (lc_loops ?a). y < length (lc_ctxs ?a) \<and> k < length (lc_chans ?a) \<and> \<not> lc_ctxs ?a ! y"
    proof clarify
      fix y k assume yk: "(y, k) \<in> set (lc_loops ?a)"
      then have "y \<noteq> x" "(y, k) \<in> set (lc_loops a)" using gone by (auto simp: loops)
      with live[OF this(2)] chans(1)
      show "y < length (lc_ctxs ?a) \<and> k < length (lc_chans ?a) \<and> \<not> lc_ctxs ?a ! y" by simp
    qed
    show "distinct (map fst (lc_loops ?a))"
      using assms by (simp add: loop_inv_def loops distinct_map_filter)
    show "length (filter (\<lambda>l. Some l \<noteq> current_loop ?a) (lc_loops ?a)) \<le> n"
      using order_trans[OF length_filter_le small] by simp
    show "case (lc_cancel ?a, lc_done ?a) of
        (None, None) \<Rightarrow> True
      | (Some x, Some c) \<Rightarrow>
          x < length (lc_ctxs ?a) \<and> c < length (lc_chans ?a) \<and>
          (lc_chans ?a ! c \<or> (x, c) \<in> set (lc_loops ?a)) \<and> ((x, c) \<in> set (lc_loops ?a) \<longrightarrow> lc_ready ?a) \<and>
          (\<forall>c'. (x, c') \<in> set (lc_loops ?a) \<longrightarrow> c' = c)
      | _ \<Rightarrow> False"
      using x(1-3) Some chans gone by simp
  qed
  moreover have "await_loop P (cancel_loop (a\<lparr>lc_ready := False\<rparr>)) w = Some (?a, w')"
    using r chans(2) by (simp add: await_loop_def cancel_loop_def cancel_context_def Some x(1))
  ultimately show ?thesis using small by (intro exI[of _ ?a] exI[of _ w']) simp
qed

lemma loop_inv_length:
  assumes "loop_inv n a"
  shows "length (lc_loops a) \<le> (if lc_ready a then Suc n else n)"
proof (cases "current_loop a")
  case None
  then show ?thesis using assms by (simp add: loop_inv_def)
next
  case (Some l)
  have "distinct (lc_loops a)" using assms by (simp add: loop_inv_def distinct_map)
  then have "length (filter (\<lambda>l'. Some l' = current_loop a) (lc_loops a)) = card ({l} \<inter> set (lc_loops a))"
    by (simp add: Some eq_commute distinct_length_filter)
  moreover have "card ({l} \<inter> set (lc_loops a)) \<le> 1" by (cases "l \<in> set (lc_loops a)") simp_all
  moreover have "length (filter (\<lambda>l'. Some l' = current_loop a) (lc_loops a)) = 0" if "\<not> lc_ready a"
    using assms that Some by (auto simp: loop_inv_def current_loop_def filter_empty_conv split: option.splits)
  ultimately show ?thesis
    using assms sum_length_filter_compl[of "\<lambda>l'. Some l' = current_loop a" "lc_loops a"] by (auto simp: loop_inv_def)
qed

lemma loop_inv_start:
  assumes "loop_inv n a" and "App_Start P ctx a w = (res, a', w')"
  shows "loop_inv (if lc_ready a then Suc n else n) a'"
proof -
  let ?n = "if lc_ready a then Suc n else n"
  have len: "length (lc_loops a) \<le> ?n" using loop_inv_length[OF assms(1)] .
  have live: "x < length (lc_ctxs a)" "c < length (lc_chans a)" "\<not> lc_ctxs a ! x" if "(x, c) \<in> set (lc_loops a)" for x c
    using assms(1) that by (auto simp: loop_inv_def)
  have fresh: "(length (lc_ctxs a), c) \<notin> set (lc_loops a)" "length (lc_ctxs a) \<notin> fst ` set (lc_loops a)" for c
    using live(1) by fastforce+
  have d: "distinct (map fst (lc_loops a))" using assms(1) by (simp add: loop_inv_def)
  have old: "\<forall>(x, c)\<in>set (lc_loops a). x < Suc (length (lc_ctxs a)) \<and> c < Suc (length (lc_chans a)) \<and>
      \<not> (lc_ctxs a @ [b]) ! x" for b
    using live by (auto simp: nth_append less_SucI)
  have short: "length (filter Q (lc_loops a)) \<le> ?n" for Q
    using len length_filter_le order_trans by blast
  from assms(2) show ?thesis
  proof (cases rule: App_Start_cases)
    case not_started
    then show ?thesis using assms(1) by (auto simp: loop_inv_def split: prod.splits)
  next
    case no_consumer
    then show ?thesis using old d fresh short by (simp add: loop_inv_def start_steps current_loop_def)
  next
    case consumer_failed
    then show ?thesis using old d fresh short by (simp add: loop_inv_def start_steps current_loop_def)
  next
    case draining
    then show ?thesis using old d fresh short
      by (simp add: loop_inv_def start_steps current_loop_def)
  qed
qed

lemma loop_inv_frame:
  assumes "App_RegisterModule P m a w = (res, a', w')"
  shows "loop_inv n a' = loop_inv n a"
  using App_RegisterModule_frame [OF assms]
  by (cases "lc_cancel a"; cases "lc_done a") (simp_all add: loop_inv_def current_loop_def)

lemma app_run_loop_inv: "app_run P ms n a \<Longrightarrow> loop_inv n a"
proof (induction rule: app_run.induct)
  case (app_new cfg tn0 w a w')
  then show ?case using App_New_fresh [OF app_new] by (simp add: loop_inv_def)
next
  case (app_registered ms n a m w a' w')
  then show ?case by (simp add: loop_inv_frame)
next
  case (app_refused ms n a m w e a' w')
  then show ?case by (simp add: loop_inv_frame)
next
  case (app_started ms n a ctx w res a' w')
  then show ?case using loop_inv_start[OF app_started.IH app_started.hyps(2)] by simp
next
  case (app_stopped ms n a ctx w res a' w')
  obtain w0 w1 where "await_loop P (cancel_loop (a\<lparr>lc_ready := False\<rparr>)) w0 = Some (a', w1)"
    using App_Shutdown_Some [OF app_stopped.hyps(2)] by auto
  with loop_inv_stop[OF app_stopped.IH, of P w0] show ?case by auto
qed

text \<open>Registering models only ever adds tables, and a registration that succeeds has added every model's.\<close>

lemma RegisterScopedModels_failed:
  "foldl (\<lambda>(err, tn) (go_type, m). case err of
         Some e \<Rightarrow> (Some e, tn)
       | None \<Rightarrow> (case parse m of
           Inl e \<Rightarrow> (Some (prefixf [''tenancy: parse model '', go_type] e), tn)
         | Inr table \<Rightarrow> (None, tn\<lparr>iso_tables := List.insert table (iso_tables tn)\<rparr>)))
       (Some e, tn) models = (Some e, tn)"
  by (induction models) auto

lemma RegisterScopedModels_simps [simp]:
  "RegisterScopedModels parse [] tn = (None, tn)"
  "RegisterScopedModels parse ((n, t) # models) tn =
     (case parse t of
        Inl e \<Rightarrow> (Some (prefixf [''tenancy: parse model '', n] e), tn)
      | Inr table \<Rightarrow> RegisterScopedModels parse models (tn\<lparr>iso_tables := List.insert table (iso_tables tn)\<rparr>))"
  by (simp add: RegisterScopedModels_def)
     (cases "parse t"; simp add: RegisterScopedModels_def RegisterScopedModels_failed)

definition scoped_model :: "(rtype \<Rightarrow> gerr + string) \<Rightarrow> isolation \<Rightarrow> rtype \<Rightarrow> bool" where
  "scoped_model parse tn t \<longleftrightarrow> (case parse t of Inl e \<Rightarrow> False | Inr table \<Rightarrow> table \<in> set (iso_tables tn))"

lemma RegisterScopedModels_grows:
  "RegisterScopedModels parse models tn = (res, tn') \<Longrightarrow> set (iso_tables tn) \<subseteq> set (iso_tables tn')"
proof (induction models arbitrary: tn)
  case (Cons p models)
  then show ?case by (cases p) (fastforce split: sum.splits)
qed simp

lemma RegisterScopedModels_scopes:
  "\<lbrakk>RegisterScopedModels parse models tn = (None, tn'); (n, t) \<in> set models\<rbrakk> \<Longrightarrow> scoped_model parse tn' t"
proof (induction models arbitrary: tn)
  case (Cons p models)
  obtain n' t' where p: "p = (n', t')" by (cases p)
  with Cons.prems(1) obtain table where
    t': "parse t' = Inr table"
    and rest: "RegisterScopedModels parse models (tn\<lparr>iso_tables := List.insert table (iso_tables tn)\<rparr>) = (None, tn')"
    by (auto split: sum.splits)
  show ?case
  proof (cases "(n, t) \<in> set models")
    case True
    then show ?thesis using Cons.IH [OF rest] by blast
  next
    case False
    then show ?thesis
      using Cons.prems(2) p t' RegisterScopedModels_grows [OF rest] by (auto simp: scoped_model_def)
  qed
qed simp

lemma scoped_model_mono:
  "\<lbrakk>set (iso_tables tn) \<subseteq> set (iso_tables tn'); scoped_model parse tn t\<rbrakk> \<Longrightarrow> scoped_model parse tn' t"
  by (auto simp: scoped_model_def split: sum.splits)

lemma nil_model_None: "nil_model models = None \<longleftrightarrow> None \<notin> set models"
  by (auto simp: nil_model_def find_None_iff in_set_conv_nth)

lemma register_models_grows:
  "register_models P m tn = (res, tn') \<Longrightarrow> set (iso_tables tn) \<subseteq> set (iso_tables tn')"
  by (auto simp: register_models_def split: option.splits prod.splits dest!: RegisterScopedModels_grows)

text \<open>The models a module declares.\<close>

definition declared :: "('v, 'w, 'f) app_module \<Rightarrow> (string \<times> rtype) list" where
  "declared m = (case am_ScopedModels m of None \<Rightarrow> [] | Some models \<Rightarrow> map the models)"

lemma register_models_scopes:
  assumes "register_models P m tn = (None, tn')" "(n, t) \<in> set (declared m)"
  shows "scoped_model (pf_parse P) tn' t"
proof -
  obtain models where models: "am_ScopedModels m = Some models"
    using assms(2) by (cases "am_ScopedModels m") (simp_all add: declared_def)
  then have "RegisterScopedModels (pf_parse P) (map the models) tn = (None, tn')"
    using assms(1) by (simp add: register_models_def split: option.splits prod.splits)
  then show ?thesis
    using RegisterScopedModels_scopes assms(2) models by (simp add: declared_def)
qed

text \<open>What a registration does to the scoped tables and to the registry.\<close>

lemma App_RegisterModule_isolation:
  assumes "App_RegisterModule P m a w = (res, a', w')"
  shows "set (iso_tables (lc_isolation a)) \<subseteq> set (iso_tables (lc_isolation a'))"
    and "res = None \<Longrightarrow> register_models P m (lc_isolation a) = (None, lc_isolation a')"
  using assms register_models_grows
  by (force simp: App_RegisterModule_def Let_def split: if_splits prod.splits option.splits)+

lemma RegisterModule_order:
  assumes "RegisterModule item r = (res, r')"
  shows "reg_order r' = (if res = None then reg_order r @ [d_id (m_desc item)] else reg_order r)"
  using assms
proof (cases rule: RegisterModule_outcomes)
  case (failed e r2)
  then show ?thesis using install_phase_frame [OF failed(3), unfolded same_frame_def] by (simp add: rollback_module_def)
next
  case (installed r2)
  then show ?thesis using install_phase_frame [OF installed(5), unfolded same_frame_def] by simp
qed simp

lemma App_RegisterModule_order:
  assumes "App_RegisterModule P m a w = (res, a', w')"
  shows "reg_order (lc_registry a') =
     (if res = None then reg_order (lc_registry a) @ [am_id m] else reg_order (lc_registry a))"
  using assms
  by (auto dest: RegisterModule_order simp: App_RegisterModule_def am_id_def Let_def split: if_splits prod.splits option.splits)

lemma App_Shutdown_frame:
  "App_Shutdown P ctx a w = Some (res, a', w') \<Longrightarrow> lc_registry a' = lc_registry a \<and> lc_isolation a' = lc_isolation a"
  using App_Shutdown_Some await_cancel_frame by fastforce

definition isolation_inv :: "('w, 'f, 'j) platform \<Rightarrow> ('v, 'w, 'f) app_module list \<Rightarrow> ('v, 'w) lifecycle \<Rightarrow> bool" where
  "isolation_inv P ms a \<longleftrightarrow>
     reg_order (lc_registry a) = rev (map am_id ms) \<and>
     (\<forall>n t. (n, t) \<in> set (sdk_models @ concat (map declared ms)) \<longrightarrow> scoped_model (pf_parse P) (lc_isolation a) t)"

lemma isolation_inv_grown:
  assumes "isolation_inv P ms a" "set (iso_tables (lc_isolation a)) \<subseteq> set (iso_tables (lc_isolation a'))"
    "reg_order (lc_registry a') = reg_order (lc_registry a)"
  shows "isolation_inv P ms a'"
  using assms scoped_model_mono [OF assms(2)] unfolding isolation_inv_def by simp

lemma app_run_isolation_inv: "app_run P ms n a \<Longrightarrow> isolation_inv P ms a"
proof (induction rule: app_run.induct)
  case (app_new cfg tn0 w a w')
  then show ?case
    using App_New_fresh [OF app_new] RegisterScopedModels_scopes by (auto simp: isolation_inv_def registry_New_def)
next
  case (app_registered ms n a m w a' w')
  note iso = App_RegisterModule_isolation [OF app_registered.hyps(2)]
  have "scoped_model (pf_parse P) (lc_isolation a') t"
    if "(n, t) \<in> set (sdk_models @ concat (map declared (m # ms)))" for n t
  proof (cases "(n, t) \<in> set (declared m)")
    case True
    then show ?thesis using register_models_scopes [OF iso(2)] by simp
  next
    case False
    then have "(n, t) \<in> set (sdk_models @ concat (map declared ms))" using that by auto
    then show ?thesis
      using app_registered.IH scoped_model_mono [OF iso(1)] unfolding isolation_inv_def by blast
  qed
  then show ?case
    using App_RegisterModule_order [OF app_registered.hyps(2)] app_registered.IH by (simp add: isolation_inv_def)
next
  case (app_refused ms n a m w e a' w')
  then show ?case
    using App_RegisterModule_order [OF app_refused.hyps(2)]
    by (intro isolation_inv_grown [OF app_refused.IH App_RegisterModule_isolation(1) [OF app_refused.hyps(2)]]) simp
next
  case (app_started ms n a ctx w res a' w')
  then show ?case
    using App_Start_frame [OF app_started.hyps(2)] by (intro isolation_inv_grown [OF app_started.IH]) simp_all
next
  case (app_stopped ms n a ctx w res a' w')
  then show ?case
    using App_Shutdown_frame [OF app_stopped.hyps(2)] by (intro isolation_inv_grown [OF app_stopped.IH]) simp_all
qed

section \<open>Properties\<close>

text \<open>
  C13: the wait of a shutdown never blocks. After any sequence of registrations, starts and
  shutdowns, successful or failed, a further shutdown gets past its receive on \<open>webhookDone\<close> and
  returns, as long as the services it stops return: whether the application was never started,
  its start failed half way, it has no event consumer, or it was shut down before. Afterwards the
  application is not ready, no more drain loops are left running than the number of times it was
  started while it was ready (none, if that never happened), and a further shutdown returns too.
\<close>

theorem shutdown_completes:
  assumes "app_run P ms n a"
  shows "\<exists>res a' w'. App_Shutdown P ctx a w = Some (res, a', w') \<and> length (lc_loops a') \<le> n \<and> \<not> lc_ready a' \<and>
    (\<forall>ctx w. \<exists>again. App_Shutdown P ctx a' w = Some again)"
proof -
  have total: "\<exists>res a' w'. App_Shutdown P ctx b w = Some (res, a', w') \<and> loop_inv n a' \<and> length (lc_loops a') \<le> n \<and> \<not> lc_ready a'"
    if b: "loop_inv n b" for b ctx w
  proof -
    obtain a' w' where "await_loop P (cancel_loop (b\<lparr>lc_ready := False\<rparr>))
        (if lc_servers b then pf_GracefulStop P w else w) = Some (a', w')"
      and a': "loop_inv n a'" "length (lc_loops a') \<le> n" "\<not> lc_ready a'"
      using loop_inv_stop[OF b] by blast
    from App_Shutdown_waits[OF this(1), of ctx] a' show ?thesis by blast
  qed
  from total [OF app_run_loop_inv [OF assms], of ctx w] show ?thesis using total by blast
qed

text \<open>
  C6: installing a module puts its data under tenant isolation. However an application was put
  together, the modules in its registry are exactly those whose registration succeeded, and the table
  of every model such a module declares, like every table of the SDK's own, is registered as scoped: a
  statement addressed to the table by name alone is a scoped statement, and raw SQL that names it
  outside a system context is refused.
\<close>

theorem installed_modules_isolated:
  assumes "app_run P ms n a" and "m \<in> set ms" and "(name, t) \<in> set sdk_models \<union> set (declared m)"
  shows "reg_order (lc_registry a) = rev (map am_id ms) \<and>
    (\<exists>table. pf_parse P t = Inr table \<and>
       (\<forall>st. table \<noteq> [] \<and> s_table st = table \<longrightarrow> isScoped (lc_isolation a) st) \<and>
       (\<forall>st. table \<noteq> [] \<and> contains_sub (to_lower (s_sql st)) (to_lower table) \<and> s_sql st \<noteq> [] \<and>
          \<not> IsSystemContext (s_ctx st) \<longrightarrow> s_error (guardRaw (lc_isolation a) st) \<noteq> None))"
proof -
  have inv: "isolation_inv P ms a" using app_run_isolation_inv [OF assms(1)] .
  then have "scoped_model (pf_parse P) (lc_isolation a) t"
    using assms(2,3) unfolding isolation_inv_def by auto
  then obtain table where table: "pf_parse P t = Inr table" "table \<in> set (iso_tables (lc_isolation a))"
    by (auto simp: scoped_model_def split: sum.splits)
  have "s_error (guardRaw (lc_isolation a) st) \<noteq> None"
    if "table \<noteq> []" "contains_sub (to_lower (s_sql st)) (to_lower table)" "s_sql st \<noteq> []" "\<not> IsSystemContext (s_ctx st)" for st
  proof -
    have "scopedTableInSQL (lc_isolation a) (s_sql st) \<noteq> None"
      using that table(2) unfolding scopedTableInSQL_def by (auto simp: find_None_iff)
    then show ?thesis using that by (auto simp: guardRaw_def)
  qed
  moreover have "isScoped (lc_isolation a) st" if "table \<noteq> []" "s_table st = table" for st
    using that table(2) by (simp add: isScoped_def isScopedTable_def)
  ultimately show ?thesis using table(1) inv by (auto simp: isolation_inv_def)
qed

text \<open>
  A second start of a running application loses the first drain loop: the next shutdown cancels the
  second only, and the first goes on draining after the database is closed.
\<close>

lemma second_start_leaks_loop:
  assumes "loop_inv n a" "lc_loops a = [l]" "lc_events a = NATSPublisher"
    "StartAll ctx (lc_registry a) w = (None, w1)" "pf_subscribe P Background w1 = (None, w2)"
    "App_Start P ctx a w = (res, a1, w3)" "App_Shutdown P ctx' a1 w4 = Some (res', a2, w5)"
  shows "res = None \<and> lc_loops a2 = [l]"
proof -
  obtain x c where l: "l = (x, c)" "x < length (lc_ctxs a)" "\<not> lc_ctxs a ! x"
    using assms(1,2) by (cases l) (auto simp: loop_inv_def)
  let ?x = "length (lc_ctxs a)" and ?c = "length (lc_chans a)"
  from assms(3-6) have a1: "res = None" "lc_cancel a1 = Some ?x" "lc_done a1 = Some ?c"
    "lc_ctxs a1 = lc_ctxs a @ [False]" "lc_loops a1 = [l, (?x, ?c)]"
    by (auto simp: App_Start_def new_webhook_loop_def Let_def assms(2))
  obtain w0 w0' where "await_loop P (cancel_loop (a1\<lparr>lc_ready := False\<rparr>)) w0 = Some (a2, w0')"
    using App_Shutdown_Some [OF assms(7)] by blast
  then have "lc_loops a2 = fst (run_loops P (lc_ctxs a @ [True]) [l, (?x, ?c)] (lc_chans a1) w0)"
    using a1 by (auto simp: await_loop_def cancel_loop_def cancel_context_def Let_def split: prod.splits if_splits)
  then show ?thesis using a1(1) l unfolding run_loops_left by (simp add: nth_append)
qed

section \<open>A concrete application\<close>

definition demo_broker :: "unit jetstream" where
  "demo_broker = \<lparr>js_info = (\<lambda>_ _. Inl (ErrNew ''stream not found'')), js_update = (\<lambda>_ j. (None, j)), js_add = (\<lambda>_ j. (None, j))\<rparr>"

definition idle_runner :: "'w runner" where
  "idle_runner =
     \<lparr>rn_store = \<lparr>Find = (\<lambda>_ _ _ d. (Inr [], d)), First = (\<lambda>_ _ _ d. (Inl ErrNotFound, d)), Count = (\<lambda>_ _ _ d. (Inr 0, d)),
                   Create = (\<lambda>_ _ _ d. (None, d)), Update = (\<lambda>_ _ _ _ d. (Some ErrNotFound, d)),
                   Delete = (\<lambda>_ _ _ d. (Some ErrNotFound, d)), Transact = (\<lambda>_ body d. body d)\<rparr>,
      rn_client = \<lparr>hc_bad_url = (\<lambda>_. None), hc_Do = (\<lambda>_ d. (Inr 200, d))\<rparr>,
      rn_now = (\<lambda>_. 0), rn_jitter = (\<lambda>_ x. x), rn_uuid = (\<lambda>d. (''u'', d)), rn_rand = (\<lambda>k d. (Inr (replicate k CHR ''k''), d))\<rparr>"

definition demo_platform :: "(oidcState list \<times> unit, unit, unit) platform" where
  "demo_platform =
     \<lparr>pf_Open = (\<lambda>_ _ w. (None, w)), pf_sqlDB = None,
      pf_goose = \<lparr>g_SetDialect = (\<lambda>_. None), g_Up = (\<lambda>_ _ d. (None, d)), g_NewProvider = (\<lambda>_ _ _. None),
                  g_provider_Up = (\<lambda>_ _ _ d. (Inr 1, d))\<rparr>,
      pf_migrationFiles = (), pf_isolation = None,
      pf_parse = (\<lambda>t. case t of TPtr (TStruct n _) \<Rightarrow> Inr n | _ \<Rightarrow> Inl (ErrNew ''unsupported data type'')),
      pf_migrator = None, pf_unmarshal_oidc = (\<lambda>_. Inr []), pf_discover = (\<lambda>_. None), pf_unmarshal_saml = (\<lambda>_. Inr []),
      pf_from_metadata = (\<lambda>_ _. Inr True), pf_parse_cert = (\<lambda>_. None), pf_saml_build = (\<lambda>_. demo_federation),
      pf_connect = (\<lambda>_ w. (None, w)), pf_JetStream = Inr demo_broker, pf_streams = (\<lambda>f w. (fst (f ()), w)),
      pf_conn_Close = (\<lambda>w. w), pf_exporter = (\<lambda>_. None), pf_resource = None, pf_subscribe = (\<lambda>_ w. (None, w)), pf_webhooks = idle_runner, pf_ticks = (\<lambda>_. 2),
      pf_GracefulStop = (\<lambda>w. w), pf_sub_Close = (\<lambda>w. (None, w)), pf_conn_Drain = (\<lambda>w. (Some (ErrNew ''timeout''), w)),
      pf_tracer_Shutdown = (\<lambda>w. (None, w)), pf_kernel_Shutdown = (\<lambda>w. (None, w)), pf_gateway_Shutdown = (\<lambda>w. (None, w)),
      pf_db_Close = (\<lambda>w. (None, w))\<rparr>"

definition notes_module :: "(unit, oidcState list \<times> unit, unit) app_module" where
  "notes_module =
     \<lparr>am_module = \<lparr>m_desc = \<lparr>d_id = ''notes'', d_kind = ''embedded'', d_provides = [], d_consumes = [], d_offers = [],
                             d_storage = StorageKernel, d_exposed = []\<rparr>,
                   m_install = InstallDone None, m_start = (\<lambda>_ w. (None, w)), m_stop = (\<lambda>_ w. (None, w))\<rparr>,
      am_ScopedModels = Some [Some (''*notes.Note'', TPtr (TStruct ''notes'' True))], am_Migrations = None\<rparr>"

definition demo_new :: "(unit, oidcState list \<times> unit) lifecycle" where
  "demo_new = projr (fst (App_New demo_platform ((FromEnv (\<lambda>_. []))\<lparr>cf_NATSUrl := ''nats://broker''\<rparr>)
     \<lparr>iso_tables = [], iso_current = ''~~~ct~~~''\<rparr> ([], ())))"

definition demo_installed :: "(unit, oidcState list \<times> unit) lifecycle" where
  "demo_installed = demo_new\<lparr>
     lc_isolation := \<lparr>iso_tables = ''notes'' # iso_tables (lc_isolation demo_new), iso_current = ''~~~ct~~~''\<rparr>,
     lc_registry := registry_New\<lparr>reg_modules := [(''notes'', am_module notes_module)], reg_order := [''notes'']\<rparr>\<rparr>"

definition demo_running :: "(unit, oidcState list \<times> unit) lifecycle" where
  "demo_running = fst (snd (App_Start demo_platform Background demo_installed ([], ())))"

lemmas demo_eval =
  App_New_def openDatabase_def RunMigrations_def init_federation_def buildPublisher_def NewNATSPublisher_def EnsureStream_def
  Setup_def sdk_models_def demo_platform_def demo_broker_def WebhookEndpoint_def WebhookDelivery_def FromEnv_def envOr_def
  detectDialect_def

lemma demo_new_run: "app_run demo_platform [] 0 demo_new"
  unfolding demo_new_def
  by (rule app_new [where cfg = "(FromEnv (\<lambda>_. []))\<lparr>cf_NATSUrl := ''nats://broker''\<rparr>" and w = "([], ())" and w' = "([], ())"
        and ?tn0.0 = "\<lparr>iso_tables = [], iso_current = ''~~~ct~~~''\<rparr>"])
     (simp add: demo_eval Let_def)

lemma demo_new_eval:
  "demo_new = \<lparr>lc_Config = (FromEnv (\<lambda>_. []))\<lparr>cf_NATSUrl := ''nats://broker''\<rparr>, lc_ready = False, lc_registry = registry_New,
     lc_isolation = \<lparr>iso_tables = [''webhook_deliveries'', ''webhook_endpoints'', ''modulekit_saga_steps'', ''modulekit_sagas'',
        ''modulekit_projection_state'', ''modulekit_processed_events''], iso_current = ''~~~ct~~~''\<rparr>,
     lc_saml = None, lc_events = NATSPublisher, lc_tracing = False, lc_cancel = None, lc_done = None, lc_sub = False,
     lc_servers = False, lc_ctxs = [], lc_chans = [], lc_loops = []\<rparr>"
  unfolding demo_new_def by (simp add: demo_eval Let_def)

lemma demo_installs:
  "App_RegisterModule demo_platform notes_module demo_new ([], ()) = (None, demo_installed, ([], ()))"
  by (simp add: App_RegisterModule_def demo_new_eval demo_installed_def notes_module_def register_models_def nil_model_def
      demo_platform_def RunModuleMigrations_def RegisterModule_def StorageMode_Valid_def StorageKernel_def
      unprovided_def install_phase_def enter_module_def registry_New_def Let_def)

lemma demo_starts: "App_Start demo_platform Background demo_installed ([], ()) = (None, demo_running, ([], ()))"
  unfolding demo_running_def
  by (simp add: App_Start_def StartAll_def validateConsumes_def consume_errors_def errors_join_def demo_installed_def demo_new_eval demo_platform_def notes_module_def
      registry_New_def Let_def)

lemma demo_running_run: "app_run demo_platform [notes_module] 0 demo_running"
  using app_started [OF app_registered [OF demo_new_run demo_installs] demo_starts]
  by (simp add: demo_installed_def demo_new_eval)

theorem shutdown_completes_witness:
  "\<exists>res a' w'. App_Shutdown demo_platform Background demo_running ([], ()) = Some (res, a', w') \<and>
     length (lc_loops demo_running) = 1 \<and> lc_loops a' = [] \<and> \<not> lc_ready a'"
proof -
  have "length (lc_loops demo_running) = 1"
    unfolding demo_running_def
    by (simp add: App_Start_def StartAll_def validateConsumes_def consume_errors_def errors_join_def demo_installed_def
        demo_new_eval demo_platform_def notes_module_def registry_New_def new_webhook_loop_def Let_def)
  with shutdown_completes [OF demo_running_run, of Background "([], ())"] show ?thesis by fastforce
qed

definition raw_notes :: stmt where
  "raw_notes = \<lparr>s_error = None, s_ctx = WithTenantID Background ''acme'', s_sql = ''SELECT * FROM Notes'', s_table = [],
     s_model = None, s_dest = None, s_schema = None, s_joins = [], s_from_joins = [], s_where = [], s_value = ROther\<rparr>"

lemma raw_notes_names_table:
  "contains_sub (to_lower (s_sql raw_notes)) (to_lower ''notes'')" "s_sql raw_notes \<noteq> []" "\<not> IsSystemContext (s_ctx raw_notes)"
  by (simp_all add: raw_notes_def) code_simp+

theorem installed_modules_isolated_witness:
  "reg_order (lc_registry demo_running) = [''notes''] \<and> s_error (guardRaw (lc_isolation demo_running) raw_notes) \<noteq> None"
  using installed_modules_isolated [OF demo_running_run, of notes_module "''*notes.Note''" "TPtr (TStruct ''notes'' True)"]
    raw_notes_names_table
  by (simp add: declared_def notes_module_def am_id_def demo_platform_def)

end
