(* ===== verification/Scaffold.thy ===== *)
theory Scaffold
  imports Migrations
begin

text \<open>
  The module generator (\<^verbatim>\<open>cmd/sannad-gen/internal/scaffold/scaffold.go\<close>): what it accepts, the names
  it derives, and how it writes files. The templates are data and their execution by \<open>text/template\<close>
  is an argument (\<open>exec\<close>); names are bytes, since only validated ones reach the derivation.
\<close>

record gen_spec =
  gs_ModuleID :: string
  gs_Capability :: string
  gs_Version :: string
  gs_Dir :: string

record plan =
  pn_Spec :: gen_spec
  pn_Package :: string
  pn_TypePrefix :: string
  pn_CapabilityConst :: string
  pn_Table :: string
  pn_HookRef :: string

section \<open>Validation\<close>

text \<open>The segments \<open>[a-z0-9]+\<close> between dots.\<close>

definition segment :: "string \<Rightarrow> bool" where
  "segment s = (s \<noteq> [] \<and> list_all is_id_char s)"

definition gen_moduleIDPattern :: "string \<Rightarrow> bool" where
  "gen_moduleIDPattern s = (list_all segment (split_on (CHR ''.'') s) \<and> length (split_on (CHR ''.'') s) \<ge> 2)"

definition capabilityPattern :: "string \<Rightarrow> bool" where
  "capabilityPattern s = list_all segment (split_on (CHR ''.'') s)"

definition versionPattern :: "string \<Rightarrow> bool" where
  "versionPattern s =
     (case s of c # cs \<Rightarrow> c = CHR ''v'' \<and> cs \<noteq> [] \<and> list_all (\<lambda>c. CHR ''0'' \<le> c \<and> c \<le> CHR ''9'') cs | [] \<Rightarrow> False)"

definition Spec_Validate :: "gen_spec \<Rightarrow> gerr option" where
  "Spec_Validate s =
     (if \<not> gen_moduleIDPattern (gs_ModuleID s)
      then Some (ErrNew (''module ID '' @ go_quote (gs_ModuleID s) @ '' must be reverse-DNS, lowercase, e.g. com.acme.parties''))
      else if \<not> capabilityPattern (gs_Capability s)
      then Some (ErrNew (''capability '' @ go_quote (gs_Capability s) @ '' must be lowercase dotted, e.g. parties.reader''))
      else if \<not> versionPattern (gs_Version s)
      then Some (ErrNew (''version '' @ go_quote (gs_Version s) @ '' must be vN, e.g. v1''))
      else if gs_Dir s = [] then Some (ErrNew ''output directory is required'')
      else None)"

section \<open>Derived names\<close>

text \<open>\<open>token.IsKeyword\<close>.\<close>

definition go_keywords :: "string list" where
  "go_keywords =
     [''break'', ''case'', ''chan'', ''const'', ''continue'', ''default'', ''defer'', ''else'', ''fallthrough'', ''for'',
      ''func'', ''go'', ''goto'', ''if'', ''import'', ''interface'', ''map'', ''package'', ''range'', ''return'',
      ''select'', ''struct'', ''switch'', ''type'', ''var'']"

definition upper_char :: "char \<Rightarrow> char" where
  "upper_char c = (if CHR ''a'' \<le> c \<and> c \<le> CHR ''z'' then char_of (of_char c - 32 :: nat) else c)"

fun exportize_from :: "bool \<Rightarrow> string \<Rightarrow> string" where
  "exportize_from upper [] = []"
| "exportize_from upper (c # cs) =
     (if c = CHR ''.'' \<or> c = CHR ''_'' \<or> c = CHR ''-'' then exportize_from True cs
      else if upper then upper_char c # exportize_from False cs
      else c # exportize_from False cs)"

definition exportize :: "string \<Rightarrow> string" where
  "exportize s = exportize_from True s"

definition NewPlan :: "gen_spec \<Rightarrow> gerr + plan" where
  "NewPlan s =
     (case Spec_Validate s of
        Some err \<Rightarrow> Inl err
      | None \<Rightarrow>
          (let pkg = last (split_on (CHR ''.'') (gs_ModuleID s));
               capSegments = split_on (CHR ''.'') (gs_Capability s)
           in if pkg \<in> set go_keywords
              then Inl (ErrNew (''module ID'' @ [CHR 0x27] @ ''s last segment '' @ go_quote pkg @ '' is a Go keyword; pick another''))
              else Inr \<lparr>pn_Spec = s, pn_Package = pkg, pn_TypePrefix = exportize (hd capSegments),
                        pn_CapabilityConst = ''Capability'' @ exportize (join ''.'' capSegments),
                        pn_Table = pkg @ ''_'' @ map (\<lambda>c. if c = CHR ''.'' then CHR ''_'' else c) (hd capSegments),
                        pn_HookRef = hd capSegments @ ''.before_write''\<rparr>))"

section \<open>Files\<close>

record gen_file =
  gf_Name :: string
  gf_Content :: string

text \<open>The names and the template each file is rendered from, in order.\<close>

definition gen_sources :: "(string \<times> string) list" where
  "gen_sources =
     [(''module.go'', ''moduleTemplate''), (''contract.go'', ''contractTemplate''),
      (''module_test.go'', ''moduleTestTemplate''), (''boundary_test.go'', ''boundaryTestTemplate''),
      (''README.md'', ''readmeTemplate''), (''migrations/00001_init.sql'', ''migrationTemplate'')]"

text \<open>\<open>parse\<close> and \<open>exec\<close> are \<open>Template.Parse\<close> and \<open>Template.Execute\<close> of the named template.\<close>

fun Render_from ::
  "(string \<Rightarrow> gerr option) \<Rightarrow> (string \<Rightarrow> plan \<Rightarrow> gerr + string) \<Rightarrow> plan \<Rightarrow> (string \<times> string) list \<Rightarrow> gen_file list
     \<Rightarrow> gerr + gen_file list" where
  "Render_from parse exec plan [] files = Inr files"
| "Render_from parse exec plan ((name, tmpl) # srcs) files =
     (case parse tmpl of
        Some err \<Rightarrow> Inl (prefixf [''parse template '', name] err)
      | None \<Rightarrow>
          (case exec tmpl plan of
             Inl err \<Rightarrow> Inl (prefixf [''render '', name] err)
           | Inr out \<Rightarrow> Render_from parse exec plan srcs (files @ [\<lparr>gf_Name = name, gf_Content = out\<rparr>])))"

definition Render ::
  "(string \<Rightarrow> gerr option) \<Rightarrow> (string \<Rightarrow> plan \<Rightarrow> gerr + string) \<Rightarrow> plan \<Rightarrow> gerr + gen_file list" where
  "Render parse exec plan = Render_from parse exec plan gen_sources []"

text \<open>\<open>filepath.Clean\<close>, \<open>Join\<close> and \<open>Dir\<close> on slash-separated paths.\<close>

fun clean_segments :: "bool \<Rightarrow> string list \<Rightarrow> string list \<Rightarrow> string list" where
  "clean_segments rooted stack [] = rev stack"
| "clean_segments rooted stack (seg # segs) =
     (if seg = [] \<or> seg = ''.'' then clean_segments rooted stack segs
      else if seg = ''..'' then
        (case stack of
           up # below \<Rightarrow> if up = ''..'' then clean_segments rooted (seg # stack) segs else clean_segments rooted below segs
         | [] \<Rightarrow> if rooted then clean_segments rooted [] segs else clean_segments rooted [seg] segs)
      else clean_segments rooted (seg # stack) segs)"

definition path_Clean :: "string \<Rightarrow> string" where
  "path_Clean p =
     (let rooted = has_prefix p ''/'';
          cleaned = join ''/'' (clean_segments rooted [] (split_on (CHR ''/'') p))
      in if rooted then ''/'' @ cleaned else if cleaned = [] then ''.'' else cleaned)"

definition path_Join :: "string \<Rightarrow> string \<Rightarrow> string" where
  "path_Join a b =
     (if a = [] then if b = [] then [] else path_Clean b
      else path_Clean (if b = [] then a else a @ ''/'' @ b))"

definition path_Dir :: "string \<Rightarrow> string" where
  "path_Dir p = (case cut_last (CHR ''/'') p of None \<Rightarrow> ''.'' | Some (dir, _) \<Rightarrow> path_Clean (dir @ ''/''))"

text \<open>The file operations of package \<open>os\<close>: \<open>os_Stat\<close> says whether it returned no error.\<close>

record 'd os_ops =
  os_MkdirAll :: "string \<Rightarrow> 'd \<Rightarrow> gerr option \<times> 'd"
  os_Stat :: "string \<Rightarrow> 'd \<Rightarrow> bool"
  os_WriteFile :: "string \<Rightarrow> string \<Rightarrow> 'd \<Rightarrow> gerr option \<times> 'd"

fun check_targets :: "'d os_ops \<Rightarrow> string \<Rightarrow> gen_file list \<Rightarrow> string list \<Rightarrow> 'd \<Rightarrow> gerr + string list" where
  "check_targets os dir [] paths d = Inr paths"
| "check_targets os dir (f # fs) paths d =
     (let path = path_Join dir (gf_Name f) in
      if os_Stat os path d then Inl (ErrNew (path @ '' already exists; refusing to overwrite''))
      else check_targets os dir fs (paths @ [path]) d)"

fun write_files :: "'d os_ops \<Rightarrow> string \<Rightarrow> (string \<times> gen_file) list \<Rightarrow> 'd \<Rightarrow> gerr option \<times> 'd" where
  "write_files os root [] d = (None, d)"
| "write_files os root ((path, f) # rest) d =
     (let (err, d1) = (if path_Dir path \<noteq> root then os_MkdirAll os (path_Dir path) d else (None, d)) in
      case err of
        Some err \<Rightarrow> (Some (prefixf [''create '', path_Dir path] err), d1)
      | None \<Rightarrow>
          (case os_WriteFile os path (gf_Content f) d1 of
             (Some err, d2) \<Rightarrow> (Some (prefixf [''write '', path] err), d2)
           | (None, d2) \<Rightarrow> write_files os root rest d2))"

definition Write ::
  "'d os_ops \<Rightarrow> (string \<Rightarrow> gerr option) \<Rightarrow> (string \<Rightarrow> plan \<Rightarrow> gerr + string) \<Rightarrow> plan \<Rightarrow> 'd
     \<Rightarrow> (gerr + string list) \<times> 'd" where
  "Write os parse exec plan d =
     (case Render parse exec plan of
        Inl err \<Rightarrow> (Inl err, d)
      | Inr files \<Rightarrow>
          (let dir = gs_Dir (pn_Spec plan) in
           case os_MkdirAll os dir d of
             (Some err, d1) \<Rightarrow> (Inl (prefixf [''create '', dir] err), d1)
           | (None, d1) \<Rightarrow>
               (case check_targets os dir files [] d1 of
                  Inl err \<Rightarrow> (Inl err, d1)
                | Inr paths \<Rightarrow>
                    (case write_files os dir (zip paths files) d1 of
                       (Some err, d2) \<Rightarrow> (Inl err, d2)
                     | (None, d2) \<Rightarrow> (Inr paths, d2)))))"

section \<open>What the generator guarantees\<close>

text \<open>A name the generator accepts is one the kernel accepts for a module's schema.\<close>

lemma segments_match:
  "\<lbrakk>split_on (CHR ''.'') s = y # ys; list_all is_id_char y; list_all segment ys; y \<noteq> [] \<or> ok\<rbrakk> \<Longrightarrow> id_match ok s"
proof (induction s arbitrary: y ys ok)
  case (Cons c s)
  obtain z zs where z: "split_on (CHR ''.'') s = z # zs" by (cases "split_on (CHR ''.'') s") auto
  show ?case
  proof (cases "c = CHR ''.''")
    case True
    with Cons.prems z have "y = []" "ys = z # zs" "ok" by auto
    with Cons.prems(3) Cons.IH [OF z] True show ?thesis by (auto simp: segment_def is_id_sep_def)
  next
    case False
    with Cons.prems z have "y = c # z" "ys = zs" by auto
    with Cons.prems Cons.IH [OF z, of True] show ?thesis by simp
  qed
qed auto

lemma accepted_ID_derives_table:
  assumes "Spec_Validate s = None" and "length (gs_ModuleID s) \<le> 48"
  shows "\<exists>table. MigrationTableFor (gs_ModuleID s) = Inr table"
proof -
  let ?i = "gs_ModuleID s"
  have seg: "list_all segment (split_on (CHR ''.'') ?i)"
    using assms(1) by (auto simp: Spec_Validate_def gen_moduleIDPattern_def split: if_splits)
  obtain y ys where y: "split_on (CHR ''.'') ?i = y # ys" by (cases "split_on (CHR ''.'') ?i") auto
  with seg have "moduleIDPattern ?i"
    unfolding moduleIDPattern_def by (intro segments_match [OF y]) (simp_all add: segment_def)
  moreover from this have "?i \<noteq> []" by (auto simp: moduleIDPattern_def)
  ultimately show ?thesis using assms(2) by (simp add: MigrationTableFor_def Let_def)
qed

text \<open>The names are not checked to be Go identifiers: a leading digit passes.\<close>

lemma digit_package_accepted:
  "\<exists>p. NewPlan \<lparr>gs_ModuleID = ''com.acme.2fa'', gs_Capability = ''2fa.reader'', gs_Version = ''v1'', gs_Dir = ''out''\<rparr> = Inr p
     \<and> pn_Package p = ''2fa'' \<and> pn_TypePrefix p = ''2fa''"
  by (simp add: NewPlan_def Spec_Validate_def gen_moduleIDPattern_def capabilityPattern_def versionPattern_def segment_def
      is_id_char_def less_eq_char_def go_keywords_def exportize_def upper_char_def Let_def)

text \<open>What the generator relies on of the file system, with \<open>files\<close> the contents of the regular files.\<close>

locale file_system =
  fixes os :: "'d os_ops" and files :: "'d \<Rightarrow> string \<Rightarrow> string option"
  assumes mkdir_keeps: "os_MkdirAll os p d = (e, d') \<Longrightarrow> files d' = files d"
    and stat_sees: "files d p \<noteq> None \<Longrightarrow> os_Stat os p d"
    and write_elsewhere: "\<lbrakk>os_WriteFile os p c d = (e, d'); q \<noteq> p\<rbrakk> \<Longrightarrow> files d' q = files d q"
begin

lemma check_targets_absent:
  "check_targets os dir fs paths d = Inr ps \<Longrightarrow> \<exists>new. ps = paths @ new \<and> (\<forall>p \<in> set new. files d p = None)"
proof (induction fs arbitrary: paths)
  case (Cons f fs)
  from Cons.prems have free: "\<not> os_Stat os (path_Join dir (gf_Name f)) d"
    and rest: "check_targets os dir fs (paths @ [path_Join dir (gf_Name f)]) d = Inr ps"
    by (auto simp: Let_def split: if_splits)
  from free have "files d (path_Join dir (gf_Name f)) = None" using stat_sees by blast
  with Cons.IH [OF rest] show ?case by auto
qed simp

lemma write_files_elsewhere:
  "\<lbrakk>write_files os root ts d = (e, d'); q \<notin> fst ` set ts\<rbrakk> \<Longrightarrow> files d' q = files d q"
proof (induction ts arbitrary: d)
  case (Cons t ts)
  obtain path f where t: "t = (path, f)" by (cases t)
  obtain e1 d1 where mk: "(if path_Dir path \<noteq> root then os_MkdirAll os (path_Dir path) d else (None, d)) = (e1, d1)" by fastforce
  then have d1: "files d1 = files d" using mkdir_keeps by (auto split: if_splits)
  obtain e2 d2 where wr: "os_WriteFile os path (gf_Content f) d1 = (e2, d2)" by fastforce
  have d2: "files d2 q = files d1 q" using write_elsewhere [OF wr] Cons.prems(2) t by auto
  have step: "write_files os root (t # ts) d =
      (case e1 of Some err \<Rightarrow> (Some (prefixf [''create '', path_Dir path] err), d1)
       | None \<Rightarrow> (case e2 of Some err \<Rightarrow> (Some (prefixf [''write '', path] err), d2)
                  | None \<Rightarrow> write_files os root ts d2))"
    unfolding t write_files.simps mk Let_def prod.case wr by (simp split: option.split)
  show ?case
  proof (cases "e1 = None \<and> e2 = None")
    case True
    then show ?thesis using Cons.IH [of d2] Cons.prems step d1 d2 by simp
  next
    case False
    then have "d' = d1 \<or> d' = d2" using Cons.prems(1) step by (auto split: option.splits)
    then show ?thesis using d1 d2 by auto
  qed
qed simp

text \<open>However a run ends, every file that was there before is there with its contents.\<close>

lemma never_overwrites:
  assumes "Write os parse exec plan d = (res, d')" and "files d q = Some c"
  shows "files d' q = Some c"
proof (cases "Render parse exec plan")
  case (Inl err)
  then show ?thesis using assms by (simp add: Write_def)
next
  case (Inr fs)
  obtain e1 d1 where mk: "os_MkdirAll os (gs_Dir (pn_Spec plan)) d = (e1, d1)" by fastforce
  have d1: "files d1 = files d" using mkdir_keeps [OF mk] .
  show ?thesis
  proof (cases "e1 = None \<and> (\<exists>ps. check_targets os (gs_Dir (pn_Spec plan)) fs [] d1 = Inr ps)")
    case True
    then obtain ps where ps: "e1 = None" "check_targets os (gs_Dir (pn_Spec plan)) fs [] d1 = Inr ps" by blast
    obtain e2 d2 where wr: "write_files os (gs_Dir (pn_Spec plan)) (zip ps fs) d1 = (e2, d2)" by fastforce
    have "q \<notin> set ps" using check_targets_absent [OF ps(2)] assms(2) d1 by auto
    then have "q \<notin> fst ` set (zip ps fs)" by (auto dest: set_zip_leftD)
    from write_files_elsewhere [OF wr this] have "files d2 q = Some c" using assms(2) d1 by simp
    moreover have "d' = d2" using assms(1) Inr mk ps wr by (auto simp: Write_def Let_def split: option.splits)
    ultimately show ?thesis by simp
  next
    case False
    then have "d' = d1" using assms(1) Inr mk by (auto simp: Write_def Let_def split: option.splits sum.splits)
    then show ?thesis using assms(2) d1 by simp
  qed
qed

end

text \<open>Files in memory, with directories implicit.\<close>

definition mem_files :: "(string \<Rightarrow> string option) os_ops" where
  "mem_files = \<lparr>os_MkdirAll = (\<lambda>_ d. (None, d)), os_Stat = (\<lambda>p d. d p \<noteq> None), os_WriteFile = (\<lambda>p c d. (None, d(p \<mapsto> c)))\<rparr>"

interpretation memfs: file_system mem_files "\<lambda>d. d"
  by unfold_locales (auto simp: mem_files_def)

end
