(* ===== verification/Identity_Providers.thy ===== *)
theory Identity_Providers
  imports Federation
begin

text \<open>
  What the federation libraries are handed: the store of pending SAML logins and its no-op identity
  storage (\<^verbatim>\<open>internal/platform/auth/saml.go\<close>), the OIDC client and the reader of ID tokens
  (\<^verbatim>\<open>internal/platform/auth/oidc.go\<close>), and the public adapter (\<^verbatim>\<open>pkg/auth/kayan/adapter.go\<close>).
  \<open>encoding/json\<close>, the oauth2 client and go-oidc's verifier are arguments.
\<close>

section \<open>Pending SAML logins\<close>

text \<open>The library's session, and the row that keeps it across the redirect.\<close>

record ksaml_session =
  ks_ID :: string
  ks_RequestID :: string
  ks_IdPID :: string
  ks_RelayState :: string
  ks_ReturnURL :: string
  ks_ForceAuthn :: bool
  ks_RequestedAuthnContexts :: "string list"
  ks_CreateTime :: int
  ks_ExpiresAt :: int

record samlSession =
  ss_ID :: string
  ss_RequestID :: string
  ss_IdPID :: string
  ss_RelayState :: string
  ss_ReturnURL :: string
  ss_ForceAuthn :: bool
  ss_RequestedAuthnContexts :: string
  ss_CreateTime :: int
  ss_ExpiresAt :: int

text \<open>The codec for a list of strings; \<open>lc_unmarshal\<close> is the slice left behind, errors ignored.\<close>

record list_codec =
  lc_marshal :: "string list \<Rightarrow> gerr + string"
  lc_unmarshal :: "string \<Rightarrow> string list"

definition samlSessionStore_Save ::
  "list_codec \<Rightarrow> (samlSession, 'd) dbtable \<Rightarrow> ksaml_session \<Rightarrow> 'd \<Rightarrow> gerr option \<times> 'd" where
  "samlSessionStore_Save J T session d =
     (case lc_marshal J (ks_RequestedAuthnContexts session) of
        Inl err \<Rightarrow> (Some (prefixf [''auth: marshal saml requested authn contexts''] err), d)
      | Inr contexts \<Rightarrow>
          (case db_create T \<lparr>ss_ID = ks_ID session, ss_RequestID = ks_RequestID session, ss_IdPID = ks_IdPID session,
                  ss_RelayState = ks_RelayState session, ss_ReturnURL = ks_ReturnURL session,
                  ss_ForceAuthn = ks_ForceAuthn session, ss_RequestedAuthnContexts = contexts,
                  ss_CreateTime = ks_CreateTime session, ss_ExpiresAt = ks_ExpiresAt session\<rparr> d of
             (Some err, d') \<Rightarrow> (Some (prefixf [''auth: save saml session''] err), d')
           | (None, d') \<Rightarrow> (None, d')))"

definition toSession :: "list_codec \<Rightarrow> samlSession \<Rightarrow> ksaml_session" where
  "toSession J row =
     \<lparr>ks_ID = ss_ID row, ks_RequestID = ss_RequestID row, ks_IdPID = ss_IdPID row, ks_RelayState = ss_RelayState row,
      ks_ReturnURL = ss_ReturnURL row, ks_ForceAuthn = ss_ForceAuthn row,
      ks_RequestedAuthnContexts = lc_unmarshal J (ss_RequestedAuthnContexts row),
      ks_CreateTime = ss_CreateTime row, ks_ExpiresAt = ss_ExpiresAt row\<rparr>"

definition samlSessionStore_Get ::
  "list_codec \<Rightarrow> (samlSession, 'd) dbtable \<Rightarrow> string \<Rightarrow> 'd \<Rightarrow> (gerr + ksaml_session) \<times> 'd" where
  "samlSessionStore_Get J T i d =
     (case db_first T (\<lambda>r. ss_ID r = i) d of
        (Inl err, d') \<Rightarrow> (Inl err, d')
      | (Inr row, d') \<Rightarrow> (Inr (toSession J row), d'))"

definition samlSessionStore_GetByRequestID ::
  "list_codec \<Rightarrow> (samlSession, 'd) dbtable \<Rightarrow> string \<Rightarrow> 'd \<Rightarrow> (gerr + ksaml_session) \<times> 'd" where
  "samlSessionStore_GetByRequestID J T requestID d =
     (case db_first T (\<lambda>r. ss_RequestID r = requestID) d of
        (Inl err, d') \<Rightarrow> (Inl err, d')
      | (Inr row, d') \<Rightarrow> (Inr (toSession J row), d'))"

definition samlSessionStore_Delete :: "(samlSession, 'd) dbtable \<Rightarrow> string \<Rightarrow> 'd \<Rightarrow> gerr option \<times> 'd" where
  "samlSessionStore_Delete T i d =
     (case db_delete T (\<lambda>r. ss_ID r = i) d of (Inl err, d') \<Rightarrow> (Some err, d') | (Inr _, d') \<Rightarrow> (None, d'))"

text \<open>
  \<open>noopIdentityStorage\<close>: every write succeeds without an effect, the listing is empty, and every other
  lookup answers with the library's error for something that is not there.
\<close>

definition noop_write :: "'d \<Rightarrow> gerr option \<times> 'd" where "noop_write d = (None, d)"
definition noop_list :: "'d \<Rightarrow> (gerr + 'x list) \<times> 'd" where "noop_list d = (Inr [], d)"
definition noop_lookup :: "gerr \<Rightarrow> 'd \<Rightarrow> (gerr + 'x) \<times> 'd" where "noop_lookup errNotFound d = (Inl errNotFound, d)"

section \<open>OpenID Connect\<close>

text \<open>\<open>AuthCodeURL\<close> of the oauth2 configuration is \<open>url\<close>, its \<open>Exchange\<close> is \<open>exchange\<close> (with the \<open>id_token\<close>
  member of the answer if it is a string).\<close>

definition AuthorizationURL ::
  "(string \<Rightarrow> (string \<times> string) list \<Rightarrow> string) \<Rightarrow> string \<Rightarrow> string \<Rightarrow> string \<Rightarrow> string \<Rightarrow> gerr + string" where
  "AuthorizationURL url state codeChallenge codeChallengeMethod nonce =
     Inr (url state [(''code_challenge'', codeChallenge), (''code_challenge_method'', codeChallengeMethod), (''nonce'', nonce)])"

definition OIDC_Exchange ::
  "(string \<Rightarrow> (string \<times> string) list \<Rightarrow> 'd \<Rightarrow> (gerr + string option) \<times> 'd) \<Rightarrow> string \<Rightarrow> string \<Rightarrow> 'd \<Rightarrow> (gerr + string) \<times> 'd" where
  "OIDC_Exchange exchange code codeVerifier d =
     (case exchange code [(''code_verifier'', codeVerifier)] d of
        (Inl err, d') \<Rightarrow> (Inl (prefixf [''auth: exchange oidc code''] err), d')
      | (Inr rawIDToken, d') \<Rightarrow>
          (case rawIDToken of
             None \<Rightarrow> (Inl (ErrNew ''auth: token response carried no id_token''), d')
           | Some raw \<Rightarrow> (if raw = [] then Inl (ErrNew ''auth: token response carried no id_token'') else Inr raw, d')))"

text \<open>A verified ID token, with its \<open>email\<close> claim or the error of decoding the claims.\<close>

record id_token =
  it_Subject :: string
  it_Nonce :: string
  it_email :: "gerr + string"

definition ParseAndVerify :: "(string \<Rightarrow> gerr + id_token) \<Rightarrow> string \<Rightarrow> string \<Rightarrow> gerr + string \<times> string" where
  "ParseAndVerify verify rawIDToken expectedNonce =
     (case verify rawIDToken of
        Inl err \<Rightarrow> Inl (prefixf [''auth: verify id_token''] err)
      | Inr idToken \<Rightarrow>
          if it_Nonce idToken \<noteq> expectedNonce
          then Inl (ErrNew ''auth: id_token nonce does not match the authorization request'')
          else case it_email idToken of
            Inl err \<Rightarrow> Inl (prefixf [''auth: decode id_token claims''] err)
          | Inr email \<Rightarrow> Inr (it_Subject idToken, email))"

section \<open>The public adapter\<close>

record public_login =
  ad_AccessToken :: string
  ad_Subject :: string
  ad_TenantID :: string

definition Adapter_Login ::
  "'d auth_service \<Rightarrow> go_ctx \<Rightarrow> int \<Rightarrow> string \<Rightarrow> string \<Rightarrow> string \<Rightarrow> 'd \<Rightarrow> (gerr + public_login) \<times> 'd" where
  "Adapter_Login A ctx now tenantID email password d =
     (case Login A ctx now tenantID email password d of
        (Inl err, d') \<Rightarrow> (Inl err, d')
      | (Inr res, d') \<Rightarrow>
          (Inr \<lparr>ad_AccessToken = lr_AccessToken res, ad_Subject = lr_Subject res, ad_TenantID = lr_TenantID res\<rparr>, d'))"

section \<open>What the store and the reader guarantee\<close>

text \<open>
  The store over a table that keeps its laws: a login that was saved is found again as it was saved,
  by its ID, until it is deleted, and from then on it is not.
\<close>

locale saml_store = sql_table T rows rest ss_ID
  for T :: "(samlSession, 'd) dbtable" and rows :: "'d \<Rightarrow> samlSession list" and rest :: "'d \<Rightarrow> 'e" +
  fixes J :: list_codec
  assumes contexts_roundtrip: "lc_marshal J xs = Inr s \<Longrightarrow> lc_unmarshal J s = xs"
begin

lemma saved_row:
  assumes "samlSessionStore_Save J T session d = (None, d')"
  shows "\<exists>row. rows d' = rows d @ [row] \<and> ss_ID row = ks_ID session \<and> toSession J row = session"
proof -
  from assms obtain contexts where c: "lc_marshal J (ks_RequestedAuthnContexts session) = Inr contexts"
    and cr: "db_create T \<lparr>ss_ID = ks_ID session, ss_RequestID = ks_RequestID session, ss_IdPID = ks_IdPID session,
       ss_RelayState = ks_RelayState session, ss_ReturnURL = ks_ReturnURL session, ss_ForceAuthn = ks_ForceAuthn session,
       ss_RequestedAuthnContexts = contexts, ss_CreateTime = ks_CreateTime session, ss_ExpiresAt = ks_ExpiresAt session\<rparr> d = (None, d')"
    by (auto simp: samlSessionStore_Save_def split: sum.splits prod.splits option.splits)
  from create_ok [OF cr] contexts_roundtrip [OF c] show ?thesis by (simp add: toSession_def)
qed

lemma saved_session_found:
  assumes "samlSessionStore_Save J T session d = (None, d1)" "rows d2 = rows d1"
    "samlSessionStore_Get J T (ks_ID session) d2 = (res, d3)"
  shows "res = Inr session \<or> (\<exists>e. res = Inl e \<and> \<not> errors_is e gorm_ErrRecordNotFound)"
proof -
  obtain row where row: "rows d1 = rows d @ [row]" "ss_ID row = ks_ID session" "toSession J row = session"
    using saved_row [OF assms(1)] by blast
  obtain found d' where f: "db_first T (\<lambda>r. ss_ID r = ks_ID session) d2 = (found, d')" by fastforce
  show ?thesis
  proof (cases found)
    case (Inl e)
    then have "res = Inl e" using f assms(3) by (simp add: samlSessionStore_Get_def)
    moreover have "\<not> errors_is e gorm_ErrRecordNotFound"
      using first_none [of "\<lambda>r. ss_ID r = ks_ID session" d2 e d'] f Inl row(1,2) assms(2) by auto
    ultimately show ?thesis by blast
  next
    case (Inr r)
    then have "r \<in> set (rows d1)" "ss_ID r = ss_ID row"
      using first_ok [of "\<lambda>r. ss_ID r = ks_ID session" d2 r d'] f row(2) assms(2) by simp_all
    then have "r = row"
      using keys_distinct [of d1] row(1) by (simp add: distinct_map) (metis image_eqI)
    then show ?thesis using Inr f assms(3) row(3) by (simp add: samlSessionStore_Get_def)
  qed
qed

lemma deleted_session_gone:
  assumes "samlSessionStore_Delete T i d = (None, d1)" "rows d2 = rows d1"
  shows "\<exists>e d3. samlSessionStore_Get J T i d2 = (Inl e, d3)"
proof -
  obtain n where "db_delete T (\<lambda>r. ss_ID r = i) d = (Inr n, d1)"
    using assms(1) by (auto simp: samlSessionStore_Delete_def split: prod.splits sum.splits)
  from delete_ok [OF this] assms(2) have gone: "\<forall>r \<in> set (rows d2). ss_ID r \<noteq> i" by auto
  obtain found d' where f: "db_first T (\<lambda>r. ss_ID r = i) d2 = (found, d')" by fastforce
  moreover have "found \<noteq> Inr r" for r using gone first_ok [of "\<lambda>r. ss_ID r = i" d2 r d'] f by auto
  ultimately show ?thesis by (cases found) (auto simp: samlSessionStore_Get_def)
qed

end

text \<open>Lists of strings without commas, joined by commas, each preceded by one.\<close>

definition comma_codec :: list_codec where
  "comma_codec =
     \<lparr>lc_marshal = (\<lambda>xs. if list_all (\<lambda>x. CHR '','' \<notin> set x) xs then Inr (concat (map (\<lambda>x. CHR '','' # x) xs))
                         else Inl (ErrNew ''comma'')),
      lc_unmarshal = (\<lambda>s. tl (split_on (CHR '','') s))\<rparr>"

lemma comma_split:
  "list_all (\<lambda>x. CHR '','' \<notin> set x) xs \<Longrightarrow> CHR '','' \<notin> set y
     \<Longrightarrow> split_on (CHR '','') (y @ concat (map (\<lambda>x. CHR '','' # x) xs)) = y # xs"
proof (induction xs arbitrary: y)
  case (Cons x xs)
  then show ?case by (simp add: split_on_append)
qed (simp add: split_on_no_sep)

interpretation saml_mem: saml_store "mem_table ss_ID :: (samlSession, samlSession list \<times> unit) dbtable" "mem_rows ss_ID" snd comma_codec
proof (intro saml_store.intro mem.sql_table_axioms saml_store_axioms.intro)
  fix xs s
  assume "lc_marshal comma_codec xs = Inr s"
  then show "lc_unmarshal comma_codec s = xs"
    using comma_split [of xs "[]"] by (auto simp: comma_codec_def split: if_splits)
qed

text \<open>An ID token is accepted only with the nonce of the attempt it answers, and as what the verifier says.\<close>

lemma ParseAndVerify_nonce:
  "ParseAndVerify verify raw nonce = Inr (sub, email) \<longleftrightarrow>
     (\<exists>tok. verify raw = Inr tok \<and> it_Nonce tok = nonce \<and> it_Subject tok = sub \<and> it_email tok = Inr email)"
  by (auto simp: ParseAndVerify_def split: sum.splits)

end
