(* ===== verification/Spec2Isabelle.thy ===== *)
theory Spec2Isabelle
  imports Events Projection Saga Typed Portable Migrations Wasm_Sandbox Wasm_Module Gateway_Policy Lifecycle Scaffold
    Identity_Providers
begin

text \<open>
  A verification library for Sannad (\<^verbatim>\<open>src/\<close>), a Go kernel that hosts business modules of several
  tenants in one process: modules register capabilities, call each other through a bus, share one
  database under tenant isolation, publish events, and may be native Go code or sandboxed WebAssembly
  guests. A gateway exposes some capabilities over HTTP and gRPC to authenticated callers.

  \<^bold>\<open>Conventions.\<close> An operation of the code is a function of the same name (with a suffix or prefix where
  the name is taken) that takes the state it may change last and returns it updated; a Go error is a
  \<open>gerr\<close>, a result pair \<open>gerr + 'a\<close> or \<open>gerr option\<close>, and an early return a branch. \<open>go_ctx\<close> is the part
  of \<open>context.Context\<close> the code uses (tenant, caller, system flag, deadline, the guest call chain), \<open>goany\<close>
  a value of type \<open>any\<close>, a Go map a list of pairs read by key. Machine integers are words where the code
  depends on their width (the guest ABI, SHA-256) and otherwise integers; times are nanosecond counts.
  Code outside the repository is a parameter: GORM and the database (\<open>engine\<close>, \<open>dbtable\<close>), Kayan, golang-jwt,
  NATS, goose, wazero, Fiber, OpenTelemetry, the SAML and OIDC libraries; what the code relies on of them
  is a named predicate or locale (\<open>engine_ok\<close>, \<open>sql_table\<close>, \<open>jwt_ok\<close>, \<open>linear_memory\<close>, \<open>file_system\<close>), each with a
  concrete instance. Whether one of their calls fails is always left open.

  \<^bold>\<open>Foundations.\<close>
  \<^item> \<open>Prelude\<close>: strings, errors with \<open>errors.Is\<close>, Go maps, contexts (\<^verbatim>\<open>pkg/modulekit/errors.go\<close>, \<^verbatim>\<open>caller.go\<close>).
  \<^item> \<open>Json\<close>: the scanner of \<open>json.Valid\<close>. \<open>Sha256\<close>: SHA-256, HMAC and hexadecimal text. \<open>Tables\<close>: a
    table used directly, with its laws as the locale \<open>sql_table\<close>. \<open>Ttl_Cache\<close>: what a caller may conclude
    from an answer that is remembered for a while.

  \<^bold>\<open>The kernel\<close> (\<^verbatim>\<open>internal/kernel/\<close>, \<^verbatim>\<open>pkg/modulekit/\<close>).
  \<^item> \<open>Hooks\<close> (\<^verbatim>\<open>hook.go\<close>, \<^verbatim>\<open>hooks/\<close>): points, subscriptions and the three dispatches. Every veto is reported,
    fail-closed failures stop a dispatch, observers cannot block, the order does not depend on registration.
  \<^item> \<open>Registry\<close> (\<^verbatim>\<open>registry.go\<close>, \<^verbatim>\<open>bus.go\<close>, \<^verbatim>\<open>module.go\<close>): registration with rollback, exposure, start and stop. The
    registry invariant holds in every reachable registry; what is exposed is provided; starting is all
    or nothing. A failed registration removes handlers of other modules (a defect).
  \<^item> \<open>Events\<close> (\<^verbatim>\<open>events/\<close>): subjects, streams, publishing and consuming; a tenant's filter isolates it.
  \<^item> \<open>Bridge\<close> (\<^verbatim>\<open>bridge/\<close>): both transports. Nothing about what is not exposed can be observed.
  \<^item> \<open>Typed\<close>, \<open>Portable\<close> (\<^verbatim>\<open>typed.go\<close>, \<^verbatim>\<open>portable.go\<close>): typed edges of capabilities, and the walk that decides
    which types may cross a tier. The walk takes fuel; \<open>AssertPortable_decides\<close> shows that the number of
    types of the graph plus one is enough.

  \<^bold>\<open>Storage and the module SDK.\<close>
  \<^item> \<open>Store\<close> (\<^verbatim>\<open>storage.go\<close>): conditions, rows, and the contract of a store (\<open>store_contract\<close>). \<open>Tenancy\<close>
    (\<^verbatim>\<open>tenancy/isolation.go\<close>, \<^verbatim>\<open>clause.go\<close>, \<^verbatim>\<open>audit.go\<close>): the callbacks on a statement. \<open>GormStore\<close> (\<^verbatim>\<open>storage/gorm.go\<close>):
    the adapter. It meets the contract over every engine that keeps \<open>engine_ok\<close>; whole programs of
    operations and transactions (\<open>store_prog\<close>) are runs of an abstract store of tables (\<open>spec_run\<close>), and
    workloads stay within the tenant of their context.
  \<^item> \<open>Idempotency\<close>, \<open>Projection\<close>, \<open>Saga\<close>: the SDK's consumers, read models and sagas, on the contract and so
    on the adapter. Handlers take effect exactly once, projections converge, a saga is done or undone,
    and recovery repeats nothing (but skips a compensation that was interrupted, a defect).

  \<^bold>\<open>The platform\<close> (\<^verbatim>\<open>internal/platform/\<close>).
  \<^item> \<open>Directory\<close> (\<^verbatim>\<open>tenancy/directory.go\<close>): tenants and their status, cached.
  \<^item> \<open>Sessions\<close> (\<^verbatim>\<open>session.go\<close>, \<^verbatim>\<open>revocation.go\<close>): tokens, rotation of secrets, revocation. \<open>Accounts\<close> (\<^verbatim>\<open>service.go\<close>,
    \<^verbatim>\<open>admin.go\<close>, \<^verbatim>\<open>service_account.go\<close>, \<^verbatim>\<open>rbac.go\<close>, \<^verbatim>\<open>gdpr.go\<close>): the authentication service. What is accepted is
    genuine, logout and invalidation are final over every later sequence of operations.
  \<^item> \<open>Federation\<close> and \<open>Identity_Providers\<close> (\<^verbatim>\<open>oidc.go\<close>, \<^verbatim>\<open>saml.go\<close>, \<^verbatim>\<open>pkg/auth/\<close>): federated login. Concurrent
    callbacks are an interleaving of their statements (\<open>callback_step\<close>), of which one at most succeeds.
  \<^item> \<open>Audit_Trail\<close> (\<^verbatim>\<open>audit_log.go\<close>): audit queries.
  \<^item> \<open>Webhooks\<close>, \<open>Webhook_Runner\<close> (\<^verbatim>\<open>webhooks/\<close>): signatures, retries, the queue, its worker and the endpoints.

  \<^bold>\<open>Sandboxed modules\<close> (\<^verbatim>\<open>internal/kernel/wasmhost/\<close>).
  \<^item> \<open>Wasm_Abi\<close> (\<^verbatim>\<open>abi.go\<close>, \<^verbatim>\<open>codec.go\<close>): packing, envelopes, result tables on machine words. \<open>Wasm_Host\<close>
    (\<^verbatim>\<open>hostcalls.go\<close>, \<^verbatim>\<open>wasi.go\<close>, \<^verbatim>\<open>host.go\<close>): host calls, shim, loading and invoking. A guest is any well-founded tree
    of host calls (\<open>proc\<close>); a guest that never returns is ended by its deadline, which wazero enforces, and
    appears as a trap.
  \<^item> \<open>Wasm_Sandbox\<close>: a guest can do and learn only what its policy grants; its calls nest to a bounded
    depth (\<open>kernel_calls\<close> is fuelled by the depth, and \<open>D + 1\<close> is shown to be enough for a limit \<open>D\<close>); time,
    response and result table are bounded; results are read back. A guest without a policy inherits the
    authority of its caller (a defect). \<open>Wasm_Module\<close> (\<^verbatim>\<open>module.go\<close>): manifests, hooks and registration.

  \<^bold>\<open>The application.\<close>
  \<^item> \<open>Config\<close> (\<^verbatim>\<open>pkg/config\<close>), \<open>Migrations\<close> (\<^verbatim>\<open>internal/app/migrations\<close>, \<^verbatim>\<open>pkg/modulekit/migrations.go\<close>).
  \<^item> \<open>Gateway\<close> (\<^verbatim>\<open>internal/app/bootstrap/\<close>): middleware, handlers, routes, the gRPC interceptor and the
    OpenAPI document. \<open>Gateway_Policy\<close>: who may reach which route, that both transports authenticate
    alike, that reads stay within a tenant and listings hide secrets, that login needs an active tenant, and that
    the document and the mounted routes are the routes that are served.
  \<^item> \<open>Lifecycle\<close> (\<^verbatim>\<open>app.go\<close>, \<^verbatim>\<open>telemetry/tracer.go\<close>, \<^verbatim>\<open>sannad.go\<close>, \<^verbatim>\<open>pkg/kernel\<close>): construction, registration, start
    and shutdown as steps of a run (\<open>app_run\<close>), in which registered modules are always isolated and the
    wait of a shutdown never blocks. Contexts, channels and drain goroutines are explicit: a goroutine
    runs \<open>RunDrainLoop\<close> and closes its channel when that has returned, and a receive on a channel nobody
    will close does not return (\<open>None\<close>). The services a shutdown stops are taken to return.
  \<^item> \<open>Scaffold\<close> (\<^verbatim>\<open>cmd/sannad-gen\<close>): the module generator, which never overwrites a file.

  \<^bold>\<open>Not modelled\<close>, with the reason.
  \<^item> The processes (\<^verbatim>\<open>cmd/sannad-gateway\<close>, \<^verbatim>\<open>cmd/sannad-kernel\<close>), sockets, signal handling and logging: I/O
    around the operations above. The metrics endpoint, CORS and request identifiers.
  \<^item> \<^verbatim>\<open>runtime.go\<close>, an interface declaration; the constructor of the authentication service, which wires
    parts that are modelled; the template texts of the generator.
  \<^item> Generated code (\<^verbatim>\<open>contracts/gen\<close>) and the example modules and guests (\<^verbatim>\<open>examples\<close>, \<^verbatim>\<open>testdata\<close>).
  \<^item> Data races: an operation that holds a lock is one step. Where the code relies on interleaving with
    others (login state, caches shared by processes, redelivered messages) the steps are explicit.
\<close>

end
